(* ===== verification/Connector_Prelude.thy ===== *)
theory Connector_Prelude
  imports Main "HOL-Library.Word" "HOL-Library.Monad_Syntax"
begin

text \<open>
  Shared vocabulary of the development: machine integer types, the error codes of
  \<^verbatim>\<open>errorcodes.h\<close>, C pointers, the compare-and-exchange macro of \<^verbatim>\<open>atomic.h\<close>,
  C strings held in byte blocks, and the generic facts on words, options and lists that
  the component theories share.

  Conventions. An operation whose C code can have undefined behaviour (dereference of a
  NULL or dangling pointer, access outside a block, division by zero) or that can spin
  forever returns an \<^typ>\<open>'a option\<close>; \<^term>\<open>None\<close> stands for exactly those executions.
  Error returns of the C code are ordinary values of \<open>substance_connector_error\<close>.
\<close>

unbundle bit_operations_syntax

named_theorems connector_defs \<open>definitional equations of the small helper operations\<close>
named_theorems connector_word \<open>facts relating words to natural numbers\<close>

section \<open>Machine types and constants\<close>

type_synonym u8 = "8 word"
type_synonym u16 = "16 word"
type_synonym u32 = "32 word"
type_synonym u64 = "64 word"
type_synonym c_int = "32 word"
type_synonym c_ssize = "64 word"

text \<open>\<^verbatim>\<open>enum SubstanceConnectorError\<close> of \<^verbatim>\<open>errorcodes.h\<close>.\<close>

datatype substance_connector_error =
    SUBSTANCE_CONNECTOR_SUCCESS
  | SUBSTANCE_CONNECTOR_ERROR
  | SUBSTANCE_CONNECTOR_BADALLOC
  | SUBSTANCE_CONNECTOR_NOTLOADED
  | SUBSTANCE_CONNECTOR_CONN_FAIL
  | SUBSTANCE_CONNECTOR_SEND_FAIL
  | SUBSTANCE_CONNECTOR_UNSUPPORTED
  | SUBSTANCE_CONNECTOR_INVALID
  | SUBSTANCE_CONNECTOR_READ_FAIL
  | SUBSTANCE_CONNECTOR_OPEN_FAIL

text \<open>A negative C \<open>int\<close> or \<open>ssize_t\<close>, the failure convention of the system calls.\<close>

definition c_negative :: "'a::len word \<Rightarrow> bool" where
  "c_negative x \<longleftrightarrow> sint x < 0"

section \<open>Pointers\<close>

text \<open>
  What a pointer variable of the program can hold: NULL, a block this program owns and
  may release, a block that belongs to the caller, or the address of a released block.
\<close>

datatype 'a cptr = NULL | OWNED 'a | BORROWED 'a | DANGLING

fun deref :: "'a cptr \<Rightarrow> 'a option" where
  "deref NULL = None"
| "deref (OWNED x) = Some x"
| "deref (BORROWED x) = Some x"
| "deref DANGLING = None"

text \<open>The same pointer after the block it points to was overwritten with \<open>y\<close>.\<close>

fun repoint :: "'a cptr \<Rightarrow> 'a \<Rightarrow> 'a cptr" where
  "repoint NULL y = NULL"
| "repoint (OWNED x) y = OWNED y"
| "repoint (BORROWED x) y = BORROWED y"
| "repoint DANGLING y = DANGLING"

text \<open>
  The effect of \<^verbatim>\<open>connector_free\<close> on the variable that held the block: releasing NULL is
  allowed and does nothing; releasing a block of the caller or a block twice is a fault.
\<close>

fun connector_free :: "'a cptr \<Rightarrow> 'a cptr option" where
  "connector_free NULL = Some NULL"
| "connector_free (OWNED x) = Some DANGLING"
| "connector_free (BORROWED x) = None"
| "connector_free DANGLING = None"

lemma connector_free_Some_iff:
  "(\<exists>q. connector_free p = Some q) \<longleftrightarrow> p = NULL \<or> (\<exists>x. p = OWNED x)"
  by (cases p) auto

lemma deref_Some_iff: "deref p = Some x \<longleftrightarrow> p = OWNED x \<or> p = BORROWED x"
  by (cases p) auto

section \<open>Atomic compare and exchange\<close>

text \<open>
  \<^verbatim>\<open>CONNECTOR_ATOMIC_COMPARE_EXCHANGE(ptr,x,y,ret)\<close>: the new contents of \<open>ptr\<close>, and
  the value left in \<open>ret\<close>, which is what \<open>ptr\<close> held before.
\<close>

definition CONNECTOR_ATOMIC_COMPARE_EXCHANGE :: "'a \<Rightarrow> 'a \<Rightarrow> 'a \<Rightarrow> 'a \<times> 'a" where
  "CONNECTOR_ATOMIC_COMPARE_EXCHANGE p x y = (if p = x then (y, p) else (p, p))"

lemma compare_exchange_simps [simp]:
  "snd (CONNECTOR_ATOMIC_COMPARE_EXCHANGE p x y) = p"
  "CONNECTOR_ATOMIC_COMPARE_EXCHANGE p p y = (y, p)"
  "p \<noteq> x \<Longrightarrow> CONNECTOR_ATOMIC_COMPARE_EXCHANGE p x y = (p, p)"
  by (simp_all add: CONNECTOR_ATOMIC_COMPARE_EXCHANGE_def)

section \<open>Options as computations that may fault\<close>

definition guard_ok :: "bool \<Rightarrow> unit option" where
  "guard_ok b = (if b then Some () else None)"

lemma guard_ok_simps [simp]: "guard_ok True = Some ()" "guard_ok False = None"
  by (simp_all add: guard_ok_def)

lemma guard_ok_Some_iff [simp]: "guard_ok b = Some u \<longleftrightarrow> b"
  by (simp add: guard_ok_def)

lemmas option_bind_splits = Option.bind_split Option.bind_split_asm

section \<open>Words as bounded naturals\<close>

lemma unat_Suc_word [connector_word]:
  fixes w :: "'a::len word"
  assumes "Suc (unat w) < 2 ^ LENGTH('a)"
  shows "unat (w + 1) = Suc (unat w)"
  using assms by (simp add: unat_word_ariths)

lemma unat_bound [connector_word]: "unat (w :: 'a::len word) < 2 ^ LENGTH('a)"
  by (rule unsigned_less)

lemma unat_inject: "unat (a :: 'a::len word) = unat b \<longleftrightarrow> a = b"
  by (rule word_unat_eq_iff [symmetric])

lemma or_absorb_mask: "x AND m = m \<Longrightarrow> x OR m = (x :: 'a::len word)"
  by (rule bit_word_eqI) (metis bit_and_iff bit_or_iff)

lemma unat_mod_word [connector_word]: "unat ((a :: 'a::len word) mod b) = unat a mod unat b"
  by (simp add: unat_mod_distrib)

lemma mod_word_eq_iff [connector_word]:
  "(a :: 'a::len word) mod b = c mod b \<longleftrightarrow> unat a mod unat b = unat c mod unat b"
  by (simp add: unat_inject [symmetric] unat_mod_word)

lemma unat_ucast_widen [connector_word]: "unat (ucast (x :: u32) :: u64) = unat x"
proof -
  have "unat x < 2 ^ 64" using unat_bound [of x] by simp
  then show ?thesis by (simp add: unsigned_ucast_eq take_bit_nat_eq_self)
qed

lemma unat_plus_one:
  fixes l :: "'a::len word"
  assumes "l + 1 \<noteq> 0"
  shows "unat (l + 1) = Suc (unat l)"
  by (metis assms add.commute unatSuc)

lemma c_negative_half:
  fixes n :: "'a::len word"
  assumes "LENGTH('a) = Suc k"
  shows "c_negative n \<longleftrightarrow> 2 ^ k \<le> unat n"
proof -
  have u: "unat n < 2 ^ k \<longleftrightarrow> uint n < 2 ^ k"
  proof -
    have "uint n < 2 ^ k \<longleftrightarrow> int (unat n) < int (2 ^ k)" by simp
    then show ?thesis by (simp only: of_nat_less_iff)
  qed
  have "sint n < 0 \<longleftrightarrow> bit (uint n) k"
    by (simp add: sint_uint signed_take_bit_negative_iff assms)
  also have "\<dots> \<longleftrightarrow> odd (uint n div 2 ^ k)" by (simp add: bit_iff_odd)
  also have "\<dots> \<longleftrightarrow> \<not> uint n < 2 ^ k"
  proof (cases "uint n < 2 ^ k")
    case True
    then show ?thesis by (simp add: div_pos_pos_trivial)
  next
    case False
    have "uint n < 2 * 2 ^ k" using uint_lt2p [of n] by (simp add: assms)
    with False have "uint n div 2 ^ k = 1" by (intro div_pos_geq [THEN trans]) simp_all
    with False show ?thesis by simp
  qed
  finally show ?thesis using u unfolding c_negative_def by linarith
qed

lemma c_negative_iff: "c_negative (n :: u64) \<longleftrightarrow> 2 ^ 63 \<le> unat n"
  by (rule c_negative_half) simp

lemma c_negative_int: "c_negative (n :: c_int) \<longleftrightarrow> 2 ^ 31 \<le> unat n"
  by (rule c_negative_half) simp

text \<open>A small value survives the way through a 32-bit \<open>int\<close>.\<close>

lemma narrow_back:
  assumes "unat (r :: u64) < 2 ^ 31"
  shows "scast (ucast r :: c_int) = r"
proof -
  have "int (unat r) < int (2 ^ 31)" using assms by (simp only: of_nat_less_iff)
  then have u: "uint r < 2 ^ 31" by simp
  then have "uint (ucast r :: c_int) = uint r" by (simp add: unsigned_ucast_eq take_bit_int_eq_self_iff)
  moreover have "signed_take_bit 31 (uint r) = uint r"
    using u by (intro signed_take_bit_int_eq_self) (simp_all add: order.trans [OF _ uint_ge_0])
  ultimately have "sint (ucast r :: c_int) = uint r" by (simp add: sint_uint)
  then show ?thesis by (metis word_of_int_uint scast_eq)
qed

lemma narrow_of_nat: "ucast (of_nat n :: u64) = (of_nat n :: u32)"
  by (rule word_unat_eq_iff [THEN iffD2]) (simp add: unsigned_ucast_eq unat_of_nat take_bit_eq_mod mod_mod_cancel)

section \<open>Modular slots\<close>

text \<open>Two tickets less than one revolution apart share a slot only if they are equal.\<close>

lemma mod_window_inj:
  fixes a b n :: nat
  assumes "a mod n = b mod n" "a \<le> b" "b < a + n"
  shows "a = b"
proof -
  have "n dvd b - a" using assms(1,2) by (metis mod_eq_dvd_iff_nat)
  moreover have "b - a < n" using assms(2,3) by linarith
  ultimately show ?thesis using assms(2) by (metis dvd_imp_le not_less le_antisym diff_is_0_eq neq0_conv)
qed

lemma mod_window_full:
  fixes r w n :: nat
  assumes "r \<le> w" "w < r + n"
  shows "Suc w mod n = r mod n \<longleftrightarrow> Suc w = r + n"
proof
  assume h: "Suc w mod n = r mod n"
  show "Suc w = r + n"
  proof (rule ccontr)
    assume "Suc w \<noteq> r + n"
    with assms have "Suc w < r + n" by linarith
    with h assms have "r = Suc w" by (intro mod_window_inj [of r n "Suc w"]) auto
    with assms show False by simp
  qed
qed simp

end
