(* ===== verification/Os_Interface.thy ===== *)
theory Os_Interface
  imports Connector_Prelude
begin

text \<open>
  The operating system and C runtime services the connector calls, as a parameter of the
  model. Every field is one call; each takes the state \<open>'w\<close> of everything outside the
  library (kernel, network, file system, heap manager) and returns its result with the
  new outside state. No field has a definition here: theorems hold for every behaviour of
  these calls unless a hypothesis says otherwise.
\<close>

section \<open>Types exchanged with the system\<close>

datatype socket_domain = AF_INET | AF_UNIX

text \<open>
  A socket address: an IPv4 loopback address with its \<open>sin_port\<close> field as stored (network
  byte order), or a local socket path.
\<close>

datatype sockaddr = SOCKADDR_IN u16 | SOCKADDR_UN "u8 list"

text \<open>\<^verbatim>\<open>struct pollfd\<close>.\<close>

record pollfd =
  pfd_fd :: c_int
  pfd_events :: u16
  pfd_revents :: u16

text \<open>
  \<open>os_allocate\<close> is the allocator currently installed; \<open>None\<close> is a NULL result and
  \<open>Some f\<close> a block whose initial byte at offset \<open>i\<close> is \<open>f i\<close>. \<open>os_recv\<close> returns the call's
  result and the bytes it stored from the start of the buffer. \<open>os_poll\<close> returns the result,
  the error number and the updated array. \<open>os_readdir\<close> is an \<open>opendir\<close> followed by all
  \<open>readdir\<close> results, \<open>None\<close> when \<open>opendir\<close> fails. \<open>os_fopen\<close> opens a file for writing and
  \<open>os_read_file\<close> opens one for reading and returns its bytes, \<open>None\<close> when \<open>fopen\<close> fails.
\<close>

record 'w os =
  os_allocate :: "u64 \<Rightarrow> 'w \<Rightarrow> (nat \<Rightarrow> u8) option \<times> 'w"
  os_socket :: "socket_domain \<Rightarrow> 'w \<Rightarrow> c_int \<times> 'w"
  os_bind :: "c_int \<Rightarrow> sockaddr \<Rightarrow> 'w \<Rightarrow> c_int \<times> 'w"
  os_getsockname :: "c_int \<Rightarrow> sockaddr \<Rightarrow> 'w \<Rightarrow> c_int \<times> sockaddr \<times> 'w"
  os_listen :: "c_int \<Rightarrow> c_int \<Rightarrow> 'w \<Rightarrow> c_int \<times> 'w"
  os_connect :: "c_int \<Rightarrow> sockaddr \<Rightarrow> 'w \<Rightarrow> c_int \<times> 'w"
  os_accept :: "c_int \<Rightarrow> 'w \<Rightarrow> c_int \<times> 'w"
  os_close :: "c_int \<Rightarrow> 'w \<Rightarrow> c_int \<times> 'w"
  os_send :: "c_int \<Rightarrow> u8 list \<Rightarrow> 'w \<Rightarrow> c_ssize \<times> 'w"
  os_recv :: "c_int \<Rightarrow> u64 \<Rightarrow> 'w \<Rightarrow> c_ssize \<times> u8 list \<times> 'w"
  os_poll :: "pollfd list \<Rightarrow> c_int \<Rightarrow> 'w \<Rightarrow> c_int \<times> c_int \<times> pollfd list \<times> 'w"
  os_stat :: "u8 list \<Rightarrow> 'w \<Rightarrow> c_int \<times> u32 \<times> 'w"
  os_mkdir :: "u8 list \<Rightarrow> u32 \<Rightarrow> 'w \<Rightarrow> c_int \<times> 'w"
  os_chmod :: "u8 list \<Rightarrow> u32 \<Rightarrow> 'w \<Rightarrow> c_int \<times> 'w"
  os_rmdir :: "u8 list \<Rightarrow> 'w \<Rightarrow> c_int \<times> 'w"
  os_unlink :: "u8 list \<Rightarrow> 'w \<Rightarrow> c_int \<times> 'w"
  os_readdir :: "u8 list \<Rightarrow> 'w \<Rightarrow> u8 list list option \<times> 'w"
  os_fopen :: "u8 list \<Rightarrow> 'w \<Rightarrow> bool \<times> 'w"
  os_read_file :: "u8 list \<Rightarrow> 'w \<Rightarrow> u8 list option \<times> 'w"

section \<open>Allocation\<close>

text \<open>\<^verbatim>\<open>connector_allocate\<close> of \<^verbatim>\<open>memory.c\<close>: the block as a list of its bytes.\<close>

definition connector_allocate :: "'w os \<Rightarrow> u64 \<Rightarrow> 'w \<Rightarrow> u8 list option \<times> 'w" where
  "connector_allocate env n w =
     (case os_allocate env n w of (r, w') \<Rightarrow> (map_option (\<lambda>f. map f [0..<unat n]) r, w'))"

text \<open>The documented success of an allocator: every request is met.\<close>

definition allocator_succeeds :: "'w os \<Rightarrow> bool" where
  "allocator_succeeds env \<longleftrightarrow> (\<forall>n w. fst (os_allocate env n w) \<noteq> None)"

lemma connector_allocate_length:
  "connector_allocate env n w = (Some b, w') \<Longrightarrow> length b = unat n"
  by (auto simp: connector_allocate_def split: prod.splits)

lemma connector_allocate_ok:
  assumes "allocator_succeeds env"
  obtains b w' where "connector_allocate env n w = (Some b, w')" "length b = unat n"
proof -
  obtain r w' where r: "os_allocate env n w = (r, w')" by fastforce
  with assms have "r \<noteq> None" unfolding allocator_succeeds_def by (metis fst_conv)
  then obtain f where "r = Some f" by auto
  with r have "connector_allocate env n w = (Some (map f [0..<unat n]), w')"
    by (simp add: connector_allocate_def)
  then show ?thesis by (rule that) simp
qed

section \<open>A small concrete system\<close>

text \<open>
  An instance of the parameter that the concrete examples of the development run on. Its
  state is a byte stream: what is sent is appended to it and what is received is taken from
  its front. Every allocation succeeds, every other call reports success.
\<close>

definition sample_os :: "u8 list os" where
  "sample_os = \<lparr>
     os_allocate = (\<lambda>n w. (Some (\<lambda>_. 0xAA), w)),
     os_socket = (\<lambda>d w. (7, w)),
     os_bind = (\<lambda>fd a w. (0, w)),
     os_getsockname = (\<lambda>fd a w. (0, SOCKADDR_IN 0x901F, w)),
     os_listen = (\<lambda>fd n w. (0, w)),
     os_connect = (\<lambda>fd a w. (0, w)),
     os_accept = (\<lambda>fd w. (8, w)),
     os_close = (\<lambda>fd w. (0, w)),
     os_send = (\<lambda>fd bs w. (if length bs < 2 ^ 63 then of_nat (length bs) else 0, w @ bs)),
     os_recv = (\<lambda>fd n w. (of_nat (min (unat n) (length w)), take (unat n) w, drop (unat n) w)),
     os_poll = (\<lambda>ps t w. (0, 0, ps, w)),
     os_stat = (\<lambda>f w. (0, 0x41C0, w)),
     os_mkdir = (\<lambda>f m w. (0, w)),
     os_chmod = (\<lambda>f m w. (0, w)),
     os_rmdir = (\<lambda>f w. (0, w)),
     os_unlink = (\<lambda>f w. (0, w)),
     os_readdir = (\<lambda>f w. (Some [], w)),
     os_fopen = (\<lambda>f w. (True, w)),
     os_read_file = (\<lambda>f w. (Some [35], w))\<rparr>"

lemma sample_os_allocator [simp]: "allocator_succeeds sample_os"
  by (simp add: allocator_succeeds_def sample_os_def)

end
