(* ===== verification/Uint_Queue.thy ===== *)
theory Uint_Queue
  imports Os_Interface
begin

text \<open>
  The fixed-size unsigned integer queue of \<^verbatim>\<open>uint_queue.c\<close>, executed without interference
  by other threads, and its contract as a bounded first-in first-out queue. The
  interleaved execution of the same code is in the theory \<open>Uint_Queue_Concurrent\<close>.

  The indices are free-running 32-bit counters that are reduced modulo the size at each
  access. \<open>queue_contents\<close> reads a queue as the list of its elements; every operation is
  shown to act on that list as a bounded queue as long as the write counter has not run
  through its \<open>2 ^ 32\<close> values.
\<close>

section \<open>The structure and its operations\<close>

record uint_queue =
  write_index :: u32
  read_index :: u32
  max_index :: u32
  queue_size :: u32
  queue_array :: "u32 list cptr"

definition convert_to_index :: "u32 \<Rightarrow> u32 \<Rightarrow> u32 option" where
  "convert_to_index position len = (if len = 0 then None else Some (position mod len))"

text \<open>A read and a write of \<^verbatim>\<open>queue->array[i]\<close>.\<close>

definition array_get :: "uint_queue \<Rightarrow> u32 \<Rightarrow> u32 option" where
  "array_get q i = do {
     a \<leftarrow> deref (queue_array q);
     guard_ok (unat i < length a);
     Some (a ! unat i) }"

definition array_set :: "uint_queue \<Rightarrow> u32 \<Rightarrow> u32 \<Rightarrow> uint_queue option" where
  "array_set q i v = do {
     a \<leftarrow> deref (queue_array q);
     guard_ok (unat i < length a);
     Some (q\<lparr>queue_array := OWNED (a[unat i := v])\<rparr>) }"

text \<open>
  \<^verbatim>\<open>connector_uint_queue_push\<close> run alone: the first exchange succeeds at once because
  nothing else moves \<open>write_index\<close>; the second loop leaves \<open>max_index\<close> behind the new
  element, and would spin for ever if \<open>max_index\<close> were not the ticket just taken.
\<close>

definition connector_uint_queue_push ::
    "uint_queue cptr \<Rightarrow> u32 \<Rightarrow> (substance_connector_error \<times> uint_queue cptr) option" where
  "connector_uint_queue_push p elem =
     (if p = NULL then Some (SUBSTANCE_CONNECTOR_INVALID, p)
      else do {
        q \<leftarrow> deref p;
        let w = write_index q;
        next_slot \<leftarrow> convert_to_index (w + 1) (queue_size q);
        read_slot \<leftarrow> convert_to_index (read_index q) (queue_size q);
        if next_slot = read_slot then Some (SUBSTANCE_CONNECTOR_ERROR, p)
        else do {
          let (w', _) = CONNECTOR_ATOMIC_COMPARE_EXCHANGE (write_index q) w (w + 1);
          slot \<leftarrow> convert_to_index w (queue_size q);
          q1 \<leftarrow> array_set (q\<lparr>write_index := w'\<rparr>) slot elem;
          let (m', result) = CONNECTOR_ATOMIC_COMPARE_EXCHANGE (max_index q1) w (w + 1);
          guard_ok (result = w);
          Some (SUBSTANCE_CONNECTOR_SUCCESS, OWNED (q1\<lparr>max_index := m'\<rparr>)) } })"

text \<open>
  \<^verbatim>\<open>connector_uint_queue_pop\<close> run alone; the middle component is what is stored through
  \<open>retval\<close>, which an error return leaves untouched.
\<close>

definition connector_uint_queue_pop ::
    "uint_queue cptr \<Rightarrow> (substance_connector_error \<times> u32 option \<times> uint_queue cptr) option" where
  "connector_uint_queue_pop p = do {
     q \<leftarrow> deref p;
     let r = read_index q;
     read_slot \<leftarrow> convert_to_index r (queue_size q);
     max_slot \<leftarrow> convert_to_index (max_index q) (queue_size q);
     if read_slot = max_slot then Some (SUBSTANCE_CONNECTOR_ERROR, None, p)
     else do {
       data \<leftarrow> array_get q read_slot;
       let (r', _) = CONNECTOR_ATOMIC_COMPARE_EXCHANGE (read_index q) r (r + 1);
       Some (SUBSTANCE_CONNECTOR_SUCCESS, Some data, OWNED (q\<lparr>read_index := r'\<rparr>)) } }"

text \<open>\<^verbatim>\<open>connector_uint_queue_destroy\<close>: the result and what the pointer is afterwards.\<close>

definition connector_uint_queue_destroy ::
    "uint_queue cptr \<Rightarrow> (substance_connector_error \<times> uint_queue cptr) option" where
  "connector_uint_queue_destroy p =
     (if p = NULL then Some (SUBSTANCE_CONNECTOR_ERROR, p)
      else do {
        q \<leftarrow> deref p;
        _ \<leftarrow> connector_free (queue_array q);
        p' \<leftarrow> connector_free p;
        Some (SUBSTANCE_CONNECTOR_SUCCESS, p') })"

text \<open>
  \<^verbatim>\<open>connector_uint_queue_create\<close>. A fresh structure has an indeterminate array pointer.
  When the size is zero or the array cannot be allocated the structure is released, and
  the released pointer is what the function returns.
\<close>

definition uint_queue_fresh :: uint_queue where
  "uint_queue_fresh = \<lparr>write_index = 0, read_index = 0, max_index = 0, queue_size = 0,
     queue_array = DANGLING\<rparr>"

definition uint_queue_padded :: "u32 \<Rightarrow> u32" where
  "uint_queue_padded sz = sz + (1 + ((sz AND 1) XOR 1))"

definition connector_uint_queue_create ::
    "'w os \<Rightarrow> u32 \<Rightarrow> 'w \<Rightarrow> (uint_queue cptr \<times> 'w) option" where
  "connector_uint_queue_create env sz w =
     (case connector_allocate env 24 w of
        (None, w1) \<Rightarrow> do {
          (_, p) \<leftarrow> connector_uint_queue_destroy NULL;
          Some (p, w1) }
      | (Some _, w1) \<Rightarrow>
          if sz > 0 then
            (case connector_allocate env (4 * ucast (uint_queue_padded sz)) w1 of
               (Some _, w2) \<Rightarrow>
                 Some (OWNED \<lparr>write_index = 0, read_index = 0, max_index = 0,
                   queue_size = uint_queue_padded sz,
                   queue_array = OWNED (replicate (unat (uint_queue_padded sz)) 0)\<rparr>, w2)
             | (None, w2) \<Rightarrow> do {
                 (_, p) \<leftarrow> connector_uint_queue_destroy
                   (OWNED (uint_queue_fresh\<lparr>queue_array := NULL\<rparr>));
                 Some (p, w2) })
          else do {
            (_, p) \<leftarrow> connector_uint_queue_destroy (OWNED uint_queue_fresh);
            Some (p, w1) })"

section \<open>The contract of a bounded queue\<close>

text \<open>A loop that pushes a batch and ignores the return codes.\<close>

fun push_all :: "('q \<Rightarrow> 'a \<Rightarrow> (substance_connector_error \<times> 'q) option) \<Rightarrow> 'q \<Rightarrow> 'a list \<Rightarrow> 'q option" where
  "push_all push q [] = Some q"
| "push_all push q (x # xs) = do { (_, q') \<leftarrow> push q x; push_all push q' xs }"

text \<open>
  A script of operations, its run on an implementation (the outcomes seen by the caller
  and the final queue) and the same script on a plain list of bounded length.
\<close>

datatype 'a queue_op = Push 'a | Pop

datatype 'a queue_outcome = Pushed | Refused | Popped 'a | Empty

fun run_queue :: "('q \<Rightarrow> 'a \<Rightarrow> (substance_connector_error \<times> 'q) option) \<Rightarrow>
    ('q \<Rightarrow> (substance_connector_error \<times> 'a option \<times> 'q) option) \<Rightarrow>
    'q \<Rightarrow> 'a queue_op list \<Rightarrow> ('a queue_outcome list \<times> 'q) option" where
  "run_queue push pop q [] = Some ([], q)"
| "run_queue push pop q (Push x # ops) = do {
     (r, q1) \<leftarrow> push q x;
     (outs, q2) \<leftarrow> run_queue push pop q1 ops;
     Some ((if r = SUBSTANCE_CONNECTOR_SUCCESS then Pushed else Refused) # outs, q2) }"
| "run_queue push pop q (Pop # ops) = do {
     (_, v, q1) \<leftarrow> pop q;
     (outs, q2) \<leftarrow> run_queue push pop q1 ops;
     Some ((case v of None \<Rightarrow> Empty | Some x \<Rightarrow> Popped x) # outs, q2) }"

fun list_queue :: "nat \<Rightarrow> 'a list \<Rightarrow> 'a queue_op list \<Rightarrow> 'a queue_outcome list \<times> 'a list" where
  "list_queue cap xs [] = ([], xs)"
| "list_queue cap xs (Push x # ops) =
     (if length xs < cap then (case list_queue cap (xs @ [x]) ops of (outs, ys) \<Rightarrow> (Pushed # outs, ys))
      else (case list_queue cap xs ops of (outs, ys) \<Rightarrow> (Refused # outs, ys)))"
| "list_queue cap [] (Pop # ops) = (case list_queue cap [] ops of (outs, ys) \<Rightarrow> (Empty # outs, ys))"
| "list_queue cap (x # xs) (Pop # ops) =
     (case list_queue cap xs ops of (outs, ys) \<Rightarrow> (Popped x # outs, ys))"

fun push_count :: "'a queue_op list \<Rightarrow> nat" where
  "push_count [] = 0"
| "push_count (Push _ # ops) = Suc (push_count ops)"
| "push_count (Pop # ops) = push_count ops"

text \<open>
  What the users of the queue (context pool, available queue) rely on. \<open>budget\<close> counts the
  pushes that remain before the write counter is exhausted.
\<close>

locale bounded_fifo =
  fixes push :: "'q \<Rightarrow> 'a \<Rightarrow> (substance_connector_error \<times> 'q) option"
    and pop :: "'q \<Rightarrow> (substance_connector_error \<times> 'a option \<times> 'q) option"
    and contents :: "'q \<Rightarrow> 'a list"
    and capacity :: "'q \<Rightarrow> nat"
    and budget :: "'q \<Rightarrow> nat"
    and invar :: "'q \<Rightarrow> bool"
  assumes bounded: "invar q \<Longrightarrow> length (contents q) \<le> capacity q"
    and push_full: "invar q \<Longrightarrow> length (contents q) = capacity q \<Longrightarrow> 0 < budget q \<Longrightarrow>
          push q x = Some (SUBSTANCE_CONNECTOR_ERROR, q)"
    and push_room: "invar q \<Longrightarrow> length (contents q) < capacity q \<Longrightarrow> 0 < budget q \<Longrightarrow>
          \<exists>q'. push q x = Some (SUBSTANCE_CONNECTOR_SUCCESS, q') \<and> invar q' \<and>
            contents q' = contents q @ [x] \<and> capacity q' = capacity q \<and>
            budget q' = budget q - 1"
    and pop_empty: "invar q \<Longrightarrow> contents q = [] \<Longrightarrow>
          pop q = Some (SUBSTANCE_CONNECTOR_ERROR, None, q)"
    and pop_cons: "invar q \<Longrightarrow> contents q = x # xs \<Longrightarrow>
          \<exists>q'. pop q = Some (SUBSTANCE_CONNECTOR_SUCCESS, Some x, q') \<and> invar q' \<and>
            contents q' = xs \<and> capacity q' = capacity q \<and> budget q' = budget q"
begin

lemma push_total:
  assumes "invar q" "0 < budget q"
  obtains r q' where "push q x = Some (r, q')" "invar q'" "capacity q' = capacity q"
    "budget q - 1 \<le> budget q'"
    "if length (contents q) < capacity q
     then r = SUBSTANCE_CONNECTOR_SUCCESS \<and> contents q' = contents q @ [x]
     else r = SUBSTANCE_CONNECTOR_ERROR \<and> q' = q"
proof (cases "length (contents q) < capacity q")
  case True
  from push_room [OF assms(1) True assms(2), of x] True show ?thesis
    by (auto intro!: that)
next
  case False
  with bounded [OF assms(1)] have "length (contents q) = capacity q" by simp
  from push_full [OF assms(1) this assms(2), of x] False assms show ?thesis
    by (auto intro!: that)
qed

lemma pop_total:
  assumes "invar q"
  obtains r v q' where "pop q = Some (r, v, q')" "invar q'" "capacity q' = capacity q"
    "budget q' = budget q"
    "case contents q of
       [] \<Rightarrow> r = SUBSTANCE_CONNECTOR_ERROR \<and> v = None \<and> q' = q
     | x # xs \<Rightarrow> r = SUBSTANCE_CONNECTOR_SUCCESS \<and> v = Some x \<and> contents q' = xs"
proof (cases "contents q")
  case Nil
  with pop_empty [OF assms Nil] assms show ?thesis by (auto intro!: that)
next
  case (Cons x xs)
  with pop_cons [OF assms Cons] show ?thesis by (auto intro!: that)
qed

text \<open>Pushing a batch that fits appends the batch.\<close>

lemma push_all_contents:
  assumes "invar q" "length (contents q) + length xs \<le> capacity q" "length xs \<le> budget q"
  shows "\<exists>q'. push_all push q xs = Some q' \<and> invar q' \<and> contents q' = contents q @ xs \<and>
    capacity q' = capacity q \<and> budget q' = budget q - length xs"
  using assms
proof (induction xs arbitrary: q)
  case Nil
  then show ?case by simp
next
  case (Cons x xs)
  obtain q1 where q1: "push q x = Some (SUBSTANCE_CONNECTOR_SUCCESS, q1)" "invar q1"
    "contents q1 = contents q @ [x]" "capacity q1 = capacity q" "budget q1 = budget q - 1"
    using push_room [of q x] Cons.prems by auto
  from Cons.IH [of q1] q1 Cons.prems show ?case by auto
qed

text \<open>Any script of operations is answered as the bounded list answers it.\<close>

lemma run_queue_list:
  assumes "invar q" "push_count ops \<le> budget q"
  shows "\<exists>outs q'. run_queue push pop q ops = Some (outs, q') \<and> invar q' \<and>
    list_queue (capacity q) (contents q) ops = (outs, contents q')"
  using assms
proof (induction ops arbitrary: q)
  case Nil
  then show ?case by simp
next
  case (Cons a ops)
  show ?case
  proof (cases a)
    case (Push x)
    with Cons.prems have "0 < budget q" by simp
    then obtain r q1 where q1: "push q x = Some (r, q1)" "invar q1" "capacity q1 = capacity q"
      "budget q - 1 \<le> budget q1"
      "if length (contents q) < capacity q
       then r = SUBSTANCE_CONNECTOR_SUCCESS \<and> contents q1 = contents q @ [x]
       else r = SUBSTANCE_CONNECTOR_ERROR \<and> q1 = q"
      using push_total [OF Cons.prems(1), of x] by metis
    have "push_count ops \<le> budget q1" using Cons.prems(2) q1(4) Push by simp
    from Cons.IH [OF q1(2) this] q1 show ?thesis
      by (cases "length (contents q) < capacity q") (auto simp: Push)
  next
    case Pop
    obtain r v q1 where q1: "pop q = Some (r, v, q1)" "invar q1" "capacity q1 = capacity q"
      "budget q1 = budget q"
      "case contents q of
         [] \<Rightarrow> r = SUBSTANCE_CONNECTOR_ERROR \<and> v = None \<and> q1 = q
       | x # xs \<Rightarrow> r = SUBSTANCE_CONNECTOR_SUCCESS \<and> v = Some x \<and> contents q1 = xs"
      using pop_total [OF Cons.prems(1)] by metis
    have "push_count ops \<le> budget q1" using Cons.prems(2) q1(4) Pop by simp
    from Cons.IH [OF q1(2) this] q1 show ?thesis
      by (cases "contents q") (auto simp: Pop)
  qed
qed

end

section \<open>The ring buffer implements the contract\<close>

definition queue_elems :: "uint_queue \<Rightarrow> u32 list" where
  "queue_elems q = (case deref (queue_array q) of Some a \<Rightarrow> a | None \<Rightarrow> [])"

definition wf_queue :: "uint_queue \<Rightarrow> bool" where
  "wf_queue q \<longleftrightarrow> queue_array q = OWNED (queue_elems q) \<and>
     length (queue_elems q) = unat (queue_size q) \<and> 0 < unat (queue_size q) \<and>
     max_index q = write_index q \<and> unat (read_index q) \<le> unat (write_index q) \<and>
     unat (write_index q) < unat (read_index q) + unat (queue_size q)"

definition queue_contents :: "uint_queue \<Rightarrow> u32 list" where
  "queue_contents q = map (\<lambda>t. queue_elems q ! (t mod unat (queue_size q)))
     [unat (read_index q)..<unat (write_index q)]"

definition queue_of :: "uint_queue cptr \<Rightarrow> uint_queue" where
  "queue_of p = (case deref p of Some q \<Rightarrow> q | None \<Rightarrow> uint_queue_fresh)"

definition fifo_contents :: "uint_queue cptr \<Rightarrow> u32 list" where
  "fifo_contents p = queue_contents (queue_of p)"

definition fifo_capacity :: "uint_queue cptr \<Rightarrow> nat" where
  "fifo_capacity p = unat (queue_size (queue_of p)) - 1"

definition fifo_budget :: "uint_queue cptr \<Rightarrow> nat" where
  "fifo_budget p = 2 ^ 32 - 1 - unat (write_index (queue_of p))"

definition fifo_invar :: "uint_queue cptr \<Rightarrow> bool" where
  "fifo_invar p \<longleftrightarrow> p = OWNED (queue_of p) \<and> wf_queue (queue_of p)"

lemma queue_of_OWNED [simp]: "queue_of (OWNED q) = q"
  by (simp add: queue_of_def)

lemma fifo_invarE:
  assumes "fifo_invar p"
  obtains q where "p = OWNED q" "wf_queue q"
  using assms unfolding fifo_invar_def by blast

lemma fifo_invar_OWNED [simp]: "fifo_invar (OWNED q) = wf_queue q"
  by (simp add: fifo_invar_def)

lemma length_queue_contents: "length (queue_contents q) = unat (write_index q) - unat (read_index q)"
  by (simp add: queue_contents_def)

lemma convert_to_index_wf: "wf_queue q \<Longrightarrow> convert_to_index i (queue_size q) = Some (i mod queue_size q)"
  by (auto simp: convert_to_index_def wf_queue_def)

lemma slot_in_array: "wf_queue q \<Longrightarrow> unat (i mod queue_size q) < length (queue_elems q)"
  by (simp add: wf_queue_def unat_mod_word)

text \<open>The fullness test of the code is fullness of the abstract queue.\<close>

lemma full_test_iff:
  assumes "wf_queue q" "Suc (unat (write_index q)) < 2 ^ 32"
  shows "(write_index q + 1) mod queue_size q = read_index q mod queue_size q \<longleftrightarrow>
    length (queue_contents q) = unat (queue_size q) - 1"
proof -
  have "unat (write_index q + 1) = Suc (unat (write_index q))"
    using assms(2) by (simp add: unat_Suc_word)
  then have "(write_index q + 1) mod queue_size q = read_index q mod queue_size q \<longleftrightarrow>
    Suc (unat (write_index q)) mod unat (queue_size q) = unat (read_index q) mod unat (queue_size q)"
    by (simp add: mod_word_eq_iff)
  also have "\<dots> \<longleftrightarrow> Suc (unat (write_index q)) = unat (read_index q) + unat (queue_size q)"
    using assms(1) by (intro mod_window_full) (auto simp: wf_queue_def)
  finally show ?thesis using assms(1) by (auto simp: length_queue_contents wf_queue_def)
qed

text \<open>The emptiness test likewise.\<close>

lemma empty_test_iff:
  assumes "wf_queue q"
  shows "read_index q mod queue_size q = max_index q mod queue_size q \<longleftrightarrow> queue_contents q = []"
proof -
  have "read_index q mod queue_size q = max_index q mod queue_size q \<longleftrightarrow>
    unat (read_index q) = unat (write_index q)"
    using assms mod_window_inj [of "unat (read_index q)" "unat (queue_size q)" "unat (write_index q)"]
    by (auto simp: mod_word_eq_iff wf_queue_def)
  also have "\<dots> \<longleftrightarrow> length (queue_contents q) = 0"
    using assms by (auto simp: length_queue_contents wf_queue_def)
  finally show ?thesis by simp
qed

lemma queue_contents_snoc:
  assumes wf: "wf_queue q" and len: "length (queue_contents q) < unat (queue_size q) - 1"
    and bud: "Suc (unat (write_index q)) < 2 ^ 32"
    and q': "q' = q\<lparr>write_index := write_index q + 1, max_index := write_index q + 1,
      queue_array := OWNED ((queue_elems q)[unat (write_index q mod queue_size q) := x])\<rparr>"
  shows "wf_queue q' \<and> queue_contents q' = queue_contents q @ [x]"
proof -
  let ?n = "unat (queue_size q)" and ?w = "unat (write_index q)" and ?r = "unat (read_index q)"
  have elems: "queue_elems q' = (queue_elems q)[?w mod ?n := x]"
    by (simp add: q' queue_elems_def unat_mod_word)
  have w': "unat (write_index q') = Suc ?w" using bud by (simp add: q' unat_Suc_word)
  have wf': "wf_queue q'"
    using wf len w' by (auto simp: wf_queue_def elems length_queue_contents) (auto simp: q' unat_mod_word)
  have "queue_elems q' ! (t mod ?n) = queue_elems q ! (t mod ?n)" if "t \<in> set [?r..<?w]" for t
  proof -
    from that wf have "t mod ?n \<noteq> ?w mod ?n"
      using mod_window_inj [of t ?n ?w] by (auto simp: wf_queue_def)
    then show ?thesis by (simp add: elems)
  qed
  then have "map (\<lambda>t. queue_elems q' ! (t mod ?n)) [?r..<?w] = queue_contents q"
    by (auto simp: queue_contents_def)
  moreover have "queue_elems q' ! (?w mod ?n) = x"
    using wf by (simp add: elems wf_queue_def)
  moreover have "?r \<le> ?w" using wf by (simp add: wf_queue_def)
  ultimately have "queue_contents q' = queue_contents q @ [x]"
    using w' by (simp add: queue_contents_def) (simp add: q')
  with wf' show ?thesis ..
qed

lemma queue_push_room:
  assumes "wf_queue q" "length (queue_contents q) < unat (queue_size q) - 1"
    "Suc (unat (write_index q)) < 2 ^ 32"
  shows "\<exists>q'. connector_uint_queue_push (OWNED q) x = Some (SUBSTANCE_CONNECTOR_SUCCESS, OWNED q') \<and>
    wf_queue q' \<and> queue_contents q' = queue_contents q @ [x] \<and>
    queue_size q' = queue_size q \<and> unat (write_index q') = Suc (unat (write_index q))"
proof -
  let ?q' = "q\<lparr>write_index := write_index q + 1, max_index := write_index q + 1,
      queue_array := OWNED ((queue_elems q)[unat (write_index q mod queue_size q) := x])\<rparr>"
  have arr: "queue_array q = OWNED (queue_elems q)" and m: "max_index q = write_index q"
    using assms(1) by (auto simp: wf_queue_def)
  have "connector_uint_queue_push (OWNED q) x = Some (SUBSTANCE_CONNECTOR_SUCCESS, OWNED ?q')"
    using full_test_iff [OF assms(1,3)] assms(2) arr m slot_in_array [OF assms(1)]
    by (simp add: connector_uint_queue_push_def convert_to_index_wf [OF assms(1)] array_set_def Let_def)
  moreover have "wf_queue ?q' \<and> queue_contents ?q' = queue_contents q @ [x]"
    by (rule queue_contents_snoc [OF assms refl])
  moreover have "unat (write_index ?q') = Suc (unat (write_index q))"
    using assms(3) by (simp add: unat_Suc_word)
  ultimately show ?thesis by (intro exI [of _ ?q']) simp
qed

lemma queue_push_full:
  assumes "wf_queue q" "length (queue_contents q) = unat (queue_size q) - 1"
    "Suc (unat (write_index q)) < 2 ^ 32"
  shows "connector_uint_queue_push (OWNED q) x = Some (SUBSTANCE_CONNECTOR_ERROR, OWNED q)"
  using full_test_iff [OF assms(1,3)] assms(2)
  by (simp add: connector_uint_queue_push_def convert_to_index_wf [OF assms(1)] Let_def)

lemma queue_pop_empty:
  assumes "wf_queue q" "queue_contents q = []"
  shows "connector_uint_queue_pop (OWNED q) = Some (SUBSTANCE_CONNECTOR_ERROR, None, OWNED q)"
  using empty_test_iff [OF assms(1)] assms(2)
  by (simp add: connector_uint_queue_pop_def convert_to_index_wf [OF assms(1)] Let_def)

lemma queue_pop_cons:
  assumes wf: "wf_queue q" and c: "queue_contents q = x # xs"
  shows "\<exists>q'. connector_uint_queue_pop (OWNED q) = Some (SUBSTANCE_CONNECTOR_SUCCESS, Some x, OWNED q') \<and>
    wf_queue q' \<and> queue_contents q' = xs \<and> queue_size q' = queue_size q \<and>
    write_index q' = write_index q"
proof -
  let ?q' = "q\<lparr>read_index := read_index q + 1\<rparr>"
  let ?w = "unat (write_index q)" and ?r = "unat (read_index q)" and ?n = "unat (queue_size q)"
  have "?r < ?w" using arg_cong [OF c, of length] by (simp add: length_queue_contents)
  then have upt: "[?r..<?w] = ?r # [Suc ?r..<?w]" by (simp add: upt_conv_Cons)
  have "Suc ?r < 2 ^ 32" using \<open>?r < ?w\<close> unat_bound [of "write_index q"] by simp
  then have r': "unat (read_index q + 1) = Suc ?r" by (simp add: unat_Suc_word)
  have el: "queue_elems ?q' = queue_elems q" by (simp add: queue_elems_def)
  have x: "x = queue_elems q ! (?r mod ?n)" and xs: "queue_contents ?q' = xs"
    using c upt el r' by (auto simp: queue_contents_def)
  have arr: "queue_array q = OWNED (queue_elems q)" using wf by (simp add: wf_queue_def)
  have "connector_uint_queue_pop (OWNED q) = Some (SUBSTANCE_CONNECTOR_SUCCESS, Some x, OWNED ?q')"
    using empty_test_iff [OF wf] c arr slot_in_array [OF wf, of "read_index q"] x
    by (simp add: connector_uint_queue_pop_def convert_to_index_wf [OF wf] array_get_def unat_mod_word Let_def)
  moreover have "wf_queue ?q'" using wf el r' \<open>?r < ?w\<close> by (simp add: wf_queue_def)
  ultimately show ?thesis using xs by (intro exI [of _ ?q']) simp
qed

interpretation uq: bounded_fifo connector_uint_queue_push connector_uint_queue_pop
  fifo_contents fifo_capacity fifo_budget fifo_invar
proof unfold_locales
  fix p :: "uint_queue cptr" and x :: u32
  assume inv: "fifo_invar p"
  then obtain q where p: "p = OWNED q" and wf: "wf_queue q" by (rule fifo_invarE)
  show "length (fifo_contents p) \<le> fifo_capacity p"
    using wf by (auto simp: p fifo_contents_def fifo_capacity_def length_queue_contents wf_queue_def)
  show "connector_uint_queue_push p x = Some (SUBSTANCE_CONNECTOR_ERROR, p)"
    if "length (fifo_contents p) = fifo_capacity p" "0 < fifo_budget p"
    using queue_push_full [OF wf] that by (simp add: p fifo_contents_def fifo_capacity_def fifo_budget_def)
  show "\<exists>q'. connector_uint_queue_push p x = Some (SUBSTANCE_CONNECTOR_SUCCESS, q') \<and> fifo_invar q' \<and>
      fifo_contents q' = fifo_contents p @ [x] \<and> fifo_capacity q' = fifo_capacity p \<and>
      fifo_budget q' = fifo_budget p - 1"
    if "length (fifo_contents p) < fifo_capacity p" "0 < fifo_budget p"
    using queue_push_room [OF wf, of x] that
    by (auto simp: p fifo_contents_def fifo_capacity_def fifo_budget_def)
  show "connector_uint_queue_pop p = Some (SUBSTANCE_CONNECTOR_ERROR, None, p)" if "fifo_contents p = []"
    using queue_pop_empty [OF wf] that by (simp add: p fifo_contents_def)
  show "\<exists>q'. connector_uint_queue_pop p = Some (SUBSTANCE_CONNECTOR_SUCCESS, Some y, q') \<and> fifo_invar q' \<and>
      fifo_contents q' = ys \<and> fifo_capacity q' = fifo_capacity p \<and> fifo_budget q' = fifo_budget p"
    if "fifo_contents p = y # ys" for y ys
    using queue_pop_cons [OF wf, of y ys] that
    by (auto simp: p fifo_contents_def fifo_capacity_def fifo_budget_def)
qed

section \<open>Creation\<close>

text \<open>The size is padded to the next even number above the requested one.\<close>

lemma uint_queue_padded_cases:
  "uint_queue_padded sz = (if even sz then sz + 2 else sz + 1)"
  by (auto simp: uint_queue_padded_def and_one_eq mod_2_eq_odd)

lemma unat_uint_queue_padded:
  assumes "unat sz < 2 ^ 32 - 2"
  shows "unat sz < unat (uint_queue_padded sz) \<and> unat (uint_queue_padded sz) \<le> unat sz + 2"
  using assms by (auto simp: uint_queue_padded_cases unat_word_ariths)

text \<open>A queue that was just created: empty, with room for at least the requested number.\<close>

lemma create_result:
  assumes "0 < sz" "unat sz < 2 ^ 32 - 2"
    and "connector_uint_queue_create env sz w = Some (OWNED q, w')"
  shows "wf_queue q" "queue_contents q = []" "unat sz \<le> unat (queue_size q) - 1"
    "write_index q = 0" "unat (queue_size q) \<le> unat sz + 2"
  using assms unat_uint_queue_padded [OF assms(2)]
  by (auto simp: connector_uint_queue_create_def connector_uint_queue_destroy_def wf_queue_def
      queue_elems_def queue_contents_def split: prod.splits option.splits if_splits)

lemma create_success:
  assumes "0 < sz" "allocator_succeeds env"
  shows "\<exists>q w'. connector_uint_queue_create env sz w = Some (OWNED q, w')"
proof -
  obtain b w1 where a1: "connector_allocate env 24 w = (Some b, w1)"
    using connector_allocate_ok [OF assms(2)] by metis
  obtain c w2 where a2: "connector_allocate env (4 * ucast (uint_queue_padded sz)) w1 = (Some c, w2)"
    using connector_allocate_ok [OF assms(2)] by metis
  show ?thesis using a1 a2 assms(1) by (simp add: connector_uint_queue_create_def)
qed

lemma create_context_queue:
  assumes "connector_uint_queue_create env 32 w = Some (OWNED q, w')"
  shows "wf_queue q" "queue_contents q = []" "queue_size q = 34" "write_index q = 0"
  using assms
  by (auto simp: connector_uint_queue_create_def connector_uint_queue_destroy_def wf_queue_def
      uint_queue_padded_def queue_elems_def queue_contents_def
      split: prod.splits option.splits if_splits)

section \<open>Properties\<close>



text \<open>
  Creation meets its documentation. With a working allocator and a size that leaves
  room for the padding, the created queue is empty and takes at least the requested number
  of elements, and gives them back in order.
\<close>

theorem uint_queue_create_holds_size:
  assumes "allocator_succeeds env" and "0 < sz" and "unat sz < 2 ^ 32 - 2"
    and "length xs \<le> unat sz"
  shows "\<exists>q w'. connector_uint_queue_create env sz w = Some (OWNED q, w') \<and>
    queue_contents q = [] \<and>
    (\<exists>q'. push_all connector_uint_queue_push (OWNED q) xs = Some (OWNED q') \<and>
      wf_queue q' \<and> queue_contents q' = xs)"
proof -
  obtain q w' where c: "connector_uint_queue_create env sz w = Some (OWNED q, w')"
    using create_success [OF assms(2,1)] by blast
  note r = create_result [OF assms(2,3) c]
  have "\<exists>p. push_all connector_uint_queue_push (OWNED q) xs = Some p \<and> fifo_invar p \<and>
      fifo_contents p = fifo_contents (OWNED q) @ xs \<and> fifo_capacity p = fifo_capacity (OWNED q) \<and>
      fifo_budget p = fifo_budget (OWNED q) - length xs"
    using r assms(3,4)
    by (intro uq.push_all_contents) (simp_all add: fifo_contents_def fifo_capacity_def fifo_budget_def)
  then show ?thesis using c r(2)
    by (auto elim!: fifo_invarE simp: fifo_contents_def)
qed

theorem uint_queue_create_holds_size_witness:
  "\<exists>q w'. connector_uint_queue_create sample_os 32 [] = Some (OWNED q, w') \<and>
    queue_contents q = [] \<and>
    (\<exists>q'. push_all connector_uint_queue_push (OWNED q) [4, 5, 6] = Some (OWNED q') \<and>
      wf_queue q' \<and> queue_contents q' = [4, 5, 6])"
  using uint_queue_create_holds_size [of sample_os 32 "[4, 5, 6]" "[]"] by simp


end
