(* ===== verification/Uint_Queue_Concurrent.thy ===== *)
theory Uint_Queue_Concurrent
  imports Uint_Queue
begin

text \<open>
  The push and pop operations of \<^verbatim>\<open>uint_queue.c\<close> executed by any number of threads. Each
  access to a shared field is one step: the loads of the indices, the compare-and-exchange
  operations, the accesses to the array; between two steps of one thread any other thread
  may run. Memory is sequentially consistent (the macros use \<^verbatim>\<open>__ATOMIC_SEQ_CST\<close>).

  Two histories are recorded with the state: \<open>pushed\<close> lists the elements in the order their
  tickets were taken (the exchange on \<open>write_index\<close>), \<open>popped\<close> the elements in the order
  they were claimed (the exchange on \<open>read_index\<close>).
\<close>

section \<open>Threads and steps\<close>

text \<open>The program counter of a thread with the values of its local variables.\<close>

datatype pc =
    Idle
  | PushStart u32
  | PushReadR u32 u32
  | PushTest u32 u32 u32
  | PushCas u32 u32
  | PushStore u32 u32
  | PushCommit u32
  | PopStart
  | PopReadM u32
  | PopTest u32 u32
  | PopLoad u32
  | PopCas u32 u32
  | Returned substance_connector_error "u32 option"

record cq =
  shared :: uint_queue
  pushed :: "u32 list"
  popped :: "u32 list"
  pcs :: "nat \<Rightarrow> pc"

fun ready :: "pc \<Rightarrow> bool" where
  "ready Idle = True"
| "ready (Returned _ _) = True"
| "ready _ = False"

definition goto :: "nat \<Rightarrow> pc \<Rightarrow> cq \<Rightarrow> cq" where
  "goto i c s = s\<lparr>pcs := (pcs s)(i := c)\<rparr>"

text \<open>One step of thread \<open>i\<close>; a rule for every shared access of the two loops.\<close>

inductive cq_step :: "nat \<Rightarrow> cq \<Rightarrow> cq \<Rightarrow> bool" where
  push_call: "ready (pcs s i) \<Longrightarrow> cq_step i s (goto i (PushStart e) s)"
| push_read_w: "pcs s i = PushStart e \<Longrightarrow>
    cq_step i s (goto i (PushReadR e (write_index (shared s))) s)"
| push_read_r: "pcs s i = PushReadR e w \<Longrightarrow>
    cq_step i s (goto i (PushTest e w (read_index (shared s))) s)"
| push_full: "pcs s i = PushTest e w r \<Longrightarrow>
    convert_to_index (w + 1) (queue_size (shared s)) = Some k \<Longrightarrow>
    convert_to_index r (queue_size (shared s)) = Some k \<Longrightarrow>
    cq_step i s (goto i (Returned SUBSTANCE_CONNECTOR_ERROR None) s)"
| push_room: "pcs s i = PushTest e w r \<Longrightarrow>
    convert_to_index (w + 1) (queue_size (shared s)) = Some k \<Longrightarrow>
    convert_to_index r (queue_size (shared s)) = Some l \<Longrightarrow> k \<noteq> l \<Longrightarrow>
    cq_step i s (goto i (PushCas e w) s)"
| push_cas_ok: "pcs s i = PushCas e w \<Longrightarrow>
    CONNECTOR_ATOMIC_COMPARE_EXCHANGE (write_index (shared s)) w (w + 1) = (w', result) \<Longrightarrow>
    result = w \<Longrightarrow>
    cq_step i s (goto i (PushStore e w)
      (s\<lparr>shared := (shared s)\<lparr>write_index := w'\<rparr>, pushed := pushed s @ [e]\<rparr>))"
| push_cas_fail: "pcs s i = PushCas e w \<Longrightarrow>
    CONNECTOR_ATOMIC_COMPARE_EXCHANGE (write_index (shared s)) w (w + 1) = (w', result) \<Longrightarrow>
    result \<noteq> w \<Longrightarrow> cq_step i s (goto i (PushStart e) s)"
| push_store: "pcs s i = PushStore e w \<Longrightarrow>
    convert_to_index w (queue_size (shared s)) = Some k \<Longrightarrow>
    array_set (shared s) k e = Some q \<Longrightarrow>
    cq_step i s (goto i (PushCommit w) (s\<lparr>shared := q\<rparr>))"
| push_commit_ok: "pcs s i = PushCommit w \<Longrightarrow>
    CONNECTOR_ATOMIC_COMPARE_EXCHANGE (max_index (shared s)) w (w + 1) = (m', result) \<Longrightarrow>
    result = w \<Longrightarrow>
    cq_step i s (goto i (Returned SUBSTANCE_CONNECTOR_SUCCESS None)
      (s\<lparr>shared := (shared s)\<lparr>max_index := m'\<rparr>\<rparr>))"
| push_commit_spin: "pcs s i = PushCommit w \<Longrightarrow>
    CONNECTOR_ATOMIC_COMPARE_EXCHANGE (max_index (shared s)) w (w + 1) = (m', result) \<Longrightarrow>
    result \<noteq> w \<Longrightarrow> cq_step i s s"
| pop_call: "ready (pcs s i) \<Longrightarrow> cq_step i s (goto i PopStart s)"
| pop_read_r: "pcs s i = PopStart \<Longrightarrow>
    cq_step i s (goto i (PopReadM (read_index (shared s))) s)"
| pop_read_m: "pcs s i = PopReadM r \<Longrightarrow>
    cq_step i s (goto i (PopTest r (max_index (shared s))) s)"
| pop_empty: "pcs s i = PopTest r m \<Longrightarrow>
    convert_to_index r (queue_size (shared s)) = Some k \<Longrightarrow>
    convert_to_index m (queue_size (shared s)) = Some k \<Longrightarrow>
    cq_step i s (goto i (Returned SUBSTANCE_CONNECTOR_ERROR None) s)"
| pop_go: "pcs s i = PopTest r m \<Longrightarrow>
    convert_to_index r (queue_size (shared s)) = Some k \<Longrightarrow>
    convert_to_index m (queue_size (shared s)) = Some l \<Longrightarrow> k \<noteq> l \<Longrightarrow>
    cq_step i s (goto i (PopLoad r) s)"
| pop_load: "pcs s i = PopLoad r \<Longrightarrow>
    convert_to_index r (queue_size (shared s)) = Some k \<Longrightarrow>
    array_get (shared s) k = Some d \<Longrightarrow>
    cq_step i s (goto i (PopCas r d) s)"
| pop_cas_ok: "pcs s i = PopCas r d \<Longrightarrow>
    CONNECTOR_ATOMIC_COMPARE_EXCHANGE (read_index (shared s)) r (r + 1) = (r', result) \<Longrightarrow>
    result = r \<Longrightarrow>
    cq_step i s (goto i (Returned SUBSTANCE_CONNECTOR_SUCCESS (Some d))
      (s\<lparr>shared := (shared s)\<lparr>read_index := r'\<rparr>, popped := popped s @ [d]\<rparr>))"
| pop_cas_fail: "pcs s i = PopCas r d \<Longrightarrow>
    CONNECTOR_ATOMIC_COMPARE_EXCHANGE (read_index (shared s)) r (r + 1) = (r', result) \<Longrightarrow>
    result \<noteq> r \<Longrightarrow> cq_step i s (goto i PopStart s)"

text \<open>Executions from a freshly created queue of a given size, all threads idle.\<close>

definition cq_init :: "u32 \<Rightarrow> cq" where
  "cq_init n = \<lparr>shared = \<lparr>write_index = 0, read_index = 0, max_index = 0, queue_size = n,
     queue_array = OWNED (replicate (unat n) 0)\<rparr>, pushed = [], popped = [], pcs = (\<lambda>_. Idle)\<rparr>"

inductive cq_reachable :: "u32 \<Rightarrow> cq \<Rightarrow> bool" for n where
  init: "0 < n \<Longrightarrow> cq_reachable n (cq_init n)"
| step: "cq_reachable n s \<Longrightarrow> cq_step i s t \<Longrightarrow> cq_reachable n t"

section \<open>The invariant\<close>

text \<open>The ticket a thread holds between its two exchanges.\<close>

fun ticket :: "pc \<Rightarrow> nat option" where
  "ticket (PushStore e w) = Some (unat w)"
| "ticket (PushCommit w) = Some (unat w)"
| "ticket _ = None"

text \<open>
  What the local values of a thread say about the shared state: \<open>a\<close> is the array, \<open>lg\<close> the
  history of pushed elements, \<open>R\<close> and \<open>M\<close> the number of popped and of committed elements.
\<close>

fun thread_ok :: "nat \<Rightarrow> u32 list \<Rightarrow> u32 list \<Rightarrow> nat \<Rightarrow> nat \<Rightarrow> pc \<Rightarrow> bool" where
  "thread_ok n a lg R M (PushReadR e w) = (unat w \<le> length lg)"
| "thread_ok n a lg R M (PushTest e w r) =
     (unat w \<le> length lg \<and> unat r \<le> R \<and>
      (unat w = length lg \<longrightarrow> unat r \<le> unat w \<and> unat w < unat r + n))"
| "thread_ok n a lg R M (PushCas e w) =
     (unat w \<le> length lg \<and>
      (unat w = length lg \<longrightarrow> Suc (unat w) < 2 ^ 32 \<longrightarrow> Suc (unat w) < R + n))"
| "thread_ok n a lg R M (PushStore e w) =
     (M \<le> unat w \<and> unat w < length lg \<and> lg ! unat w = e)"
| "thread_ok n a lg R M (PushCommit w) =
     (M \<le> unat w \<and> unat w < length lg \<and> a ! (unat w mod n) = lg ! unat w)"
| "thread_ok n a lg R M (PopReadM r) = (unat r \<le> R)"
| "thread_ok n a lg R M (PopTest r m) = (unat r \<le> R \<and> unat r \<le> unat m \<and> unat m \<le> M)"
| "thread_ok n a lg R M (PopLoad r) = (unat r \<le> R \<and> unat r < M)"
| "thread_ok n a lg R M (PopCas r d) =
     (unat r \<le> R \<and> unat r < M \<and> (unat r = R \<longrightarrow> d = lg ! unat r))"
| "thread_ok n a lg R M _ = True"

definition shared_ok :: "nat \<Rightarrow> u32 list \<Rightarrow> u32 list \<Rightarrow> nat \<Rightarrow> nat \<Rightarrow> bool" where
  "shared_ok n a lg R M \<longleftrightarrow> length a = n \<and> 0 < n \<and> R \<le> M \<and> M \<le> length lg \<and> length lg < R + n \<and>
     (\<forall>t. R \<le> t \<longrightarrow> t < M \<longrightarrow> a ! (t mod n) = lg ! t)"

definition cq_inv :: "cq \<Rightarrow> bool" where
  "cq_inv s \<longleftrightarrow> (let q = shared s; n = unat (queue_size q); R = length (popped s);
       M = unat (max_index q) in
     queue_array q = OWNED (queue_elems q) \<and> unat (write_index q) = length (pushed s) \<and>
     unat (read_index q) = R \<and> take R (pushed s) = popped s \<and>
     shared_ok n (queue_elems q) (pushed s) R M \<and>
     (\<forall>i. thread_ok n (queue_elems q) (pushed s) R M (pcs s i)) \<and>
     (\<forall>i j t. ticket (pcs s i) = Some t \<longrightarrow> ticket (pcs s j) = Some t \<longrightarrow> i = j) \<and>
     (\<forall>t. M \<le> t \<longrightarrow> t < length (pushed s) \<longrightarrow> (\<exists>i. ticket (pcs s i) = Some t)))"

lemma cq_inv_init: "0 < n \<Longrightarrow> cq_inv (cq_init n)"
  by (simp add: cq_inv_def cq_init_def shared_ok_def queue_elems_def word_greater_zero_iff
      Let_def unat_gt_0)

subsection \<open>Stability of thread facts under the shared updates\<close>

lemma thread_ok_push:
  "thread_ok n a lg R M c \<Longrightarrow> thread_ok n a (lg @ [x]) R M c"
  if "M \<le> length lg"
  using that by (cases c) (auto simp: nth_append)

lemma thread_ok_pop:
  "thread_ok n a lg R M c \<Longrightarrow> thread_ok n a lg (Suc R) M c"
  by (cases c) auto

lemma thread_ok_commit:
  "thread_ok n a lg R M c \<Longrightarrow> ticket c \<noteq> Some M \<Longrightarrow> thread_ok n a lg R (Suc M) c"
  by (cases c) auto

lemma slot_distinct:
  assumes "shared_ok n a lg R M" "R \<le> t" "t < length lg" "R \<le> u" "u < length lg"
    "t mod n = u mod n"
  shows "t = u"
proof (cases "t \<le> u")
  case True
  with assms show ?thesis by (intro mod_window_inj [of t n u]) (auto simp: shared_ok_def)
next
  case False
  with assms have "u = t" by (intro mod_window_inj [of u n t]) (auto simp: shared_ok_def)
  then show ?thesis ..
qed

lemma thread_ok_store:
  assumes "shared_ok n a lg R M" "M \<le> t" "t < length lg" "thread_ok n a lg R M c" "ticket c \<noteq> Some t"
  shows "thread_ok n (a[t mod n := e]) lg R M c"
proof (cases "\<exists>w. c = PushCommit w")
  case True
  then obtain w where c: "c = PushCommit w" by blast
  have "unat w mod n \<noteq> t mod n"
    using slot_distinct [OF assms(1), of "unat w" t] assms c by (auto simp: shared_ok_def)
  with assms(4) c show ?thesis by simp
next
  case False
  with assms(4) show ?thesis by (cases c) auto
qed

lemma shared_ok_store:
  assumes "shared_ok n a lg R M" "M \<le> t" "t < length lg"
  shows "shared_ok n (a[t mod n := e]) lg R M"
proof -
  have "u mod n \<noteq> t mod n" if "R \<le> u" "u < M" for u
    using slot_distinct [OF assms(1), of u t] assms that by (auto simp: shared_ok_def)
  then have "a[t mod n := e] ! (u mod n) = a ! (u mod n)" if "R \<le> u" "u < M" for u
    using that by (metis nth_list_update_neq)
  with assms(1) show ?thesis by (auto simp: shared_ok_def)
qed

subsection \<open>Every step keeps the invariant\<close>

lemma goto_simps [simp]:
  "shared (goto i c s) = shared s" "pushed (goto i c s) = pushed s" "popped (goto i c s) = popped s"
  "pcs (goto i c s) = (pcs s)(i := c)"
  by (simp_all add: goto_def)

lemma cq_invD:
  assumes "cq_inv s"
  shows "queue_array (shared s) = OWNED (queue_elems (shared s))"
    "unat (write_index (shared s)) = length (pushed s)"
    "unat (read_index (shared s)) = length (popped s)"
    "take (length (popped s)) (pushed s) = popped s"
    "shared_ok (unat (queue_size (shared s))) (queue_elems (shared s)) (pushed s)
      (length (popped s)) (unat (max_index (shared s)))"
    "thread_ok (unat (queue_size (shared s))) (queue_elems (shared s)) (pushed s)
      (length (popped s)) (unat (max_index (shared s))) (pcs s i)"
    "ticket (pcs s i) = Some t \<Longrightarrow> ticket (pcs s j) = Some t \<Longrightarrow> i = j"
    "unat (max_index (shared s)) \<le> t \<Longrightarrow> t < length (pushed s) \<Longrightarrow> \<exists>i. ticket (pcs s i) = Some t"
  using assms unfolding cq_inv_def Let_def by blast+

lemma cq_invI:
  assumes "\<And>j k t. ticket (f j) = Some t \<Longrightarrow> ticket (f k) = Some t \<Longrightarrow> j = k"
    and "\<And>t. M \<le> t \<Longrightarrow> t < length lg \<Longrightarrow> \<exists>j. ticket (f j) = Some t"
    and "\<And>j. thread_ok n a lg (length pp) M (f j)"
    and "shared_ok n a lg (length pp) M" and "take (length pp) lg = pp"
    and "pcs s = f" "pushed s = lg" "popped s = pp" "queue_array (shared s) = OWNED a"
    and "unat (queue_size (shared s)) = n" "unat (max_index (shared s)) = M"
    and "unat (write_index (shared s)) = length lg" "unat (read_index (shared s)) = length pp"
  shows "cq_inv s"
proof -
  have el: "queue_elems (shared s) = a" using assms(9) by (simp add: queue_elems_def)
  show ?thesis unfolding cq_inv_def Let_def el assms(6-13)
    using assms(1-5) by blast
qed

lemma cq_inv_bounds:
  assumes "cq_inv s"
  shows "length (queue_elems (shared s)) = unat (queue_size (shared s))"
    "0 < unat (queue_size (shared s))" "length (popped s) \<le> unat (max_index (shared s))"
    "unat (max_index (shared s)) \<le> length (pushed s)"
    "length (pushed s) < length (popped s) + unat (queue_size (shared s))"
    "queue_size (shared s) \<noteq> 0"
  using cq_invD(5) [OF assms] by (auto simp: shared_ok_def)

lemma ticket_upd_ex:
  "\<exists>j. ticket (f j) = Some t \<Longrightarrow> ticket (f i) \<noteq> Some t \<Longrightarrow> \<exists>j. ticket ((f(i := c)) j) = Some t"
  by (metis fun_upd_other)

text \<open>Steps that only move one thread, which holds no ticket before or after.\<close>

lemma cq_inv_goto:
  assumes "cq_inv s" "ticket (pcs s i) = None" "ticket c = None"
    "thread_ok (unat (queue_size (shared s))) (queue_elems (shared s)) (pushed s)
      (length (popped s)) (unat (max_index (shared s))) c"
  shows "cq_inv (goto i c s)"
proof -
  note d = cq_invD [OF assms(1)]
  have cover: "\<exists>j. ticket (((pcs s)(i := c)) j) = Some t"
    if t: "unat (max_index (shared s)) \<le> t" "t < length (pushed s)" for t
    using d(8) [OF t] assms(2) by (intro ticket_upd_ex) simp_all
  have tk: "thread_ok (unat (queue_size (shared s))) (queue_elems (shared s)) (pushed s)
      (length (popped s)) (unat (max_index (shared s))) (((pcs s)(i := c)) j)" for j
    using d(6) [of j] assms(4) by simp
  have dist: "j = k" if "ticket (((pcs s)(i := c)) j) = Some t"
      "ticket (((pcs s)(i := c)) k) = Some t" for j k t
    using that d(7) assms(3) by (auto split: if_splits)
  show ?thesis by (rule cq_invI [OF dist cover tk d(5) d(4)]) (simp_all add: d fun_upd_def)
qed

lemma cq_inv_push_cas:
  assumes inv: "cq_inv s" and i: "pcs s i = PushCas e w" and w: "write_index (shared s) = w"
    and lim: "Suc (length (pushed s)) < 2 ^ 32"
  shows "cq_inv (goto i (PushStore e w)
    (s\<lparr>shared := (shared s)\<lparr>write_index := w + 1\<rparr>, pushed := pushed s @ [e]\<rparr>))"
proof -
  note d = cq_invD [OF inv] and b = cq_inv_bounds [OF inv]
  have wl: "unat w = length (pushed s)" using d(2) w by simp
  have w1: "unat (w + 1) = Suc (length (pushed s))" using lim wl by (simp add: unat_Suc_word)
  have el: "queue_elems (shared s\<lparr>write_index := w + 1\<rparr>) = queue_elems (shared s)"
    by (simp add: queue_elems_def)
  have room: "Suc (unat w) < length (popped s) + unat (queue_size (shared s))"
    using d(6) [of i] i wl lim by simp
  have none: "ticket (pcs s j) \<noteq> Some (length (pushed s))" for j
    using d(6) [of j] by (cases "pcs s j") auto
  have sh: "shared_ok (unat (queue_size (shared s))) (queue_elems (shared s)) (pushed s @ [e])
      (length (popped s)) (unat (max_index (shared s)))"
    using d(5) room wl by (auto simp: shared_ok_def nth_append)
  have cover: "\<exists>j. ticket (((pcs s)(i := PushStore e w)) j) = Some t"
    if "unat (max_index (shared s)) \<le> t" "t < Suc (length (pushed s))" for t
  proof (cases "t = length (pushed s)")
    case True
    then show ?thesis using wl by (intro exI [of _ i]) simp
  next
    case False
    with that have "\<exists>j. ticket (pcs s j) = Some t" by (intro d(8)) auto
    with i show ?thesis by (intro ticket_upd_ex) simp_all
  qed
  have tk: "thread_ok (unat (queue_size (shared s))) (queue_elems (shared s)) (pushed s @ [e])
      (length (popped s)) (unat (max_index (shared s))) (((pcs s)(i := PushStore e w)) j)" for j
    using thread_ok_push [OF b(4) d(6) [of j]] b(4) wl by (auto simp: nth_append)
  have dist: "j = k" if "ticket (((pcs s)(i := PushStore e w)) j) = Some t"
      "ticket (((pcs s)(i := PushStore e w)) k) = Some t" for j k t
    using that none wl d(7) by (auto split: if_splits)
  have pp: "take (length (popped s)) (pushed s @ [e]) = popped s" using d(4) b by simp
  have cover': "\<exists>j. ticket (((pcs s)(i := PushStore e w)) j) = Some t"
    if "unat (max_index (shared s)) \<le> t" "t < length (pushed s @ [e])" for t
    using cover [of t] that by simp
  show ?thesis by (rule cq_invI [OF dist cover' tk sh pp]) (simp_all add: d w1 fun_upd_def)
qed

lemma cq_inv_pop_cas:
  assumes inv: "cq_inv s" and i: "pcs s i = PopCas r d" and r: "read_index (shared s) = r"
  shows "cq_inv (goto i (Returned SUBSTANCE_CONNECTOR_SUCCESS (Some d))
    (s\<lparr>shared := (shared s)\<lparr>read_index := r + 1\<rparr>, popped := popped s @ [d]\<rparr>))"
proof -
  note d = cq_invD [OF inv] and b = cq_inv_bounds [OF inv]
  have rl: "unat r = length (popped s)" using d(3) r by simp
  have rm: "unat r < unat (max_index (shared s))" and dv: "d = pushed s ! unat r"
    using d(6) [of i] i rl by auto
  have "Suc (unat r) < 2 ^ 32" using rm unat_bound [of "max_index (shared s)"] by simp
  then have r1: "unat (r + 1) = Suc (length (popped s))" using rl by (simp add: unat_Suc_word)
  have el: "queue_elems (shared s\<lparr>read_index := r + 1\<rparr>) = queue_elems (shared s)"
    by (simp add: queue_elems_def)
  have sh: "shared_ok (unat (queue_size (shared s))) (queue_elems (shared s)) (pushed s)
      (length (popped s @ [d])) (unat (max_index (shared s)))"
    using d(5) rm rl by (auto simp: shared_ok_def)
  have pp: "take (length (popped s @ [d])) (pushed s) = popped s @ [d]"
    unfolding length_append_singleton using d(4) dv rl rm b(4) by (metis less_le_trans take_Suc_conv_app_nth)
  have tk: "thread_ok (unat (queue_size (shared s))) (queue_elems (shared s)) (pushed s)
      (length (popped s @ [d])) (unat (max_index (shared s)))
      (((pcs s)(i := Returned SUBSTANCE_CONNECTOR_SUCCESS (Some d))) j)" for j
    using thread_ok_pop [OF d(6) [of j]] by simp
  have cover: "\<exists>j. ticket (((pcs s)(i := Returned SUBSTANCE_CONNECTOR_SUCCESS (Some d))) j) = Some t"
    if t: "unat (max_index (shared s)) \<le> t" "t < length (pushed s)" for t
    using d(8) [OF t] i by (intro ticket_upd_ex) simp_all
  have dist: "j = k" if "ticket (((pcs s)(i := Returned SUBSTANCE_CONNECTOR_SUCCESS (Some d))) j) = Some t"
      "ticket (((pcs s)(i := Returned SUBSTANCE_CONNECTOR_SUCCESS (Some d))) k) = Some t" for j k t
    using that d(7) by (auto split: if_splits)
  show ?thesis by (rule cq_invI [OF dist cover tk sh pp]) (simp_all add: d r1 fun_upd_def)
qed

lemma cq_inv_store:
  assumes inv: "cq_inv s" and i: "pcs s i = PushStore e w"
    and k: "convert_to_index w (queue_size (shared s)) = Some k"
    and q: "array_set (shared s) k e = Some q"
  shows "cq_inv (goto i (PushCommit w) (s\<lparr>shared := q\<rparr>))"
proof -
  note d = cq_invD [OF inv] and b = cq_inv_bounds [OF inv]
  let ?n = "unat (queue_size (shared s))" and ?M = "unat (max_index (shared s))"
  let ?a = "(queue_elems (shared s))[unat w mod ?n := e]"
  have uk: "unat k = unat w mod ?n"
    using k b(6) by (auto simp: convert_to_index_def unat_mod_word split: if_splits)
  have q': "q = shared s\<lparr>queue_array := OWNED ?a\<rparr>"
    using q d(1) uk by (auto simp: array_set_def split: option_bind_splits)
  have el: "queue_elems q = ?a" by (simp add: q' queue_elems_def)
  have w: "?M \<le> unat w" "unat w < length (pushed s)" "pushed s ! unat w = e"
    using d(6) [of i] i by auto
  have sh: "shared_ok ?n ?a (pushed s) (length (popped s)) ?M"
    by (rule shared_ok_store [OF d(5) w(1,2)])
  have tk: "thread_ok ?n ?a (pushed s) (length (popped s)) ?M (((pcs s)(i := PushCommit w)) j)" for j
  proof (cases "j = i")
    case True
    then show ?thesis using w b(1,2) by simp
  next
    case False
    then have "ticket (pcs s j) \<noteq> Some (unat w)" using d(7) [of i "unat w" j] i by auto
    with False thread_ok_store [OF d(5) w(1,2) d(6)] show ?thesis by simp
  qed
  have same: "ticket (((pcs s)(i := PushCommit w)) j) = ticket (pcs s j)" for j
    using i by simp
  have dist: "j = k" if "ticket (((pcs s)(i := PushCommit w)) j) = Some t"
      "ticket (((pcs s)(i := PushCommit w)) k) = Some t" for j k t
    using that unfolding same by (rule d(7))
  have cover: "\<exists>j. ticket (((pcs s)(i := PushCommit w)) j) = Some t"
    if "?M \<le> t" "t < length (pushed s)" for t
    using that unfolding same by (rule d(8))
  show ?thesis by (rule cq_invI [OF dist cover tk sh d(4)]) (simp_all add: d q' fun_upd_def)
qed

lemma cq_inv_commit:
  assumes inv: "cq_inv s" and i: "pcs s i = PushCommit w" and m: "max_index (shared s) = w"
  shows "cq_inv (goto i (Returned SUBSTANCE_CONNECTOR_SUCCESS None)
    (s\<lparr>shared := (shared s)\<lparr>max_index := w + 1\<rparr>\<rparr>))"
proof -
  note d = cq_invD [OF inv] and b = cq_inv_bounds [OF inv]
  let ?n = "unat (queue_size (shared s))" and ?a = "queue_elems (shared s)"
  let ?f = "(pcs s)(i := Returned SUBSTANCE_CONNECTOR_SUCCESS None)"
  have w: "unat w < length (pushed s)" "?a ! (unat w mod ?n) = pushed s ! unat w"
    using d(6) [of i] i by auto
  have "Suc (unat w) < 2 ^ 32" using w(1) unat_bound [of "write_index (shared s)"] d(2) by simp
  then have m1: "unat (w + 1) = Suc (unat w)" by (simp add: unat_Suc_word)
  have el: "queue_elems (shared s\<lparr>max_index := w + 1\<rparr>) = ?a" by (simp add: queue_elems_def)
  have sh: "shared_ok ?n ?a (pushed s) (length (popped s)) (Suc (unat w))"
    using d(5) w m by (auto simp: shared_ok_def less_Suc_eq)
  have oth: "ticket (pcs s j) \<noteq> Some (unat w)" if "j \<noteq> i" for j
    using d(7) [of i "unat w" j] i that by auto
  have tk: "thread_ok ?n ?a (pushed s) (length (popped s)) (Suc (unat w)) (?f j)" for j
    using thread_ok_commit [OF d(6) [of j]] oth [of j] m by auto
  have cover: "\<exists>j. ticket (?f j) = Some t" if t: "Suc (unat w) \<le> t" "t < length (pushed s)" for t
    using d(8) [of t] t m i by (intro ticket_upd_ex) auto
  have dist: "j = k" if "ticket (?f j) = Some t" "ticket (?f k) = Some t" for j k t
    using that d(7) by (auto split: if_splits)
  show ?thesis by (rule cq_invI [OF dist cover tk sh d(4)]) (simp_all add: d m1 fun_upd_def)
qed

lemma push_room_test:
  assumes "cq_inv s" "pcs s i = PushTest e w r"
    "convert_to_index (w + 1) (queue_size (shared s)) = Some k"
    "convert_to_index r (queue_size (shared s)) = Some l" "k \<noteq> l"
    "unat w = length (pushed s)" "Suc (unat w) < 2 ^ 32"
  shows "Suc (unat w) < length (popped s) + unat (queue_size (shared s))"
proof -
  let ?n = "unat (queue_size (shared s))"
  have r: "unat r \<le> length (popped s)" "unat r \<le> unat w" "unat w < unat r + ?n"
    using cq_invD(6) [OF assms(1), of i] assms(2,6) by auto
  have "Suc (unat w) mod ?n \<noteq> unat r mod ?n"
    using assms(3-5,7) by (auto simp: convert_to_index_def unat_Suc_word mod_word_eq_iff split: if_splits)
  with r mod_window_full [OF r(2,3)] show ?thesis by linarith
qed

lemma pop_go_test:
  assumes "cq_inv s" "pcs s i = PopTest r m"
    "convert_to_index r (queue_size (shared s)) = Some k"
    "convert_to_index m (queue_size (shared s)) = Some l" "k \<noteq> l"
  shows "unat r < unat (max_index (shared s))"
proof -
  have "r \<noteq> m" using assms(3-5) by auto
  then have "unat r \<noteq> unat m" by (simp add: unat_inject)
  then show ?thesis using cq_invD(6) [OF assms(1), of i] assms(2) by auto
qed

lemma pop_load_value:
  assumes "cq_inv s" "pcs s i = PopLoad r"
    "convert_to_index r (queue_size (shared s)) = Some k" "array_get (shared s) k = Some d"
    "unat r = length (popped s)"
  shows "d = pushed s ! unat r"
proof -
  have uk: "unat k = unat r mod unat (queue_size (shared s))"
    using assms(3) by (auto simp: convert_to_index_def unat_mod_word split: if_splits)
  have "d = queue_elems (shared s) ! (unat r mod unat (queue_size (shared s)))"
    using assms(4) cq_invD(1) [OF assms(1)] uk by (auto simp: array_get_def split: option_bind_splits)
  moreover have "unat r < unat (max_index (shared s))"
    using cq_invD(6) [OF assms(1), of i] assms(2) by auto
  ultimately show ?thesis using cq_invD(5) [OF assms(1)] assms(5) by (auto simp: shared_ok_def)
qed

lemma cq_step_pushed_mono: "cq_step i s t \<Longrightarrow> length (pushed s) \<le> length (pushed t)"
  by (auto elim!: cq_step.cases)

lemma cq_step_inv:
  assumes step: "cq_step i s t" and inv: "cq_inv s" and lim: "length (pushed t) < 2 ^ 32"
  shows "cq_inv t"
  using step
proof cases
  case (push_room e w r k l)
  then show ?thesis
    using push_room_test [OF inv] cq_invD(6) [OF inv, of i] cq_inv_goto [OF inv, of i] by auto
next
  case (push_cas_ok e w w' result)
  then have eq: "write_index (shared s) = w" "w' = w + 1"
    by (auto simp: CONNECTOR_ATOMIC_COMPARE_EXCHANGE_def split: if_splits)
  have "Suc (length (pushed s)) < 2 ^ 32" using lim push_cas_ok(1) by simp
  with cq_inv_push_cas [OF inv push_cas_ok(2) eq(1)] show ?thesis by (simp add: push_cas_ok(1) eq(2))
next
  case (push_store e w k q)
  then show ?thesis using cq_inv_store [OF inv] by simp
next
  case (push_commit_ok w m' result)
  then have eq: "max_index (shared s) = w" "m' = w + 1"
    by (auto simp: CONNECTOR_ATOMIC_COMPARE_EXCHANGE_def split: if_splits)
  with cq_inv_commit [OF inv push_commit_ok(2) eq(1)] show ?thesis by (simp add: push_commit_ok(1) eq(2))
next
  case (pop_go r m k l)
  then show ?thesis
    using pop_go_test [OF inv] cq_invD(6) [OF inv, of i] cq_inv_goto [OF inv, of i] by auto
next
  case (pop_load r k d)
  then show ?thesis
    using pop_load_value [OF inv] cq_invD(6) [OF inv, of i] cq_inv_goto [OF inv, of i] by auto
next
  case (pop_cas_ok r d r' result)
  then have eq: "read_index (shared s) = r" "r' = r + 1"
    by (auto simp: CONNECTOR_ATOMIC_COMPARE_EXCHANGE_def split: if_splits)
  with cq_inv_pop_cas [OF inv pop_cas_ok(2) eq(1)] show ?thesis by (simp add: pop_cas_ok(1) eq(2))
next
  case (push_call e)
  then have "ticket (pcs s i) = None" by (cases "pcs s i") auto
  with push_call show ?thesis using cq_inv_goto [OF inv] by simp
next
  case pop_call
  then have "ticket (pcs s i) = None" by (cases "pcs s i") auto
  with pop_call show ?thesis using cq_inv_goto [OF inv] by simp
qed (use cq_inv_goto [OF inv, of i] cq_invD(2,3) [OF inv] cq_invD(6) [OF inv, of i]
      cq_inv_bounds [OF inv] inv in auto)

lemma cq_reachable_inv: "cq_reachable n s \<Longrightarrow> length (pushed s) < 2 ^ 32 \<Longrightarrow> cq_inv s"
proof (induction rule: cq_reachable.induct)
  case init
  from init(1) show ?case by (rule cq_inv_init)
next
  case (step s i t)
  then have "cq_inv s" using cq_step_pushed_mono [OF step(2)] by simp
  with step show ?case using cq_step_inv by blast
qed

lemma cq_step_size: "cq_step i s t \<Longrightarrow> queue_size (shared t) = queue_size (shared s)"
  by (auto elim!: cq_step.cases simp: array_set_def split: option_bind_splits)

lemma cq_reachable_size: "cq_reachable n s \<Longrightarrow> queue_size (shared s) = n"
  by (induction rule: cq_reachable.induct) (simp_all add: cq_init_def cq_step_size)

section \<open>Running one thread alone\<close>

lemma map_nth_upt_drop: "map ((!) xs) [k..<length xs] = drop k xs"
  by (rule nth_equalityI) simp_all

lemma cq_steps_trans: "cq_step i s t \<Longrightarrow> (cq_step i)\<^sup>*\<^sup>* t u \<Longrightarrow> (cq_step i)\<^sup>*\<^sup>* s u"
  by (rule converse_rtranclp_into_rtranclp)

lemma goto_goto [simp]: "goto i c (goto i d s) = goto i c s"
  by (simp add: goto_def)

lemma goto_shared [simp]:
  "(goto i c s)\<lparr>shared := q\<rparr> = goto i c (s\<lparr>shared := q\<rparr>)"
  "(goto i c s)\<lparr>pushed := l\<rparr> = goto i c (s\<lparr>pushed := l\<rparr>)"
  "(goto i c s)\<lparr>popped := l\<rparr> = goto i c (s\<lparr>popped := l\<rparr>)"
  by (simp_all add: goto_def)

lemma push_alone_test:
  assumes "ready (pcs s i)"
  shows "(cq_step i)\<^sup>*\<^sup>* s (goto i (PushTest e (write_index (shared s)) (read_index (shared s))) s)"
proof -
  have "cq_step i s (goto i (PushStart e) s)" using assms by (rule cq_step.push_call)
  moreover have "cq_step i (goto i (PushStart e) s) (goto i (PushReadR e (write_index (shared s))) s)"
    using cq_step.push_read_w [of "goto i (PushStart e) s" i e] by simp
  moreover have "cq_step i (goto i (PushReadR e (write_index (shared s))) s)
      (goto i (PushTest e (write_index (shared s)) (read_index (shared s))) s)"
    using cq_step.push_read_r [of "goto i (PushReadR e (write_index (shared s))) s" i e] by simp
  ultimately show ?thesis by (meson converse_rtranclp_into_rtranclp rtranclp.rtrancl_refl)
qed

lemma push_alone_commit:
  assumes q1: "array_set ((shared s)\<lparr>write_index := w + 1\<rparr>) slot e = Some q1"
    and w: "write_index (shared s) = w" and slot: "convert_to_index w (queue_size (shared s)) = Some slot"
    and m: "max_index q1 = w"
  shows "(cq_step i)\<^sup>*\<^sup>* (goto i (PushCas e w) s)
    (goto i (Returned SUBSTANCE_CONNECTOR_SUCCESS None)
      (s\<lparr>pushed := pushed s @ [e], shared := q1\<lparr>max_index := w + 1\<rparr>\<rparr>))"
proof -
  let ?s1 = "s\<lparr>shared := (shared s)\<lparr>write_index := w + 1\<rparr>, pushed := pushed s @ [e]\<rparr>"
  let ?s2 = "s\<lparr>pushed := pushed s @ [e], shared := q1\<rparr>"
  have "cq_step i (goto i (PushCas e w) s) (goto i (PushStore e w) ?s1)"
    using cq_step.push_cas_ok [of "goto i (PushCas e w) s" i e w "w + 1" w] w by simp
  moreover have "cq_step i (goto i (PushStore e w) ?s1) (goto i (PushCommit w) ?s2)"
    using cq_step.push_store [of "goto i (PushStore e w) ?s1" i e w slot q1] q1 slot by simp
  moreover have "cq_step i (goto i (PushCommit w) ?s2) (goto i (Returned SUBSTANCE_CONNECTOR_SUCCESS None)
      (s\<lparr>pushed := pushed s @ [e], shared := q1\<lparr>max_index := w + 1\<rparr>\<rparr>))"
    using cq_step.push_commit_ok [of "goto i (PushCommit w) ?s2" i w "w + 1" w] m by simp
  ultimately show ?thesis by (meson converse_rtranclp_into_rtranclp rtranclp.rtrancl_refl)
qed

lemma pop_alone_test:
  assumes "ready (pcs s i)"
  shows "(cq_step i)\<^sup>*\<^sup>* s (goto i (PopTest (read_index (shared s)) (max_index (shared s))) s)"
proof -
  have "cq_step i s (goto i PopStart s)" using assms by (rule cq_step.pop_call)
  moreover have "cq_step i (goto i PopStart s) (goto i (PopReadM (read_index (shared s))) s)"
    using cq_step.pop_read_r [of "goto i PopStart s" i] by simp
  moreover have "cq_step i (goto i (PopReadM (read_index (shared s))) s)
      (goto i (PopTest (read_index (shared s)) (max_index (shared s))) s)"
    using cq_step.pop_read_m [of "goto i (PopReadM (read_index (shared s))) s" i] by simp
  ultimately show ?thesis by (meson converse_rtranclp_into_rtranclp rtranclp.rtrancl_refl)
qed

lemma pop_alone_claim:
  assumes r: "read_index (shared s) = r" and k: "convert_to_index r (queue_size (shared s)) = Some k"
    and d: "array_get (shared s) k = Some d"
  shows "(cq_step i)\<^sup>*\<^sup>* (goto i (PopLoad r) s)
    (goto i (Returned SUBSTANCE_CONNECTOR_SUCCESS (Some d))
      (s\<lparr>shared := (shared s)\<lparr>read_index := r + 1\<rparr>, popped := popped s @ [d]\<rparr>))"
proof -
  have "cq_step i (goto i (PopLoad r) s) (goto i (PopCas r d) s)"
    using cq_step.pop_load [of "goto i (PopLoad r) s" i r k d] k d by simp
  moreover have "cq_step i (goto i (PopCas r d) s) (goto i (Returned SUBSTANCE_CONNECTOR_SUCCESS (Some d))
      (s\<lparr>shared := (shared s)\<lparr>read_index := r + 1\<rparr>, popped := popped s @ [d]\<rparr>))"
    using cq_step.pop_cas_ok [of "goto i (PopCas r d) s" i r d "r + 1" r] r by simp
  ultimately show ?thesis by (meson converse_rtranclp_into_rtranclp rtranclp.rtrancl_refl)
qed

lemma push_alone:
  assumes "ready (pcs s i)"
    and "connector_uint_queue_push (OWNED (shared s)) e = Some (rc, OWNED q)"
  shows "\<exists>t. (cq_step i)\<^sup>*\<^sup>* s t \<and> pcs t i = Returned rc None \<and> shared t = q"
proof -
  let ?q = "shared s" and ?w = "write_index (shared s)"
  let ?t = "goto i (PushTest e ?w (read_index ?q)) s"
  obtain k l where k: "convert_to_index (?w + 1) (queue_size ?q) = Some k"
      and l: "convert_to_index (read_index ?q) (queue_size ?q) = Some l"
    using assms(2) by (auto simp: connector_uint_queue_push_def Let_def split: option_bind_splits)
  show ?thesis
  proof (cases "k = l")
    case True
    then have "cq_step i ?t (goto i (Returned SUBSTANCE_CONNECTOR_ERROR None) s)"
      using cq_step.push_full [of ?t i e ?w "read_index ?q" k] k l by simp
    moreover have "rc = SUBSTANCE_CONNECTOR_ERROR" "q = ?q"
      using assms(2) k l True by (auto simp: connector_uint_queue_push_def Let_def)
    ultimately show ?thesis using push_alone_test [OF assms(1), of e]
      by (intro exI [of _ "goto i (Returned SUBSTANCE_CONNECTOR_ERROR None) s"])
        (auto intro: rtranclp.rtrancl_into_rtrancl)
  next
    case False
    from assms(2) k l False obtain slot q1 where
      slot: "convert_to_index ?w (queue_size ?q) = Some slot" and
      q1: "array_set (?q\<lparr>write_index := ?w + 1\<rparr>) slot e = Some q1" and
      m: "max_index q1 = ?w" and rc: "rc = SUBSTANCE_CONNECTOR_SUCCESS" and
      q: "q = q1\<lparr>max_index := ?w + 1\<rparr>"
      by (auto simp: connector_uint_queue_push_def CONNECTOR_ATOMIC_COMPARE_EXCHANGE_def Let_def
          split: option_bind_splits prod.splits if_splits)
    have "cq_step i ?t (goto i (PushCas e ?w) s)"
      using cq_step.push_room [of ?t i e ?w "read_index ?q" k l] k l False by simp
    with push_alone_test [OF assms(1), of e] push_alone_commit [OF q1 refl slot m, of i]
    have "(cq_step i)\<^sup>*\<^sup>* s (goto i (Returned SUBSTANCE_CONNECTOR_SUCCESS None)
      (s\<lparr>pushed := pushed s @ [e], shared := q1\<lparr>max_index := ?w + 1\<rparr>\<rparr>))"
      by (meson rtranclp.rtrancl_into_rtrancl rtranclp_trans)
    then show ?thesis using rc q
      by (intro exI [of _ "goto i (Returned SUBSTANCE_CONNECTOR_SUCCESS None)
        (s\<lparr>pushed := pushed s @ [e], shared := q1\<lparr>max_index := ?w + 1\<rparr>\<rparr>)"]) simp
  qed
qed

lemma pop_alone:
  assumes "ready (pcs s i)"
    and "connector_uint_queue_pop (OWNED (shared s)) = Some (rc, v, OWNED q)"
  shows "\<exists>t. (cq_step i)\<^sup>*\<^sup>* s t \<and> pcs t i = Returned rc v \<and> shared t = q"
proof -
  let ?q = "shared s" and ?r = "read_index (shared s)" and ?m = "max_index (shared s)"
  let ?t = "goto i (PopTest ?r ?m) s"
  obtain k l where k: "convert_to_index ?r (queue_size ?q) = Some k"
      and l: "convert_to_index ?m (queue_size ?q) = Some l"
    using assms(2) by (auto simp: connector_uint_queue_pop_def Let_def split: option_bind_splits)
  show ?thesis
  proof (cases "k = l")
    case True
    then have "cq_step i ?t (goto i (Returned SUBSTANCE_CONNECTOR_ERROR None) s)"
      using cq_step.pop_empty [of ?t i ?r ?m k] k l by simp
    moreover have "rc = SUBSTANCE_CONNECTOR_ERROR" "v = None" "q = ?q"
      using assms(2) k l True by (auto simp: connector_uint_queue_pop_def Let_def)
    ultimately show ?thesis using pop_alone_test [OF assms(1)]
      by (intro exI [of _ "goto i (Returned SUBSTANCE_CONNECTOR_ERROR None) s"])
        (auto intro: rtranclp.rtrancl_into_rtrancl)
  next
    case False
    from assms(2) k l False obtain d where
      d: "array_get ?q k = Some d" and rc: "rc = SUBSTANCE_CONNECTOR_SUCCESS" and v: "v = Some d" and
      q: "q = ?q\<lparr>read_index := ?r + 1\<rparr>"
      by (auto simp: connector_uint_queue_pop_def Let_def split: option_bind_splits prod.splits)
    have "cq_step i ?t (goto i (PopLoad ?r) s)"
      using cq_step.pop_go [of ?t i ?r ?m k l] k l False by simp
    with pop_alone_test [OF assms(1)] pop_alone_claim [OF refl k d, of i]
    have "(cq_step i)\<^sup>*\<^sup>* s (goto i (Returned SUBSTANCE_CONNECTOR_SUCCESS (Some d))
      (s\<lparr>shared := ?q\<lparr>read_index := ?r + 1\<rparr>, popped := popped s @ [d]\<rparr>))"
      by (meson rtranclp.rtrancl_into_rtrancl rtranclp_trans)
    then show ?thesis using rc q v
      by (intro exI [of _ "goto i (Returned SUBSTANCE_CONNECTOR_SUCCESS (Some d))
        (s\<lparr>shared := ?q\<lparr>read_index := ?r + 1\<rparr>, popped := popped s @ [d]\<rparr>)"]) simp
  qed
qed

lemma cq_can_step:
  assumes inv: "cq_inv s"
  shows "\<exists>t. cq_step i s t"
proof -
  have nz: "queue_size (shared s) \<noteq> 0" using cq_inv_bounds(6) [OF inv] .
  then have conv: "convert_to_index j (queue_size (shared s)) = Some (j mod queue_size (shared s))" for j
    by (simp add: convert_to_index_def)
  have slot: "unat (j mod queue_size (shared s)) < length (queue_elems (shared s))" for j
    using cq_inv_bounds(1,2) [OF inv] by (simp add: unat_mod_word)
  have store: "\<exists>q. array_set (shared s) (j mod queue_size (shared s)) e = Some q" for j e
    using slot cq_invD(1) [OF inv] by (simp add: array_set_def)
  have load: "\<exists>d. array_get (shared s) (j mod queue_size (shared s)) = Some d" for j
    using slot cq_invD(1) [OF inv] by (simp add: array_get_def)
  have start: "\<exists>t. cq_step i s t" if "ready (pcs s i)"
    using cq_step.push_call [OF that] by blast
  show ?thesis
  proof (cases "pcs s i")
    case (PushTest e w r)
    then show ?thesis using cq_step.push_full [OF PushTest] cq_step.push_room [OF PushTest] conv by metis
  next
    case (PushCas e w)
    then show ?thesis using cq_step.push_cas_ok [OF PushCas] cq_step.push_cas_fail [OF PushCas]
      by (metis prod.collapse)
  next
    case (PushStore e w)
    then show ?thesis using cq_step.push_store [OF PushStore conv] store by blast
  next
    case (PushCommit w)
    then show ?thesis using cq_step.push_commit_ok [OF PushCommit] cq_step.push_commit_spin [OF PushCommit]
      by (metis prod.collapse)
  next
    case (PopTest r m)
    then show ?thesis using cq_step.pop_empty [OF PopTest] cq_step.pop_go [OF PopTest] conv by metis
  next
    case (PopLoad r)
    then show ?thesis using cq_step.pop_load [OF PopLoad conv] load by blast
  next
    case (PopCas r d)
    then show ?thesis using cq_step.pop_cas_ok [OF PopCas] cq_step.pop_cas_fail [OF PopCas]
      by (metis prod.collapse)
  qed (use start in \<open>auto intro: cq_step.push_read_w cq_step.push_read_r cq_step.pop_read_r
      cq_step.pop_read_m\<close>)
qed

section \<open>Properties\<close>

text \<open>
  C5: under every interleaving of any number of pushing and popping threads, the elements
  claimed by pops are exactly the first pushed elements in ticket order (none is lost,
  duplicated or reordered), and fewer than \<open>size\<close> elements are outstanding.
\<close>

theorem concurrent_queue_fifo:
  assumes "cq_reachable n s" and "length (pushed s) < 2 ^ 32"
  shows "popped s = take (length (popped s)) (pushed s) \<and>
    length (pushed s) < length (popped s) + unat n"
  using cq_reachable_inv [OF assms] cq_invD(4) cq_inv_bounds(5) cq_reachable_size [OF assms(1)]
  by metis

theorem concurrent_queue_fifo_witness:
  "\<exists>s. cq_reachable 3 s \<and> pushed s = [7] \<and>
     popped s = take (length (popped s)) (pushed s) \<and> length (pushed s) < length (popped s) + 3"
proof -
  let ?s = "goto 0 (PushTest 7 0 0) (cq_init 3)"
  have run: "(cq_step 0)\<^sup>*\<^sup>* (cq_init 3) ?s"
    using push_alone_test [of "cq_init 3" 0 7] by (simp add: cq_init_def)
  have reach: "cq_reachable 3 t" if "(cq_step 0)\<^sup>*\<^sup>* (cq_init 3) t" for t
    using that by (induction rule: rtranclp_induct) (auto intro: cq_reachable.intros)
  have "cq_step 0 ?s (goto 0 (PushCas 7 0) (cq_init 3))"
    using cq_step.push_room [of ?s 0 7 0 0 1 0] by (simp add: cq_init_def convert_to_index_def)
  moreover have "cq_step 0 (goto 0 (PushCas 7 0) (cq_init 3)) (goto 0 (PushStore 7 0)
      (cq_init 3\<lparr>shared := (shared (cq_init 3))\<lparr>write_index := 1\<rparr>, pushed := [7]\<rparr>))"
    using cq_step.push_cas_ok [of "goto 0 (PushCas 7 0) (cq_init 3)" 0 7 0 1 0]
    by (simp add: cq_init_def)
  ultimately have r: "cq_reachable 3 (goto 0 (PushStore 7 0)
      (cq_init 3\<lparr>shared := (shared (cq_init 3))\<lparr>write_index := 1\<rparr>, pushed := [7]\<rparr>))"
    using reach [OF run] by (meson cq_reachable.step)
  have "length [7 :: u32] < 2 ^ 32" by simp
  with concurrent_queue_fifo [OF r] r show ?thesis by (intro exI [of _ "goto 0 (PushStore 7 0)
      (cq_init 3\<lparr>shared := (shared (cq_init 3))\<lparr>write_index := 1\<rparr>, pushed := [7]\<rparr>)"]) simp
qed

text \<open>
  When no operation is in progress the shared structure is a well-formed sequential
  queue whose contents are the pushed elements that were not popped yet, so the
  sequential model is exact between concurrent phases.
\<close>

theorem concurrent_queue_quiescent:
  assumes "cq_reachable n s" and "length (pushed s) < 2 ^ 32" and "\<forall>i. ready (pcs s i)"
  shows "wf_queue (shared s) \<and> queue_contents (shared s) = drop (length (popped s)) (pushed s)"
proof -
  note inv = cq_reachable_inv [OF assms(1,2)]
  note d = cq_invD [OF inv] and b = cq_inv_bounds [OF inv]
  have none: "ticket (pcs s i) = None" for i
    using assms(3) by (cases "pcs s i") (auto dest: spec [of _ i])
  have ml: "unat (max_index (shared s)) = length (pushed s)"
    using d(8) [of "unat (max_index (shared s))"] none b(4) by fastforce
  then have mw: "max_index (shared s) = write_index (shared s)" using d(2) by (simp flip: unat_inject)
  have "queue_contents (shared s) = map ((!) (pushed s)) [length (popped s)..<length (pushed s)]"
    using d(2,3,5) ml by (auto simp: queue_contents_def shared_ok_def)
  also have "\<dots> = drop (length (popped s)) (pushed s)"
    by (simp add: map_nth_upt_drop)
  finally show ?thesis using d b mw by (simp add: wf_queue_def)
qed

theorem concurrent_queue_quiescent_witness:
  "wf_queue (shared (cq_init 3)) \<and> queue_contents (shared (cq_init 3)) = []"
  using concurrent_queue_quiescent [OF cq_reachable.init [of 3]] by (simp add: cq_init_def)

text \<open>
  No thread is ever blocked by a fault. In every reachable state each thread can take
  its next step (no index leaves the array, no division by zero), and a thread that waits
  to commit waits for another thread that holds the ticket at \<open>max_index\<close>.
\<close>

theorem concurrent_queue_progress:
  assumes "cq_reachable n s" and "length (pushed s) < 2 ^ 32"
  shows "(\<exists>t. cq_step i s t) \<and>
    (pcs s i = PushCommit w \<and> max_index (shared s) \<noteq> w \<longrightarrow>
      (\<exists>j. j \<noteq> i \<and> ticket (pcs s j) = Some (unat (max_index (shared s)))))"
proof -
  note inv = cq_reachable_inv [OF assms]
  have "\<exists>j. j \<noteq> i \<and> ticket (pcs s j) = Some (unat (max_index (shared s)))"
    if i: "pcs s i = PushCommit w" "max_index (shared s) \<noteq> w"
  proof -
    have "unat (max_index (shared s)) < length (pushed s)"
      using cq_invD(6) [OF inv, of i] i by auto
    then obtain j where j: "ticket (pcs s j) = Some (unat (max_index (shared s)))"
      using cq_invD(8) [OF inv] by blast
    then have "j \<noteq> i" using i by (auto simp: unat_inject)
    with j show ?thesis by blast
  qed
  then show ?thesis using cq_can_step [OF inv] by blast
qed

theorem concurrent_queue_progress_witness:
  "(\<exists>t. cq_step 0 (cq_init 3) t) \<and> pcs (cq_init 3) 0 \<noteq> PushCommit 0"
  using concurrent_queue_progress [OF cq_reachable.init [of 3], of 0 0] by (simp add: cq_init_def)

text \<open>
  The sequential model is the machine run by one thread. Whenever the sequential push
  or pop returns, the thread that runs the operation alone reaches the return with the
  same code, the same value and the same queue.
\<close>

theorem sequential_model_is_thread_run:
  assumes "ready (pcs s i)"
  shows "(\<forall>e rc q. connector_uint_queue_push (OWNED (shared s)) e = Some (rc, OWNED q) \<longrightarrow>
      (\<exists>t. (cq_step i)\<^sup>*\<^sup>* s t \<and> pcs t i = Returned rc None \<and> shared t = q)) \<and>
    (\<forall>rc v q. connector_uint_queue_pop (OWNED (shared s)) = Some (rc, v, OWNED q) \<longrightarrow>
      (\<exists>t. (cq_step i)\<^sup>*\<^sup>* s t \<and> pcs t i = Returned rc v \<and> shared t = q))"
  using push_alone [OF assms] pop_alone [OF assms] by blast

theorem sequential_model_is_thread_run_witness:
  "\<exists>t q. connector_uint_queue_push (OWNED (shared (cq_init 3))) 7
       = Some (SUBSTANCE_CONNECTOR_SUCCESS, OWNED q) \<and>
     (cq_step 0)\<^sup>*\<^sup>* (cq_init 3) t \<and> pcs t 0 = Returned SUBSTANCE_CONNECTOR_SUCCESS None \<and> shared t = q"
proof -
  have "ready (pcs (cq_init 3) 0)" by (simp add: cq_init_def)
  moreover have "\<exists>q. connector_uint_queue_push (OWNED (shared (cq_init 3))) 7
      = Some (SUBSTANCE_CONNECTOR_SUCCESS, OWNED q)"
    by (simp add: cq_init_def connector_uint_queue_push_def convert_to_index_def array_set_def Let_def)
  ultimately show ?thesis using sequential_model_is_thread_run [of "cq_init 3" 0] by blast
qed

end
