(* ===== verification/String_Utils.thy ===== *)
theory String_Utils
  imports Os_Interface
begin

text \<open>
  C strings in byte blocks and the helpers of \<^verbatim>\<open>string_utils.c\<close>. A \<open>char\<close> array is the
  list of its bytes; a string in it ends at the first zero byte. \<open>cstr\<close> reads the
  string, \<open>strlen\<close> is undefined on a block without a terminator, and \<open>memcpy\<close> is undefined
  when it leaves either block.
\<close>

section \<open>C library operations on blocks\<close>

definition cstr :: "u8 list \<Rightarrow> u8 list" where
  "cstr b = takeWhile (\<lambda>c. c \<noteq> 0) b"

definition strlen :: "u8 list \<Rightarrow> nat option" where
  "strlen b = (if 0 \<in> set b then Some (length (cstr b)) else None)"

definition memcpy :: "u8 list \<Rightarrow> u8 list \<Rightarrow> nat \<Rightarrow> u8 list option" where
  "memcpy dst src n = (if n \<le> length dst \<and> n \<le> length src then Some (take n src @ drop n dst) else None)"

definition c_string :: "u8 list \<Rightarrow> u8 list" where
  "c_string s = s @ [0]"

lemma cstr_no_zero: "0 \<notin> set (cstr b)"
  unfolding cstr_def by (metis (mono_tags, lifting) set_takeWhileD)

lemma strlen_Some_iff: "strlen b = Some n \<longleftrightarrow> 0 \<in> set b \<and> n = length (cstr b)"
  by (auto simp: strlen_def)

lemma cstr_take: "take (length (cstr b)) b = cstr b"
  by (simp add: cstr_def takeWhile_eq_take [symmetric])

lemma cstr_less: "0 \<in> set b \<Longrightarrow> length (cstr b) < length b"
  unfolding cstr_def by (induction b) auto

lemma cstr_terminator: "0 \<in> set b \<Longrightarrow> b ! length (cstr b) = 0"
  unfolding cstr_def by (induction b) auto

lemma cstr_nth: "i < length (cstr b) \<Longrightarrow> cstr b ! i = b ! i"
  by (simp add: cstr_def takeWhile_nth)

lemma cstr_append_zero [simp]: "0 \<notin> set s \<Longrightarrow> cstr (s @ 0 # r) = s"
  by (simp add: cstr_def) (metis (mono_tags, lifting) takeWhile.simps(2) takeWhile_append2 append.right_neutral)

lemma cstr_c_string [simp]: "0 \<notin> set s \<Longrightarrow> cstr (c_string s) = s"
  by (simp add: c_string_def)

lemma strlen_c_string [simp]: "0 \<notin> set s \<Longrightarrow> strlen (c_string s) = Some (length s)"
  by (simp add: strlen_def) (simp add: c_string_def)

lemma take_string: "0 \<in> set b \<Longrightarrow> take (Suc (length (cstr b))) b = c_string (cstr b)"
  by (simp add: take_Suc_conv_app_nth cstr_less cstr_take cstr_terminator c_string_def)

lemma block_split: "0 \<in> set b \<Longrightarrow> \<exists>r. b = cstr b @ 0 # r"
  by (metis append_take_drop_id cstr_less cstr_take cstr_terminator Cons_nth_drop_Suc)

section \<open>The helpers\<close>

text \<open>
  \<^verbatim>\<open>connector_memrchr\<close>: the loop runs the index from \<open>length - 1\<close> down to the beginning; the
  second argument counts the bytes still to look at. Bytes are compared as signed
  characters. The inner option is the result pointer as an offset.
\<close>

fun memrchr_loop :: "u8 list \<Rightarrow> c_int \<Rightarrow> nat \<Rightarrow> nat option option" where
  "memrchr_loop buf c 0 = Some None"
| "memrchr_loop buf c (Suc i) = do {
     guard_ok (i < length buf);
     if scast (buf ! i) = c then Some (Some i) else memrchr_loop buf c i }"

definition connector_memrchr :: "u8 list \<Rightarrow> c_int \<Rightarrow> u64 \<Rightarrow> nat option option" where
  "connector_memrchr buf c len = memrchr_loop buf c (unat len)"

definition connector_strdup ::
    "'w os \<Rightarrow> u8 list cptr \<Rightarrow> 'w \<Rightarrow> (u8 list cptr \<times> 'w) option" where
  "connector_strdup env s w =
     (if s = NULL then Some (NULL, w)
      else do {
        b \<leftarrow> deref s;
        n \<leftarrow> strlen b;
        let len = (of_nat n + 1 :: u64);
        case connector_allocate env len w of
          (None, w1) \<Rightarrow> None
        | (Some dst, w1) \<Rightarrow> do {
            r \<leftarrow> memcpy dst b (unat len);
            Some (OWNED r, w1) } })"

definition connector_strndup ::
    "'w os \<Rightarrow> u8 list cptr \<Rightarrow> u64 \<Rightarrow> 'w \<Rightarrow> (u8 list cptr \<times> 'w) option" where
  "connector_strndup env s n w =
     (if s = NULL then Some (NULL, w)
      else do {
        b \<leftarrow> deref s;
        l \<leftarrow> strlen b;
        let len = (of_nat l + 1 :: u64);
        if n \<le> len then
          (case connector_allocate env n w of
             (None, w1) \<Rightarrow> if n = 0 then Some (NULL, w1) else None
           | (Some dst, w1) \<Rightarrow> do { r \<leftarrow> memcpy dst b (unat n); Some (OWNED r, w1) })
        else
          (case connector_allocate env (n + 1) w of
             (None, w1) \<Rightarrow> None
           | (Some dst, w1) \<Rightarrow> do {
               r \<leftarrow> memcpy dst b (unat n);
               guard_ok (unat n < length r);
               Some (OWNED (r[unat n := 0]), w1) }) })"

text \<open>\<^verbatim>\<open>connector_chomp\<close>: the amount and the block after the writes.\<close>

fun chomp_loop :: "u8 list \<Rightarrow> u8 \<Rightarrow> nat \<Rightarrow> u64 \<Rightarrow> u64 \<times> u8 list" where
  "chomp_loop s delim 0 amount = (amount, s)"
| "chomp_loop s delim (Suc i) amount =
     (if s ! i = delim then chomp_loop (s[i := 0]) delim i (amount + 1) else (amount, s))"

definition connector_chomp :: "u8 list \<Rightarrow> u8 \<Rightarrow> (u64 \<times> u8 list) option" where
  "connector_chomp s delim = do { n \<leftarrow> strlen s; Some (chomp_loop s delim n 0) }"

text \<open>
  \<^verbatim>\<open>connector_untrusted_strlen\<close>; \<open>want\<close> tells whether the \<open>length\<close> pointer is there, the
  second component is what is stored through it.
\<close>

definition connector_untrusted_strlen ::
    "u8 list \<Rightarrow> u64 \<Rightarrow> bool \<Rightarrow> (substance_connector_error \<times> u64 option) option" where
  "connector_untrusted_strlen buf len want = do {
     found \<leftarrow> connector_memrchr buf 0 len;
     case found of
       Some i \<Rightarrow> if want then Some (SUBSTANCE_CONNECTOR_SUCCESS, Some (of_nat i))
                 else Some (SUBSTANCE_CONNECTOR_ERROR, None)
     | None \<Rightarrow> Some (SUBSTANCE_CONNECTOR_ERROR, None) }"

section \<open>Reverse search\<close>

lemma memrchr_loop_spec:
  assumes "n \<le> length buf"
  shows "memrchr_loop buf c n =
    Some (if \<exists>i<n. scast (buf ! i) = c then Some (GREATEST i. i < n \<and> scast (buf ! i) = c) else None)"
  using assms
proof (induction n)
  case 0
  then show ?case by simp
next
  case (Suc n)
  show ?case
  proof (cases "scast (buf ! n) = c")
    case True
    then have "(GREATEST i. i < Suc n \<and> scast (buf ! i) = c) = n"
      by (intro Greatest_equality) auto
    with True Suc.prems show ?thesis by auto
  next
    case False
    then have "(i < Suc n \<and> scast (buf ! i) = c) = (i < n \<and> scast (buf ! i) = c)" for i
      by (auto simp: less_Suc_eq)
    with False Suc show ?thesis by simp
  qed
qed

lemma scast_zero_iff [simp]: "(scast (x :: u8) :: c_int) = 0 \<longleftrightarrow> x = 0"
proof -
  have "sint (scast x :: c_int) = sint x" by (rule sint_up_scast) (simp add: is_up)
  then show ?thesis by (metis signed_eq_0_iff)
qed

section \<open>Duplicates\<close>

lemma allocate_exact:
  assumes "allocator_succeeds env"
  obtains d w' where "connector_allocate env n w = (Some d, w')" "length d = unat n"
  using connector_allocate_ok [OF assms] by blast

lemma strdup_result:
  assumes "allocator_succeeds env" "deref p = Some b" "0 \<in> set b" "length b < 2 ^ 64"
  shows "\<exists>w'. connector_strdup env p w = Some (OWNED (c_string (cstr b)), w')"
proof -
  have l: "length (cstr b) < length b" using assms(3) by (rule cstr_less)
  then have u: "unat (of_nat (length (cstr b)) + 1 :: u64) = Suc (length (cstr b))"
    using assms(4) by (simp add: unat_word_ariths unat_of_nat)
  obtain d w' where d: "connector_allocate env (of_nat (length (cstr b)) + 1) w = (Some d, w')"
      "length d = Suc (length (cstr b))"
    using allocate_exact [OF assms(1)] u by metis
  have "p \<noteq> NULL" using assms(2) by auto
  then show ?thesis
    using assms(2,3) d u l
    by (simp add: connector_strdup_def strlen_def memcpy_def Let_def take_string)
qed

section \<open>Chomp\<close>

text \<open>\<open>strip_end d s\<close>: the string without the run of \<open>d\<close> at its end.\<close>

definition strip_end :: "'a \<Rightarrow> 'a list \<Rightarrow> 'a list" where
  "strip_end d s = rev (dropWhile (\<lambda>c. c = d) (rev s))"

lemma strip_end_snoc:
  "strip_end d (s @ [c]) = (if c = d then strip_end d s else s @ [c])"
  by (simp add: strip_end_def)

lemma strip_end_length: "length (strip_end d s) \<le> length s"
  using length_dropWhile_le [of "\<lambda>c. c = d" "rev s"] by (simp add: strip_end_def)

lemma chomp_loop_spec:
  "chomp_loop (s @ r) d (length s) a =
     (a + of_nat (length s - length (strip_end d s)),
      strip_end d s @ replicate (length s - length (strip_end d s)) 0 @ r)"
proof (induction s arbitrary: r a rule: rev_induct)
  case Nil
  then show ?case by (simp add: strip_end_def)
next
  case (snoc c s)
  show ?case
  proof (cases "c = d")
    case True
    have "chomp_loop ((s @ [c]) @ r) d (length (s @ [c])) a = chomp_loop (s @ 0 # r) d (length s) (a + 1)"
      using True by (simp add: nth_append list_update_append)
    also have "\<dots> = (a + 1 + of_nat (length s - length (strip_end d s)),
        strip_end d s @ replicate (length s - length (strip_end d s)) 0 @ 0 # r)"
      by (rule snoc.IH)
    finally show ?thesis using True strip_end_length [of d s]
      by (simp add: strip_end_snoc Suc_diff_le replicate_app_Cons_same)
  next
    case False
    then show ?thesis by (simp add: strip_end_snoc nth_append)
  qed
qed

section \<open>Properties\<close>

text \<open>
  \<open>connector_chomp\<close> removes exactly the run of the delimiter at the end of the string,
  returns its length, and writes only zero bytes over that run: the rest of the block is
  unchanged.
\<close>

theorem chomp_strips_delimiter:
  assumes "0 \<in> set b"
  shows "\<exists>n b'. connector_chomp b d = Some (of_nat n, b') \<and>
    cstr b' = strip_end d (cstr b) \<and> n = length (cstr b) - length (cstr b') \<and>
    length b' = length b \<and> drop (length (cstr b)) b' = drop (length (cstr b)) b"
proof -
  let ?s = "cstr b" and ?t = "strip_end d (cstr b)"
  obtain r where b: "b = ?s @ 0 # r" using block_split [OF assms] by blast
  let ?b' = "?t @ replicate (length ?s - length ?t) 0 @ 0 # r"
  have "chomp_loop b d (length ?s) 0 = (of_nat (length ?s - length ?t), ?b')"
    by (subst (1) b) (simp only: chomp_loop_spec add_0)
  then have run: "connector_chomp b d = Some (of_nat (length ?s - length ?t), ?b')"
    using assms by (simp add: connector_chomp_def strlen_def)
  have "0 \<notin> set ?t" using cstr_no_zero [of b] set_dropWhileD by (fastforce simp: strip_end_def)
  then have "cstr ?b' = ?t"
    by (cases "length ?s - length ?t") simp_all
  moreover have "length ?b' = length b"
    using strip_end_length [of d ?s] arg_cong [OF b, of length] by simp
  moreover have "drop (length ?s) ?b' = drop (length ?s) b"
    using strip_end_length [of d ?s] by (subst (4) b) simp
  ultimately show ?thesis using run
    by (intro exI [of _ "length ?s - length ?t"] exI [of _ ?b']) simp
qed

theorem chomp_strips_delimiter_witness:
  "\<exists>n b'. connector_chomp [47, 97, 47, 47, 0, 9] 47 = Some (of_nat n, b') \<and>
    cstr b' = [47, 97] \<and> n = 2 \<and> length b' = 6"
  using chomp_strips_delimiter [of "[47, 97, 47, 47, 0, 9]" 47]
  by (auto simp: cstr_def strip_end_def)

text \<open>
  \<open>connector_strndup\<close> does not do what its terminator comment says. Asked for fewer
  characters than the string has, it returns a block with no terminator at all, on which
  \<open>strlen\<close> is undefined; asked for more than the source block holds, it reads outside it.
\<close>

theorem strndup_unterminated:
  assumes "allocator_succeeds env" and "0 \<in> set b" and "length b < 2 ^ 64"
  shows "(unat n \<le> length (cstr b) \<longrightarrow>
      (\<exists>r w'. connector_strndup env (OWNED b) n w = Some (OWNED r, w') \<and>
        r = take (unat n) (cstr b) \<and> strlen r = None)) \<and>
    (length b < unat n \<longrightarrow> connector_strndup env (OWNED b) n w = None)"
proof -
  let ?l = "length (cstr b)"
  have l: "?l < length b" using assms(2) by (rule cstr_less)
  have u: "unat (of_nat ?l + 1 :: u64) = Suc ?l"
    using l assms(3) by (simp add: unat_word_ariths unat_of_nat)
  have short: "n \<le> of_nat ?l + 1" if "unat n \<le> ?l"
    using that u by (simp add: word_le_nat_alt)
  have long: "\<not> n \<le> of_nat ?l + 1" if "length b < unat n"
    using that u l by (simp add: word_le_nat_alt)
  obtain d w1 where d: "connector_allocate env n w = (Some d, w1)" "length d = unat n"
    by (rule allocate_exact [OF assms(1)])
  obtain e w2 where e: "connector_allocate env (n + 1) w = (Some e, w2)"
    by (rule allocate_exact [OF assms(1)])
  have "take (unat n) b = take (unat n) (cstr b)" if "unat n \<le> ?l"
    using that by (metis cstr_take min.absorb1 take_take)
  moreover have "strlen (take (unat n) (cstr b)) = None"
    using cstr_no_zero [of b] by (auto simp: strlen_def dest: in_set_takeD)
  ultimately show ?thesis using assms(2) d e l short long
    by (simp add: connector_strndup_def strlen_def [of b] memcpy_def Let_def)
qed

theorem strndup_unterminated_witness:
  "(\<exists>r w'. connector_strndup sample_os (OWNED [97, 98, 0]) 1 [] = Some (OWNED r, w') \<and>
      r = [97] \<and> strlen r = None) \<and>
   connector_strndup sample_os (OWNED [97, 98, 0]) 9 [] = None"
  using strndup_unterminated [of sample_os "[97, 98, 0]" 1 "[]"]
    strndup_unterminated [of sample_os "[97, 98, 0]" 9 "[]"]
  by (simp add: cstr_def)

text \<open>
  \<open>connector_untrusted_strlen\<close> never reads outside a buffer of the given length; it fails
  exactly on a buffer with no zero byte, and what it reports is the position of a zero
  byte at or after the end of the string: an upper bound of the string length, equal to it
  only when no zero byte follows.
\<close>

theorem untrusted_strlen_bounds:
  assumes "unat len \<le> length buf"
  shows "if 0 \<in> set (take (unat len) buf)
    then \<exists>i. connector_untrusted_strlen buf len True = Some (SUBSTANCE_CONNECTOR_SUCCESS, Some (of_nat i)) \<and>
      length (cstr buf) \<le> i \<and> i < unat len \<and> buf ! i = 0 \<and> (\<forall>j. i < j \<and> j < unat len \<longrightarrow> buf ! j \<noteq> 0)
    else connector_untrusted_strlen buf len True = Some (SUBSTANCE_CONNECTOR_ERROR, None)"
proof (cases "0 \<in> set (take (unat len) buf)")
  case True
  let ?P = "\<lambda>i. i < unat len \<and> buf ! i = 0"
  let ?i = "GREATEST i. ?P i"
  from True obtain k where k: "?P k" using assms by (auto simp: in_set_conv_nth)
  have i: "?P ?i" by (rule GreatestI_nat [where P = ?P and b = "unat len", OF k]) simp
  have max: "j \<le> ?i" if "?P j" for j
    by (rule Greatest_le_nat [where P = ?P and b = "unat len", OF that]) simp
  have "connector_untrusted_strlen buf len True = Some (SUBSTANCE_CONNECTOR_SUCCESS, Some (of_nat ?i))"
    using k by (auto simp: connector_untrusted_strlen_def connector_memrchr_def memrchr_loop_spec [OF assms])
  moreover have "length (cstr buf) \<le> ?i"
  proof (rule ccontr)
    assume "\<not> length (cstr buf) \<le> ?i"
    then have lt: "?i < length (cstr buf)" by simp
    have "cstr buf ! ?i \<in> set (cstr buf)" by (rule nth_mem [OF lt])
    then show False using i cstr_nth [OF lt] cstr_no_zero [of buf] by simp
  qed
  moreover have "\<forall>j. ?i < j \<and> j < unat len \<longrightarrow> buf ! j \<noteq> 0" using max leD by blast
  ultimately show ?thesis unfolding if_P [OF True] using i by (intro exI [of _ ?i] conjI) simp_all
next
  case False
  then have "\<not> (\<exists>i<unat len. buf ! i = 0)" using assms by (auto simp: in_set_conv_nth)
  with False show ?thesis
    by (simp add: connector_untrusted_strlen_def connector_memrchr_def memrchr_loop_spec [OF assms])
qed

theorem untrusted_strlen_bounds_witness:
  "\<exists>i. connector_untrusted_strlen [97, 0, 98, 0, 99] 5 True
        = Some (SUBSTANCE_CONNECTOR_SUCCESS, Some (of_nat i)) \<and> 1 \<le> i \<and> i < 5"
  using untrusted_strlen_bounds [of 5 "[97, 0, 98, 0, 99]"] by (auto simp: cstr_def)

end
