(* ===== verification/String_Map.thy ===== *)
theory String_Map
  imports String_Utils
begin

text \<open>
  The string map of \<^verbatim>\<open>string_map.c\<close> on a 64-bit machine: the hash function, the table and its
  operations. No other part of the library uses the map; its insertion stores nothing.
\<close>

section \<open>Hashing\<close>

definition CONNECTOR_FNV_OFFSET_BASIS :: u64 where "CONNECTOR_FNV_OFFSET_BASIS = 0xcbf29ce484222325"
definition CONNECTOR_FNV_PRIME :: u64 where "CONNECTOR_FNV_PRIME = 0x100000001b3"
definition CONNECTOR_MAP_BUCKET_SIZE :: u64 where "CONNECTOR_MAP_BUCKET_SIZE = 512"

text \<open>The characters are signed: a byte is sign-extended before it enters the hash.\<close>

definition fnv1a_step :: "u64 \<Rightarrow> u8 \<Rightarrow> u64" where
  "fnv1a_step hash c = (hash XOR scast c) * CONNECTOR_FNV_PRIME"

definition compute_fnv1a_hash :: "u8 list \<Rightarrow> u64 option" where
  "compute_fnv1a_hash str = do {
     n \<leftarrow> strlen str;
     Some (foldl fnv1a_step CONNECTOR_FNV_OFFSET_BASIS (take n str)) }"

definition hash_to_index :: "u64 \<Rightarrow> u64 \<Rightarrow> u64 option" where
  "hash_to_index hashcode len = (if len = 0 then None else Some (hashcode mod len))"

section \<open>The table\<close>

text \<open>Keys and entries are the two halves of one block.\<close>

record connector_string_map =
  map_keys :: "u8 list cptr list"
  map_entries :: "u8 list cptr list"
  bucket_size :: u64

definition connector_string_map_init :: "'w os \<Rightarrow> 'w \<Rightarrow> (connector_string_map cptr \<times> 'w) option" where
  "connector_string_map_init env w =
     (case connector_allocate env 24 w of
        (None, w1) \<Rightarrow> Some (NULL, w1)
      | (Some _, w1) \<Rightarrow>
          (case connector_allocate env (2 * 8 * CONNECTOR_MAP_BUCKET_SIZE) w1 of
             (None, w2) \<Rightarrow> None
           | (Some _, w2) \<Rightarrow> Some (OWNED \<lparr>map_keys = replicate 512 NULL, map_entries = replicate 512 NULL,
               bucket_size = CONNECTOR_MAP_BUCKET_SIZE\<rparr>, w2)))"

text \<open>The loop of the destructor releases the keys only.\<close>

fun release_keys :: "u8 list cptr list \<Rightarrow> unit option" where
  "release_keys [] = Some ()"
| "release_keys (k # ks) = do { _ \<leftarrow> connector_free k; release_keys ks }"

definition connector_string_map_destroy ::
    "connector_string_map cptr \<Rightarrow> (substance_connector_error \<times> connector_string_map cptr) option" where
  "connector_string_map_destroy p =
     (if p \<noteq> NULL then do {
        m \<leftarrow> deref p;
        guard_ok (unat (bucket_size m) \<le> length (map_keys m) \<and> unat (bucket_size m) \<le> length (map_entries m));
        release_keys (take (unat (bucket_size m)) (map_keys m));
        p' \<leftarrow> connector_free p;
        Some (SUBSTANCE_CONNECTOR_SUCCESS, p') }
      else Some (SUBSTANCE_CONNECTOR_ERROR, p))"

text \<open>\<^verbatim>\<open>connector_string_map_insert\<close> computes the slot and returns without storing anything.\<close>

definition connector_string_map_insert ::
    "connector_string_map cptr \<Rightarrow> u8 list cptr \<Rightarrow> u8 list cptr \<Rightarrow>
      (u32 \<times> connector_string_map cptr) option" where
  "connector_string_map_insert p key val = do {
     k \<leftarrow> deref key;
     hashcode \<leftarrow> compute_fnv1a_hash k;
     m \<leftarrow> deref p;
     _ \<leftarrow> hash_to_index hashcode (bucket_size m);
     Some (0, p) }"

definition connector_string_map_search ::
    "'w os \<Rightarrow> connector_string_map cptr \<Rightarrow> u8 list cptr \<Rightarrow> 'w \<Rightarrow> (u8 list cptr \<times> 'w) option" where
  "connector_string_map_search env p key w =
     (if key \<noteq> NULL \<and> p \<noteq> NULL then do {
        k \<leftarrow> deref key;
        hashcode \<leftarrow> compute_fnv1a_hash k;
        m \<leftarrow> deref p;
        hash \<leftarrow> hash_to_index hashcode (bucket_size m);
        guard_ok (unat hash < length (map_keys m) \<and> unat hash < length (map_entries m));
        let stored = map_keys m ! unat hash;
        if stored = NULL then Some (NULL, w)
        else do {
          s \<leftarrow> deref stored;
          _ \<leftarrow> strlen s;
          if cstr s = cstr k then connector_strdup env (map_entries m ! unat hash) w
          else Some (NULL, w) } }
      else Some (NULL, w))"

section \<open>Properties\<close>

definition wf_map :: "connector_string_map \<Rightarrow> bool" where
  "wf_map m \<longleftrightarrow> 0 < bucket_size m \<and> length (map_keys m) = unat (bucket_size m) \<and>
     length (map_entries m) = unat (bucket_size m)"

lemma slot_in_table:
  assumes "wf_map m"
  shows "\<exists>i. hash_to_index h (bucket_size m) = Some i \<and> unat i < length (map_keys m) \<and> unat i < length (map_entries m)"
  using assms by (auto simp: wf_map_def hash_to_index_def unat_mod_word unat_gt_0)

lemma init_map:
  assumes "connector_string_map_init env w = Some (OWNED m, w')"
  shows "wf_map m" "set (map_keys m) = {NULL}"
  using assms by (auto simp: connector_string_map_init_def wf_map_def CONNECTOR_MAP_BUCKET_SIZE_def
      split: prod.splits option.splits)

lemma release_null_keys: "set ks \<subseteq> {NULL} \<Longrightarrow> release_keys ks = Some ()"
  by (induction ks) auto

text \<open>
  The table is memory safe but not a map. On a table made by the initialiser every
  insertion of a terminated key returns zero and changes nothing, every search stays inside
  the table and returns NULL, also for a key just inserted, and destruction releases the
  table without a fault.
\<close>

theorem string_map_stores_nothing:
  assumes "connector_string_map_init env w = Some (OWNED m, w')"
    and "deref key = Some k" and "0 \<in> set k"
  shows "connector_string_map_insert (OWNED m) key val = Some (0, OWNED m) \<and>
    connector_string_map_search env (OWNED m) key v = Some (NULL, v) \<and>
    connector_string_map_destroy (OWNED m) = Some (SUBSTANCE_CONNECTOR_SUCCESS, DANGLING)"
proof -
  note i = init_map [OF assms(1)]
  obtain h where h: "compute_fnv1a_hash k = Some h" using assms(3) by (simp add: compute_fnv1a_hash_def strlen_def)
  obtain j where j: "hash_to_index h (bucket_size m) = Some j" "unat j < length (map_keys m)"
      "unat j < length (map_entries m)"
    using slot_in_table [OF i(1)] by blast
  have "map_keys m ! unat j = NULL" using i(2) j(2) nth_mem by blast
  moreover have "release_keys (take (unat (bucket_size m)) (map_keys m)) = Some ()"
    using i(2) by (intro release_null_keys) (auto dest: in_set_takeD)
  moreover have "key \<noteq> NULL" using assms(2) by auto
  ultimately show ?thesis using assms(2) h j i(1)
    by (simp add: connector_string_map_insert_def connector_string_map_search_def
        connector_string_map_destroy_def wf_map_def)
qed

theorem string_map_stores_nothing_witness:
  "\<exists>m w'. connector_string_map_init sample_os [] = Some (OWNED m, w') \<and>
     connector_string_map_insert (OWNED m) (BORROWED [97, 0]) (BORROWED [98, 0]) = Some (0, OWNED m) \<and>
     connector_string_map_search sample_os (OWNED m) (BORROWED [97, 0]) [] = Some (NULL, [])"
proof -
  have "\<exists>m w'. connector_string_map_init sample_os [] = Some (OWNED m, w')"
    by (simp add: connector_string_map_init_def connector_allocate_def sample_os_def)
  then obtain m w' where m: "connector_string_map_init sample_os [] = Some (OWNED m, w')" by blast
  with string_map_stores_nothing [OF m, of "BORROWED [97, 0]" "[97, 0]" "BORROWED [98, 0]" "[]"] show ?thesis by simp
qed

end
