(* ===== verification/Uuid_Utils.thy ===== *)
theory Uuid_Utils
  imports Connector_Prelude
begin

text \<open>
  The 128-bit identifiers of \<^verbatim>\<open>types.h\<close>, their comparison (\<^verbatim>\<open>uuid_utils.c\<close>) and the
  identifiers of the internal messages (\<^verbatim>\<open>internal_uuids.c\<close>). The comparison is shown to
  be a linear order, and the type is an instance of \<open>linorder\<close> with it.
\<close>

text \<open>\<^verbatim>\<open>substance_connector_uuid_t\<close>, an array of four words.\<close>

datatype substance_connector_uuid = UUID u32 u32 u32 u32

fun elements :: "substance_connector_uuid \<Rightarrow> u32 list" where
  "elements (UUID a b c d) = [a, b, c, d]"

text \<open>The loop of \<^verbatim>\<open>connector_compare_uuid\<close> over the two arrays, with its early exits.\<close>

fun compare_elements :: "u32 list \<Rightarrow> u32 list \<Rightarrow> int" where
  "compare_elements (x # xs) (y # ys) =
     (if x < y then -1 else if x > y then 1 else compare_elements xs ys)"
| "compare_elements _ _ = 0"

definition connector_compare_uuid ::
    "substance_connector_uuid \<Rightarrow> substance_connector_uuid \<Rightarrow> int" where
  "connector_compare_uuid id0 id1 = compare_elements (elements id0) (elements id1)"

definition connector_internal_handshake_uuid :: substance_connector_uuid where
  "connector_internal_handshake_uuid = UUID 0x02572bc5 0x2d84450a 0x9e01d22c 0x66b1abb1"

definition connector_internal_connection_closed_uuid :: substance_connector_uuid where
  "connector_internal_connection_closed_uuid = UUID 0x04705ddf 0x16d44489 0xaf6c6e3a 0x93f1959d"

definition connector_internal_log_uuid :: substance_connector_uuid where
  "connector_internal_log_uuid = UUID 0x3f7fa3ce 0x164c4661 0x8bb6b8c4 0xea80c93b"

section \<open>The comparison as a linear order\<close>

lemma compare_elements_eq_0:
  "length xs = length ys \<Longrightarrow> compare_elements xs ys = 0 \<longleftrightarrow> xs = ys"
  by (induction xs ys rule: compare_elements.induct) auto

lemma compare_elements_antisym: "compare_elements ys xs = - compare_elements xs ys"
  by (induction xs ys rule: compare_elements.induct) auto

lemma compare_elements_cases: "compare_elements xs ys \<in> {-1, 0, 1}"
  by (induction xs ys rule: compare_elements.induct) auto

lemma compare_elements_trans:
  assumes "length xs = length ys" "length ys = length zs"
    "compare_elements xs ys \<le> 0" "compare_elements ys zs \<le> 0"
  shows "compare_elements xs zs \<le> 0"
  using assms
proof (induction xs ys arbitrary: zs rule: compare_elements.induct)
  case (1 x xs y ys)
  then obtain z zs' where z: "zs = z # zs'" by (cases zs) auto
  show ?case using 1 by (auto simp: z split: if_splits)
qed auto

lemma length_elements [simp]: "length (elements u) = 4"
  by (cases u) simp

lemma elements_inject: "elements u = elements v \<longleftrightarrow> u = v"
  by (cases u; cases v) simp

instantiation substance_connector_uuid :: linorder
begin

definition less_eq_substance_connector_uuid ::
    "substance_connector_uuid \<Rightarrow> substance_connector_uuid \<Rightarrow> bool" where
  "u \<le> v \<longleftrightarrow> connector_compare_uuid u v \<le> 0"

definition less_substance_connector_uuid ::
    "substance_connector_uuid \<Rightarrow> substance_connector_uuid \<Rightarrow> bool" where
  "u < v \<longleftrightarrow> connector_compare_uuid u v < 0"

instance
proof
  fix u v z :: substance_connector_uuid
  note defs = less_eq_substance_connector_uuid_def less_substance_connector_uuid_def
    connector_compare_uuid_def
  show "u < v \<longleftrightarrow> u \<le> v \<and> \<not> v \<le> u"
    by (auto simp: defs compare_elements_antisym [of "elements v"])
  show "u \<le> u" using compare_elements_eq_0 [of "elements u" "elements u"] by (simp add: defs)
  show "u \<le> v \<Longrightarrow> v \<le> z \<Longrightarrow> u \<le> z"
    using compare_elements_trans [of "elements u" "elements v" "elements z"] by (simp add: defs)
  show "u \<le> v \<Longrightarrow> v \<le> u \<Longrightarrow> u = v"
    using compare_elements_eq_0 [of "elements u" "elements v"]
    by (simp add: defs compare_elements_antisym [of "elements v" "elements u"] elements_inject)
  show "u \<le> v \<or> v \<le> u"
    by (simp add: defs compare_elements_antisym [of "elements v" "elements u"]) linarith
qed

end

lemma compare_uuid_eq_0 [simp]: "connector_compare_uuid u v = 0 \<longleftrightarrow> u = v"
  using compare_elements_eq_0 [of "elements u" "elements v"]
  by (simp add: connector_compare_uuid_def elements_inject)

section \<open>Identifiers as numbers\<close>

definition uuid_number :: "substance_connector_uuid \<Rightarrow> int" where
  "uuid_number u = foldl (\<lambda>n e. n * 2 ^ 32 + uint e) 0 (elements u)"

lemma digit_less_int:
  fixes x y a b :: int
  assumes "0 \<le> x" "x < 4294967296" "0 \<le> y" "y < 4294967296"
  shows "a * 4294967296 + x < b * 4294967296 + y \<longleftrightarrow> a < b \<or> a = b \<and> x < y"
proof (cases a b rule: linorder_cases)
  case less
  then have "(a + 1) * 4294967296 \<le> b * 4294967296" by simp
  with less assms show ?thesis by simp
next
  case greater
  then have "(b + 1) * 4294967296 \<le> a * 4294967296" by simp
  with greater assms show ?thesis by simp
qed simp

lemma digit_less:
  fixes x y :: u32
  shows "a * 2 ^ 32 + uint x < b * 2 ^ 32 + uint y \<longleftrightarrow> a < b \<or> a = b \<and> x < y"
  using digit_less_int [of "uint x" "uint y" a b] uint_lt2p [of x] uint_lt2p [of y]
  by (simp add: word_less_def)

lemma compare_elements_number:
  assumes "length xs = length ys"
  shows "sgn (foldl (\<lambda>n (e :: u32). n * 2 ^ 32 + uint e) a xs - foldl (\<lambda>n e. n * 2 ^ 32 + uint e) b ys)
    = (if a < b then -1 else if b < a then 1 else compare_elements xs ys)"
  using assms
proof (induction xs ys arbitrary: a b rule: list_induct2)
  case Nil
  then show ?case by auto
next
  case (Cons x xs y ys)
  then show ?case using digit_less [of a x b y] digit_less [of b y a x] by auto
qed

text \<open>
  The comparison is the three-way comparison of the identifiers read as 128-bit
  big-endian numbers, so its result is always -1, 0 or 1, zero only on equal identifiers,
  and it is negated when the arguments are swapped.
\<close>

theorem compare_uuid_is_number_order:
  "connector_compare_uuid u v = sgn (uuid_number u - uuid_number v) \<and>
   (connector_compare_uuid u v = 0 \<longleftrightarrow> u = v) \<and>
   connector_compare_uuid v u = - connector_compare_uuid u v"
  using compare_elements_number [of "elements u" "elements v" 0 0]
    compare_elements_antisym [of "elements v" "elements u"]
  by (simp add: uuid_number_def connector_compare_uuid_def [of u v, symmetric])
    (simp add: connector_compare_uuid_def)

end
