(* ===== verification/Message.thy ===== *)
theory Message
  imports String_Utils Uuid_Utils
begin

text \<open>
  Message headers (\<^verbatim>\<open>message_header.h\<close>), messages (\<^verbatim>\<open>message.h\<close>, \<^verbatim>\<open>message.c\<close>) and the
  conversion of headers between host and network byte order (\<^verbatim>\<open>connection_utils.c\<close>).

  The host is little-endian with the usual alignment: a header takes 24 bytes, with two
  padding bytes after the description. A structure in memory is its byte image.
\<close>

section \<open>Headers and messages\<close>

record connector_message_header =
  description :: u16
  message_length :: u32
  message_id :: substance_connector_uuid

definition CONNECTOR_MESSAGE_IDENTIFIER :: u16 where
  "CONNECTOR_MESSAGE_IDENTIFIER = 0x03c9"

definition CONNECTOR_INTERNAL_IDENTIFIER :: u16 where
  "CONNECTOR_INTERNAL_IDENTIFIER = 0x03db"

definition CONNECTOR_HEADER_R1 :: u16 where
  "CONNECTOR_HEADER_R1 = 0"

definition CONNECTOR_IDENTIFY_MESSAGE :: "u16 \<Rightarrow> bool" where
  "CONNECTOR_IDENTIFY_MESSAGE x \<longleftrightarrow>
     (x AND 0x0fff) AND CONNECTOR_MESSAGE_IDENTIFIER = CONNECTOR_MESSAGE_IDENTIFIER"

definition CONNECTOR_IDENTIFY_INTERNAL :: "u16 \<Rightarrow> bool" where
  "CONNECTOR_IDENTIFY_INTERNAL x \<longleftrightarrow>
     (x AND 0x0fff) AND CONNECTOR_INTERNAL_IDENTIFIER = CONNECTOR_INTERNAL_IDENTIFIER"

text \<open>
  \<^verbatim>\<open>connector_message_t\<close>. The header pointer is NULL after the message was cleared and
  points into the message's own block otherwise.
\<close>

record connector_message =
  msg_header :: "connector_message_header cptr"
  msg_message :: "u8 list cptr"
  msg_context :: u32

definition SIZEOF_HEADER :: u64 where "SIZEOF_HEADER = 24"
definition SIZEOF_MESSAGE :: u64 where "SIZEOF_MESSAGE = 24"

definition connector_build_message ::
    "'w os \<Rightarrow> u32 \<Rightarrow> substance_connector_uuid cptr \<Rightarrow> u8 list cptr \<Rightarrow> 'w \<Rightarrow>
      (connector_message cptr \<times> 'w) option" where
  "connector_build_message env ctx type message w =
     (if message \<noteq> NULL \<and> type \<noteq> NULL then
        (case connector_allocate env (SIZEOF_MESSAGE + SIZEOF_HEADER) w of
           (None, w1) \<Rightarrow> Some (NULL, w1)
         | (Some _, w1) \<Rightarrow> do {
             (copy, w2) \<leftarrow> connector_strdup env message w1;
             bytes \<leftarrow> deref copy;
             len \<leftarrow> strlen bytes;
             uuid \<leftarrow> deref type;
             Some (OWNED \<lparr>msg_header = OWNED \<lparr>
                   description = (0 OR CONNECTOR_HEADER_R1) OR CONNECTOR_MESSAGE_IDENTIFIER,
                   message_length = of_nat len, message_id = uuid\<rparr>,
                 msg_message = copy, msg_context = ctx\<rparr>, w2) })
      else Some (NULL, w))"

text \<open>\<^verbatim>\<open>connector_clear_message\<close>: releases the text and zeroes the structure.\<close>

definition connector_clear_message :: "connector_message cptr \<Rightarrow> connector_message cptr option" where
  "connector_clear_message m =
     (if m = NULL then Some m
      else do {
        s \<leftarrow> deref m;
        _ \<leftarrow> connector_free (msg_message s);
        Some (repoint m \<lparr>msg_header = NULL, msg_message = NULL, msg_context = 0\<rparr>) })"

section \<open>Byte order\<close>

definition htons :: "u16 \<Rightarrow> u16" where
  "htons x = push_bit 8 x OR drop_bit 8 x"

definition htonl :: "u32 \<Rightarrow> u32" where
  "htonl x = push_bit 24 (take_bit 8 x) OR push_bit 16 (take_bit 8 (drop_bit 8 x)) OR
     push_bit 8 (take_bit 8 (drop_bit 16 x)) OR take_bit 8 (drop_bit 24 x)"

definition htonuuid :: "substance_connector_uuid \<Rightarrow> substance_connector_uuid" where
  "htonuuid u = (case u of UUID a b c d \<Rightarrow> UUID (htonl a) (htonl b) (htonl c) (htonl d))"

text \<open>\<^verbatim>\<open>ntohs\<close> and \<^verbatim>\<open>ntohl\<close> perform the same exchange of bytes as \<^verbatim>\<open>htons\<close> and \<^verbatim>\<open>htonl\<close>.\<close>

definition ntohuuid :: "substance_connector_uuid \<Rightarrow> substance_connector_uuid" where
  "ntohuuid u = (case u of UUID a b c d \<Rightarrow> UUID (htonl a) (htonl b) (htonl c) (htonl d))"

definition connector_htonheader :: "connector_message_header \<Rightarrow> connector_message_header" where
  "connector_htonheader h = \<lparr>description = htons (description h),
     message_length = htonl (message_length h), message_id = htonuuid (message_id h)\<rparr>"

definition connector_ntohheader :: "connector_message_header \<Rightarrow> connector_message_header" where
  "connector_ntohheader h = \<lparr>description = htons (description h),
     message_length = htonl (message_length h), message_id = ntohuuid (message_id h)\<rparr>"

section \<open>Structures in memory\<close>

definition store16 :: "u16 \<Rightarrow> u8 list" where
  "store16 x = [ucast x, ucast (drop_bit 8 x)]"

definition store32 :: "u32 \<Rightarrow> u8 list" where
  "store32 x = [ucast x, ucast (drop_bit 8 x), ucast (drop_bit 16 x), ucast (drop_bit 24 x)]"

definition load16 :: "u8 list \<Rightarrow> nat \<Rightarrow> u16" where
  "load16 b i = ucast (b ! i) OR push_bit 8 (ucast (b ! Suc i))"

definition load32 :: "u8 list \<Rightarrow> nat \<Rightarrow> u32" where
  "load32 b i = ucast (b ! i) OR push_bit 8 (ucast (b ! (i + 1))) OR
     push_bit 16 (ucast (b ! (i + 2))) OR push_bit 24 (ucast (b ! (i + 3)))"

text \<open>
  A header written field by field over a block: bytes 2 and 3 keep what they held.
\<close>

definition store_header :: "connector_message_header \<Rightarrow> u8 list \<Rightarrow> u8 list" where
  "store_header h b = store16 (description h) @ [b ! 2, b ! 3] @ store32 (message_length h) @
     concat (map store32 (elements (message_id h))) @ drop 24 b"

definition load_header :: "u8 list \<Rightarrow> connector_message_header" where
  "load_header b = \<lparr>description = load16 b 0, message_length = load32 b 4,
     message_id = UUID (load32 b 8) (load32 b 12) (load32 b 16) (load32 b 20)\<rparr>"

section \<open>Round trips\<close>

lemma htons_htons [simp]: "htons (htons x) = x"
  unfolding htons_def by (rule bit_word_eqI) (auto simp: bit_simps)

lemma bit_htonl:
  "bit (htonl x) n \<longleftrightarrow> n < 32 \<and>
     bit x (if n < 8 then n + 24 else if n < 16 then n + 8 else if n < 24 then n - 8 else n - 24)"
proof (cases "n < 32")
  case True
  then consider "n < 8" | "8 \<le> n" "n < 16" | "16 \<le> n" "n < 24" | "24 \<le> n" by linarith
  then show ?thesis
    by cases (use True in \<open>auto simp: htonl_def bit_simps add.commute\<close>)
qed (auto dest: bit_imp_le_length)

lemma htonl_htonl [simp]: "htonl (htonl x) = x"
proof (rule bit_word_eqI)
  fix n assume "n < LENGTH(32)"
  then consider "n < 8" | "8 \<le> n" "n < 16" | "16 \<le> n" "n < 24" | "24 \<le> n" "n < 32" by fastforce
  then show "bit (htonl (htonl x)) n \<longleftrightarrow> bit x n" by cases (auto simp: bit_htonl)
qed

lemma ntohuuid_htonuuid [simp]: "ntohuuid (htonuuid u) = u"
  by (cases u) (simp add: htonuuid_def ntohuuid_def)

lemma ntohheader_htonheader [simp]: "connector_ntohheader (connector_htonheader h) = h"
  by (simp add: connector_ntohheader_def connector_htonheader_def)

lemma load16_bytes: "ucast (ucast x :: u8) OR push_bit 8 (ucast (ucast (drop_bit 8 x) :: u8)) = (x :: u16)"
  by (rule bit_word_eqI) (auto simp: bit_simps)

lemma load32_bytes:
  "ucast (ucast x :: u8) OR push_bit 8 (ucast (ucast (drop_bit 8 x) :: u8)) OR
   push_bit 16 (ucast (ucast (drop_bit 16 x) :: u8)) OR push_bit 24 (ucast (ucast (drop_bit 24 x) :: u8))
   = (x :: u32)" (is "?l = x")
proof (rule bit_word_eqI)
  fix n assume "n < LENGTH(32)"
  then consider "n < 8" | "8 \<le> n" "n < 16" | "16 \<le> n" "n < 24" | "24 \<le> n" "n < 32" by fastforce
  then show "bit ?l n \<longleftrightarrow> bit x n" by cases (auto simp: bit_simps)
qed

lemma load_store_header [simp]: "load_header (store_header h b @ r) = h"
proof (cases "message_id h")
  case (UUID a b c d)
  then show ?thesis
    by (simp add: load_header_def store_header_def load16_def load32_def store16_def store32_def
        load16_bytes load32_bytes)
qed

lemma length_store_header: "24 \<le> length b \<Longrightarrow> length (store_header h b) = length b"
  by (cases "message_id h") (simp add: store_header_def store16_def store32_def)

section \<open>Built messages\<close>

lemma build_message_result:
  assumes "allocator_succeeds env" "deref p = Some b" "0 \<in> set b" "length b < 2 ^ 64" "deref t = Some u"
  shows "\<exists>w'. connector_build_message env ctx t p w = Some (OWNED \<lparr>
      msg_header = OWNED \<lparr>description = CONNECTOR_MESSAGE_IDENTIFIER,
        message_length = of_nat (length (cstr b)), message_id = u\<rparr>,
      msg_message = OWNED (c_string (cstr b)), msg_context = ctx\<rparr>, w')"
proof -
  obtain d w1 where d: "connector_allocate env (SIZEOF_MESSAGE + SIZEOF_HEADER) w = (Some d, w1)"
    by (rule allocate_exact [OF assms(1)])
  obtain w2 where dup: "connector_strdup env p w1 = Some (OWNED (c_string (cstr b)), w2)"
    using strdup_result [OF assms(1-4)] by blast
  have "p \<noteq> NULL" "t \<noteq> NULL" using assms(2,5) by auto
  then show ?thesis using d dup assms(5) cstr_no_zero [of b]
    by (simp add: connector_build_message_def CONNECTOR_HEADER_R1_def)
qed

lemma identifier_tests [simp]:
  "CONNECTOR_IDENTIFY_MESSAGE CONNECTOR_MESSAGE_IDENTIFIER"
  "\<not> CONNECTOR_IDENTIFY_INTERNAL CONNECTOR_MESSAGE_IDENTIFIER"
  "CONNECTOR_IDENTIFY_MESSAGE CONNECTOR_INTERNAL_IDENTIFIER"
  "CONNECTOR_IDENTIFY_INTERNAL CONNECTOR_INTERNAL_IDENTIFIER"
  by (simp_all add: CONNECTOR_IDENTIFY_MESSAGE_def CONNECTOR_IDENTIFY_INTERNAL_def
      CONNECTOR_MESSAGE_IDENTIFIER_def CONNECTOR_INTERNAL_IDENTIFIER_def)

text \<open>
  The comment of the internal identifier: every description that is recognised as internal
  is recognised as a connector message too, whatever its other bits.
\<close>

lemma internal_is_message:
  assumes "CONNECTOR_IDENTIFY_INTERNAL x"
  shows "CONNECTOR_IDENTIFY_MESSAGE x"
proof -
  have sub: "CONNECTOR_INTERNAL_IDENTIFIER AND CONNECTOR_MESSAGE_IDENTIFIER = CONNECTOR_MESSAGE_IDENTIFIER"
    by (simp add: CONNECTOR_MESSAGE_IDENTIFIER_def CONNECTOR_INTERNAL_IDENTIFIER_def)
  from assms have "((x AND 0x0fff) AND CONNECTOR_INTERNAL_IDENTIFIER) AND CONNECTOR_MESSAGE_IDENTIFIER
      = CONNECTOR_INTERNAL_IDENTIFIER AND CONNECTOR_MESSAGE_IDENTIFIER"
    by (simp add: CONNECTOR_IDENTIFY_INTERNAL_def)
  then show ?thesis unfolding CONNECTOR_IDENTIFY_MESSAGE_def using sub by (simp add: and.assoc)
qed

section \<open>The stored header in network order\<close>

definition big_endian :: "'a::len word \<Rightarrow> u8 list" where
  "big_endian x = map (\<lambda>i. ucast (drop_bit (8 * i) x)) (rev [0..<LENGTH('a) div 8])"

lemma store16_htons: "store16 (htons x) = big_endian x"
  unfolding store16_def big_endian_def htons_def
  by (auto intro!: bit_word_eqI simp: bit_simps upt_rec)

lemma store32_htonl: "store32 (htonl x) = big_endian x"
proof -
  have b: "ucast (drop_bit (8 * k) (htonl x)) = (ucast (drop_bit (24 - 8 * k) x) :: u8)" if "k < 4" for k
  proof (rule bit_word_eqI)
    fix n assume n: "n < LENGTH(8)"
    from that consider "k = 0" | "k = 1" | "k = 2" | "k = 3" by linarith
    then show "bit (ucast (drop_bit (8 * k) (htonl x)) :: u8) n \<longleftrightarrow> bit (ucast (drop_bit (24 - 8 * k) x) :: u8) n"
      by cases (use n in \<open>auto simp: bit_simps bit_htonl add.commute\<close>)
  qed
  from b [of 0] b [of 1] b [of 2] b [of 3] show ?thesis
    by (simp add: store32_def big_endian_def upt_rec)
qed

section \<open>Properties\<close>

text \<open>
  The life of a message. Building from a terminated text and a type gives a message
  that owns a private copy of the text, records its length and type, and is tagged as an
  ordinary (never internal) message; clearing it releases the copy without a fault and
  leaves an empty structure, and clearing twice is harmless.
\<close>

theorem build_then_clear:
  assumes "allocator_succeeds env" and "deref p = Some b" and "0 \<in> set b" and "length b < 2 ^ 32"
    and "deref t = Some u"
  shows "\<exists>m h w'. connector_build_message env ctx t p w = Some (OWNED m, w') \<and>
    msg_header m = OWNED h \<and> msg_message m = OWNED (c_string (cstr b)) \<and> msg_context m = ctx \<and>
    unat (message_length h) = length (cstr b) \<and> message_id h = u \<and>
    CONNECTOR_IDENTIFY_MESSAGE (description h) \<and> \<not> CONNECTOR_IDENTIFY_INTERNAL (description h) \<and>
    (\<exists>z. connector_clear_message (OWNED m) = Some z \<and> connector_clear_message z = Some z \<and>
      (\<forall>c. deref z = Some c \<longrightarrow> msg_message c = NULL))"
proof -
  have "length (cstr b) < 2 ^ 32" using cstr_less [OF assms(3)] assms(4) by simp
  then have len: "unat (of_nat (length (cstr b)) :: u32) = length (cstr b)"
    by (simp add: unat_of_nat)
  obtain w' where "connector_build_message env ctx t p w = Some (OWNED \<lparr>
      msg_header = OWNED \<lparr>description = CONNECTOR_MESSAGE_IDENTIFIER,
        message_length = of_nat (length (cstr b)), message_id = u\<rparr>,
      msg_message = OWNED (c_string (cstr b)), msg_context = ctx\<rparr>, w')"
    using build_message_result [OF assms(1-3) _ assms(5)] assms(4) by fastforce
  then show ?thesis using len by (simp add: connector_clear_message_def Let_def)
qed

theorem build_then_clear_witness:
  "\<exists>m h w'. connector_build_message sample_os 3 (BORROWED (UUID 1 2 3 4)) (BORROWED [104, 105, 0]) []
      = Some (OWNED m, w') \<and> msg_header m = OWNED h \<and> msg_message m = OWNED [104, 105, 0] \<and>
    unat (message_length h) = 2"
  using build_then_clear [of sample_os "BORROWED [104, 105, 0]" "[104, 105, 0]" "BORROWED (UUID 1 2 3 4)"
      "UUID 1 2 3 4" 3 "[]"]
  by (auto simp: cstr_def c_string_def)

text \<open>
  The wire format. Converting a header to network order and storing it puts each field
  big-endian at its offset, whatever block it is written into (the two padding bytes are
  those of the block), and loading and converting back gives the header again.
\<close>

theorem header_wire_format:
  assumes "24 \<le> length blk"
  shows "store_header (connector_htonheader h) blk =
      big_endian (description h) @ take 2 (drop 2 blk) @ big_endian (message_length h) @
      concat (map big_endian (elements (message_id h))) @ drop 24 blk \<and>
    connector_ntohheader (load_header (store_header (connector_htonheader h) blk)) = h"
proof -
  have pad: "[blk ! 2, blk ! 3] = take 2 (drop 2 blk)"
    using assms by (simp add: take_Suc_conv_app_nth numeral_2_eq_2 numeral_3_eq_3)
  have rt: "connector_ntohheader (load_header (store_header (connector_htonheader h) blk)) = h"
    using load_store_header [of "connector_htonheader h" blk "[]"] by simp
  show ?thesis
  proof (cases "message_id h")
    case (UUID a b c d)
    then show ?thesis using rt pad
      by (simp add: store_header_def connector_htonheader_def htonuuid_def store16_htons store32_htonl)
  qed
qed

theorem header_wire_format_witness:
  "store_header (connector_htonheader \<lparr>description = 0x03c9, message_length = 5,
       message_id = UUID 1 2 3 4\<rparr>) (replicate 24 0xAA)
   = [0x03, 0xc9, 0xAA, 0xAA, 0, 0, 0, 5, 0, 0, 0, 1, 0, 0, 0, 2, 0, 0, 0, 3, 0, 0, 0, 4]"
proof -
  have be: "big_endian (0x03c9 :: u16) = [0x03, 0xc9]" "big_endian (5 :: u32) = [0, 0, 0, 5]"
    "big_endian (1 :: u32) = [0, 0, 0, 1]" "big_endian (2 :: u32) = [0, 0, 0, 2]"
    "big_endian (3 :: u32) = [0, 0, 0, 3]" "big_endian (4 :: u32) = [0, 0, 0, 4]"
    by code_simp+
  show ?thesis using header_wire_format [of "replicate 24 0xAA" "\<lparr>description = 0x03c9, message_length = 5,
       message_id = UUID 1 2 3 4\<rparr>"]
  by (simp add: be numeral_2_eq_2)
qed

end
