(* ===== verification/Context_Struct.thy ===== *)
theory Context_Struct
  imports Os_Interface
begin

text \<open>
  The context structure of \<^verbatim>\<open>context_struct.h\<close>: one connection of the library, with its
  configuration bit field, and the masks that read it.
\<close>

record connector_context =
  ctx_configuration :: u64
  ctx_fd :: u64
  ctx_port :: u64
  ctx_connection_data :: "u8 list cptr"
  ctx_application_name :: "u8 list cptr"
  ctx_identifier :: u16

definition SUBSTANCE_CONNECTOR_COMM_TCP :: u64 where "SUBSTANCE_CONNECTOR_COMM_TCP = 0x01"
definition SUBSTANCE_CONNECTOR_COMM_UNIX :: u64 where "SUBSTANCE_CONNECTOR_COMM_UNIX = 0x02"
definition SUBSTANCE_CONNECTOR_COMM_MAX :: u64 where "SUBSTANCE_CONNECTOR_COMM_MAX = 0x02"
definition SUBSTANCE_CONNECTOR_COMM_MASK :: u64 where "SUBSTANCE_CONNECTOR_COMM_MASK = 0xff"

definition SUBSTANCE_CONNECTOR_CONN_CLOSED :: u64 where "SUBSTANCE_CONNECTOR_CONN_CLOSED = 0x000"
definition SUBSTANCE_CONNECTOR_CONN_OPEN :: u64 where "SUBSTANCE_CONNECTOR_CONN_OPEN = 0x100"
definition SUBSTANCE_CONNECTOR_CONN_CONNECTED :: u64 where "SUBSTANCE_CONNECTOR_CONN_CONNECTED = 0x200"
definition SUBSTANCE_CONNECTOR_CONN_SHUTDOWN :: u64 where "SUBSTANCE_CONNECTOR_CONN_SHUTDOWN = 0x400"
definition SUBSTANCE_CONNECTOR_CONN_MASK :: u64 where "SUBSTANCE_CONNECTOR_CONN_MASK = 0x700"

definition SUBSTANCE_CONNECTOR_HANDSHAKE_NOT_SENT :: u64 where "SUBSTANCE_CONNECTOR_HANDSHAKE_NOT_SENT = 0x000"
definition SUBSTANCE_CONNECTOR_HANDSHAKE_SENT :: u64 where "SUBSTANCE_CONNECTOR_HANDSHAKE_SENT = 0x800"
definition SUBSTANCE_CONNECTOR_HANDSHAKE_MASK :: u64 where "SUBSTANCE_CONNECTOR_HANDSHAKE_MASK = 0x800"

lemmas comm_defs = SUBSTANCE_CONNECTOR_COMM_TCP_def SUBSTANCE_CONNECTOR_COMM_UNIX_def
  SUBSTANCE_CONNECTOR_COMM_MAX_def SUBSTANCE_CONNECTOR_COMM_MASK_def

lemmas conn_defs = SUBSTANCE_CONNECTOR_CONN_CLOSED_def SUBSTANCE_CONNECTOR_CONN_OPEN_def
  SUBSTANCE_CONNECTOR_CONN_CONNECTED_def SUBSTANCE_CONNECTOR_CONN_SHUTDOWN_def
  SUBSTANCE_CONNECTOR_CONN_MASK_def

lemmas handshake_defs = SUBSTANCE_CONNECTOR_HANDSHAKE_NOT_SENT_def SUBSTANCE_CONNECTOR_HANDSHAKE_SENT_def
  SUBSTANCE_CONNECTOR_HANDSHAKE_MASK_def

text \<open>The descriptor as the system calls take it: \<^verbatim>\<open>(int) context->fd\<close>.\<close>

definition context_socket :: "connector_context \<Rightarrow> c_int" where
  "context_socket c = ucast (ctx_fd c)"

end
