(* ===== verification/Read_Write_Utils.thy ===== *)
theory Read_Write_Utils
  imports Message Context_Struct
begin

text \<open>
  Sending and reading whole messages over a connection (\<^verbatim>\<open>readwriteutils.c\<close>). The send and
  receive functions are arguments, as the function pointers are in the code.

  \<open>reliable_link\<close> states what a connected stream socket promises: bytes arrive complete and in
  order. Over such a link a sequence of sent messages is read back unchanged.
\<close>

type_synonym 'w send_fp = "c_int \<Rightarrow> u8 list \<Rightarrow> 'w \<Rightarrow> c_ssize \<times> 'w"
type_synonym 'w recv_fp = "c_int \<Rightarrow> u64 \<Rightarrow> 'w \<Rightarrow> c_ssize \<times> u8 list \<times> 'w"

section \<open>Operations\<close>

text \<open>
  A receive into a block: the bytes that arrive overwrite the start of the block; bytes
  beyond the block are an access outside it.
\<close>

definition recv_into :: "'w recv_fp \<Rightarrow> c_int \<Rightarrow> u8 list \<Rightarrow> u64 \<Rightarrow> 'w \<Rightarrow> (c_ssize \<times> u8 list \<times> 'w) option" where
  "recv_into recv fd blk n w =
     (case recv fd n w of (r, bytes, w') \<Rightarrow> do {
        guard_ok (length bytes \<le> length blk);
        Some (r, bytes @ drop (length bytes) blk, w') })"

text \<open>
  \<^verbatim>\<open>read_message_data\<close>. The buffer length is computed at 32 bits, then widened. The text
  previously held by the message is overwritten without being released.
\<close>

definition read_message_data ::
    "'w os \<Rightarrow> connector_context \<Rightarrow> connector_message cptr \<Rightarrow> 'w recv_fp \<Rightarrow> 'w \<Rightarrow>
      (substance_connector_error \<times> connector_message cptr \<times> 'w) option" where
  "read_message_data env c message recv w = do {
     m \<leftarrow> deref message;
     h \<leftarrow> deref (msg_header m);
     let len = (ucast (message_length h + 1) :: u64);
     case connector_allocate env len w of
       (None, w1) \<Rightarrow> None
     | (Some blk, w1) \<Rightarrow> do {
         (result, buf, w2) \<leftarrow> recv_into recv (context_socket c) (replicate (length blk) 0) (len - 1) w1;
         if c_negative result then Some (SUBSTANCE_CONNECTOR_READ_FAIL, message, w2)
         else Some (SUBSTANCE_CONNECTOR_SUCCESS, repoint message (m\<lparr>msg_message := OWNED buf\<rparr>), w2) } }"

definition connector_read_message_generic ::
    "'w os \<Rightarrow> connector_context option \<Rightarrow> connector_message cptr \<Rightarrow> 'w recv_fp \<Rightarrow> 'w \<Rightarrow>
      (substance_connector_error \<times> connector_message cptr \<times> 'w) option" where
  "connector_read_message_generic env ctx message recv w =
     (case ctx of
        None \<Rightarrow> Some (SUBSTANCE_CONNECTOR_ERROR, message, w)
      | Some c \<Rightarrow>
          if message = NULL then Some (SUBSTANCE_CONNECTOR_ERROR, message, w)
          else do {
            (result, raw, w1) \<leftarrow> recv_into recv (context_socket c) (replicate 24 0) SIZEOF_HEADER w;
            if result = SIZEOF_HEADER then do {
              m \<leftarrow> deref message;
              _ \<leftarrow> deref (msg_header m);
              let h = connector_ntohheader (load_header raw);
              let message1 = repoint message (m\<lparr>msg_header := OWNED h\<rparr>);
              if CONNECTOR_IDENTIFY_MESSAGE (description h)
              then read_message_data env c message1 recv w1
              else Some (SUBSTANCE_CONNECTOR_READ_FAIL, message1, w1) }
            else Some (SUBSTANCE_CONNECTOR_READ_FAIL, message, w1) })"

definition connector_send_message_generic ::
    "'w os \<Rightarrow> connector_context option \<Rightarrow> connector_message cptr \<Rightarrow> 'w send_fp \<Rightarrow> 'w \<Rightarrow>
      (substance_connector_error \<times> 'w) option" where
  "connector_send_message_generic env ctx message send w =
     (case ctx of
        None \<Rightarrow> Some (SUBSTANCE_CONNECTOR_ERROR, w)
      | Some c \<Rightarrow>
          if message = NULL then Some (SUBSTANCE_CONNECTOR_ERROR, w)
          else do {
            m \<leftarrow> deref message;
            h \<leftarrow> deref (msg_header m);
            let buffersize = SIZEOF_HEADER + ucast (message_length h);
            case connector_allocate env buffersize w of
              (None, w1) \<Rightarrow> None
            | (Some blk, w1) \<Rightarrow> do {
                let blk1 = store_header (connector_htonheader h) blk;
                body \<leftarrow> deref (msg_message m);
                payload \<leftarrow> memcpy (drop 24 blk1) body (unat (message_length h));
                case send (context_socket c) (take 24 blk1 @ payload) w1 of
                  (result, w2) \<Rightarrow>
                    Some (if c_negative result then SUBSTANCE_CONNECTOR_CONN_FAIL
                          else SUBSTANCE_CONNECTOR_SUCCESS, w2) } })"

section \<open>A reliable link\<close>

text \<open>
  \<open>pending w\<close> is what was sent on the link and not received yet. Allocation does not touch
  it, a send appends its whole buffer and returns a non-negative result, and a receive
  that asks for no more than is pending returns exactly that many bytes from the front.
\<close>

definition reliable_link ::
    "'w os \<Rightarrow> 'w send_fp \<Rightarrow> 'w recv_fp \<Rightarrow> ('w \<Rightarrow> u8 list) \<Rightarrow> bool" where
  "reliable_link env send recv pending \<longleftrightarrow>
     (\<forall>n w. pending (snd (os_allocate env n w)) = pending w) \<and>
     (\<forall>fd bs w. \<not> c_negative (fst (send fd bs w)) \<and> pending (snd (send fd bs w)) = pending w @ bs) \<and>
     (\<forall>fd n w. unat n \<le> length (pending w) \<longrightarrow> unat n < 2 ^ 63 \<longrightarrow>
        (\<exists>w'. recv fd n w = (n, take (unat n) (pending w), w') \<and> pending w' = drop (unat n) (pending w)))"

text \<open>A message that can be put on the wire: tagged, with its text at least as long as its header says.\<close>

definition sendable :: "connector_message cptr \<Rightarrow> bool" where
  "sendable p \<longleftrightarrow> (\<exists>m h b. deref p = Some m \<and> deref (msg_header m) = Some h \<and> deref (msg_message m) = Some b \<and>
     unat (message_length h) \<le> length b \<and> message_length h \<noteq> 0xffffffff \<and>
     CONNECTOR_IDENTIFY_MESSAGE (description h))"

definition wire_header :: "connector_message cptr \<Rightarrow> connector_message_header option" where
  "wire_header p = do { m \<leftarrow> deref p; deref (msg_header m) }"

definition wire_body :: "connector_message cptr \<Rightarrow> u8 list option" where
  "wire_body p = do { m \<leftarrow> deref p; h \<leftarrow> deref (msg_header m); b \<leftarrow> deref (msg_message m);
     Some (take (unat (message_length h)) b) }"

fun send_messages where
  "send_messages env ctx send [] w = Some ([], w)"
| "send_messages env ctx send (m # ms) w = do {
     (r, w1) \<leftarrow> connector_send_message_generic env ctx m send w;
     (rs, w2) \<leftarrow> send_messages env ctx send ms w1;
     Some (r # rs, w2) }"

fun read_messages where
  "read_messages env ctx recv [] w = Some ([], [], w)"
| "read_messages env ctx recv (m # ms) w = do {
     (r, m', w1) \<leftarrow> connector_read_message_generic env ctx m recv w;
     (rs, ms', w2) \<leftarrow> read_messages env ctx recv ms w1;
     Some (r # rs, m' # ms', w2) }"

section \<open>One message over the link\<close>

lemma load_header_take: "24 \<le> length b \<Longrightarrow> load_header (take 24 b) = load_header b"
  by (simp add: load_header_def load16_def load32_def)

lemma allocate_pending:
  assumes "reliable_link env send recv pending" "connector_allocate env n w = (r, w')"
  shows "pending w' = pending w"
  using assms by (auto simp: reliable_link_def connector_allocate_def split: prod.splits) (metis snd_conv)

lemma strdup_pending:
  assumes "reliable_link env send recv pending" "connector_strdup env p w = Some (q, w')"
  shows "pending w' = pending w"
proof (cases "p = NULL")
  case False
  then obtain b n where b: "deref p = Some b" "strlen b = Some n"
    using assms(2) by (auto simp: connector_strdup_def Option.bind_eq_Some_conv)
  obtain r w1 where r: "connector_allocate env (of_nat n + 1) w = (r, w1)" by fastforce
  with b False assms(2) have "w' = w1"
    by (cases r) (auto simp: connector_strdup_def Option.bind_eq_Some_conv)
  with allocate_pending [OF assms(1) r] show ?thesis by simp
qed (use assms in \<open>simp add: connector_strdup_def\<close>)

lemma build_pending:
  assumes "reliable_link env send recv pending" "connector_build_message env ctx t p w = Some (m, w')"
  shows "pending w' = pending w"
proof (cases "p \<noteq> NULL \<and> t \<noteq> NULL")
  case True
  obtain r w1 where r: "connector_allocate env (SIZEOF_MESSAGE + SIZEOF_HEADER) w = (r, w1)" by fastforce
  from allocate_pending [OF assms(1) r] assms(2) True r show ?thesis
    by (cases r) (auto simp: connector_build_message_def Option.bind_eq_Some_conv dest: strdup_pending [OF assms(1)])
qed (use assms in \<open>auto simp: connector_build_message_def\<close>)

lemma unat_buffersize: "unat (SIZEOF_HEADER + ucast (l :: u32)) = 24 + unat l"
  using unat_bound [of l]
  by (simp add: SIZEOF_HEADER_def unat_word_ariths unat_ucast_widen)

lemma unat_data_length:
  assumes "l \<noteq> (0xffffffff :: u32)"
  shows "unat (ucast (l + 1) :: u64) = Suc (unat l)" "(ucast (l + 1) :: u64) - 1 = ucast l"
proof -
  have "(0xffffffff :: u32) = - 1" by simp
  then have "l + 1 \<noteq> 0" using assms by (metis eq_neg_iff_add_eq_0)
  then have "unat (l + 1) = Suc (unat l)" by (rule unat_plus_one)
  then show 1: "unat (ucast (l + 1) :: u64) = Suc (unat l)"
    by (simp add: unat_ucast_widen)
  then have "(ucast (l + 1) :: u64) = ucast l + 1"
    using unat_bound [of l] by (simp add: unat_inject [symmetric] unat_word_ariths unat_ucast_widen)
  then show "(ucast (l + 1) :: u64) - 1 = ucast l" by simp
qed

lemma send_frame:
  assumes link: "reliable_link env send recv pending" and al: "allocator_succeeds env"
    and m: "deref p = Some m" "deref (msg_header m) = Some h" "deref (msg_message m) = Some b"
    and len: "unat (message_length h) \<le> length b"
  obtains f w' where "connector_send_message_generic env (Some c) p send w = Some (SUBSTANCE_CONNECTOR_SUCCESS, w')"
    "length f = 24" "connector_ntohheader (load_header f) = h"
    "pending w' = pending w @ f @ take (unat (message_length h)) b"
proof -
  obtain blk w1 where blk: "connector_allocate env (SIZEOF_HEADER + ucast (message_length h)) w = (Some blk, w1)"
      "length blk = 24 + unat (message_length h)"
    using allocate_exact [OF al, of "SIZEOF_HEADER + ucast (message_length h)" w] unat_buffersize by metis
  let ?s = "store_header (connector_htonheader h) blk"
  let ?out = "take 24 ?s @ take (unat (message_length h)) b"
  have ls: "length ?s = 24 + unat (message_length h)" using blk(2) by (simp add: length_store_header)
  then have mc: "memcpy (drop 24 ?s) b (unat (message_length h)) = Some (take (unat (message_length h)) b)"
    using len by (simp add: memcpy_def)
  obtain r w2 where snd: "send (context_socket c) ?out w1 = (r, w2)" by fastforce
  have r: "\<not> c_negative r" "pending w2 = pending w1 @ ?out"
    using link snd unfolding reliable_link_def by (metis fst_conv, metis snd_conv)
  have "p \<noteq> NULL" using m(1) by auto
  then have "connector_send_message_generic env (Some c) p send w = Some (SUBSTANCE_CONNECTOR_SUCCESS, w2)"
    using m blk mc snd r by (simp add: connector_send_message_generic_def Let_def)
  moreover have "connector_ntohheader (load_header (take 24 ?s)) = h"
    using load_store_header [of "connector_htonheader h" blk "[]"] ls by (simp add: load_header_take)
  ultimately show ?thesis using r(2) ls allocate_pending [OF link blk(1)]
    by (intro that [of w2 "take 24 ?s"]) simp_all
qed

lemma recv_into_link:
  assumes "reliable_link env send recv pending" "pending w = bs @ rest" "length bs = unat n"
    "unat n < 2 ^ 63" "length bs \<le> length blk"
  obtains w' where "recv_into recv fd blk n w = Some (n, bs @ drop (length bs) blk, w')" "pending w' = rest"
proof -
  obtain w' where "recv fd n w = (n, take (unat n) (pending w), w')" "pending w' = drop (unat n) (pending w)"
    using assms unfolding reliable_link_def by (metis length_append le_add1)
  with assms(2,3,5) show ?thesis
    by (intro that [of w']) (simp_all add: recv_into_def)
qed

lemma read_frame:
  assumes link: "reliable_link env send recv pending" and al: "allocator_succeeds env"
    and p: "deref p = Some m" "deref (msg_header m) \<noteq> None"
    and w: "pending w = f @ body @ rest" and f: "length f = 24" "connector_ntohheader (load_header f) = h"
    and h: "CONNECTOR_IDENTIFY_MESSAGE (description h)" "message_length h \<noteq> 0xffffffff"
      "length body = unat (message_length h)"
  obtains w' where "connector_read_message_generic env (Some c) p recv w =
      Some (SUBSTANCE_CONNECTOR_SUCCESS, repoint p \<lparr>msg_header = OWNED h, msg_message = OWNED (c_string body),
        msg_context = msg_context m\<rparr>, w')"
    "pending w' = rest"
proof -
  let ?l = "message_length h" and ?m1 = "m\<lparr>msg_header := OWNED h\<rparr>"
  obtain w1 where w1: "recv_into recv (context_socket c) (replicate 24 0) SIZEOF_HEADER w = Some (SIZEOF_HEADER, f, w1)"
      "pending w1 = body @ rest"
    by (rule recv_into_link [OF link w, of SIZEOF_HEADER "replicate 24 0" "context_socket c"])
      (use f in \<open>simp_all add: SIZEOF_HEADER_def\<close>)
  obtain blk w2 where blk: "connector_allocate env (ucast (?l + 1)) w1 = (Some blk, w2)" "length blk = Suc (unat ?l)"
    using allocate_exact [OF al, of "ucast (?l + 1)" w1] unat_data_length(1) [OF h(2)] by metis
  have u: "unat (ucast ?l :: u64) = unat ?l" by (simp add: unat_ucast_widen)
  have small: "unat (ucast ?l :: u64) < 2 ^ 63" using unat_bound [of ?l] u by simp
  have "pending w2 = body @ rest" using allocate_pending [OF link blk(1)] w1(2) by simp
  then obtain w3 where w3: "recv_into recv (context_socket c) (replicate (Suc (unat ?l)) 0) (ucast ?l) w2
      = Some (ucast ?l, body @ drop (length body) (replicate (Suc (unat ?l)) 0), w3)" "pending w3 = rest"
    by (rule recv_into_link [OF link, of w2 body rest "ucast ?l" "replicate (Suc (unat ?l)) 0" "context_socket c"])
      (use u small h(3) in simp_all)
  have "body @ drop (length body) (replicate (Suc (unat ?l)) 0) = c_string body"
    using h(3) by (simp add: c_string_def del: replicate_Suc) simp
  note w3' = w3(1) [unfolded this]
  have "p \<noteq> NULL" using p(1) by auto
  moreover have "deref (repoint p ?m1) = Some ?m1" using p(1) by (cases p) auto
  moreover have "repoint (repoint p x) y = repoint p y" for x y by (cases p) auto
  ultimately have "connector_read_message_generic env (Some c) p recv w =
      Some (SUBSTANCE_CONNECTOR_SUCCESS, repoint p (?m1\<lparr>msg_message := OWNED (c_string body)\<rparr>), w3)"
    using p w1(1) f h blk w3' small unat_data_length [OF h(2)]
    by (auto simp: connector_read_message_generic_def read_message_data_def Let_def c_negative_iff
        simp del: replicate_Suc)
  then show ?thesis using w3(2) by (intro that [of w3]) (cases m, simp_all)
qed

section \<open>Sequences of messages\<close>

text \<open>A structure the reader may fill: it has its header block.\<close>

definition receivable :: "connector_message cptr \<Rightarrow> bool" where
  "receivable p \<longleftrightarrow> (\<exists>m h. deref p = Some m \<and> deref (msg_header m) = Some h)"

text \<open>What a received structure holds when it carries the sent message \<open>p\<close>.\<close>

definition carries :: "connector_message cptr \<Rightarrow> connector_message cptr \<Rightarrow> bool" where
  "carries p q \<longleftrightarrow> (\<exists>m h body. deref q = Some m \<and> msg_header m = OWNED h \<and> wire_header p = Some h \<and>
     wire_body p = Some body \<and> msg_message m = OWNED (c_string body))"

text \<open>The bytes of one message on the wire.\<close>

definition frame_of :: "connector_message cptr \<Rightarrow> u8 list \<Rightarrow> bool" where
  "frame_of p fr \<longleftrightarrow> (\<exists>f h body. fr = f @ body \<and> length f = 24 \<and> connector_ntohheader (load_header f) = h \<and>
     wire_header p = Some h \<and> wire_body p = Some body)"

lemma send_sendable:
  assumes "reliable_link env send recv pending" "allocator_succeeds env" "sendable p"
  shows "\<exists>fr w'. connector_send_message_generic env (Some c) p send w = Some (SUBSTANCE_CONNECTOR_SUCCESS, w') \<and>
    frame_of p fr \<and> pending w' = pending w @ fr"
proof -
  obtain m h b where m: "deref p = Some m" "deref (msg_header m) = Some h" "deref (msg_message m) = Some b"
      "unat (message_length h) \<le> length b"
    using assms(3) by (auto simp: sendable_def)
  obtain f w' where f: "connector_send_message_generic env (Some c) p send w = Some (SUBSTANCE_CONNECTOR_SUCCESS, w')"
    "length f = 24" "connector_ntohheader (load_header f) = h"
    "pending w' = pending w @ f @ take (unat (message_length h)) b"
    by (rule send_frame [OF assms(1,2) m])
  then have "frame_of p (f @ take (unat (message_length h)) b)"
    using m by (auto simp: frame_of_def wire_header_def wire_body_def)
  with f show ?thesis by auto
qed

lemma send_messages_link:
  assumes "reliable_link env send recv pending" "allocator_succeeds env" "list_all sendable ms"
  shows "\<exists>frs w'. send_messages env (Some c) send ms w = Some (map (\<lambda>_. SUBSTANCE_CONNECTOR_SUCCESS) ms, w') \<and>
    list_all2 frame_of ms frs \<and> pending w' = pending w @ concat frs"
  using assms(3)
proof (induction ms arbitrary: w)
  case Nil
  then show ?case by simp
next
  case (Cons m ms)
  obtain fr w1 where fr: "connector_send_message_generic env (Some c) m send w = Some (SUBSTANCE_CONNECTOR_SUCCESS, w1)"
      "frame_of m fr" "pending w1 = pending w @ fr"
    using send_sendable [OF assms(1,2)] Cons.prems by fastforce
  from Cons.IH [of w1] Cons.prems obtain frs w2 where
    "send_messages env (Some c) send ms w1 = Some (map (\<lambda>_. SUBSTANCE_CONNECTOR_SUCCESS) ms, w2)"
    "list_all2 frame_of ms frs" "pending w2 = pending w1 @ concat frs" by auto
  with fr show ?case by (intro exI [of _ "fr # frs"] exI [of _ w2]) simp
qed

lemma read_sendable:
  assumes "reliable_link env send recv pending" "allocator_succeeds env" "sendable p" "frame_of p fr"
    "receivable q" "pending w = fr @ rest"
  shows "\<exists>q' w'. connector_read_message_generic env (Some c) q recv w = Some (SUBSTANCE_CONNECTOR_SUCCESS, q', w') \<and>
    carries p q' \<and> pending w' = rest"
proof -
  obtain f h body where f: "fr = f @ body" "length f = 24" "connector_ntohheader (load_header f) = h"
      "wire_header p = Some h" "wire_body p = Some body"
    using assms(4) by (auto simp: frame_of_def)
  obtain m k where q: "deref q = Some m" "deref (msg_header m) = Some k"
    using assms(5) by (auto simp: receivable_def)
  have h: "CONNECTOR_IDENTIFY_MESSAGE (description h)" "message_length h \<noteq> 0xffffffff"
      "length body = unat (message_length h)"
    using assms(3) f(4,5) by (auto simp: sendable_def wire_header_def wire_body_def)
  have q2: "deref (msg_header m) \<noteq> None" using q(2) by simp
  have w: "pending w = f @ body @ rest" using assms(6) f(1) by simp
  obtain w' where w': "connector_read_message_generic env (Some c) q recv w =
      Some (SUBSTANCE_CONNECTOR_SUCCESS, repoint q \<lparr>msg_header = OWNED h, msg_message = OWNED (c_string body),
        msg_context = msg_context m\<rparr>, w')" "pending w' = rest"
    by (rule read_frame [OF assms(1,2) q(1) q2 w f(2,3) h])
  then show ?thesis using f(4,5) q(1) by (cases q) (auto simp: carries_def)
qed

lemma read_messages_link:
  assumes "reliable_link env send recv pending" "allocator_succeeds env"
    and "list_all sendable ms" "list_all2 frame_of ms frs" "list_all receivable qs" "length qs = length ms"
    and "pending w = concat frs @ rest"
  shows "\<exists>qs' w'. read_messages env (Some c) recv qs w = Some (map (\<lambda>_. SUBSTANCE_CONNECTOR_SUCCESS) ms, qs', w') \<and>
    list_all2 carries ms qs' \<and> pending w' = rest"
  using assms(4,3,5-7)
proof (induction ms frs arbitrary: qs w rule: list_all2_induct)
  case Nil
  then show ?case by simp
next
  case (Cons m ms fr frs)
  then obtain q qs0 where qs: "qs = q # qs0" by (cases qs) auto
  obtain q' w1 where q': "connector_read_message_generic env (Some c) q recv w = Some (SUBSTANCE_CONNECTOR_SUCCESS, q', w1)"
      "carries m q'" "pending w1 = concat frs @ rest"
    using read_sendable [OF assms(1,2) _ Cons.hyps(1), of q w "concat frs @ rest" c] Cons.prems qs by auto
  obtain qs' w2 where "read_messages env (Some c) recv qs0 w1 = Some (map (\<lambda>_. SUBSTANCE_CONNECTOR_SUCCESS) ms, qs', w2)"
      "list_all2 carries ms qs'" "pending w2 = rest"
    using Cons.IH [of qs0 w1] Cons.prems q'(3) qs by auto
  with q' show ?case unfolding qs by (intro exI [of _ "q' # qs'"] exI [of _ w2]) simp
qed

section \<open>A concrete link\<close>

lemma sample_link: "reliable_link sample_os (os_send sample_os) (os_recv sample_os) (\<lambda>w. w)"
  by (auto simp: reliable_link_def sample_os_def c_negative_iff unat_of_nat)

definition sample_context :: connector_context where
  "sample_context = \<lparr>ctx_configuration = 0x201, ctx_fd = 7, ctx_port = 0, ctx_connection_data = NULL,
     ctx_application_name = NULL, ctx_identifier = 0\<rparr>"

definition sample_message :: "connector_message cptr" where
  "sample_message = OWNED \<lparr>msg_header = OWNED \<lparr>description = CONNECTOR_MESSAGE_IDENTIFIER, message_length = 2,
     message_id = UUID 1 2 3 4\<rparr>, msg_message = OWNED [104, 105, 0], msg_context = 0\<rparr>"

section \<open>Properties\<close>

text \<open>
  C3: framing. Over a reliable link, any sequence of well-formed messages that is sent is
  read back as the same sequence: every read succeeds, every header arrives unchanged and
  every text arrives complete, terminated by a zero byte, and nothing is left over.
\<close>

theorem message_stream_round_trip:
  assumes "reliable_link env send recv pending" and "allocator_succeeds env" and "pending w = []"
    and "list_all sendable ms" and "list_all receivable qs" and "length qs = length ms"
  shows "\<exists>w1 w2 qs'. send_messages env (Some c) send ms w = Some (map (\<lambda>_. SUBSTANCE_CONNECTOR_SUCCESS) ms, w1) \<and>
    read_messages env (Some d) recv qs w1 = Some (map (\<lambda>_. SUBSTANCE_CONNECTOR_SUCCESS) ms, qs', w2) \<and>
    list_all2 carries ms qs' \<and> pending w2 = []"
proof -
  obtain frs w1 where s: "send_messages env (Some c) send ms w = Some (map (\<lambda>_. SUBSTANCE_CONNECTOR_SUCCESS) ms, w1)"
      "list_all2 frame_of ms frs" "pending w1 = concat frs @ []"
    using send_messages_link [OF assms(1,2,4)] assms(3) by fastforce
  from read_messages_link [OF assms(1,2,4) s(2) assms(5,6) s(3)] s(1) show ?thesis by blast
qed

theorem message_stream_round_trip_witness:
  "\<exists>w1 w2 q. send_messages sample_os (Some sample_context) (os_send sample_os) [sample_message] []
       = Some ([SUBSTANCE_CONNECTOR_SUCCESS], w1) \<and>
     read_messages sample_os (Some sample_context) (os_recv sample_os) [sample_message] w1
       = Some ([SUBSTANCE_CONNECTOR_SUCCESS], [q], w2) \<and> carries sample_message q \<and> w2 = []"
proof -
  have "list_all sendable [sample_message]" "list_all receivable [sample_message]"
    by (simp_all add: sendable_def receivable_def sample_message_def)
  from message_stream_round_trip [OF sample_link sample_os_allocator _ this, of "[]" sample_context sample_context]
  show ?thesis by (auto simp: list_all2_Cons1)
qed

text \<open>
  C34: a hostile length. When a peer announces a message length of \<open>2 ^ 32 - 1\<close>, the buffer
  length wraps to zero and the receive is asked for \<open>2 ^ 64 - 1\<close> bytes: if even one byte
  follows the header, it is written outside the zero-length buffer.
\<close>

theorem read_length_wraps:
  assumes "reliable_link env send recv pending" and "allocator_succeeds env" and "receivable q"
    and "pending w = f @ b # rest" and "length f = 24"
    and "CONNECTOR_IDENTIFY_MESSAGE (description (connector_ntohheader (load_header f)))"
    and "message_length (connector_ntohheader (load_header f)) = 0xffffffff"
    and "\<And>fd v. pending v \<noteq> [] \<Longrightarrow> fst (snd (recv fd (- 1) v)) \<noteq> []"
  shows "connector_read_message_generic env (Some c) q recv w = None"
proof -
  let ?h = "connector_ntohheader (load_header f)"
  obtain w1 where w1: "recv_into recv (context_socket c) (replicate 24 0) SIZEOF_HEADER w = Some (SIZEOF_HEADER, f, w1)"
      "pending w1 = b # rest"
    by (rule recv_into_link [OF assms(1,4), of SIZEOF_HEADER "replicate 24 0" "context_socket c"])
      (use assms(5) in \<open>simp_all add: SIZEOF_HEADER_def\<close>)
  obtain m k where q: "deref q = Some m" "deref (msg_header m) = Some k"
    using assms(3) by (auto simp: receivable_def)
  have nn: "q \<noteq> NULL" using q(1) by auto
  obtain blk w2 where blk: "connector_allocate env 0 w1 = (Some blk, w2)" "blk = []"
    using allocate_exact [OF assms(2), of 0 w1] by (metis length_0_conv unat_0)
  obtain r bytes w3 where rc: "recv (context_socket c) (- 1) w2 = (r, bytes, w3)"
    by (metis prod.collapse)
  have "pending w2 \<noteq> []" using allocate_pending [OF assms(1) blk(1)] w1(2) by simp
  from assms(8) [OF this, of "context_socket c"] rc have "bytes \<noteq> []" by simp
  with rc have "recv_into recv (context_socket c) [] (- 1) w2 = None"
    by (simp add: recv_into_def)
  moreover have "deref (repoint q x) = Some x" for x using q(1) by (cases q) auto
  ultimately show ?thesis using w1(1) q nn blk assms(6,7)
    by (simp add: connector_read_message_generic_def read_message_data_def Let_def)
qed

theorem read_length_wraps_witness:
  "connector_read_message_generic sample_os (Some sample_context) sample_message (os_recv sample_os)
     [3, 0xc9, 0, 0, 0xff, 0xff, 0xff, 0xff, 0, 0, 0, 0, 0, 0, 0, 0, 0, 0, 0, 0, 0, 0, 0, 0, 65] = None"
proof -
  let ?f = "[3, 0xc9, 0, 0, 0xff, 0xff, 0xff, 0xff, 0, 0, 0, 0, 0, 0, 0, 0, 0, 0, 0, 0, 0, 0, 0, 0] :: u8 list"
  have "load16 ?f 0 = 0xc903" "load32 ?f 4 = 0xffffffff" by code_simp+
  moreover have "htons 0xc903 = 0x03c9" "htonl 0xffffffff = 0xffffffff" by code_simp+
  moreover have "CONNECTOR_IDENTIFY_MESSAGE 0x03c9" by code_simp
  ultimately have h: "CONNECTOR_IDENTIFY_MESSAGE (description (connector_ntohheader (load_header ?f)))"
      "message_length (connector_ntohheader (load_header ?f)) = 0xffffffff"
    by (simp_all add: connector_ntohheader_def load_header_def)
  have "receivable sample_message" by (simp add: receivable_def sample_message_def)
  moreover have "0 < unat (- 1 :: u64)" by (simp add: unat_gt_0)
  then have "fst (snd (os_recv sample_os fd (- 1) v)) \<noteq> []" if "v \<noteq> []" for fd v
    using that by (simp add: sample_os_def)
  ultimately show ?thesis
    using read_length_wraps [OF sample_link sample_os_allocator _ _ _ h, of sample_message "?f @ [65]" 65 "[]" sample_context]
    by simp
qed

end
