(* ===== verification/Path_Utils.thy ===== *)
theory Path_Utils
  imports String_Utils
begin

text \<open>
  Path concatenation of \<^verbatim>\<open>pathutils.c\<close> (POSIX branch): an array of string pointers ended by
  NULL is joined with the path delimiter. The code measures first, then copies; the result
  is shown to be the intercalation of the parts in a block of exactly the right size.
\<close>

definition CONNECTOR_PATH_DELIM :: u8 where "CONNECTOR_PATH_DELIM = 47"

text \<open>A write of a byte sequence into a block.\<close>

definition write_at :: "u8 list \<Rightarrow> nat \<Rightarrow> u8 list \<Rightarrow> u8 list option" where
  "write_at blk i bytes =
     (if i + length bytes \<le> length blk then Some (take i blk @ bytes @ drop (i + length bytes) blk) else None)"

text \<open>The first loop: total length and number of parts, up to the NULL entry.\<close>

fun join_measure :: "u8 list cptr list \<Rightarrow> u64 \<Rightarrow> u64 \<Rightarrow> (u64 \<times> u64) option" where
  "join_measure [] sz count = None"
| "join_measure (p # ps) sz count =
     (if p = NULL then Some (sz, count)
      else do { b \<leftarrow> deref p; n \<leftarrow> strlen b; join_measure ps (sz + of_nat n) (count + 1) })"

text \<open>The second loop; the first argument counts the parts still to copy.\<close>

fun join_copy :: "nat \<Rightarrow> u8 list cptr list \<Rightarrow> u8 list \<Rightarrow> nat \<Rightarrow> u8 list option" where
  "join_copy 0 ps blk loc = Some blk"
| "join_copy (Suc k) [] blk loc = None"
| "join_copy (Suc k) (p # ps) blk loc = do {
     b \<leftarrow> deref p;
     n \<leftarrow> strlen b;
     blk1 \<leftarrow> write_at blk loc (take n b);
     blk2 \<leftarrow> write_at blk1 (loc + n) [if k = 0 then 0 else CONNECTOR_PATH_DELIM];
     join_copy k ps blk2 (loc + n + 1) }"

text \<open>
  \<^verbatim>\<open>connector_path_join\<close>: \<open>None\<close> for \<open>parts\<close> is the NULL array, \<open>want\<close> tells whether the
  result pointer is there; the middle component is what is stored through it.
\<close>

definition connector_path_join ::
    "'w os \<Rightarrow> u8 list cptr list option \<Rightarrow> bool \<Rightarrow> 'w \<Rightarrow>
      (substance_connector_error \<times> u8 list cptr option \<times> 'w) option" where
  "connector_path_join env parts want w =
     (case parts of
        None \<Rightarrow> Some (SUBSTANCE_CONNECTOR_ERROR, None, w)
      | Some ps \<Rightarrow>
          if \<not> want then Some (SUBSTANCE_CONNECTOR_ERROR, None, w)
          else do {
            (sz, count) \<leftarrow> join_measure ps 0 0;
            if count > 0 then
              (case connector_allocate env (sz + (count - 1) + 1) w of
                 (None, w1) \<Rightarrow> None
               | (Some blk, w1) \<Rightarrow> do {
                   r \<leftarrow> join_copy (unat count) ps blk 0;
                   Some (SUBSTANCE_CONNECTOR_SUCCESS, Some (OWNED r), w1) })
            else Some (SUBSTANCE_CONNECTOR_ERROR, None, w) })"

definition connector_path_strdup ::
    "'w os \<Rightarrow> u8 list cptr \<Rightarrow> 'w \<Rightarrow> (u8 list cptr \<times> 'w) option" where
  "connector_path_strdup env s w = connector_strdup env s w"

section \<open>The joined path\<close>

fun intercalate :: "'a \<Rightarrow> 'a list list \<Rightarrow> 'a list" where
  "intercalate d [] = []"
| "intercalate d [s] = s"
| "intercalate d (s # t # ss) = s @ d # intercalate d (t # ss)"

text \<open>The string pointers of an array whose strings are the given ones.\<close>

definition string_parts :: "u8 list cptr list \<Rightarrow> u8 list list \<Rightarrow> bool" where
  "string_parts ps ss \<longleftrightarrow> list_all2 (\<lambda>p s. \<exists>b. deref p = Some b \<and> 0 \<in> set b \<and> cstr b = s) ps ss"

lemma length_intercalate:
  "ss \<noteq> [] \<Longrightarrow> Suc (length (intercalate d ss)) = sum_list (map length ss) + length ss"
  by (induction d ss rule: intercalate.induct) auto

lemma join_measure_parts:
  assumes "string_parts ps ss"
  shows "join_measure (ps @ NULL # rest) sz count =
    Some (sz + of_nat (sum_list (map length ss)), count + of_nat (length ss))"
  using assms unfolding string_parts_def
proof (induction ps ss arbitrary: sz count rule: list_all2_induct)
  case Nil
  then show ?case by simp
next
  case (Cons p ps s ss)
  then obtain b where b: "deref p = Some b" "0 \<in> set b" "cstr b = s" by blast
  have "p \<noteq> NULL" using b(1) by auto
  with b Cons.IH show ?case by (simp add: strlen_def algebra_simps)
qed

lemma join_copy_parts:
  assumes "string_parts ps ss" "ss \<noteq> []" "length blk = Suc (length (intercalate CONNECTOR_PATH_DELIM ss))"
  shows "join_copy (length ss) (ps @ rest) (pre @ blk) (length pre)
    = Some (pre @ intercalate CONNECTOR_PATH_DELIM ss @ [0])"
  using assms
proof (induction ss arbitrary: ps pre blk)
  case Nil
  then show ?case by simp
next
  case (Cons s ss)
  from Cons.prems(1) obtain p qs b where ps: "ps = p # qs" and b: "deref p = Some b" "0 \<in> set b" "cstr b = s"
      and qs: "string_parts qs ss"
    by (auto simp: string_parts_def list_all2_Cons2)
  have tk: "take (length s) b = s" using cstr_take [of b] b(3) by simp
  let ?d = "if ss = [] then 0 else CONNECTOR_PATH_DELIM"
  have l: "Suc (length s) \<le> length blk" using Cons.prems(3) by (cases ss) auto
  have w1: "write_at (pre @ blk) (length pre) s = Some (pre @ s @ drop (length s) blk)"
    using l by (simp add: write_at_def)
  have w2: "write_at (pre @ s @ drop (length s) blk) (length pre + length s) [?d]
      = Some ((pre @ s @ [?d]) @ drop (Suc (length s)) blk)"
    using l by (simp add: write_at_def)
  have step: "join_copy (length (s # ss)) (ps @ rest) (pre @ blk) (length pre)
      = join_copy (length ss) (qs @ rest) ((pre @ s @ [?d]) @ drop (Suc (length s)) blk) (length (pre @ s @ [?d]))"
    using b tk w1 w2 by (simp add: ps strlen_def)
  show ?case
  proof (cases "ss = []")
    case True
    then show ?thesis using step Cons.prems(3) by simp
  next
    case False
    have "length (drop (Suc (length s)) blk) = Suc (length (intercalate CONNECTOR_PATH_DELIM ss))"
      using Cons.prems(3) False by (cases ss) auto
    from Cons.IH [OF qs False this, of "pre @ s @ [?d]"] step False show ?thesis
      by (cases ss) auto
  qed
qed

lemma path_join_result:
  assumes "allocator_succeeds env" "string_parts ps ss" "ss \<noteq> []"
    "length (intercalate CONNECTOR_PATH_DELIM ss) + 1 < 2 ^ 64"
  shows "\<exists>w'. connector_path_join env (Some (ps @ NULL # rest)) True w =
    Some (SUBSTANCE_CONNECTOR_SUCCESS, Some (OWNED (c_string (intercalate CONNECTOR_PATH_DELIM ss))), w')"
proof -
  let ?j = "intercalate CONNECTOR_PATH_DELIM ss"
  let ?sz = "of_nat (sum_list (map length ss)) :: u64" and ?c = "of_nat (length ss) :: u64"
  have lj: "Suc (length ?j) = sum_list (map length ss) + length ss"
    using length_intercalate [OF assms(3)] by blast
  have c: "unat ?c = length ss" using lj assms(4) by (simp add: unat_of_nat)
  have pos: "0 < ?c" using c assms(3) by (simp add: word_less_nat_alt)
  have "?sz + (?c - 1) + 1 = of_nat (Suc (length ?j))" unfolding lj by simp
  then have sz: "unat (?sz + (?c - 1) + 1) = Suc (length ?j)"
    using assms(4) by (simp add: unat_of_nat del: of_nat_Suc)
  obtain blk w' where blk: "connector_allocate env (?sz + (?c - 1) + 1) w = (Some blk, w')"
      "length blk = Suc (length ?j)"
    using allocate_exact [OF assms(1), of "?sz + (?c - 1) + 1" w] sz by metis
  have "join_copy (length ss) (ps @ NULL # rest) blk 0 = Some (c_string ?j)"
    using join_copy_parts [OF assms(2,3) blk(2), of "NULL # rest" "[]"] by (simp add: c_string_def)
  then show ?thesis using blk(1) pos c join_measure_parts [OF assms(2), of rest 0 0]
    by (simp add: connector_path_join_def)
qed

section \<open>Properties\<close>

text \<open>
  Joining. For at least one part, the result is one block that holds exactly the parts
  separated by the delimiter and a terminator (no byte is written outside it); an empty
  list of parts, a NULL array or a missing result pointer is an error and stores nothing.
\<close>

theorem path_join_intercalates:
  assumes "allocator_succeeds env" and "string_parts ps ss"
    and "length (intercalate CONNECTOR_PATH_DELIM ss) + 1 < 2 ^ 64"
  shows "(if ss = []
      then connector_path_join env (Some (ps @ NULL # rest)) True w = Some (SUBSTANCE_CONNECTOR_ERROR, None, w)
      else \<exists>w'. connector_path_join env (Some (ps @ NULL # rest)) True w =
        Some (SUBSTANCE_CONNECTOR_SUCCESS, Some (OWNED (c_string (intercalate CONNECTOR_PATH_DELIM ss))), w')) \<and>
    connector_path_join env None True w = Some (SUBSTANCE_CONNECTOR_ERROR, None, w) \<and>
    connector_path_join env (Some ps) False w = Some (SUBSTANCE_CONNECTOR_ERROR, None, w)"
proof (cases "ss = []")
  case True
  with assms(2) have "ps = []" by (simp add: string_parts_def)
  with True show ?thesis by (simp add: connector_path_join_def)
next
  case False
  with path_join_result [OF assms(1,2) False assms(3), of rest w] show ?thesis
    by (simp add: connector_path_join_def)
qed

theorem path_join_intercalates_witness:
  "\<exists>w'. connector_path_join sample_os (Some [BORROWED [47, 97, 0], BORROWED [98, 0], NULL]) True [] =
     Some (SUBSTANCE_CONNECTOR_SUCCESS, Some (OWNED [47, 97, 47, 98, 0]), w')"
  using path_join_intercalates [of sample_os "[BORROWED [47, 97, 0], BORROWED [98, 0]]" "[[47, 97], [98]]" "[]" "[]"]
  by (simp add: string_parts_def cstr_def c_string_def CONNECTOR_PATH_DELIM_def)

end
