(* ===== verification/File_Utils.thy ===== *)
theory File_Utils
  imports Path_Utils
begin

text \<open>
  File system helpers of \<^verbatim>\<open>fileutils.c\<close> (POSIX branch): file type tests, creation and removal
  of files and directories, and directory listings kept in a growing array of strings that
  is meant to end with a NULL entry.
\<close>

section \<open>Paths as the system calls see them\<close>

definition c_path :: "u8 list cptr \<Rightarrow> u8 list option" where
  "c_path p = do { b \<leftarrow> deref p; _ \<leftarrow> strlen b; Some (cstr b) }"

lemma c_path_string [simp]: "0 \<notin> set s \<Longrightarrow> deref p = Some (c_string s) \<Longrightarrow> c_path p = Some s"
  by (simp add: c_path_def)

definition S_IFDIR :: u32 where "S_IFDIR = 0x4000"
definition S_IFREG :: u32 where "S_IFREG = 0x8000"
definition S_IFSOCK :: u32 where "S_IFSOCK = 0xC000"

section \<open>File types\<close>

definition test_file_type ::
    "'w os \<Rightarrow> u8 list cptr \<Rightarrow> u32 \<Rightarrow> 'w \<Rightarrow> (substance_connector_error \<times> 'w) option" where
  "test_file_type env path flag w =
     (if path \<noteq> NULL then do {
        f \<leftarrow> c_path path;
        case os_stat env f w of (r, mode, w1) \<Rightarrow>
          if r = 0 then
            if mode AND flag \<noteq> 0 then Some (SUBSTANCE_CONNECTOR_SUCCESS, w1)
            else Some (SUBSTANCE_CONNECTOR_ERROR, w1)
          else Some (SUBSTANCE_CONNECTOR_ERROR, w1) }
      else Some (SUBSTANCE_CONNECTOR_ERROR, w))"

definition connector_is_directory where
  "connector_is_directory env path w = test_file_type env path S_IFDIR w"

definition connector_is_unix_socket where
  "connector_is_unix_socket env path w = test_file_type env path S_IFSOCK w"

definition connector_is_file where
  "connector_is_file env path w = test_file_type env path S_IFREG w"

section \<open>Creation and removal\<close>

text \<open>The directory is made with mode 7 (all rights for others), then opened up with mode 511 (octal 777).\<close>

definition connector_make_directory ::
    "'w os \<Rightarrow> u8 list cptr \<Rightarrow> 'w \<Rightarrow> (substance_connector_error \<times> 'w) option" where
  "connector_make_directory env path w =
     (if path \<noteq> NULL then do {
        f \<leftarrow> c_path path;
        case os_mkdir env f 7 w of (r1, w1) \<Rightarrow>
          if r1 \<noteq> 0 then Some (SUBSTANCE_CONNECTOR_ERROR, w1)
          else (case os_chmod env f 511 w1 of (r2, w2) \<Rightarrow>
            if r2 \<noteq> 0 then Some (SUBSTANCE_CONNECTOR_ERROR, w2)
            else Some (SUBSTANCE_CONNECTOR_SUCCESS, w2)) }
      else Some (SUBSTANCE_CONNECTOR_ERROR, w))"

definition connector_remove_directory ::
    "'w os \<Rightarrow> u8 list cptr \<Rightarrow> 'w \<Rightarrow> (substance_connector_error \<times> 'w) option" where
  "connector_remove_directory env path w = do {
     f \<leftarrow> c_path path;
     case os_rmdir env f w of (r, w1) \<Rightarrow>
       Some (if r = 0 then SUBSTANCE_CONNECTOR_SUCCESS else SUBSTANCE_CONNECTOR_ERROR, w1) }"

definition connector_remove_file ::
    "'w os \<Rightarrow> u8 list cptr \<Rightarrow> 'w \<Rightarrow> (substance_connector_error \<times> 'w) option" where
  "connector_remove_file env path w = do {
     f \<leftarrow> c_path path;
     case os_unlink env f w of (r, w1) \<Rightarrow>
       Some (if r = 0 then SUBSTANCE_CONNECTOR_SUCCESS else SUBSTANCE_CONNECTOR_ERROR, w1) }"

section \<open>Directory listings\<close>

text \<open>
  The array of a listing: its cells hold string pointers; a cell of a fresh block that was
  not zeroed holds an indeterminate pointer.
\<close>

type_synonym file_list = "u8 list cptr list cptr"

type_synonym 'w list_filter = "u8 list cptr \<Rightarrow> 'w \<Rightarrow> (substance_connector_error \<times> 'w) option"

definition default_filter :: "'w list_filter" where
  "default_filter path w =
     (if path \<noteq> NULL then do {
        b \<leftarrow> deref path;
        guard_ok (b \<noteq> []);
        Some (if b ! 0 \<noteq> 46 then SUBSTANCE_CONNECTOR_SUCCESS else SUBSTANCE_CONNECTOR_ERROR, w) }
      else Some (SUBSTANCE_CONNECTOR_ERROR, w))"

definition CONNECTOR_DEFAULT_FILE_LIST_SIZE :: nat where "CONNECTOR_DEFAULT_FILE_LIST_SIZE = 16"

definition file_list_store ::
    "'w os \<Rightarrow> u8 list cptr \<Rightarrow> u8 list cptr list \<Rightarrow> nat \<Rightarrow> nat \<Rightarrow> 'w \<Rightarrow>
      (nat \<times> file_list \<times> nat \<times> 'w) option" where
  "file_list_store env path cells cap sz w = do {
     (copy, w1) \<leftarrow> connector_path_strdup env path w;
     guard_ok (sz < length cells);
     Some (sz + 1, OWNED (cells[sz := copy]), cap, w1) }"

text \<open>
  \<^verbatim>\<open>append_file_list\<close>: returns the new size, the array, the capacity. A grown block is zeroed
  over the old capacity only, then overwritten there by the copy of the old cells.
\<close>

definition append_file_list ::
    "'w os \<Rightarrow> u8 list cptr \<Rightarrow> file_list \<Rightarrow> nat \<Rightarrow> nat \<Rightarrow> 'w \<Rightarrow>
      (nat \<times> file_list \<times> nat \<times> 'w) option" where
  "append_file_list env path elems cap sz w =
     (if elems = NULL then
        let cap1 = CONNECTOR_DEFAULT_FILE_LIST_SIZE in
        (case connector_allocate env (of_nat (8 * cap1)) w of
           (None, _) \<Rightarrow> None
         | (Some _, w1) \<Rightarrow> file_list_store env path (replicate cap1 NULL) cap1 sz w1)
      else if sz + 2 = cap then
        (case connector_allocate env (of_nat (8 * cap * 2)) w of
           (None, _) \<Rightarrow> None
         | (Some _, w1) \<Rightarrow> do {
             old \<leftarrow> deref elems;
             guard_ok (cap \<le> length old);
             let array = take cap old @ replicate cap DANGLING;
             _ \<leftarrow> connector_free elems;
             file_list_store env path array (cap * 2) sz w1 })
      else do {
        cells \<leftarrow> deref elems;
        file_list_store env path cells cap sz w })"

fun list_loop ::
    "'w os \<Rightarrow> 'w list_filter \<Rightarrow> u8 list list \<Rightarrow> file_list \<Rightarrow> nat \<Rightarrow> nat \<Rightarrow> 'w \<Rightarrow> (file_list \<times> 'w) option" where
  "list_loop env filter_op [] elems cap count w = Some (elems, w)"
| "list_loop env filter_op (name # names) elems cap count w = do {
     (r, w1) \<leftarrow> filter_op (BORROWED (c_string name)) w;
     if r = SUBSTANCE_CONNECTOR_SUCCESS then do {
       (count', elems', cap', w2) \<leftarrow> append_file_list env (BORROWED (c_string name)) elems cap count w1;
       list_loop env filter_op names elems' cap' count' w2 }
     else list_loop env filter_op names elems cap count w1 }"

definition connector_list_directory ::
    "'w os \<Rightarrow> u8 list cptr \<Rightarrow> 'w list_filter option \<Rightarrow> file_list \<Rightarrow> 'w \<Rightarrow>
      (substance_connector_error \<times> file_list \<times> 'w) option" where
  "connector_list_directory env path filter_op elems w =
     (let f = (case filter_op of None \<Rightarrow> default_filter | Some g \<Rightarrow> g) in
      if path \<noteq> NULL then do {
        p \<leftarrow> c_path path;
        case os_readdir env p w of
          (None, w1) \<Rightarrow> Some (SUBSTANCE_CONNECTOR_ERROR, elems, w1)
        | (Some names, w1) \<Rightarrow> do {
            (elems', w2) \<leftarrow> list_loop env f names elems 0 0 w1;
            Some (SUBSTANCE_CONNECTOR_SUCCESS, elems', w2) } }
      else Some (SUBSTANCE_CONNECTOR_ERROR, elems, w))"

text \<open>\<^verbatim>\<open>connector_clear_directory_list\<close>: the walk over the cells up to the NULL entry.\<close>

fun clear_cells :: "u8 list cptr list \<Rightarrow> unit option" where
  "clear_cells [] = None"
| "clear_cells (p # ps) = (if p = NULL then Some () else do { _ \<leftarrow> connector_free p; clear_cells ps })"

definition connector_clear_directory_list :: "file_list \<Rightarrow> file_list option" where
  "connector_clear_directory_list elems =
     (if elems = NULL then Some NULL
      else do {
        cells \<leftarrow> deref elems;
        clear_cells cells;
        _ \<leftarrow> connector_free elems;
        Some NULL })"

section \<open>The array of a listing\<close>

definition owned_names :: "u8 list list \<Rightarrow> u8 list cptr list" where
  "owned_names ns = map (\<lambda>n. OWNED (c_string n)) ns"

text \<open>The array after the given names were appended: zeroed cells are left only below 16.\<close>

definition listing :: "u8 list list \<Rightarrow> nat \<Rightarrow> file_list" where
  "listing ns cap = (if ns = [] then NULL
     else OWNED (owned_names ns @ replicate (16 - length ns) NULL @
       replicate (cap - max 16 (length ns)) DANGLING))"

definition listing_cap :: "u8 list list \<Rightarrow> nat \<Rightarrow> bool" where
  "listing_cap ns cap \<longleftrightarrow> (if ns = [] then cap = 0
     else length ns + 2 \<le> cap \<and> (length ns \<le> 14 \<longrightarrow> cap = 16) \<and> (15 \<le> length ns \<longrightarrow> 32 \<le> cap))"

definition plain_name :: "u8 list \<Rightarrow> bool" where
  "plain_name n \<longleftrightarrow> 0 \<notin> set n \<and> length n < 2 ^ 32"

lemma length_owned_names [simp]: "length (owned_names ns) = length ns"
  by (simp add: owned_names_def)

lemma file_list_store_name:
  assumes "allocator_succeeds env" "plain_name n" "sz < length cells"
  shows "\<exists>w'. file_list_store env (BORROWED (c_string n)) cells cap sz w =
    Some (sz + 1, OWNED (cells[sz := OWNED (c_string n)]), cap, w')"
proof -
  have "\<exists>w'. connector_strdup env (BORROWED (c_string n)) w = Some (OWNED (c_string n), w')"
    using strdup_result [OF assms(1), of "BORROWED (c_string n)" "c_string n" w] assms(2)
    by (auto simp: plain_name_def c_string_def)
  then show ?thesis using assms(3) by (auto simp: file_list_store_def connector_path_strdup_def)
qed

text \<open>Storing in the first free cell of the array.\<close>

lemma listing_update:
  assumes "length ns < cap" "16 \<le> cap"
  shows "(owned_names ns @ replicate (16 - length ns) NULL @ replicate (cap - max 16 (length ns)) DANGLING)
      [length ns := OWNED (c_string n)]
    = owned_names (ns @ [n]) @ replicate (16 - length (ns @ [n])) NULL @
      replicate (cap - max 16 (length (ns @ [n]))) DANGLING"
proof (cases "length ns < 16")
  case True
  then have "16 - length ns = Suc (15 - length ns)" by simp
  with True show ?thesis by (simp add: owned_names_def list_update_append max_def) arith
next
  case False
  then have "cap - max 16 (length ns) = Suc (cap - Suc (length ns))" using assms by simp
  with False show ?thesis by (simp add: owned_names_def list_update_append max_def)
qed

lemma append_grow:
  assumes "allocator_succeeds env" "plain_name n" "length cells = cap" "sz + 2 = cap"
  shows "\<exists>w'. append_file_list env (BORROWED (c_string n)) (OWNED cells) cap sz w =
    Some (sz + 1, OWNED ((cells @ replicate cap DANGLING)[sz := OWNED (c_string n)]), cap * 2, w')"
proof -
  obtain b w1 where b: "connector_allocate env (of_nat (8 * cap * 2)) w = (Some b, w1)"
    by (rule allocate_exact [OF assms(1)])
  have "sz < length (cells @ replicate cap DANGLING)" using assms(3,4) by simp
  from file_list_store_name [OF assms(1,2) this, of "cap * 2" w1] b show ?thesis
    using assms(3,4) by (auto simp: append_file_list_def)
qed

lemma append_room:
  assumes "allocator_succeeds env" "plain_name n" "sz + 2 < cap" "length cells = cap"
  shows "\<exists>w'. append_file_list env (BORROWED (c_string n)) (OWNED cells) cap sz w =
    Some (sz + 1, OWNED (cells[sz := OWNED (c_string n)]), cap, w')"
  using file_list_store_name [OF assms(1,2), of sz cells cap w] assms(3,4)
  by (auto simp: append_file_list_def)

lemma append_listing:
  assumes al: "allocator_succeeds env" and n: "plain_name n" and cap: "listing_cap ns cap"
  shows "\<exists>cap' w'. append_file_list env (BORROWED (c_string n)) (listing ns cap) cap (length ns) w =
    Some (length (ns @ [n]), listing (ns @ [n]) cap', cap', w') \<and> listing_cap (ns @ [n]) cap'"
proof -
  let ?cells = "owned_names ns @ replicate (16 - length ns) NULL @ replicate (cap - max 16 (length ns)) DANGLING"
  have "ns \<noteq> [] \<Longrightarrow> length ns + 2 \<le> cap" using cap by (simp add: listing_cap_def)
  then consider (first) "ns = []" | (grow) "ns \<noteq> []" "length ns + 2 = cap" | (room) "ns \<noteq> []" "length ns + 2 < cap"
    by (metis le_neq_implies_less)
  then show ?thesis
  proof cases
    case first
    obtain b w1 where b: "connector_allocate env 128 w = (Some b, w1)" by (rule allocate_exact [OF al])
    have "\<exists>w'. file_list_store env (BORROWED (c_string n)) (replicate 16 NULL) 16 0 w1 =
        Some (0 + 1, OWNED ((replicate 16 NULL)[0 := OWNED (c_string n)]), 16, w')"
      by (rule file_list_store_name [OF al n]) simp
    moreover have "(replicate 16 NULL)[0 := OWNED (c_string n)] = owned_names [n] @ replicate 15 NULL"
      using listing_update [of "[]" 16 n] by (simp add: owned_names_def)
    ultimately show ?thesis using first b cap
      by (auto simp: append_file_list_def listing_def listing_cap_def CONNECTOR_DEFAULT_FILE_LIST_SIZE_def)
  next
    case grow
    have c16: "16 \<le> cap" "length ?cells = cap" using grow cap by (auto simp: listing_cap_def)
    have arr: "?cells @ replicate cap DANGLING
        = owned_names ns @ replicate (16 - length ns) NULL @ replicate (cap * 2 - max 16 (length ns)) DANGLING"
      using c16 grow by (simp add: replicate_add [symmetric] max_def)
    obtain w2 where "append_file_list env (BORROWED (c_string n)) (OWNED ?cells) cap (length ns) w =
        Some (length ns + 1, OWNED ((?cells @ replicate cap DANGLING)[length ns := OWNED (c_string n)]), cap * 2, w2)"
      using append_grow [OF al n c16(2) grow(2)] by blast
    moreover have "(?cells @ replicate cap DANGLING)[length ns := OWNED (c_string n)]
        = owned_names (ns @ [n]) @ replicate (16 - length (ns @ [n])) NULL @
          replicate (cap * 2 - max 16 (length (ns @ [n]))) DANGLING"
      unfolding arr by (rule listing_update) (use grow c16 in auto)
    ultimately have "append_file_list env (BORROWED (c_string n)) (listing ns cap) cap (length ns) w
        = Some (length (ns @ [n]), listing (ns @ [n]) (cap * 2), cap * 2, w2)"
      using grow(1) by (simp only: listing_def) simp
    then show ?thesis using grow cap by (intro exI [of _ "cap * 2"] exI [of _ w2]) (auto simp: listing_cap_def)
  next
    case room
    have c16: "16 \<le> cap" "length ?cells = cap" using room cap by (auto simp: listing_cap_def)
    obtain w2 where "append_file_list env (BORROWED (c_string n)) (OWNED ?cells) cap (length ns) w =
        Some (length ns + 1, OWNED (?cells[length ns := OWNED (c_string n)]), cap, w2)"
      using append_room [OF al n room(2) c16(2)] by blast
    moreover have "?cells[length ns := OWNED (c_string n)]
        = owned_names (ns @ [n]) @ replicate (16 - length (ns @ [n])) NULL @
          replicate (cap - max 16 (length (ns @ [n]))) DANGLING"
      by (rule listing_update) (use room c16 in auto)
    ultimately have "append_file_list env (BORROWED (c_string n)) (listing ns cap) cap (length ns) w
        = Some (length (ns @ [n]), listing (ns @ [n]) cap, cap, w2)"
      using room(1) by (simp only: listing_def) simp
    then show ?thesis using room cap by (intro exI [of _ cap] exI [of _ w2]) (auto simp: listing_cap_def)
  qed
qed

text \<open>A filter that decides by name alone: the default one accepts what does not start with a dot.\<close>

definition name_filter :: "'w list_filter \<Rightarrow> (u8 list \<Rightarrow> bool) \<Rightarrow> bool" where
  "name_filter f acc \<longleftrightarrow> (\<forall>n w. 0 \<notin> set n \<longrightarrow> f (BORROWED (c_string n)) w =
     Some (if acc n then SUBSTANCE_CONNECTOR_SUCCESS else SUBSTANCE_CONNECTOR_ERROR, w))"

definition visible :: "u8 list \<Rightarrow> bool" where
  "visible n \<longleftrightarrow> n = [] \<or> hd n \<noteq> 46"

lemma default_filter_visible: "name_filter default_filter visible"
  unfolding name_filter_def
proof (intro allI impI)
  fix n :: "u8 list" and w :: 'a
  show "default_filter (BORROWED (c_string n)) w =
     Some (if visible n then SUBSTANCE_CONNECTOR_SUCCESS else SUBSTANCE_CONNECTOR_ERROR, w)"
    by (cases n) (auto simp: default_filter_def c_string_def visible_def)
qed

lemma list_loop_listing:
  assumes "allocator_succeeds env" "name_filter f acc"
    and "list_all plain_name names" "listing_cap ns cap"
  shows "\<exists>cap' w'. list_loop env f names (listing ns cap) cap (length ns) w =
    Some (listing (ns @ filter acc names) cap', w') \<and> listing_cap (ns @ filter acc names) cap'"
  using assms(3,4)
proof (induction names arbitrary: ns cap w)
  case Nil
  then show ?case by auto
next
  case (Cons n names)
  then have n: "plain_name n" "list_all plain_name names" by simp_all
  have f: "f (BORROWED (c_string n)) w = Some (if acc n then SUBSTANCE_CONNECTOR_SUCCESS else SUBSTANCE_CONNECTOR_ERROR, w)"
    using assms(2) n(1) by (simp add: name_filter_def plain_name_def)
  show ?case
  proof (cases "acc n")
    case True
    obtain cap1 w1 where a: "append_file_list env (BORROWED (c_string n)) (listing ns cap) cap (length ns) w =
        Some (length (ns @ [n]), listing (ns @ [n]) cap1, cap1, w1)" "listing_cap (ns @ [n]) cap1"
      using append_listing [OF assms(1) n(1) Cons.prems(2)] by blast
    from Cons.IH [OF n(2) a(2), of w1] True f a(1) show ?thesis by simp
  next
    case False
    with Cons.IH [OF n(2) Cons.prems(2), of w] f show ?thesis by simp
  qed
qed

lemma clear_cells_names: "clear_cells (owned_names ns @ rest) = clear_cells rest"
  by (induction ns) (simp_all add: owned_names_def)

lemma clear_listing:
  assumes "listing_cap ns cap"
  shows "connector_clear_directory_list (listing ns cap) = (if length ns < 16 then Some NULL else None)"
proof (cases "ns = []")
  case True
  then show ?thesis by (simp add: listing_def connector_clear_directory_list_def)
next
  case False
  show ?thesis
  proof (cases "length ns < 16")
    case True
    then have "16 - length ns = Suc (15 - length ns)" by simp
    with True False show ?thesis by (simp add: listing_def connector_clear_directory_list_def clear_cells_names)
  next
    case F: False
    then have "cap - max 16 (length ns) = Suc (cap - Suc (length ns))"
      using assms False by (auto simp: listing_cap_def)
    with F False show ?thesis by (simp add: listing_def connector_clear_directory_list_def clear_cells_names)
  qed
qed

section \<open>Properties\<close>

text \<open>
  Directory listings. Listing a readable directory with the default filter succeeds and
  yields the visible names in order. With fewer than 16 of them the list ends with NULL and
  clearing it releases everything; from 16 on the array has no NULL entry, because a grown
  array is zeroed over its old half only, and clearing it runs into indeterminate pointers.
\<close>

theorem list_then_clear_directory:
  assumes "allocator_succeeds env" and "c_path path = Some p" and "path \<noteq> NULL"
    and "os_readdir env p w = (Some names, w1)" and "list_all plain_name names"
  shows "\<exists>elems w'. connector_list_directory env path None NULL w = Some (SUBSTANCE_CONNECTOR_SUCCESS, elems, w') \<and>
    (filter visible names \<noteq> [] \<longrightarrow> (\<exists>rest. elems = OWNED (owned_names (filter visible names) @ rest) \<and>
      (length (filter visible names) < 16 \<longrightarrow> hd rest = NULL))) \<and>
    connector_clear_directory_list elems = (if length (filter visible names) < 16 then Some NULL else None)"
proof -
  let ?v = "filter visible names"
  have l: "listing [] 0 = NULL" "listing_cap [] 0" by (simp_all add: listing_def listing_cap_def)
  obtain cap w' where r: "list_loop env default_filter names NULL 0 0 w1 = Some (listing ?v cap, w')"
      "listing_cap ?v cap"
    using list_loop_listing [OF assms(1) default_filter_visible assms(5) l(2), of w1] l(1) by auto
  have "connector_list_directory env path None NULL w = Some (SUBSTANCE_CONNECTOR_SUCCESS, listing ?v cap, w')"
    using assms(2-4) r(1) by (simp add: connector_list_directory_def)
  moreover have "\<exists>rest. listing ?v cap = OWNED (owned_names ?v @ rest) \<and> (length ?v < 16 \<longrightarrow> hd rest = NULL)"
    if "?v \<noteq> []"
    using that by (intro exI [of _ "replicate (16 - length ?v) NULL @ replicate (cap - max 16 (length ?v)) DANGLING"])
      (auto simp: listing_def hd_append)
  ultimately show ?thesis using clear_listing [OF r(2)] by blast
qed

theorem list_then_clear_directory_witness:
  "\<exists>elems w'. connector_list_directory (sample_os\<lparr>os_readdir := (\<lambda>f w. (Some (replicate 16 [97]), w))\<rparr>)
      (BORROWED [47, 0]) None NULL [] = Some (SUBSTANCE_CONNECTOR_SUCCESS, elems, w') \<and>
    connector_clear_directory_list elems = None"
proof -
  let ?env = "sample_os\<lparr>os_readdir := (\<lambda>f w. (Some (replicate 16 [97]), w))\<rparr>"
  have "allocator_succeeds ?env" by (simp add: allocator_succeeds_def sample_os_def)
  moreover have "c_path (BORROWED [47, 0]) = Some [47]" by (simp add: c_path_def cstr_def strlen_def)
  moreover have "list_all plain_name (replicate 16 [97])" by (simp add: plain_name_def list_all_iff)
  moreover have "filter visible (replicate 16 [97]) = replicate 16 [97]" by (simp add: visible_def)
  ultimately show ?thesis
    using list_then_clear_directory [of ?env "BORROWED [47, 0]" "[47]" "[]" "replicate 16 [97]" "[]"] by auto
qed

text \<open>
  The file type tests compare single bits of the mode with whole type codes. For every
  path whose \<open>stat\<close> succeeds, a local socket (type code hexadecimal C000) is reported as a
  directory, as a regular file and as a socket alike; and a plain directory or file is
  reported as a socket.
\<close>

theorem file_type_tests_overlap:
  assumes "c_path path = Some p" and "path \<noteq> NULL" and "os_stat env p w = (0, mode, w1)"
  shows "(mode AND 0xF000 = S_IFSOCK \<longrightarrow>
      connector_is_directory env path w = Some (SUBSTANCE_CONNECTOR_SUCCESS, w1) \<and>
      connector_is_file env path w = Some (SUBSTANCE_CONNECTOR_SUCCESS, w1)) \<and>
    (mode AND 0xF000 = S_IFDIR \<or> mode AND 0xF000 = S_IFREG \<longrightarrow>
      connector_is_unix_socket env path w = Some (SUBSTANCE_CONNECTOR_SUCCESS, w1))"
proof -
  have sub: "mode AND f = (mode AND 0xF000) AND f" if "f AND 0xF000 = f" for f :: u32
    using that by (simp add: and.assoc and.commute [of "0xF000" f])
  have "S_IFDIR AND 0xF000 = S_IFDIR" "S_IFREG AND 0xF000 = S_IFREG" "S_IFSOCK AND 0xF000 = S_IFSOCK"
    by (simp_all add: S_IFDIR_def S_IFREG_def S_IFSOCK_def)
  note s = this [THEN sub]
  have t: "test_file_type env path f w = Some (if mode AND f \<noteq> 0 then SUBSTANCE_CONNECTOR_SUCCESS
      else SUBSTANCE_CONNECTOR_ERROR, w1)" for f
    using assms by (simp add: test_file_type_def)
  have "S_IFSOCK AND S_IFDIR \<noteq> 0" "S_IFSOCK AND S_IFREG \<noteq> 0" "S_IFDIR AND S_IFSOCK \<noteq> 0" "S_IFREG AND S_IFSOCK \<noteq> 0"
    by (simp_all add: S_IFDIR_def S_IFREG_def S_IFSOCK_def)
  then show ?thesis
    unfolding connector_is_directory_def connector_is_file_def connector_is_unix_socket_def t s by auto
qed

theorem file_type_tests_overlap_witness:
  "connector_is_unix_socket sample_os (BORROWED [47, 0]) [] = Some (SUBSTANCE_CONNECTOR_SUCCESS, [])"
  using file_type_tests_overlap [of "BORROWED [47, 0]" "[47]" sample_os "[]" "0x41C0" "[]"]
  by (simp add: c_path_def cstr_def strlen_def sample_os_def S_IFDIR_def)

end
