(* ===== verification/Connection_Directory.thy ===== *)
theory Connection_Directory
  imports File_Utils
begin

text \<open>
  The directories in which running instances announce their open connections
  (\<^verbatim>\<open>connectiondirectory.c\<close>, POSIX branch). An open TCP port is announced by an empty file
  named by its decimal port number.
\<close>

section \<open>Names and directories\<close>

text \<open>The byte string of a literal.\<close>

definition bytes_of :: "string \<Rightarrow> u8 list" where
  "bytes_of s = map (\<lambda>c. of_nat (of_char c)) s"

definition CONNECTOR_DEFAULT_UNIX_DIRECTORY :: "u8 list" where
  "CONNECTOR_DEFAULT_UNIX_DIRECTORY = bytes_of ''/tmp/substanceconnectoropenunix''"

definition CONNECTOR_DEFAULT_TCP_DIRECTORY :: "u8 list" where
  "CONNECTOR_DEFAULT_TCP_DIRECTORY = bytes_of ''/tmp/substanceconnectoropentcp''"

definition connector_get_default_unix_directory :: "u8 list cptr" where
  "connector_get_default_unix_directory = BORROWED (c_string CONNECTOR_DEFAULT_UNIX_DIRECTORY)"

definition connector_get_default_tcp_directory :: "u8 list cptr" where
  "connector_get_default_tcp_directory = BORROWED (c_string CONNECTOR_DEFAULT_TCP_DIRECTORY)"

definition connector_setup_default_tcp_directory :: substance_connector_error where
  "connector_setup_default_tcp_directory = SUBSTANCE_CONNECTOR_SUCCESS"

definition connector_cleanup_default_tcp_directory :: substance_connector_error where
  "connector_cleanup_default_tcp_directory = SUBSTANCE_CONNECTOR_SUCCESS"

text \<open>The output of \<^verbatim>\<open>%u\<close>: decimal digits, at most 15 of them kept by the 16-byte buffer.\<close>

fun decimal :: "nat \<Rightarrow> u8 list" where
  "decimal n = (if n < 10 then [of_nat (48 + n)] else decimal (n div 10) @ [of_nat (48 + n mod 10)])"

declare decimal.simps [simp del]

definition snprintf_u :: "nat \<Rightarrow> u32 \<Rightarrow> u8 list" where
  "snprintf_u sz port = c_string (take (sz - 1) (decimal (unat port)))"

section \<open>Operations\<close>

definition create_tcp_filepath :: "'w os \<Rightarrow> u32 \<Rightarrow> 'w \<Rightarrow> (u8 list cptr \<times> 'w) option" where
  "create_tcp_filepath env port w = do {
     let buffer = snprintf_u 16 port;
     (_, result, w1) \<leftarrow> connector_path_join env
       (Some [connector_get_default_tcp_directory, BORROWED buffer, NULL]) True w;
     Some (case result of None \<Rightarrow> NULL | Some p \<Rightarrow> p, w1) }"

definition connector_ensure_default_unix_directory ::
    "'w os \<Rightarrow> 'w \<Rightarrow> (substance_connector_error \<times> 'w) option" where
  "connector_ensure_default_unix_directory env w = do {
     (_, w1) \<leftarrow> connector_make_directory env connector_get_default_unix_directory w;
     connector_is_directory env connector_get_default_unix_directory w1 }"

definition connector_ensure_default_tcp_directory ::
    "'w os \<Rightarrow> 'w \<Rightarrow> (substance_connector_error \<times> 'w) option" where
  "connector_ensure_default_tcp_directory env w = do {
     (_, w1) \<leftarrow> connector_make_directory env connector_get_default_tcp_directory w;
     connector_is_directory env connector_get_default_tcp_directory w1 }"

text \<open>\<^verbatim>\<open>connector_commit_open_tcp_port\<close> closes the stream also when opening it failed.\<close>

definition connector_commit_open_tcp_port ::
    "'w os \<Rightarrow> u32 \<Rightarrow> 'w \<Rightarrow> (substance_connector_error \<times> 'w) option" where
  "connector_commit_open_tcp_port env port w = do {
     (location, w1) \<leftarrow> create_tcp_filepath env port w;
     f \<leftarrow> c_path location;
     case os_fopen env f w1 of (opened, w2) \<Rightarrow> do {
       guard_ok opened;
       _ \<leftarrow> connector_free location;
       Some (SUBSTANCE_CONNECTOR_SUCCESS, w2) } }"

definition connector_remove_open_tcp_port ::
    "'w os \<Rightarrow> u32 \<Rightarrow> 'w \<Rightarrow> (substance_connector_error \<times> 'w) option" where
  "connector_remove_open_tcp_port env port w = do {
     (location, w1) \<leftarrow> create_tcp_filepath env port w;
     (r, w2) \<leftarrow> connector_is_file env location w1;
     (retcode, w3) \<leftarrow> (if r = SUBSTANCE_CONNECTOR_SUCCESS then connector_remove_file env location w2
                       else Some (SUBSTANCE_CONNECTOR_ERROR, w2));
     _ \<leftarrow> connector_free location;
     Some (retcode, w3) }"

definition connector_build_default_unix_path :: "u8 list cptr" where
  "connector_build_default_unix_path = NULL"

section \<open>Port file names\<close>

definition tcp_port_path :: "u32 \<Rightarrow> u8 list" where
  "tcp_port_path port = CONNECTOR_DEFAULT_TCP_DIRECTORY @ CONNECTOR_PATH_DELIM # decimal (unat port)"

text \<open>Reading a decimal number back.\<close>

definition digits_value :: "u8 list \<Rightarrow> nat" where
  "digits_value ds = foldl (\<lambda>n d. 10 * n + (unat d - 48)) 0 ds"

lemma unat_digit: "k < 10 \<Longrightarrow> unat (of_nat (48 + k) :: u8) = 48 + k"
  by (simp add: unat_of_nat del: of_nat_add)

lemma decimal_value: "digits_value (decimal n) = n"
proof (induction n rule: decimal.induct)
  case (1 n)
  show ?case
  proof (cases "n < 10")
    case True
    then show ?thesis by (simp add: decimal.simps [of n] digits_value_def unat_digit del: of_nat_add)
  next
    case False
    have "digits_value (decimal n) = 10 * digits_value (decimal (n div 10)) + n mod 10"
      using False unat_digit [of "n mod 10"]
      by (simp add: decimal.simps [of n] digits_value_def del: of_nat_add)
    with 1 [OF False] show ?thesis by simp
  qed
qed

lemma decimal_digits: "c \<in> set (decimal n) \<Longrightarrow> 48 \<le> unat c \<and> unat c < 58"
proof (induction n rule: decimal.induct)
  case (1 n)
  show ?case
  proof (cases "n < 10")
    case True
    with 1 show ?thesis by (simp add: decimal.simps [of n] unat_digit del: of_nat_add)
  next
    case False
    then show ?thesis using 1 unat_digit [of "n mod 10"]
      by (auto simp: decimal.simps [of n] simp del: of_nat_add)
  qed
qed

lemma decimal_length: "n < 10 ^ Suc k \<Longrightarrow> length (decimal n) \<le> Suc k"
proof (induction k arbitrary: n)
  case 0
  then show ?case by (simp add: decimal.simps)
next
  case (Suc k)
  then have "n div 10 < 10 ^ Suc k" by (simp add: less_mult_imp_div_less)
  from Suc.IH [OF this] show ?case by (subst decimal.simps) simp
qed

lemma decimal_port: "length (decimal (unat (port :: u32))) \<le> 10"
proof -
  have "unat port < 10 ^ Suc 9" using unat_bound [of port] by simp
  then show ?thesis using decimal_length [of "unat port" 9] by simp
qed

lemma decimal_no_zero: "0 \<notin> set (decimal n)"
  using decimal_digits [of 0 n] by auto

lemma directory_no_zero: "0 \<notin> set CONNECTOR_DEFAULT_TCP_DIRECTORY" "0 \<notin> set CONNECTOR_DEFAULT_UNIX_DIRECTORY"
  "length CONNECTOR_DEFAULT_TCP_DIRECTORY = 30"
  by (simp_all add: CONNECTOR_DEFAULT_TCP_DIRECTORY_def CONNECTOR_DEFAULT_UNIX_DIRECTORY_def bytes_of_def)

lemma snprintf_port: "snprintf_u 16 port = c_string (decimal (unat port))"
  using decimal_port [of port] by (simp add: snprintf_u_def)

lemma create_tcp_filepath_result:
  assumes "allocator_succeeds env"
  shows "\<exists>w'. create_tcp_filepath env port w = Some (OWNED (c_string (tcp_port_path port)), w')"
proof -
  let ?d = "CONNECTOR_DEFAULT_TCP_DIRECTORY" and ?p = "decimal (unat port)"
  have "string_parts [connector_get_default_tcp_directory, BORROWED (c_string ?p)] [?d, ?p]"
    using directory_no_zero decimal_no_zero [of "unat port"]
    by (auto simp: string_parts_def connector_get_default_tcp_directory_def) (auto simp: c_string_def)
  moreover have "length (intercalate CONNECTOR_PATH_DELIM [?d, ?p]) + 1 < 2 ^ 64"
    using decimal_port [of port] directory_no_zero(3) by simp
  ultimately obtain w' where "connector_path_join env
      (Some ([connector_get_default_tcp_directory, BORROWED (c_string ?p)] @ NULL # [])) True w =
      Some (SUBSTANCE_CONNECTOR_SUCCESS, Some (OWNED (c_string (intercalate CONNECTOR_PATH_DELIM [?d, ?p]))), w')"
    using path_join_result [OF assms, of "[connector_get_default_tcp_directory, BORROWED (c_string ?p)]" "[?d, ?p]" "[]" w]
    by auto
  then show ?thesis by (simp add: create_tcp_filepath_def snprintf_port Let_def tcp_port_path_def)
qed

lemma tcp_port_path_no_zero: "0 \<notin> set (tcp_port_path port)"
  using directory_no_zero(1) decimal_no_zero by (auto simp: tcp_port_path_def CONNECTOR_PATH_DELIM_def)

section \<open>Properties\<close>

text \<open>
  Every port has its own announcement file. Its name is the default directory, the
  delimiter and the decimal number of the port, never truncated by the 16-byte buffer and
  free of zero bytes; reading the digits back gives the port, so distinct ports have
  distinct files.
\<close>

theorem tcp_port_file_identifies_port:
  assumes "allocator_succeeds env"
  shows "\<exists>w'. create_tcp_filepath env port w = Some (OWNED (c_string (tcp_port_path port)), w') \<and>
    cstr (c_string (tcp_port_path port)) = tcp_port_path port \<and>
    digits_value (drop (Suc (length CONNECTOR_DEFAULT_TCP_DIRECTORY)) (tcp_port_path port)) = unat port \<and>
    (tcp_port_path port = tcp_port_path port' \<longrightarrow> port = port')"
proof -
  have v: "digits_value (drop (Suc (length CONNECTOR_DEFAULT_TCP_DIRECTORY)) (tcp_port_path p)) = unat p" for p
    by (simp add: tcp_port_path_def decimal_value)
  from v [of port] v [of port'] have "tcp_port_path port = tcp_port_path port' \<Longrightarrow> port = port'"
    by (simp add: unat_inject [symmetric])
  with create_tcp_filepath_result [OF assms, of port w] v [of port] tcp_port_path_no_zero [of port]
  show ?thesis by auto
qed

theorem tcp_port_file_identifies_port_witness:
  "\<exists>w'. create_tcp_filepath sample_os 8080 [] = Some (OWNED (c_string (tcp_port_path 8080)), w')"
  using tcp_port_file_identifies_port [of sample_os 8080 "[]" 8081] by auto

text \<open>
  Announcing a port. When the announcement file cannot be opened, the code closes the
  NULL stream: the call is undefined instead of returning its error code. When it can be
  opened the call succeeds, and a later removal, with the file seen by \<open>stat\<close> and removable,
  succeeds too and unlinks exactly that file.
\<close>

theorem announce_and_remove_port:
  assumes "allocator_succeeds env"
    and "\<And>w. os_stat env (tcp_port_path port) w = (0, S_IFREG, w)"
    and "\<And>w. fst (os_unlink env (tcp_port_path port) w) = 0"
  shows "\<exists>w1 w2. connector_commit_open_tcp_port env port w =
      (if fst (os_fopen env (tcp_port_path port) w1)
       then Some (SUBSTANCE_CONNECTOR_SUCCESS, snd (os_fopen env (tcp_port_path port) w1)) else None) \<and>
    connector_remove_open_tcp_port env port w =
      Some (SUBSTANCE_CONNECTOR_SUCCESS, snd (os_unlink env (tcp_port_path port) w2))"
proof -
  let ?f = "tcp_port_path port"
  obtain w1 where c: "create_tcp_filepath env port w = Some (OWNED (c_string ?f), w1)"
    using create_tcp_filepath_result [OF assms(1)] by blast
  have p: "c_path (OWNED (c_string ?f)) = Some ?f" using tcp_port_path_no_zero by simp
  have "connector_commit_open_tcp_port env port w =
      (if fst (os_fopen env ?f w1) then Some (SUBSTANCE_CONNECTOR_SUCCESS, snd (os_fopen env ?f w1)) else None)"
    using c p by (simp add: connector_commit_open_tcp_port_def split: prod.splits)
  moreover have "connector_remove_open_tcp_port env port w =
      Some (SUBSTANCE_CONNECTOR_SUCCESS, snd (os_unlink env ?f w1))"
    using c p assms(2,3) [of w1]
    by (auto simp: connector_remove_open_tcp_port_def connector_is_file_def test_file_type_def
        connector_remove_file_def S_IFREG_def split: prod.splits)
  ultimately show ?thesis by blast
qed

theorem announce_and_remove_port_witness:
  "connector_commit_open_tcp_port (sample_os\<lparr>os_stat := (\<lambda>f w. (0, S_IFREG, w)), os_fopen := (\<lambda>f w. (False, w))\<rparr>) 80 [] = None"
  using announce_and_remove_port [of
      "sample_os\<lparr>os_stat := (\<lambda>f w. (0, S_IFREG, w)), os_fopen := (\<lambda>f w. (False, w))\<rparr>" 80 "[]"]
  by (simp add: sample_os_def allocator_succeeds_def)

end
