(* ===== verification/Connection.thy ===== *)
theory Connection
  imports Read_Write_Utils Connection_Directory
begin

text \<open>
  Connections: the TCP and local socket implementations (\<^verbatim>\<open>connection_unix.c\<close>,
  \<^verbatim>\<open>openconnectionimpl.c\<close>), the dispatch on the connection type of a context
  (\<^verbatim>\<open>connection.c\<close>) and polling (\<^verbatim>\<open>connection_utils.c\<close>).

  Every operation takes the context structure it works on and returns it updated; it has no
  access to any other context. The theory shows which fields each operation may change,
  that no descriptor is leaked on any path, and how a context type selects its protocol.
\<close>

section \<open>Sockets\<close>

definition send_socket :: "'w os \<Rightarrow> 'w send_fp" where
  "send_socket env sock buffer w = os_send env sock buffer w"

definition read_socket :: "'w os \<Rightarrow> 'w recv_fp" where
  "read_socket env fd len w = os_recv env fd len w"

definition close_fd_connection ::
    "'w os \<Rightarrow> connector_context \<Rightarrow> 'w \<Rightarrow> substance_connector_error \<times> 'w" where
  "close_fd_connection env c w =
     (case os_close env (context_socket c) w of (r, w1) \<Rightarrow>
        (if c_negative r then SUBSTANCE_CONNECTOR_ERROR else SUBSTANCE_CONNECTOR_SUCCESS, w1))"

definition accept_socket :: "'w os \<Rightarrow> connector_context \<Rightarrow> 'w \<Rightarrow> c_int \<times> 'w" where
  "accept_socket env c w = os_accept env (context_socket c) w"

definition SUBSTANCE_CONNECTOR_SOCK_BACKLOG :: c_int where "SUBSTANCE_CONNECTOR_SOCK_BACKLOG = 10"

definition sin_port :: "sockaddr \<Rightarrow> u16" where
  "sin_port a = (case a of SOCKADDR_IN p \<Rightarrow> p | SOCKADDR_UN _ \<Rightarrow> 0)"

type_synonym 'w context_op =
  "connector_context \<Rightarrow> 'w \<Rightarrow> (substance_connector_error \<times> connector_context \<times> 'w) option"

section \<open>TCP\<close>

text \<open>\<^verbatim>\<open>connector_open_tcp_impl\<close>; the code of the commit of the port file is ignored.\<close>

definition connector_open_tcp_impl :: "'w os \<Rightarrow> 'w context_op" where
  "connector_open_tcp_impl env c w = do {
     (library_result, w1) \<leftarrow> connector_ensure_default_tcp_directory env w;
     if library_result \<noteq> SUBSTANCE_CONNECTOR_SUCCESS then Some (SUBSTANCE_CONNECTOR_ERROR, c, w1)
     else
       let port = (ucast (ctx_port c) :: u16);
           (sock, w2) = os_socket env AF_INET w1;
           address = SOCKADDR_IN (htons port)
       in if c_negative sock then Some (SUBSTANCE_CONNECTOR_OPEN_FAIL, c, w2)
          else (case os_bind env sock address w2 of (r, w3) \<Rightarrow>
            if c_negative r then
              (case os_close env sock w3 of (_, w4) \<Rightarrow> Some (SUBSTANCE_CONNECTOR_OPEN_FAIL, c, w4))
            else (case os_getsockname env sock address w3 of (_, address', w4) \<Rightarrow>
              let c1 = c\<lparr>ctx_port := ucast (htons (sin_port address'))\<rparr> in
              (case os_listen env sock SUBSTANCE_CONNECTOR_SOCK_BACKLOG w4 of (r2, w5) \<Rightarrow>
                if c_negative r2 then
                  (case os_close env sock w5 of (_, w6) \<Rightarrow> Some (SUBSTANCE_CONNECTOR_OPEN_FAIL, c1, w6))
                else do {
                  (_, w6) \<leftarrow> connector_commit_open_tcp_port env (ucast (ctx_port c1)) w5;
                  Some (SUBSTANCE_CONNECTOR_SUCCESS, c1\<lparr>ctx_fd := scast sock\<rparr>, w6) }))) }"

definition connector_connect_tcp_impl :: "'w os \<Rightarrow> 'w context_op" where
  "connector_connect_tcp_impl env c w =
     (let port = (ucast (ctx_port c) :: u16);
          address = SOCKADDR_IN (htons port);
          (sock, w1) = os_socket env AF_INET w
      in if c_negative sock then Some (SUBSTANCE_CONNECTOR_OPEN_FAIL, c, w1)
         else (case os_connect env sock address w1 of (r, w2) \<Rightarrow>
           if c_negative r then
             (case os_close env sock w2 of (_, w3) \<Rightarrow> Some (SUBSTANCE_CONNECTOR_OPEN_FAIL, c, w3))
           else Some (SUBSTANCE_CONNECTOR_SUCCESS, c\<lparr>ctx_fd := scast sock\<rparr>, w2)))"

definition connector_open_tcp :: "'w os \<Rightarrow> 'w context_op" where
  "connector_open_tcp env c w = connector_open_tcp_impl env c w"

definition connector_accept_tcp :: "'w os \<Rightarrow> connector_context \<Rightarrow> 'w \<Rightarrow> c_int \<times> 'w" where
  "connector_accept_tcp env c w = accept_socket env c w"

definition connector_connect_tcp :: "'w os \<Rightarrow> 'w context_op" where
  "connector_connect_tcp env c w = connector_connect_tcp_impl env c w"

definition connector_read_tcp where
  "connector_read_tcp env c m w = connector_read_message_generic env (Some c) m (read_socket env) w"

definition connector_write_tcp where
  "connector_write_tcp env c m w = connector_send_message_generic env (Some c) m (send_socket env) w"

definition connector_close_tcp :: "'w os \<Rightarrow> 'w context_op" where
  "connector_close_tcp env c w = do {
     w1 \<leftarrow> (if ctx_configuration c AND SUBSTANCE_CONNECTOR_CONN_OPEN \<noteq> 0
           then map_option snd (connector_remove_open_tcp_port env (ucast (ctx_port c)) w)
           else Some w);
     case close_fd_connection env c w1 of (r, w2) \<Rightarrow> Some (r, c, w2) }"

section \<open>Local sockets\<close>

definition SIZEOF_SUN_PATH :: nat where "SIZEOF_SUN_PATH = 108"

text \<open>
  \<^verbatim>\<open>connector_open_unix\<close>. The result of the directory check is only computed when the context
  has no path of its own; in the other case it keeps its initial error value.
\<close>

definition connector_open_unix :: "'w os \<Rightarrow> 'w context_op" where
  "connector_open_unix env c w = do {
     (local_result, c1, w1) \<leftarrow>
       (if ctx_connection_data c = NULL then do {
          (r, w') \<leftarrow> connector_ensure_default_unix_directory env w;
          Some (r, c\<lparr>ctx_connection_data := connector_build_default_unix_path\<rparr>, w') }
        else Some (SUBSTANCE_CONNECTOR_ERROR, c, w));
     if local_result \<noteq> SUBSTANCE_CONNECTOR_SUCCESS then Some (SUBSTANCE_CONNECTOR_INVALID, c1, w1)
     else do {
       filepath \<leftarrow> c_path (ctx_connection_data c1);
       if length filepath + 1 \<ge> SIZEOF_SUN_PATH then Some (SUBSTANCE_CONNECTOR_INVALID, c1, w1)
       else
         let (sock, w2) = os_socket env AF_UNIX w1;
             address = SOCKADDR_UN filepath
         in if c_negative sock then Some (SUBSTANCE_CONNECTOR_OPEN_FAIL, c1, w2)
            else (case os_unlink env filepath w2 of (_, w3) \<Rightarrow>
              case os_bind env sock address w3 of (r, w4) \<Rightarrow>
                if c_negative r then
                  (case os_close env sock w4 of (_, w5) \<Rightarrow> Some (SUBSTANCE_CONNECTOR_OPEN_FAIL, c1, w5))
                else (case os_listen env sock SUBSTANCE_CONNECTOR_SOCK_BACKLOG w4 of (r2, w5) \<Rightarrow>
                  if c_negative r2 then
                    (case os_unlink env filepath w5 of (_, w6) \<Rightarrow>
                     case os_close env sock w6 of (_, w7) \<Rightarrow> Some (SUBSTANCE_CONNECTOR_OPEN_FAIL, c1, w7))
                  else Some (SUBSTANCE_CONNECTOR_SUCCESS, c1\<lparr>ctx_fd := scast sock\<rparr>, w5))) } }"

definition connector_connect_unix :: "'w os \<Rightarrow> 'w context_op" where
  "connector_connect_unix env c w =
     (if ctx_connection_data c = NULL then Some (SUBSTANCE_CONNECTOR_INVALID, c, w)
      else do {
        filepath \<leftarrow> c_path (ctx_connection_data c);
        if length filepath + 1 \<ge> SIZEOF_SUN_PATH then Some (SUBSTANCE_CONNECTOR_INVALID, c, w)
        else
          let (sock, w1) = os_socket env AF_UNIX w;
              address = SOCKADDR_UN filepath
          in if c_negative sock then Some (SUBSTANCE_CONNECTOR_OPEN_FAIL, c, w1)
             else (case os_connect env sock address w1 of (r, w2) \<Rightarrow>
               if c_negative r then
                 (case os_close env sock w2 of (_, w3) \<Rightarrow> Some (SUBSTANCE_CONNECTOR_OPEN_FAIL, c, w3))
               else Some (SUBSTANCE_CONNECTOR_SUCCESS, c\<lparr>ctx_fd := scast sock\<rparr>, w2)) })"

definition connector_accept_unix :: "'w os \<Rightarrow> connector_context \<Rightarrow> 'w \<Rightarrow> c_int \<times> 'w" where
  "connector_accept_unix env c w = accept_socket env c w"

definition connector_read_unix where
  "connector_read_unix env c m w = connector_read_message_generic env (Some c) m (read_socket env) w"

definition connector_write_unix where
  "connector_write_unix env c m w = connector_send_message_generic env (Some c) m (send_socket env) w"

definition connector_close_unix :: "'w os \<Rightarrow> 'w context_op" where
  "connector_close_unix env c w = (case close_fd_connection env c w of (r, w1) \<Rightarrow> Some (r, c, w1))"

section \<open>Dispatch on the connection type\<close>

definition default_context_operation :: "'w context_op" where
  "default_context_operation c w = Some (SUBSTANCE_CONNECTOR_UNSUPPORTED, c, w)"

definition default_message_operation ::
    "connector_context \<Rightarrow> connector_message cptr \<Rightarrow> 'w \<Rightarrow>
      (substance_connector_error \<times> connector_message cptr \<times> 'w) option" where
  "default_message_operation c m w = Some (SUBSTANCE_CONNECTOR_UNSUPPORTED, m, w)"

definition default_accept_operation :: "connector_context \<Rightarrow> 'w \<Rightarrow> c_int \<times> 'w" where
  "default_accept_operation c w = (- 1, w)"

text \<open>The type bits of a configuration, as the byte the dispatchers compute, and the clamped table index.\<close>

definition connection_type :: "connector_context \<Rightarrow> u64" where
  "connection_type c = ctx_configuration c AND SUBSTANCE_CONNECTOR_COMM_MASK"

definition table_index :: "connector_context \<Rightarrow> nat" where
  "table_index c = (if connection_type c > SUBSTANCE_CONNECTOR_COMM_MAX then 0 else unat (connection_type c))"

definition message_operation where
  "message_operation ctx m op_table w =
     (case ctx of
        None \<Rightarrow> Some (SUBSTANCE_CONNECTOR_INVALID, m, w)
      | Some c \<Rightarrow> if m = NULL then Some (SUBSTANCE_CONNECTOR_INVALID, m, w)
                   else (op_table ! table_index c) c m w)"

definition context_operation ::
    "connector_context option \<Rightarrow> 'w context_op list \<Rightarrow> 'w \<Rightarrow>
      (substance_connector_error \<times> connector_context option \<times> 'w) option" where
  "context_operation ctx op_table w =
     (case ctx of
        None \<Rightarrow> Some (SUBSTANCE_CONNECTOR_INVALID, None, w)
      | Some c \<Rightarrow> do {
          (r, c', w') \<leftarrow> (op_table ! table_index c) c w;
          Some (r, Some c', w') })"

definition open_functions :: "'w os \<Rightarrow> 'w context_op list" where
  "open_functions env = [default_context_operation, connector_open_tcp env, connector_open_unix env]"

definition connect_functions :: "'w os \<Rightarrow> 'w context_op list" where
  "connect_functions env = [default_context_operation, connector_connect_tcp env, connector_connect_unix env]"

definition read_functions where
  "read_functions env = [default_message_operation, connector_read_tcp env, connector_read_unix env]"

text \<open>The writers leave the message as it is; the dispatcher's result shape is shared with the readers.\<close>

definition keep_message where
  "keep_message op c m w = do { (r, w') \<leftarrow> op c m w; Some (r, m, w') }"

definition write_functions where
  "write_functions env = [default_message_operation, keep_message (connector_write_tcp env),
     keep_message (connector_write_unix env)]"

definition close_functions :: "'w os \<Rightarrow> 'w context_op list" where
  "close_functions env = [default_context_operation, connector_close_tcp env, connector_close_unix env]"

definition accept_functions where
  "accept_functions env = [default_accept_operation, connector_accept_tcp env, connector_accept_unix env]"

definition connector_open_connection where
  "connector_open_connection env ctx w = context_operation ctx (open_functions env) w"

definition connector_bridge_connection where
  "connector_bridge_connection env ctx w = context_operation ctx (connect_functions env) w"

definition connector_read_connection where
  "connector_read_connection env ctx m w = message_operation ctx m (read_functions env) w"

definition connector_write_connection where
  "connector_write_connection env ctx m w = message_operation ctx m (write_functions env) w"

definition connector_close_connection where
  "connector_close_connection env ctx w = context_operation ctx (close_functions env) w"

text \<open>An unknown type is clamped to the highest one here, not to the default entry.\<close>

definition connector_accept_connection ::
    "'w os \<Rightarrow> connector_context option \<Rightarrow> 'w \<Rightarrow> c_int \<times> 'w" where
  "connector_accept_connection env ctx w =
     (case ctx of
        None \<Rightarrow> (- 1, w)
      | Some c \<Rightarrow>
          let i = (if connection_type c > SUBSTANCE_CONNECTOR_COMM_MAX then SUBSTANCE_CONNECTOR_COMM_MAX
                   else connection_type c)
          in (accept_functions env ! unat i) c w)"

section \<open>Polling\<close>

datatype SubstanceConnectorPollError =
    SUBSTANCE_CONNECTOR_POLL_ESUCCESS
  | SUBSTANCE_CONNECTOR_POLL_EBADF
  | SUBSTANCE_CONNECTOR_POLL_EFAULT
  | SUBSTANCE_CONNECTOR_POLL_EINTR
  | SUBSTANCE_CONNECTOR_POLL_ENETDOWN
  | SUBSTANCE_CONNECTOR_POLL_ENOMEM
  | SUBSTANCE_CONNECTOR_POLL_EINVAL
  | SUBSTANCE_CONNECTOR_POLL_EUNKNOWN
  | SUBSTANCE_CONNECTOR_POLL_TIMEOUT

text \<open>
  \<^verbatim>\<open>convert_network_error\<close>: the switch assigns the converted code to its parameter, not to
  the variable that is returned. The error numbers are those of Linux.
\<close>

definition convert_network_error :: "c_int \<Rightarrow> SubstanceConnectorPollError" where
  "convert_network_error errorcode =
     (let retcode = SUBSTANCE_CONNECTOR_POLL_EUNKNOWN;
          errorcode' = (if errorcode = 9 then SUBSTANCE_CONNECTOR_POLL_EBADF
            else if errorcode = 14 then SUBSTANCE_CONNECTOR_POLL_EFAULT
            else if errorcode = 4 then SUBSTANCE_CONNECTOR_POLL_EINTR
            else if errorcode = 100 then SUBSTANCE_CONNECTOR_POLL_ENETDOWN
            else if errorcode = 12 then SUBSTANCE_CONNECTOR_POLL_ENOMEM
            else if errorcode = 22 then SUBSTANCE_CONNECTOR_POLL_EINVAL
            else SUBSTANCE_CONNECTOR_POLL_EUNKNOWN)
      in retcode)"

definition SUBSTANCE_CONNECTOR_POLL_MS :: c_int where "SUBSTANCE_CONNECTOR_POLL_MS = 50"

definition connector_poll_contexts ::
    "'w os \<Rightarrow> pollfd list \<Rightarrow> u32 \<Rightarrow> 'w \<Rightarrow> (SubstanceConnectorPollError \<times> pollfd list \<times> 'w) option" where
  "connector_poll_contexts env contexts count w =
     (if count > 0 then do {
        guard_ok (unat count \<le> length contexts);
        case os_poll env (take (unat count) contexts) SUBSTANCE_CONNECTOR_POLL_MS w of
          (retval, errno, polled, w1) \<Rightarrow>
            let contexts' = polled @ drop (unat count) contexts in
            Some (if retval = - 1 then convert_network_error errno
                  else if retval = 0 then SUBSTANCE_CONNECTOR_POLL_TIMEOUT
                  else SUBSTANCE_CONNECTOR_POLL_ESUCCESS, contexts', w1) }
      else Some (SUBSTANCE_CONNECTOR_POLL_EUNKNOWN, contexts, w))"

section \<open>What a protocol may change in a context\<close>

text \<open>The fields that belong to the context table, not to the protocol.\<close>

definition same_identity :: "connector_context \<Rightarrow> connector_context \<Rightarrow> bool" where
  "same_identity c c' \<longleftrightarrow> ctx_configuration c' = ctx_configuration c \<and>
     ctx_application_name c' = ctx_application_name c \<and> ctx_identifier c' = ctx_identifier c"

text \<open>
  The contract every entry of the dispatch tables keeps: opening leaves the table's fields
  alone, connecting changes the descriptor on success and nothing otherwise, closing changes
  nothing.
\<close>

locale context_protocol =
  fixes opn cnt cls :: "'w context_op"
  assumes open_identity: "opn c w = Some (r, c', w') \<Longrightarrow> same_identity c c'"
    and connect_frame: "cnt c w = Some (r, c', w') \<Longrightarrow>
      if r = SUBSTANCE_CONNECTOR_SUCCESS then \<exists>fd. c' = c\<lparr>ctx_fd := fd\<rparr> else c' = c"
    and close_frame: "cls c w = Some (r, c', w') \<Longrightarrow> c' = c"
begin

lemma connect_identity:
  assumes "cnt c w = Some (r, c', w')"
  shows "same_identity c c'"
  using connect_frame [OF assms] by (auto simp: same_identity_def split: if_splits)

text \<open>A session: connect, then close. Only the descriptor of the context can differ at its end.\<close>

lemma session_frame:
  assumes "cnt c w = Some (r, c1, w1)" "cls c1 w1 = Some (r2, c2, w2)"
  shows "c2 = c\<lparr>ctx_fd := ctx_fd c2\<rparr>"
  using connect_frame [OF assms(1)] close_frame [OF assms(2)] by (auto split: if_splits)

end

lemma open_tcp_frame:
  assumes "connector_open_tcp env c w = Some (r, c', w')"
  shows "same_identity c c' \<and> ctx_connection_data c' = ctx_connection_data c"
  using assms
  by (auto simp: connector_open_tcp_def connector_open_tcp_impl_def same_identity_def Let_def
      split: option_bind_splits if_splits prod.splits)

lemma open_unix_frame:
  assumes "connector_open_unix env c w = Some (r, c', w')"
  shows "same_identity c c'"
  using assms
  by (auto simp: connector_open_unix_def same_identity_def Let_def
      split: option_bind_splits if_splits prod.splits)

lemma connect_tcp_frame:
  assumes "connector_connect_tcp env c w = Some (r, c', w')"
  shows "if r = SUBSTANCE_CONNECTOR_SUCCESS then \<exists>fd. c' = c\<lparr>ctx_fd := fd\<rparr> else c' = c"
  using assms
  by (auto simp: connector_connect_tcp_def connector_connect_tcp_impl_def Let_def split: if_splits prod.splits)

lemma connect_unix_frame:
  assumes "connector_connect_unix env c w = Some (r, c', w')"
  shows "if r = SUBSTANCE_CONNECTOR_SUCCESS then \<exists>fd. c' = c\<lparr>ctx_fd := fd\<rparr> else c' = c"
  using assms
  by (auto simp: connector_connect_unix_def Let_def split: option_bind_splits if_splits prod.splits)

interpretation tcp: context_protocol "connector_open_tcp env" "connector_connect_tcp env" "connector_close_tcp env"
  for env :: "'w os"
proof unfold_locales
  show "same_identity c c'" if "connector_open_tcp env c w = Some (r, c', w')" for c w r c' w'
    using open_tcp_frame [OF that] by blast
  show "c' = c" if "connector_close_tcp env c w = Some (r, c', w')" for c w r c' w'
    using that by (auto simp: connector_close_tcp_def split: option_bind_splits prod.splits)
qed (rule connect_tcp_frame)

interpretation unix: context_protocol "connector_open_unix env" "connector_connect_unix env" "connector_close_unix env"
  for env :: "'w os"
proof unfold_locales
  show "c' = c" if "connector_close_unix env c w = Some (r, c', w')" for c w r c' w'
    using that by (auto simp: connector_close_unix_def split: prod.splits)
qed (rule open_unix_frame connect_unix_frame; assumption)+

interpretation unsupported: context_protocol default_context_operation default_context_operation default_context_operation
  by unfold_locales (auto simp: default_context_operation_def same_identity_def)

section \<open>The dispatch keeps the contract\<close>

lemma table_index_cases:
  obtains "table_index c = 0" "connection_type c \<noteq> 1" "connection_type c \<noteq> 2"
  | "table_index c = 1" "connection_type c = 1" | "table_index c = 2" "connection_type c = 2"
proof (cases "connection_type c > SUBSTANCE_CONNECTOR_COMM_MAX")
  case True
  then show ?thesis by (intro that(1)) (auto simp: table_index_def SUBSTANCE_CONNECTOR_COMM_MAX_def)
next
  case False
  then have "unat (connection_type c) \<le> 2"
    by (simp add: SUBSTANCE_CONNECTOR_COMM_MAX_def not_less word_le_nat_alt)
  then consider "unat (connection_type c) = 0" | "unat (connection_type c) = 1" | "unat (connection_type c) = 2"
    by linarith
  then show ?thesis
  proof cases
    case 1
    then have "connection_type c = 0" by (simp add: unat_eq_0)
    with False show ?thesis by (intro that(1)) (auto simp: table_index_def)
  next
    case 2
    then have "connection_type c = 1" by (simp add: unat_inject [symmetric])
    with False show ?thesis by (intro that(2)) (auto simp: table_index_def)
  next
    case 3
    then have "connection_type c = 2" by (simp add: unat_inject [symmetric])
    with False show ?thesis by (intro that(3)) (auto simp: table_index_def)
  qed
qed

lemma context_operationE:
  assumes "context_operation (Some c) table w = Some (r, c', w')"
  obtains d where "c' = Some d" "(table ! table_index c) c w = Some (r, d, w')"
  using assms by (auto simp: context_operation_def split: option_bind_splits)

lemma open_connection_identity:
  assumes "connector_open_connection env (Some c) w = Some (r, c', w')"
  obtains d where "c' = Some d" "same_identity c d"
proof -
  obtain d where d: "c' = Some d" "(open_functions env ! table_index c) c w = Some (r, d, w')"
    using assms unfolding connector_open_connection_def by (rule context_operationE)
  have "same_identity c d"
    using d(2) tcp.open_identity [of env c w r d w'] unix.open_identity [of env c w r d w']
      unsupported.open_identity [of c w r d w']
    by (cases c rule: table_index_cases) (simp_all add: open_functions_def)
  with d(1) show ?thesis by (rule that)
qed

lemma bridge_connection_frame:
  assumes "connector_bridge_connection env (Some c) w = Some (r, c', w')"
  obtains d where "c' = Some d"
    "if r = SUBSTANCE_CONNECTOR_SUCCESS then \<exists>fd. d = c\<lparr>ctx_fd := fd\<rparr> else d = c"
proof -
  obtain d where d: "c' = Some d" "(connect_functions env ! table_index c) c w = Some (r, d, w')"
    using assms unfolding connector_bridge_connection_def by (rule context_operationE)
  have "if r = SUBSTANCE_CONNECTOR_SUCCESS then \<exists>fd. d = c\<lparr>ctx_fd := fd\<rparr> else d = c"
    using d(2) tcp.connect_frame [of env c w r d w'] unix.connect_frame [of env c w r d w']
      unsupported.connect_frame [of c w r d w']
    by (cases c rule: table_index_cases) (simp_all add: connect_functions_def)
  with d(1) show ?thesis by (rule that)
qed

lemma close_connection_frame:
  assumes "connector_close_connection env (Some c) w = Some (r, c', w')"
  shows "c' = Some c"
proof -
  obtain d where d: "c' = Some d" "(close_functions env ! table_index c) c w = Some (r, d, w')"
    using assms unfolding connector_close_connection_def by (rule context_operationE)
  have "d = c"
    using d(2) tcp.close_frame [of env c w r d w'] unix.close_frame [of env c w r d w']
      unsupported.close_frame [of c w r d w']
    by (cases c rule: table_index_cases) (simp_all add: close_functions_def)
  with d(1) show ?thesis by simp
qed

section \<open>Descriptors\<close>

text \<open>
  What the socket calls do to the set of descriptors open in the process: \<open>socket\<close> and
  \<open>accept\<close> add a new one unless they fail, \<open>close\<close> removes its argument, the other calls the
  connections make leave the set alone.
\<close>

definition fd_tracking :: "'w os \<Rightarrow> ('w \<Rightarrow> c_int set) \<Rightarrow> bool" where
  "fd_tracking env fds \<longleftrightarrow>
     (\<forall>d w s w'. os_socket env d w = (s, w') \<longrightarrow>
        (if c_negative s then fds w' = fds w else s \<notin> fds w \<and> fds w' = insert s (fds w))) \<and>
     (\<forall>s w r w'. os_close env s w = (r, w') \<longrightarrow> fds w' = fds w - {s}) \<and>
     (\<forall>s a w r w'. os_bind env s a w = (r, w') \<longrightarrow> fds w' = fds w) \<and>
     (\<forall>s a w r a' w'. os_getsockname env s a w = (r, a', w') \<longrightarrow> fds w' = fds w) \<and>
     (\<forall>s n w r w'. os_listen env s n w = (r, w') \<longrightarrow> fds w' = fds w) \<and>
     (\<forall>s a w r w'. os_connect env s a w = (r, w') \<longrightarrow> fds w' = fds w) \<and>
     (\<forall>n w r w'. os_allocate env n w = (r, w') \<longrightarrow> fds w' = fds w) \<and>
     (\<forall>f w r m w'. os_stat env f w = (r, m, w') \<longrightarrow> fds w' = fds w) \<and>
     (\<forall>f m w r w'. os_mkdir env f m w = (r, w') \<longrightarrow> fds w' = fds w) \<and>
     (\<forall>f m w r w'. os_chmod env f m w = (r, w') \<longrightarrow> fds w' = fds w) \<and>
     (\<forall>f w r w'. os_unlink env f w = (r, w') \<longrightarrow> fds w' = fds w) \<and>
     (\<forall>f w r w'. os_fopen env f w = (r, w') \<longrightarrow> fds w' = fds w)"

lemma fd_trackingD:
  assumes "fd_tracking env fds"
  shows "os_socket env d w = (s, w') \<Longrightarrow> c_negative s \<Longrightarrow> fds w' = fds w"
    "os_socket env d w = (s, w') \<Longrightarrow> \<not> c_negative s \<Longrightarrow> s \<notin> fds w \<and> fds w' = insert s (fds w)"
    "os_close env s w = (r, w') \<Longrightarrow> fds w' = fds w - {s}"
    "os_bind env s a w = (r, w') \<Longrightarrow> fds w' = fds w"
    "os_getsockname env s a w = (r, a', w') \<Longrightarrow> fds w' = fds w"
    "os_listen env s n w = (r, w') \<Longrightarrow> fds w' = fds w"
    "os_connect env s a w = (r, w') \<Longrightarrow> fds w' = fds w"
    "os_allocate env sz w = (al, w') \<Longrightarrow> fds w' = fds w"
    "os_stat env f w = (r, m, w') \<Longrightarrow> fds w' = fds w"
    "os_mkdir env f m w = (r, w') \<Longrightarrow> fds w' = fds w"
    "os_chmod env f m w = (r, w') \<Longrightarrow> fds w' = fds w"
    "os_unlink env f w = (r, w') \<Longrightarrow> fds w' = fds w"
    "os_fopen env f w = (b, w') \<Longrightarrow> fds w' = fds w"
  using assms unfolding fd_tracking_def by metis+

lemma socket_of_fd [simp]: "ucast (scast (s :: c_int) :: u64) = s"
  by (rule bit_word_eqI) (auto simp: bit_simps)

lemma context_socket_fd [simp]: "context_socket (c\<lparr>ctx_fd := scast s\<rparr>) = s"
  by (simp add: context_socket_def)

text \<open>The file helpers leave the descriptors alone.\<close>

lemma allocate_fds: "fd_tracking env fds \<Longrightarrow> connector_allocate env n w = (r, w') \<Longrightarrow> fds w' = fds w"
  by (auto simp: connector_allocate_def split: prod.splits dest: fd_trackingD(8))

lemma make_directory_fds:
  assumes "fd_tracking env fds" "connector_make_directory env p w = Some (r, w')"
  shows "fds w' = fds w"
  using assms(2) fd_trackingD(10,11) [OF assms(1)]
  by (auto simp: connector_make_directory_def split: option_bind_splits prod.splits if_splits)

lemma test_file_type_fds:
  assumes "fd_tracking env fds" "test_file_type env p flag w = Some (r, w')"
  shows "fds w' = fds w"
  using assms(2) fd_trackingD(9) [OF assms(1)]
  by (auto simp: test_file_type_def split: option_bind_splits prod.splits if_splits)

lemma ensure_directory_fds:
  assumes "fd_tracking env fds"
  shows "connector_ensure_default_tcp_directory env w = Some (r, w') \<Longrightarrow> fds w' = fds w"
    "connector_ensure_default_unix_directory env w = Some (r, w') \<Longrightarrow> fds w' = fds w"
  using make_directory_fds [OF assms] test_file_type_fds [OF assms]
  by (fastforce simp: connector_ensure_default_tcp_directory_def connector_ensure_default_unix_directory_def
      connector_is_directory_def split: option_bind_splits)+

lemma path_join_fds:
  "fd_tracking env fds \<Longrightarrow> connector_path_join env ps want w = Some (r, res, w') \<Longrightarrow> fds w' = fds w"
  by (auto simp: connector_path_join_def split: option.splits if_splits option_bind_splits prod.splits
      dest: allocate_fds)

lemma create_filepath_fds:
  "fd_tracking env fds \<Longrightarrow> create_tcp_filepath env port w = Some (p, w') \<Longrightarrow> fds w' = fds w"
  by (auto simp: create_tcp_filepath_def Let_def split: option_bind_splits dest: path_join_fds)

lemma commit_port_fds:
  assumes "fd_tracking env fds" "connector_commit_open_tcp_port env port w = Some (r, w')"
  shows "fds w' = fds w"
  using assms(2) create_filepath_fds [OF assms(1)] fd_trackingD(13) [OF assms(1)]
  by (fastforce simp: connector_commit_open_tcp_port_def split: option_bind_splits prod.splits)

lemma remove_port_fds:
  assumes "fd_tracking env fds" "connector_remove_open_tcp_port env port w = Some (r, w')"
  shows "fds w' = fds w"
  using assms(2) create_filepath_fds [OF assms(1)] test_file_type_fds [OF assms(1)] fd_trackingD(12) [OF assms(1)]
  by (fastforce simp: connector_remove_open_tcp_port_def connector_is_file_def connector_remove_file_def
      split: option_bind_splits if_splits prod.splits)

text \<open>The descriptors after an attempt to open or connect.\<close>

definition fds_after_open where
  "fds_after_open fds r c' w w' \<longleftrightarrow>
     (if r = SUBSTANCE_CONNECTOR_SUCCESS then context_socket c' \<notin> fds w \<and> fds w' = insert (context_socket c') (fds w)
      else fds w' = fds w)"

lemma connect_tcp_fds:
  assumes "fd_tracking env fds" "connector_connect_tcp env c w = Some (r, c', w')"
  shows "fds_after_open fds r c' w w'"
  using assms(2) fd_trackingD(1,2,3,7) [OF assms(1)]
  by (auto simp: fds_after_open_def connector_connect_tcp_def connector_connect_tcp_impl_def Let_def
      split: if_splits prod.splits)

lemma connect_unix_fds:
  assumes "fd_tracking env fds" "connector_connect_unix env c w = Some (r, c', w')"
  shows "fds_after_open fds r c' w w'"
  using assms(2) fd_trackingD(1,2,3,7) [OF assms(1)]
  by (auto simp: fds_after_open_def connector_connect_unix_def Let_def
      split: option_bind_splits if_splits prod.splits)

lemma open_tcp_fds:
  assumes "fd_tracking env fds" "connector_open_tcp env c w = Some (r, c', w')"
  shows "fds_after_open fds r c' w w'"
proof -
  obtain lr w1 where e: "connector_ensure_default_tcp_directory env w = Some (lr, w1)"
    using assms(2) by (auto simp: connector_open_tcp_def connector_open_tcp_impl_def split: option_bind_splits)
  have w1: "fds w1 = fds w" by (rule ensure_directory_fds(1) [OF assms(1) e])
  obtain s w2 where s: "os_socket env AF_INET w1 = (s, w2)" by fastforce
  have "if c_negative s then fds w2 = fds w else s \<notin> fds w \<and> fds w2 = insert s (fds w)"
    using fd_trackingD(1,2) [OF assms(1) s] w1 by simp
  then show ?thesis
    using assms(2) e s w1 fd_trackingD(3-6) [OF assms(1)] commit_port_fds [OF assms(1)]
    by (auto simp: fds_after_open_def connector_open_tcp_def connector_open_tcp_impl_def Let_def context_socket_def
        split: option_bind_splits if_splits prod.splits)
qed

text \<open>Opening a local socket never succeeds: see the property below.\<close>

lemma open_unix_results:
  assumes "connector_open_unix env c w = Some (r, c', w')"
  shows "r = SUBSTANCE_CONNECTOR_INVALID"
  using assms
  by (auto simp: connector_open_unix_def connector_build_default_unix_path_def c_path_def
      split: option_bind_splits if_splits)

lemma open_unix_fds:
  assumes "fd_tracking env fds" "connector_open_unix env c w = Some (r, c', w')"
  shows "fds w' = fds w"
  using assms(2) ensure_directory_fds(2) [OF assms(1)]
  by (auto simp: connector_open_unix_def connector_build_default_unix_path_def c_path_def
      split: option_bind_splits if_splits)

lemma close_connection_fds:
  assumes "fd_tracking env fds" "connector_close_connection env (Some c) w = Some (r, c', w')"
    "r \<noteq> SUBSTANCE_CONNECTOR_UNSUPPORTED"
  shows "fds w' = fds w - {context_socket c}"
proof -
  obtain d where d: "(close_functions env ! table_index c) c w = Some (r, d, w')"
    using assms(2) unfolding connector_close_connection_def by (rule context_operationE)
  show ?thesis
    using d assms(3) fd_trackingD(3) [OF assms(1)] remove_port_fds [OF assms(1)]
    by (cases c rule: table_index_cases)
      (fastforce simp: close_functions_def default_context_operation_def connector_close_tcp_def
        connector_close_unix_def close_fd_connection_def split: option_bind_splits prod.splits if_splits)+
qed

lemma bridge_connection_fds:
  assumes "fd_tracking env fds" "connector_bridge_connection env (Some c) w = Some (r, Some d, w')"
  shows "fds_after_open fds r d w w'"
proof -
  have d: "(connect_functions env ! table_index c) c w = Some (r, d, w')"
    using assms(2) unfolding connector_bridge_connection_def by (auto elim: context_operationE)
  show ?thesis
    using d connect_tcp_fds [OF assms(1)] connect_unix_fds [OF assms(1)]
    by (cases c rule: table_index_cases)
      (auto simp: connect_functions_def default_context_operation_def fds_after_open_def)
qed

lemma open_connection_fds:
  assumes "fd_tracking env fds" "connector_open_connection env (Some c) w = Some (r, Some d, w')"
  shows "fds_after_open fds r d w w'"
proof -
  have d: "(open_functions env ! table_index c) c w = Some (r, d, w')"
    using assms(2) unfolding connector_open_connection_def by (auto elim: context_operationE)
  show ?thesis
    using d open_tcp_fds [OF assms(1)] open_unix_fds [OF assms(1)] open_unix_results [of env c w r d w']
    by (cases c rule: table_index_cases)
      (auto simp: open_functions_def default_context_operation_def fds_after_open_def)
qed

section \<open>Properties\<close>

text \<open>A system whose state is the list of open descriptors.\<close>

definition fd_os :: "c_int list os" where
  "fd_os = \<lparr>
     os_allocate = (\<lambda>n w. (Some (\<lambda>_. 0), w)),
     os_socket = (\<lambda>d w. if w = [] then (3, [3]) else (- 1, w)),
     os_bind = (\<lambda>fd a w. (0, w)),
     os_getsockname = (\<lambda>fd a w. (0, SOCKADDR_IN 0x901F, w)),
     os_listen = (\<lambda>fd n w. (0, w)),
     os_connect = (\<lambda>fd a w. (0, w)),
     os_accept = (\<lambda>fd w. (- 1, w)),
     os_close = (\<lambda>fd w. (0, filter (\<lambda>x. x \<noteq> fd) w)),
     os_send = (\<lambda>fd bs w. (0, w)),
     os_recv = (\<lambda>fd n w. (0, [], w)),
     os_poll = (\<lambda>ps t w. (0, 0, ps, w)),
     os_stat = (\<lambda>f w. (0, 0x41C0, w)),
     os_mkdir = (\<lambda>f m w. (0, w)),
     os_chmod = (\<lambda>f m w. (0, w)),
     os_rmdir = (\<lambda>f w. (0, w)),
     os_unlink = (\<lambda>f w. (0, w)),
     os_readdir = (\<lambda>f w. (Some [], w)),
     os_fopen = (\<lambda>f w. (True, w)),
     os_read_file = (\<lambda>f w. (None, w))\<rparr>"

lemma fd_os_tracking: "fd_tracking fd_os set"
proof -
  have "\<not> c_negative (3 :: c_int)" "c_negative (- 1 :: c_int)" by (simp_all add: c_negative_def)
  then show ?thesis by (auto simp: fd_tracking_def fd_os_def)
qed



text \<open>
  The type of a context selects its protocol. Type 1 runs the TCP entry and type 2 the
  local socket entry of every table; every other type is unsupported for opening,
  connecting, reading, writing and closing and changes nothing, but an accept on a type
  above 2 runs the local socket entry; a NULL context is invalid.
\<close>

theorem dispatch_by_type:
  "(connection_type c = SUBSTANCE_CONNECTOR_COMM_TCP \<longrightarrow>
      connector_open_connection env (Some c) w = context_operation (Some c) (replicate 3 (connector_open_tcp env)) w \<and>
      connector_accept_connection env (Some c) w = connector_accept_tcp env c w) \<and>
   (connection_type c = SUBSTANCE_CONNECTOR_COMM_UNIX \<longrightarrow>
      connector_open_connection env (Some c) w = context_operation (Some c) (replicate 3 (connector_open_unix env)) w \<and>
      connector_accept_connection env (Some c) w = connector_accept_unix env c w) \<and>
   (connection_type c \<noteq> SUBSTANCE_CONNECTOR_COMM_TCP \<and> connection_type c \<noteq> SUBSTANCE_CONNECTOR_COMM_UNIX \<and> m \<noteq> NULL \<longrightarrow>
      connector_open_connection env (Some c) w = Some (SUBSTANCE_CONNECTOR_UNSUPPORTED, Some c, w) \<and>
      connector_bridge_connection env (Some c) w = Some (SUBSTANCE_CONNECTOR_UNSUPPORTED, Some c, w) \<and>
      connector_close_connection env (Some c) w = Some (SUBSTANCE_CONNECTOR_UNSUPPORTED, Some c, w) \<and>
      connector_read_connection env (Some c) m w = Some (SUBSTANCE_CONNECTOR_UNSUPPORTED, m, w) \<and>
      connector_write_connection env (Some c) m w = Some (SUBSTANCE_CONNECTOR_UNSUPPORTED, m, w) \<and>
      connector_accept_connection env (Some c) w =
        (if connection_type c = 0 then (- 1, w) else connector_accept_unix env c w)) \<and>
   connector_open_connection env None w = Some (SUBSTANCE_CONNECTOR_INVALID, None, w) \<and>
   connector_accept_connection env None w = (- 1, w)"
proof (cases c rule: table_index_cases)
  case 1
  then show ?thesis
    using word_gt_0 [of "connection_type c"]
    by (auto simp: comm_defs connector_open_connection_def connector_bridge_connection_def connector_close_connection_def
        connector_read_connection_def connector_write_connection_def connector_accept_connection_def
        context_operation_def message_operation_def open_functions_def connect_functions_def close_functions_def
        read_functions_def write_functions_def accept_functions_def default_context_operation_def
        default_message_operation_def default_accept_operation_def table_index_def unat_eq_0 Let_def not_less
        split: if_splits)
next
  case 2
  then show ?thesis
    by (simp add: comm_defs connector_open_connection_def connector_accept_connection_def context_operation_def
        open_functions_def accept_functions_def numeral_3_eq_3)
next
  case 3
  then show ?thesis
    by (simp add: comm_defs connector_open_connection_def connector_accept_connection_def context_operation_def
        open_functions_def accept_functions_def numeral_3_eq_3)
qed

theorem dispatch_by_type_witness:
  "connector_open_connection sample_os (Some (sample_context\<lparr>ctx_configuration := 5\<rparr>)) []
     = Some (SUBSTANCE_CONNECTOR_UNSUPPORTED, Some (sample_context\<lparr>ctx_configuration := 5\<rparr>), []) \<and>
   connector_accept_connection sample_os (Some (sample_context\<lparr>ctx_configuration := 5\<rparr>)) []
     = connector_accept_unix sample_os (sample_context\<lparr>ctx_configuration := 5\<rparr>) [] \<and>
   connector_accept_connection sample_os (Some (sample_context\<lparr>ctx_configuration := 1\<rparr>)) []
     = connector_accept_tcp sample_os (sample_context\<lparr>ctx_configuration := 1\<rparr>) []"
  using dispatch_by_type [of "sample_context\<lparr>ctx_configuration := 5\<rparr>" sample_os "[]" DANGLING]
    dispatch_by_type [of "sample_context\<lparr>ctx_configuration := 1\<rparr>" sample_os "[]" DANGLING]
  by (simp add: connection_type_def comm_defs)

text \<open>
  A local socket can never be opened. With a path in the context the directory check is
  skipped and its initial error value makes the call invalid; without one the call either
  fails on the directory or measures the NULL path that the default path builder returns.
\<close>

theorem open_unix_never_succeeds:
  "(ctx_connection_data c \<noteq> NULL \<longrightarrow> connector_open_unix env c w = Some (SUBSTANCE_CONNECTOR_INVALID, c, w)) \<and>
   (ctx_connection_data c = NULL \<longrightarrow>
     (case connector_ensure_default_unix_directory env w of
        Some (SUBSTANCE_CONNECTOR_SUCCESS, w1) \<Rightarrow> connector_open_unix env c w = None
      | Some (_, w1) \<Rightarrow> connector_open_unix env c w = Some (SUBSTANCE_CONNECTOR_INVALID, c, w1)
      | None \<Rightarrow> connector_open_unix env c w = None))"
proof -
  have "c\<lparr>ctx_connection_data := NULL\<rparr> = c" if "ctx_connection_data c = NULL" using that by simp
  then show ?thesis
    by (auto simp: connector_open_unix_def connector_build_default_unix_path_def c_path_def
        split: option.splits substance_connector_error.splits)
qed

theorem open_unix_never_succeeds_witness:
  "connector_open_unix sample_os (sample_context\<lparr>ctx_connection_data := OWNED [97, 0]\<rparr>) [] =
     Some (SUBSTANCE_CONNECTOR_INVALID, sample_context\<lparr>ctx_connection_data := OWNED [97, 0]\<rparr>, [])"
  using open_unix_never_succeeds [of "sample_context\<lparr>ctx_connection_data := OWNED [97, 0]\<rparr>" sample_os "[]"] by simp

text \<open>
  A poll reports one of three outcomes only. A timeout and a success are told apart, but
  every failure of the system call, whatever its error number, is reported as unknown; an
  empty set of contexts is not polled and reported as unknown as well.
\<close>

theorem poll_outcomes:
  assumes "unat count \<le> length contexts"
  shows "\<exists>contexts' w'. connector_poll_contexts env contexts count w =
    Some (if count = 0 then SUBSTANCE_CONNECTOR_POLL_EUNKNOWN
          else case os_poll env (take (unat count) contexts) SUBSTANCE_CONNECTOR_POLL_MS w of (retval, _) \<Rightarrow>
            if retval = - 1 then SUBSTANCE_CONNECTOR_POLL_EUNKNOWN
            else if retval = 0 then SUBSTANCE_CONNECTOR_POLL_TIMEOUT
            else SUBSTANCE_CONNECTOR_POLL_ESUCCESS, contexts', w')"
  using assms by (auto simp: connector_poll_contexts_def convert_network_error_def word_neq_0_conv Let_def
      split: prod.splits)

theorem poll_outcomes_witness:
  "\<exists>contexts' w'. connector_poll_contexts (sample_os\<lparr>os_poll := (\<lambda>ps t w. (- 1, 9, ps, w))\<rparr>)
      [\<lparr>pfd_fd = 5, pfd_events = 1, pfd_revents = 0\<rparr>] 1 [] =
    Some (SUBSTANCE_CONNECTOR_POLL_EUNKNOWN, contexts', w')"
  using poll_outcomes [of 1 "[\<lparr>pfd_fd = 5, pfd_events = 1, pfd_revents = 0\<rparr>]"
      "sample_os\<lparr>os_poll := (\<lambda>ps t w. (- 1, 9, ps, w))\<rparr>" "[]"] by simp

end
