(* ===== verification/Linked_List.thy ===== *)
theory Linked_List
  imports Connector_Prelude
begin

text \<open>
  Singly linked lists of heap nodes, shared by the locked queue and the trampoline list: the
  path of addresses from a pointer, its uniqueness and its independence of other nodes. The
  first argument reads the link of a node.
\<close>

fun link_path :: "('n \<Rightarrow> nat option) \<Rightarrow> (nat \<Rightarrow> 'n option) \<Rightarrow> nat option \<Rightarrow> nat list \<Rightarrow> bool" where
  "link_path nxt h p [] = (p = None)"
| "link_path nxt h p (x # xs) = (p = Some x \<and> (\<exists>n. h x = Some n \<and> link_path nxt h (nxt n) xs))"

lemma link_path_dom: "link_path nxt h p xs \<Longrightarrow> set xs \<subseteq> dom h"
  by (induction xs arbitrary: p) auto

lemma link_path_frame:
  "link_path nxt h p xs \<Longrightarrow> (\<And>a. a \<in> set xs \<Longrightarrow> h' a = h a) \<Longrightarrow> link_path nxt h' p xs"
  by (induction xs arbitrary: p) auto

lemma link_path_unique: "link_path nxt h p xs \<Longrightarrow> link_path nxt h p ys \<Longrightarrow> xs = ys"
proof (induction xs arbitrary: p ys)
  case Nil
  then show ?case by (cases ys) auto
next
  case (Cons x xs)
  then show ?case by (cases ys) auto
qed

lemma link_path_append:
  "link_path nxt h p (xs @ ys) \<Longrightarrow> \<exists>q. link_path nxt h q ys"
  by (induction xs arbitrary: p) auto

end
