(* ===== verification/Callbacks.thy ===== *)
theory Callbacks
  imports Linked_List String_Utils Uuid_Utils
begin

text \<open>
  The trampolines of \<^verbatim>\<open>callbacks.c\<close>: application callbacks in a singly linked list, newest
  first. A callback is known by its address; calling it is recorded as an event, since its
  code belongs to the application.
\<close>

section \<open>The list and its operations\<close>

record connector_trampoline_node =
  node_trampoline :: nat
  node_link :: "nat option"

record trampoline_list =
  tr_heap :: "nat \<Rightarrow> connector_trampoline_node option"
  tr_fresh :: nat
  tr_front :: "nat option"

text \<open>One call of a callback: its address, the context, the type and the text it is given.\<close>

record trampoline_call =
  call_target :: nat
  call_context :: u32
  call_type :: substance_connector_uuid
  call_message :: "u8 list cptr"

definition connector_init_trampoline_subsystem ::
    "trampoline_list \<Rightarrow> substance_connector_error \<times> trampoline_list" where
  "connector_init_trampoline_subsystem t = (SUBSTANCE_CONNECTOR_SUCCESS, t\<lparr>tr_front := None\<rparr>)"

text \<open>The release loop of the shutdown; the front pointer is left as it is.\<close>

partial_function (option) release_nodes ::
    "nat option \<Rightarrow> (nat \<Rightarrow> connector_trampoline_node option) \<Rightarrow>
      (nat \<Rightarrow> connector_trampoline_node option) option" where
  "release_nodes node h =
     (case node of
        None \<Rightarrow> Some h
      | Some a \<Rightarrow> Option.bind (h a) (\<lambda>n. release_nodes (node_link n) (h(a := None))))"

definition connector_shutdown_trampoline_subsystem ::
    "trampoline_list \<Rightarrow> (substance_connector_error \<times> trampoline_list) option" where
  "connector_shutdown_trampoline_subsystem t = do {
     h \<leftarrow> release_nodes (tr_front t) (tr_heap t);
     Some (SUBSTANCE_CONNECTOR_SUCCESS, t\<lparr>tr_heap := h\<rparr>) }"

partial_function (option) notify_loop ::
    "(nat \<Rightarrow> connector_trampoline_node option) \<Rightarrow> nat option \<Rightarrow> nat list option" where
  "notify_loop h node =
     (case node of
        None \<Rightarrow> Some []
      | Some a \<Rightarrow> Option.bind (h a) (\<lambda>n.
          Option.bind (notify_loop h (node_link n)) (\<lambda>rest. Some (node_trampoline n # rest))))"

definition connector_notify_trampolines ::
    "trampoline_list \<Rightarrow> u32 \<Rightarrow> substance_connector_uuid \<Rightarrow> u8 list cptr \<Rightarrow>
      (substance_connector_error \<times> trampoline_call list) option" where
  "connector_notify_trampolines t ctx type message = do {
     targets \<leftarrow> notify_loop (tr_heap t) (tr_front t);
     Some (SUBSTANCE_CONNECTOR_SUCCESS,
       map (\<lambda>f. \<lparr>call_target = f, call_context = ctx, call_type = type, call_message = message\<rparr>) targets) }"

text \<open>\<open>None\<close> is the NULL callback. The new node is used without a check of the allocation.\<close>

definition connector_add_trampoline ::
    "'w os \<Rightarrow> nat option \<Rightarrow> trampoline_list \<Rightarrow> 'w \<Rightarrow>
      (substance_connector_error \<times> trampoline_list \<times> 'w) option" where
  "connector_add_trampoline env trampoline t w =
     (case trampoline of
        None \<Rightarrow> Some (SUBSTANCE_CONNECTOR_INVALID, t, w)
      | Some f \<Rightarrow>
          (case connector_allocate env 16 w of
             (None, _) \<Rightarrow> None
           | (Some _, w1) \<Rightarrow> Some (SUBSTANCE_CONNECTOR_SUCCESS,
               t\<lparr>tr_heap := (tr_heap t)(tr_fresh t \<mapsto> \<lparr>node_trampoline = f, node_link = tr_front t\<rparr>),
                 tr_front := Some (tr_fresh t), tr_fresh := Suc (tr_fresh t)\<rparr>, w1)))"

partial_function (option) remove_loop ::
    "nat \<Rightarrow> nat option \<Rightarrow> nat option \<Rightarrow> trampoline_list \<Rightarrow> (substance_connector_error \<times> trampoline_list) option" where
  "remove_loop f prev node t =
     (case node of
        None \<Rightarrow> Some (SUBSTANCE_CONNECTOR_INVALID, t)
      | Some a \<Rightarrow> Option.bind (tr_heap t a) (\<lambda>n.
          if node_trampoline n = f then
            Option.bind
              (case prev of
                 None \<Rightarrow> Some t
               | Some p \<Rightarrow> Option.bind (tr_heap t p) (\<lambda>pn.
                   Some (t\<lparr>tr_heap := (tr_heap t)(p \<mapsto> pn\<lparr>node_link := node_link n\<rparr>)\<rparr>)))
              (\<lambda>t1.
                let t2 = (if Some a = tr_front t1 then t1\<lparr>tr_front := node_link n\<rparr> else t1)
                in Some (SUBSTANCE_CONNECTOR_SUCCESS, t2\<lparr>tr_heap := (tr_heap t2)(a := None)\<rparr>))
          else remove_loop f (Some a) (node_link n) t))"

definition connector_remove_trampoline ::
    "nat option \<Rightarrow> trampoline_list \<Rightarrow> (substance_connector_error \<times> trampoline_list) option" where
  "connector_remove_trampoline trampoline t =
     (case trampoline of
        None \<Rightarrow> Some (SUBSTANCE_CONNECTOR_INVALID, t)
      | Some f \<Rightarrow> remove_loop f None (tr_front t) t)"

section \<open>The registered callbacks\<close>

abbreviation tr_path where "tr_path \<equiv> link_path node_link"

text \<open>The list is intact, has no repeated node, and every node in the heap is on it.\<close>

definition wf_trampolines :: "trampoline_list \<Rightarrow> nat list \<Rightarrow> bool" where
  "wf_trampolines t xs \<longleftrightarrow> tr_path (tr_heap t) (tr_front t) xs \<and> distinct xs \<and> dom (tr_heap t) = set xs \<and>
     (\<forall>a \<in> set xs. a < tr_fresh t)"

definition targets :: "trampoline_list \<Rightarrow> nat list \<Rightarrow> nat list" where
  "targets t xs = map (\<lambda>a. node_trampoline (the (tr_heap t a))) xs"

text \<open>The abstract value: the callback addresses in calling order.\<close>

definition registered :: "trampoline_list \<Rightarrow> nat list \<Rightarrow> bool" where
  "registered t fs \<longleftrightarrow> (\<exists>xs. wf_trampolines t xs \<and> fs = targets t xs)"

lemma notify_loop_path:
  "tr_path h p xs \<Longrightarrow> notify_loop h p = Some (map (\<lambda>a. node_trampoline (the (h a))) xs)"
proof (induction xs arbitrary: p)
  case Nil
  then show ?case by (subst notify_loop.simps) simp
next
  case (Cons x xs)
  then show ?case by (subst notify_loop.simps) auto
qed

lemma release_nodes_path:
  "tr_path h p xs \<Longrightarrow> distinct xs \<Longrightarrow> release_nodes p h = Some (h |` (- set xs))"
proof (induction xs arbitrary: p h)
  case Nil
  then show ?case by (subst release_nodes.simps) (simp add: restrict_map_def)
next
  case (Cons x xs)
  then obtain n where n: "p = Some x" "h x = Some n" "tr_path h (node_link n) xs" by auto
  have "tr_path (h(x := None)) (node_link n) xs"
    using Cons.prems(2) by (intro link_path_frame [OF n(3)]) auto
  then have "release_nodes (node_link n) (h(x := None)) = Some ((h(x := None)) |` (- set xs))"
    by (rule Cons.IH) (use Cons.prems(2) in simp)
  moreover have "(h(x := None)) |` (- set xs) = h |` (- set (x # xs))" by (auto simp: restrict_map_def)
  ultimately show ?case using n by (subst release_nodes.simps) simp
qed

lemma registered_init:
  "tr_heap t = Map.empty \<Longrightarrow> registered (snd (connector_init_trampoline_subsystem t)) []"
  by (auto simp: registered_def wf_trampolines_def connector_init_trampoline_subsystem_def targets_def intro!: exI [of _ "[]"])

lemma registered_add:
  assumes "registered t fs" "allocator_succeeds env"
  shows "\<exists>t' w'. connector_add_trampoline env (Some f) t w = Some (SUBSTANCE_CONNECTOR_SUCCESS, t', w') \<and>
    registered t' (f # fs)"
proof -
  obtain xs where xs: "wf_trampolines t xs" "fs = targets t xs" using assms(1) by (auto simp: registered_def)
  obtain b w' where b: "connector_allocate env 16 w = (Some b, w')" by (rule allocate_exact [OF assms(2)])
  let ?a = "tr_fresh t"
  let ?t = "t\<lparr>tr_heap := (tr_heap t)(?a \<mapsto> \<lparr>node_trampoline = f, node_link = tr_front t\<rparr>),
    tr_front := Some ?a, tr_fresh := Suc ?a\<rparr>"
  have a: "?a \<notin> set xs" using xs(1) by (auto simp: wf_trampolines_def)
  have "tr_path (tr_heap ?t) (tr_front t) xs"
    using xs(1) a by (auto simp: wf_trampolines_def intro: link_path_frame)
  then have "wf_trampolines ?t (?a # xs)"
    using xs(1) a by (auto simp: wf_trampolines_def less_Suc_eq)
  moreover have "targets ?t (?a # xs) = f # fs" using a xs(2) by (auto simp: targets_def)
  ultimately show ?thesis using b by (auto simp: connector_add_trampoline_def registered_def)
qed

text \<open>Removal of the first node with a given callback; \<open>ys\<close> are the nodes already passed.\<close>

lemma tr_path_unlink:
  assumes "tr_path h p (ys @ y # x # xs)" "distinct (ys @ y # x # xs)" "h y = Some yn" "h x = Some xn"
  shows "tr_path (h(y \<mapsto> yn\<lparr>node_link := node_link xn\<rparr>, x := None)) p (ys @ y # xs)"
  using assms
proof (induction ys arbitrary: p)
  case Nil
  then have "tr_path h (node_link xn) xs" by auto
  then have "tr_path (h(y \<mapsto> yn\<lparr>node_link := node_link xn\<rparr>, x := None)) (node_link xn) xs"
    by (rule link_path_frame) (use Nil.prems(2) in auto)
  then show ?case using Nil.prems by (auto simp: fun_upd_def)
next
  case (Cons z ys)
  then show ?case by auto
qed

lemma remove_loop_path:
  assumes "wf_trampolines t (ys @ xs)"
    and "tr_path (tr_heap t) node xs"
    and "prev = (if ys = [] then None else Some (last ys))"
    and "f \<notin> set (targets t ys)"
  shows "\<exists>t'. remove_loop f prev node t =
      Some (if f \<in> set (targets t xs) then SUBSTANCE_CONNECTOR_SUCCESS else SUBSTANCE_CONNECTOR_INVALID, t') \<and>
    registered t' (remove1 f (targets t (ys @ xs)))"
  using assms
proof (induction xs arbitrary: ys node prev)
  case Nil
  then have "registered t (targets t ys)" by (auto simp: registered_def)
  with Nil show ?case by (subst remove_loop.simps) (simp add: remove1_idem targets_def)
next
  case (Cons x xs)
  obtain n where n: "node = Some x" "tr_heap t x = Some n" "tr_path (tr_heap t) (node_link n) xs"
    using Cons.prems(2) by auto
  show ?case
  proof (cases "node_trampoline n = f")
    case False
    have "targets t (ys @ [x]) = targets t ys @ [node_trampoline n]" using n(2) by (simp add: targets_def)
    with False Cons.prems n(3) have "\<exists>t'. remove_loop f (Some x) (node_link n) t =
        Some (if f \<in> set (targets t xs) then SUBSTANCE_CONNECTOR_SUCCESS else SUBSTANCE_CONNECTOR_INVALID, t') \<and>
      registered t' (remove1 f (targets t ((ys @ [x]) @ xs)))"
      by (intro Cons.IH) auto
    moreover have "f \<in> set (targets t (x # xs)) \<longleftrightarrow> f \<in> set (targets t xs)"
      using False n(2) by (simp add: targets_def)
    ultimately show ?thesis using n False by (subst remove_loop.simps) simp
  next
    case True
    have d: "distinct (ys @ x # xs)" "dom (tr_heap t) = set (ys @ x # xs)" "\<forall>a \<in> set (ys @ x # xs). a < tr_fresh t"
        "tr_path (tr_heap t) (tr_front t) (ys @ x # xs)"
      using Cons.prems(1) by (auto simp: wf_trampolines_def)
    have tg: "remove1 f (targets t (ys @ x # xs)) = targets t ys @ targets t xs"
      using True n(2) Cons.prems(4) by (simp add: targets_def remove1_append)
    show ?thesis
    proof (cases ys rule: rev_exhaust)
      case Nil
      let ?t = "t\<lparr>tr_front := node_link n, tr_heap := (tr_heap t)(x := None)\<rparr>"
      have "remove_loop f prev node t = Some (SUBSTANCE_CONNECTOR_SUCCESS, ?t)"
        using Cons.prems(3) n True Nil d(4) by (subst remove_loop.simps) (simp add: Let_def)
      moreover have "wf_trampolines ?t xs"
        using d n(3) Nil by (auto simp: wf_trampolines_def intro: link_path_frame)
      moreover have "targets ?t xs = targets t xs" using d(1) Nil by (auto simp: targets_def)
      moreover have "f \<in> set (targets t (x # xs))" using True n(2) by (simp add: targets_def)
      ultimately show ?thesis using tg Nil by (auto simp: registered_def targets_def)
    next
      case (snoc zs y)
      obtain yn where y: "tr_heap t y = Some yn" using d(2) snoc by auto
      let ?h = "(tr_heap t)(y \<mapsto> yn\<lparr>node_link := node_link n\<rparr>, x := None)"
      let ?t = "t\<lparr>tr_heap := ?h\<rparr>"
      have front: "tr_front t \<noteq> Some x" using d(1,4) snoc by (cases zs) auto
      have "remove_loop f prev node t = Some (SUBSTANCE_CONNECTOR_SUCCESS, ?t)"
        using Cons.prems(3) n True y snoc front by (subst remove_loop.simps) (simp add: Let_def)
      moreover have "tr_path ?h (tr_front t) (zs @ y # xs)"
        by (rule tr_path_unlink [OF _ _ y n(2)]) (use d snoc in auto)
      then have "wf_trampolines ?t (ys @ xs)"
        using d snoc y by (auto simp: wf_trampolines_def)
      moreover have "targets ?t (ys @ xs) = targets t ys @ targets t xs"
        using d(1) snoc y by (auto simp: targets_def)
      moreover have "f \<in> set (targets t (x # xs))" using True n(2) by (simp add: targets_def)
      ultimately show ?thesis using tg by (auto simp: registered_def)
    qed
  qed
qed

lemma registered_remove:
  assumes "registered t fs"
  shows "\<exists>t'. connector_remove_trampoline (Some f) t =
      Some (if f \<in> set fs then SUBSTANCE_CONNECTOR_SUCCESS else SUBSTANCE_CONNECTOR_INVALID, t') \<and>
    registered t' (remove1 f fs)"
proof -
  obtain xs where xs: "wf_trampolines t xs" "fs = targets t xs" using assms by (auto simp: registered_def)
  then show ?thesis using remove_loop_path [of t "[]" xs "tr_front t" None f]
    by (simp add: connector_remove_trampoline_def wf_trampolines_def targets_def)
qed

lemma registered_notify:
  assumes "registered t fs"
  shows "connector_notify_trampolines t ctx type message = Some (SUBSTANCE_CONNECTOR_SUCCESS,
    map (\<lambda>f. \<lparr>call_target = f, call_context = ctx, call_type = type, call_message = message\<rparr>) fs)"
  using assms notify_loop_path
  by (auto simp: connector_notify_trampolines_def registered_def wf_trampolines_def targets_def)

lemma registered_shutdown:
  assumes "registered t fs"
  shows "\<exists>t'. connector_shutdown_trampoline_subsystem t = Some (SUBSTANCE_CONNECTOR_SUCCESS, t') \<and>
    tr_heap t' = Map.empty \<and> tr_front t' = tr_front t \<and> (tr_front t = None \<longleftrightarrow> fs = [])"
proof -
  obtain xs where xs: "wf_trampolines t xs" "fs = targets t xs" using assms by (auto simp: registered_def)
  then have "release_nodes (tr_front t) (tr_heap t) = Some (tr_heap t |` (- set xs))"
    by (intro release_nodes_path) (auto simp: wf_trampolines_def)
  moreover have "tr_heap t |` (- set xs) = Map.empty"
    using xs(1) by (auto simp: wf_trampolines_def restrict_map_def fun_eq_iff dom_def)
  moreover have "tr_front t = None \<longleftrightarrow> xs = []" using xs(1) by (cases xs) (auto simp: wf_trampolines_def)
  ultimately show ?thesis using xs(2) by (simp add: connector_shutdown_trampoline_subsystem_def targets_def)
qed

section \<open>Properties\<close>

datatype tr_op = AddTrampoline "nat option" | RemoveTrampoline "nat option" | NotifyTrampolines

fun run_tr :: "'w os \<Rightarrow> tr_op list \<Rightarrow> trampoline_list \<Rightarrow> 'w \<Rightarrow>
    (substance_connector_error list \<times> nat list list \<times> trampoline_list \<times> 'w) option" where
  "run_tr env [] t w = Some ([], [], t, w)"
| "run_tr env (AddTrampoline f # ops) t w = do {
     (r, t1, w1) \<leftarrow> connector_add_trampoline env f t w;
     (rs, cs, t2, w2) \<leftarrow> run_tr env ops t1 w1; Some (r # rs, cs, t2, w2) }"
| "run_tr env (RemoveTrampoline f # ops) t w = do {
     (r, t1) \<leftarrow> connector_remove_trampoline f t;
     (rs, cs, t2, w2) \<leftarrow> run_tr env ops t1 w; Some (r # rs, cs, t2, w2) }"
| "run_tr env (NotifyTrampolines # ops) t w = do {
     (r, calls) \<leftarrow> connector_notify_trampolines t 0 (UUID 0 0 0 0) NULL;
     (rs, cs, t2, w2) \<leftarrow> run_tr env ops t w; Some (r # rs, map call_target calls # cs, t2, w2) }"

text \<open>The same script on a plain list of callbacks.\<close>

fun list_tr :: "tr_op list \<Rightarrow> nat list \<Rightarrow> substance_connector_error list \<times> nat list list \<times> nat list" where
  "list_tr [] fs = ([], [], fs)"
| "list_tr (AddTrampoline None # ops) fs = (case list_tr ops fs of (rs, r) \<Rightarrow> (SUBSTANCE_CONNECTOR_INVALID # rs, r))"
| "list_tr (AddTrampoline (Some f) # ops) fs =
     (case list_tr ops (f # fs) of (rs, r) \<Rightarrow> (SUBSTANCE_CONNECTOR_SUCCESS # rs, r))"
| "list_tr (RemoveTrampoline None # ops) fs = (case list_tr ops fs of (rs, r) \<Rightarrow> (SUBSTANCE_CONNECTOR_INVALID # rs, r))"
| "list_tr (RemoveTrampoline (Some f) # ops) fs =
     (case list_tr ops (remove1 f fs) of (rs, r) \<Rightarrow>
       ((if f \<in> set fs then SUBSTANCE_CONNECTOR_SUCCESS else SUBSTANCE_CONNECTOR_INVALID) # rs, r))"
| "list_tr (NotifyTrampolines # ops) fs =
     (case list_tr ops fs of (rs, cs, r) \<Rightarrow> (SUBSTANCE_CONNECTOR_SUCCESS # rs, fs # cs, r))"

lemma run_tr_list:
  assumes "allocator_succeeds env" "registered t fs"
  shows "\<exists>rs cs t' w' fs'. run_tr env ops t w = Some (rs, cs, t', w') \<and> list_tr ops fs = (rs, cs, fs') \<and>
    registered t' fs'"
  using assms(2)
proof (induction ops arbitrary: t w fs)
  case Nil
  then show ?case by simp
next
  case (Cons a ops)
  show ?case
  proof (cases a)
    case (AddTrampoline f)
    show ?thesis
    proof (cases f)
      case None
      with Cons.IH [OF Cons.prems, of w] AddTrampoline show ?thesis by (auto simp: connector_add_trampoline_def)
    next
      case (Some g)
      obtain t1 w1 where t1: "connector_add_trampoline env (Some g) t w = Some (SUBSTANCE_CONNECTOR_SUCCESS, t1, w1)"
          "registered t1 (g # fs)"
        using registered_add [OF Cons.prems assms(1)] by blast
      from Cons.IH [OF t1(2), of w1] t1(1) AddTrampoline Some show ?thesis by auto
    qed
  next
    case (RemoveTrampoline f)
    show ?thesis
    proof (cases f)
      case None
      with Cons.IH [OF Cons.prems, of w] RemoveTrampoline show ?thesis by (auto simp: connector_remove_trampoline_def)
    next
      case (Some g)
      obtain t1 where t1: "connector_remove_trampoline (Some g) t =
          Some (if g \<in> set fs then SUBSTANCE_CONNECTOR_SUCCESS else SUBSTANCE_CONNECTOR_INVALID, t1)"
          "registered t1 (remove1 g fs)"
        using registered_remove [OF Cons.prems] by blast
      from Cons.IH [OF t1(2), of w] t1(1) RemoveTrampoline Some show ?thesis by auto
    qed
  next
    case NotifyTrampolines
    with Cons.IH [OF Cons.prems, of w] registered_notify [OF Cons.prems] show ?thesis
      by (auto simp: comp_def)
  qed
qed

text \<open>
  C23: the trampoline list behaves as a list of callbacks. After initialisation, any script
  of registrations, removals and notifications runs without a fault and gives the codes and
  the call sequences of the plain list: newest first, removal of one occurrence, every
  registered callback called once per registration. Shutdown then releases every node.
\<close>

theorem trampolines_refine_list:
  assumes "allocator_succeeds env" and "tr_heap t = Map.empty"
  shows "\<exists>rs cs t' w' fs' t''.
    run_tr env ops (snd (connector_init_trampoline_subsystem t)) w = Some (rs, cs, t', w') \<and>
    list_tr ops [] = (rs, cs, fs') \<and>
    connector_shutdown_trampoline_subsystem t' = Some (SUBSTANCE_CONNECTOR_SUCCESS, t'') \<and> tr_heap t'' = Map.empty"
proof -
  from run_tr_list [OF assms(1) registered_init [OF assms(2)], of ops w]
  obtain rs cs t' w' fs' where r: "run_tr env ops (snd (connector_init_trampoline_subsystem t)) w = Some (rs, cs, t', w')"
    "list_tr ops [] = (rs, cs, fs')" "registered t' fs'" by blast
  from registered_shutdown [OF r(3)] r(1,2) show ?thesis by blast
qed

theorem trampolines_refine_list_witness:
  "\<exists>rs cs t' w'. run_tr sample_os [AddTrampoline (Some 7), AddTrampoline (Some 8), NotifyTrampolines,
       RemoveTrampoline (Some 7), RemoveTrampoline (Some 9), NotifyTrampolines]
       (snd (connector_init_trampoline_subsystem \<lparr>tr_heap = Map.empty, tr_fresh = 0, tr_front = None\<rparr>)) []
     = Some (rs, cs, t', w') \<and> cs = [[8, 7], [8]]"
  using trampolines_refine_list [of sample_os "\<lparr>tr_heap = Map.empty, tr_fresh = 0, tr_front = None\<rparr>"
      "[AddTrampoline (Some 7), AddTrampoline (Some 8), NotifyTrampolines,
       RemoveTrampoline (Some 7), RemoveTrampoline (Some 9), NotifyTrampolines]" "[]"]
  by auto

text \<open>
  Shutdown leaves a dangling list. The front pointer still addresses the first released
  node, so a notification between a shutdown and the next initialisation faults as soon as
  one callback was registered.
\<close>

theorem notify_after_shutdown_faults:
  assumes "registered t fs" and "fs \<noteq> []"
  shows "\<exists>t'. connector_shutdown_trampoline_subsystem t = Some (SUBSTANCE_CONNECTOR_SUCCESS, t') \<and>
    connector_notify_trampolines t' ctx type message = None"
proof -
  obtain t' where t': "connector_shutdown_trampoline_subsystem t = Some (SUBSTANCE_CONNECTOR_SUCCESS, t')"
      "tr_heap t' = Map.empty" "tr_front t' \<noteq> None"
    using registered_shutdown [OF assms(1)] assms(2) by auto
  then have "notify_loop (tr_heap t') (tr_front t') = None"
    by (subst notify_loop.simps) (auto split: option.splits)
  with t'(1) show ?thesis by (auto simp: connector_notify_trampolines_def)
qed

theorem notify_after_shutdown_faults_witness:
  "\<exists>t'. connector_shutdown_trampoline_subsystem
       \<lparr>tr_heap = [0 \<mapsto> \<lparr>node_trampoline = 7, node_link = None\<rparr>], tr_fresh = 1, tr_front = Some 0\<rparr>
     = Some (SUBSTANCE_CONNECTOR_SUCCESS, t') \<and>
     connector_notify_trampolines t' 0 (UUID 0 0 0 0) NULL = None"
proof -
  let ?t = "\<lparr>tr_heap = [0 \<mapsto> \<lparr>node_trampoline = 7, node_link = None\<rparr>], tr_fresh = 1, tr_front = Some 0\<rparr>"
  have "wf_trampolines ?t [0]" by (auto simp: wf_trampolines_def)
  then have "registered ?t [7]" by (auto simp: registered_def targets_def intro!: exI [of _ "[0]"])
  from notify_after_shutdown_faults [OF this] show ?thesis by simp
qed

end
