(* ===== verification/Locked_Queue.thy ===== *)
theory Locked_Queue
  imports Linked_List
begin

text \<open>
  The generic locked queue of \<^verbatim>\<open>locked_queue.c\<close>: a singly linked list of nodes in an explicit
  heap, with pointers to its front and its end. Every operation runs under the queue's
  mutex, so it is one atomic transition of the queue and the heap.

  \<open>queue_nodes\<close> relates a queue to the list of its node addresses; the operations are shown
  to append, remove and walk that list.
\<close>

section \<open>Nodes, queues and operations\<close>

record 'a connector_locked_queue_node =
  node_next :: "nat option"
  node_contents :: 'a

type_synonym 'a node_heap = "nat \<Rightarrow> 'a connector_locked_queue_node option"

text \<open>
  The handler of a queue consumes one node of the heap; a queue initialised without a
  handler has the dummy one, which does nothing.
\<close>

type_synonym 'a node_handler = "nat \<Rightarrow> 'a node_heap \<Rightarrow> 'a node_heap option"

record 'a connector_locked_queue =
  queue_front :: "nat option"
  queue_end :: "nat option"
  queue_handler :: "'a node_handler"

definition dummy_handler :: "'a node_handler" where
  "dummy_handler node h = Some h"

definition connector_locked_queue_init :: "'a node_handler option \<Rightarrow> 'a connector_locked_queue" where
  "connector_locked_queue_init handler = \<lparr>queue_front = None, queue_end = None,
     queue_handler = (case handler of None \<Rightarrow> dummy_handler | Some f \<Rightarrow> f)\<rparr>"

text \<open>\<^verbatim>\<open>connector_locked_queue_clear\<close>: the loop over the front, which never touches the end.\<close>

partial_function (option) connector_locked_queue_clear ::
    "'a connector_locked_queue \<Rightarrow> 'a node_heap \<Rightarrow> ('a connector_locked_queue \<times> 'a node_heap) option" where
  "connector_locked_queue_clear q h =
     (case queue_front q of
        None \<Rightarrow> Some (q, h)
      | Some front \<Rightarrow>
          Option.bind (h front) (\<lambda>n.
            Option.bind (queue_handler q front h) (\<lambda>h'.
              connector_locked_queue_clear (q\<lparr>queue_front := node_next n\<rparr>) h')))"

definition connector_locked_enqueue ::
    "'a connector_locked_queue \<Rightarrow> nat \<Rightarrow> 'a node_heap \<Rightarrow> ('a connector_locked_queue \<times> 'a node_heap) option" where
  "connector_locked_enqueue q node h = do {
     n \<leftarrow> h node;
     let h1 = h(node \<mapsto> n\<lparr>node_next := None\<rparr>);
     let old_end = queue_end q;
     let q1 = q\<lparr>queue_end := Some node\<rparr>;
     let q2 = (if queue_front q1 = None then q1\<lparr>queue_front := queue_end q1\<rparr> else q1);
     case old_end of
       None \<Rightarrow> Some (q2, h1)
     | Some e \<Rightarrow> do {
         en \<leftarrow> h1 e;
         Some (q2, h1(e \<mapsto> en\<lparr>node_next := Some node\<rparr>)) } }"

definition connector_locked_dequeue ::
    "'a connector_locked_queue \<Rightarrow> 'a node_heap \<Rightarrow> (nat option \<times> 'a connector_locked_queue) option" where
  "connector_locked_dequeue q h =
     (case queue_front q of
        None \<Rightarrow> Some (None, q)
      | Some node \<Rightarrow> do {
          n \<leftarrow> h node;
          let q1 = q\<lparr>queue_front := node_next n\<rparr>;
          Some (Some node, if queue_front q1 = None then q1\<lparr>queue_end := None\<rparr> else q1) })"

section \<open>The list of nodes\<close>

abbreviation node_path :: "'a node_heap \<Rightarrow> nat option \<Rightarrow> nat list \<Rightarrow> bool" where
  "node_path \<equiv> link_path node_next"

definition queue_nodes :: "'a connector_locked_queue \<Rightarrow> 'a node_heap \<Rightarrow> nat list \<Rightarrow> bool" where
  "queue_nodes q h xs \<longleftrightarrow> node_path h (queue_front q) xs \<and> distinct xs \<and>
     queue_end q = (if xs = [] then None else Some (last xs))"

definition node_values :: "'a node_heap \<Rightarrow> nat list \<Rightarrow> 'a list" where
  "node_values h xs = map (\<lambda>a. node_contents (the (h a))) xs"

lemma queue_nodes_frame:
  "queue_nodes q h xs \<Longrightarrow> (\<And>a. a \<in> set xs \<Longrightarrow> h' a = h a) \<Longrightarrow> queue_nodes q h' xs"
  by (auto simp: queue_nodes_def intro: link_path_frame)

lemma queue_nodes_dom: "queue_nodes q h xs \<Longrightarrow> set xs \<subseteq> dom h"
  by (auto simp: queue_nodes_def dest: link_path_dom)

lemma node_values_frame: "(\<And>a. a \<in> set xs \<Longrightarrow> h' a = h a) \<Longrightarrow> node_values h' xs = node_values h xs"
  by (simp add: node_values_def)

lemma queue_nodes_init [simp]: "queue_nodes (connector_locked_queue_init f) h []"
  by (simp add: queue_nodes_def connector_locked_queue_init_def)

text \<open>Appending a node at the end of a path.\<close>

lemma node_path_snoc:
  assumes "node_path h p (xs @ [e])" "distinct (xs @ [e])" "h e = Some en"
    "x \<notin> set (xs @ [e])"
  shows "node_path (h(x \<mapsto> n\<lparr>node_next := None\<rparr>, e \<mapsto> en\<lparr>node_next := Some x\<rparr>)) p (xs @ [e, x])"
  using assms by (induction xs arbitrary: p) auto

lemma enqueue_nodes:
  assumes q: "queue_nodes q h xs" and x: "x \<notin> set xs" "h x = Some n"
  shows "\<exists>q' h'. connector_locked_enqueue q x h = Some (q', h') \<and> queue_nodes q' h' (xs @ [x]) \<and>
    node_values h' (xs @ [x]) = node_values h xs @ [node_contents n] \<and>
    queue_handler q' = queue_handler q \<and> dom h' = dom h \<and> (\<forall>a. a \<notin> set (xs @ [x]) \<longrightarrow> h' a = h a)"
proof (cases xs rule: rev_exhaust)
  case Nil
  with assms show ?thesis
    by (auto simp: connector_locked_enqueue_def queue_nodes_def node_values_def Let_def)
next
  case (snoc ys e)
  have p: "node_path h (queue_front q) (ys @ [e])" "distinct (ys @ [e])" "queue_end q = Some e"
    using q snoc by (auto simp: queue_nodes_def)
  then obtain en where e: "h e = Some en" using link_path_dom [OF p(1)] by auto
  have "x \<noteq> e" using x snoc by auto
  have "queue_front q \<noteq> None" using p(1) by (cases ys) auto
  let ?h = "h(x \<mapsto> n\<lparr>node_next := None\<rparr>, e \<mapsto> en\<lparr>node_next := Some x\<rparr>)"
  let ?q = "q\<lparr>queue_end := Some x\<rparr>"
  have "connector_locked_enqueue q x h = Some (?q, ?h)"
    using x(2) p(3) e \<open>x \<noteq> e\<close> \<open>queue_front q \<noteq> None\<close>
    by (simp add: connector_locked_enqueue_def Let_def)
  moreover have "queue_nodes ?q ?h (xs @ [x])"
    using node_path_snoc [OF p(1,2) e, of x n] x(1) p(2) snoc by (simp add: queue_nodes_def)
  moreover have "node_values ?h (xs @ [x]) = node_values h xs @ [node_contents n]"
    using x(1) e p(2) \<open>x \<noteq> e\<close> by (auto simp: node_values_def snoc)
  moreover have "dom ?h = dom h" using x(2) e by auto
  moreover have "\<forall>a. a \<notin> set (xs @ [x]) \<longrightarrow> ?h a = h a" using snoc by simp
  ultimately show ?thesis by (intro exI [of _ ?q] exI [of _ ?h]) simp
qed

lemma dequeue_empty: "queue_nodes q h [] \<Longrightarrow> connector_locked_dequeue q h = Some (None, q)"
  by (simp add: queue_nodes_def connector_locked_dequeue_def)

lemma dequeue_nodes:
  assumes "queue_nodes q h (x # xs)"
  shows "\<exists>q'. connector_locked_dequeue q h = Some (Some x, q') \<and> queue_nodes q' h xs \<and>
    queue_handler q' = queue_handler q"
  using assms by (cases xs) (auto simp: queue_nodes_def connector_locked_dequeue_def Let_def)

text \<open>
  Clearing walks the whole list and terminates, provided the handler accepts each node and
  leaves the rest of the list alone. \<open>handled\<close> is the heap after the handler ran on a list.
\<close>

fun handled :: "'a node_handler \<Rightarrow> nat list \<Rightarrow> 'a node_heap \<Rightarrow> 'a node_heap option" where
  "handled f [] h = Some h"
| "handled f (x # xs) h = Option.bind (f x h) (handled f xs)"

definition local_handler :: "'a node_handler \<Rightarrow> bool" where
  "local_handler f \<longleftrightarrow> (\<forall>a h h' b. f a h = Some h' \<longrightarrow> b \<noteq> a \<longrightarrow> h' b = h b)"

lemma clear_walks_from:
  assumes frame: "local_handler (queue_handler q)"
    and "node_path h p xs" "distinct xs" "handled (queue_handler q) xs h = Some h'"
  shows "connector_locked_queue_clear (q\<lparr>queue_front := p\<rparr>) h = Some (q\<lparr>queue_front := None\<rparr>, h')"
  using assms(2-4)
proof (induction xs arbitrary: p h)
  case Nil
  then show ?case by (subst connector_locked_queue_clear.simps) simp
next
  case (Cons x xs)
  then obtain n h1 where n: "p = Some x" "h x = Some n" "node_path h (node_next n) xs"
      and h1: "queue_handler q x h = Some h1" "handled (queue_handler q) xs h1 = Some h'"
    by (auto split: option_bind_splits)
  have "h1 b = h b" if "b \<in> set xs" for b
    using that Cons.prems(2) frame h1(1) unfolding local_handler_def by (metis distinct.simps(2))
  then have "node_path h1 (node_next n) xs" using n(3) by (rule link_path_frame [rotated])
  with Cons.IH [OF this] Cons.prems(2) h1(2)
  have "connector_locked_queue_clear (q\<lparr>queue_front := node_next n\<rparr>) h1 = Some (q\<lparr>queue_front := None\<rparr>, h')"
    by simp
  then show ?case using n h1 by (subst connector_locked_queue_clear.simps) simp
qed

lemma clear_walks:
  assumes "local_handler (queue_handler q)"
    and "queue_nodes q h xs" "handled (queue_handler q) xs h = Some h'"
  shows "connector_locked_queue_clear q h = Some (q\<lparr>queue_front := None\<rparr>, h')"
proof -
  have "q\<lparr>queue_front := queue_front q\<rparr> = q" by simp
  with clear_walks_from [OF assms(1), of h "queue_front q" xs h'] assms(2,3) show ?thesis
    by (simp add: queue_nodes_def)
qed

text \<open>The handler that releases the node.\<close>

definition release_handler :: "'a node_handler" where
  "release_handler a h = (if h a = None then None else Some (h(a := None)))"

lemma handled_release:
  "distinct xs \<Longrightarrow> set xs \<subseteq> dom h \<Longrightarrow> handled release_handler xs h = Some (h |` (- set xs))"
proof (induction xs arbitrary: h)
  case Nil
  then show ?case by simp
next
  case (Cons x xs)
  have "(h(x := None)) |` (- set xs) = h |` (- set (x # xs))" by (auto simp: restrict_map_def)
  moreover have "handled release_handler xs (h(x := None)) = Some ((h(x := None)) |` (- set xs))"
    using Cons.prems by (intro Cons.IH) auto
  moreover have "release_handler x h = Some (h(x := None))"
    using Cons.prems by (auto simp: release_handler_def)
  ultimately show ?case by simp
qed

lemma local_release: "local_handler release_handler"
  by (auto simp: local_handler_def release_handler_def split: if_splits)

section \<open>Properties\<close>

text \<open>
  A cleared queue is not usable. Clearing a non-empty queue whose handler releases the
  nodes leaves the end pointer at the last, now released, node; the next enqueue writes
  through it. Clearing an empty queue does no harm.
\<close>

theorem enqueue_after_clear_faults:
  assumes "queue_nodes q h xs" and "queue_handler q = release_handler" and "xs \<noteq> []"
    and "x \<notin> dom h"
  shows "\<exists>q' h'. connector_locked_queue_clear q h = Some (q', h') \<and> queue_front q' = None \<and>
    h' = h |` (- set xs) \<and> connector_locked_enqueue q' x (h'(x \<mapsto> n)) = None"
proof -
  let ?q = "q\<lparr>queue_front := None\<rparr>" and ?h = "h |` (- set xs)"
  have "handled release_handler xs h = Some ?h"
    using assms(1) queue_nodes_dom [OF assms(1)] by (intro handled_release) (auto simp: queue_nodes_def)
  then have clear: "connector_locked_queue_clear q h = Some (?q, ?h)"
    using assms(1,2) local_release by (intro clear_walks) simp_all
  have "last xs \<in> set xs" using assms(3) by simp
  then have "last xs \<noteq> x" "?h (last xs) = None"
    using assms(4) queue_nodes_dom [OF assms(1)] by auto
  then have "connector_locked_enqueue ?q x (?h(x \<mapsto> n)) = None"
    using assms(1,3) by (simp add: connector_locked_enqueue_def queue_nodes_def Let_def)
  with clear show ?thesis by (intro exI [of _ ?q] exI [of _ ?h]) simp
qed

theorem enqueue_after_clear_faults_witness:
  "\<exists>q' h'. connector_locked_queue_clear
      \<lparr>queue_front = Some 5, queue_end = Some 5, queue_handler = release_handler\<rparr>
      [5 \<mapsto> \<lparr>node_next = None, node_contents = (7::nat)\<rparr>] = Some (q', h') \<and>
    connector_locked_enqueue q' 6 (h'(6 \<mapsto> \<lparr>node_next = None, node_contents = 8\<rparr>)) = None"
  using enqueue_after_clear_faults [of
      "\<lparr>queue_front = Some 5, queue_end = Some 5, queue_handler = release_handler\<rparr>"
      "[5 \<mapsto> \<lparr>node_next = None, node_contents = (7::nat)\<rparr>]" "[5]" 6
      "\<lparr>node_next = None, node_contents = 8\<rparr>"]
  by (auto simp: queue_nodes_def)

end
