(* ===== verification/Message_Queue.thy ===== *)
theory Message_Queue
  imports Locked_Queue Message
begin

text \<open>
  The inbound and outbound message queues of \<^verbatim>\<open>message_queue.c\<close>: two locked queues whose nodes
  live in one heap, and the life cycle of the subsystem. The queues are shown to be two
  independent first-in first-out queues, and shutdown to release every node and message.
\<close>

section \<open>State\<close>

datatype MessageQueueState =
    MESSAGE_QUEUE_SHUTDOWN
  | MESSAGE_QUEUE_INIT_STARTED
  | MESSAGE_QUEUE_INITIALIZED
  | MESSAGE_QUEUE_SHUTDOWN_STARTED
  | MESSAGE_QUEUE_INVALID

type_synonym message_heap = "connector_message cptr node_heap"

text \<open>
  \<open>mq_fresh\<close> is the address the allocator gives to the next node; every node in the heap has
  a smaller one.
\<close>

record message_queues =
  mq_heap :: message_heap
  mq_fresh :: nat
  inbound_queue :: "connector_message cptr connector_locked_queue"
  outbound_queue :: "connector_message cptr connector_locked_queue"
  message_queue_state :: MessageQueueState

section \<open>Operations\<close>

definition enqueue_message ::
    "'w os \<Rightarrow> connector_message cptr connector_locked_queue \<Rightarrow> connector_message cptr \<Rightarrow>
      message_heap \<Rightarrow> nat \<Rightarrow> 'w \<Rightarrow>
      (connector_message cptr connector_locked_queue \<times> message_heap \<times> nat \<times> 'w) option" where
  "enqueue_message env q message h fresh w =
     (case connector_allocate env 16 w of
        (None, w1) \<Rightarrow> None
      | (Some _, w1) \<Rightarrow> do {
          (q', h') \<leftarrow> connector_locked_enqueue q fresh
            (h(fresh \<mapsto> \<lparr>node_next = None, node_contents = message\<rparr>));
          Some (q', h', Suc fresh, w1) })"

definition dequeue_message ::
    "connector_message cptr connector_locked_queue \<Rightarrow> message_heap \<Rightarrow>
      (connector_message cptr \<times> connector_message cptr connector_locked_queue \<times> message_heap) option" where
  "dequeue_message q h = do {
     (node, q') \<leftarrow> connector_locked_dequeue q h;
     case node of
       None \<Rightarrow> Some (NULL, q', h)
     | Some a \<Rightarrow> do {
         n \<leftarrow> h a;
         Some (node_contents n, q', h(a := None)) } }"

text \<open>\<^verbatim>\<open>handle_message\<close>: clears and releases the message of a node, then the node.\<close>

definition handle_message :: "connector_message cptr node_handler" where
  "handle_message a h = do {
     n \<leftarrow> h a;
     m \<leftarrow> connector_clear_message (node_contents n);
     _ \<leftarrow> connector_free m;
     Some (h(a := None)) }"

definition connector_init_message_queue_subsystem ::
    "message_queues \<Rightarrow> substance_connector_error \<times> message_queues" where
  "connector_init_message_queue_subsystem s =
     (let (st, initialized) = CONNECTOR_ATOMIC_COMPARE_EXCHANGE (message_queue_state s)
            MESSAGE_QUEUE_SHUTDOWN MESSAGE_QUEUE_INIT_STARTED
      in if initialized = MESSAGE_QUEUE_SHUTDOWN then
           let (st', _) = CONNECTOR_ATOMIC_COMPARE_EXCHANGE st
                 MESSAGE_QUEUE_INIT_STARTED MESSAGE_QUEUE_INITIALIZED
           in (SUBSTANCE_CONNECTOR_SUCCESS,
               s\<lparr>inbound_queue := connector_locked_queue_init (Some handle_message),
                 outbound_queue := connector_locked_queue_init (Some handle_message),
                 message_queue_state := st'\<rparr>)
         else (SUBSTANCE_CONNECTOR_ERROR, s\<lparr>message_queue_state := st\<rparr>))"

definition connector_shutdown_message_queue_subsystem ::
    "message_queues \<Rightarrow> (substance_connector_error \<times> message_queues) option" where
  "connector_shutdown_message_queue_subsystem s =
     (let (st, initialized) = CONNECTOR_ATOMIC_COMPARE_EXCHANGE (message_queue_state s)
            MESSAGE_QUEUE_INITIALIZED MESSAGE_QUEUE_SHUTDOWN_STARTED
      in if initialized = MESSAGE_QUEUE_INITIALIZED then do {
           (qi, h1) \<leftarrow> connector_locked_queue_clear (inbound_queue s) (mq_heap s);
           (qo, h2) \<leftarrow> connector_locked_queue_clear (outbound_queue s) h1;
           let (st', _) = CONNECTOR_ATOMIC_COMPARE_EXCHANGE st
                 MESSAGE_QUEUE_SHUTDOWN_STARTED MESSAGE_QUEUE_SHUTDOWN;
           Some (SUBSTANCE_CONNECTOR_SUCCESS,
             s\<lparr>mq_heap := h2, inbound_queue := qi, outbound_queue := qo, message_queue_state := st'\<rparr>) }
         else Some (SUBSTANCE_CONNECTOR_ERROR, s\<lparr>message_queue_state := st\<rparr>))"

definition connector_enqueue_inbound_message ::
    "'w os \<Rightarrow> connector_message cptr \<Rightarrow> message_queues \<times> 'w \<Rightarrow> (message_queues \<times> 'w) option" where
  "connector_enqueue_inbound_message env m sw = (case sw of (s, w) \<Rightarrow> do {
     (q, h, f, w') \<leftarrow> enqueue_message env (inbound_queue s) m (mq_heap s) (mq_fresh s) w;
     Some (s\<lparr>inbound_queue := q, mq_heap := h, mq_fresh := f\<rparr>, w') })"

definition connector_acquire_inbound_message ::
    "message_queues \<times> 'w \<Rightarrow> (connector_message cptr \<times> message_queues \<times> 'w) option" where
  "connector_acquire_inbound_message sw = (case sw of (s, w) \<Rightarrow> do {
     (m, q, h) \<leftarrow> dequeue_message (inbound_queue s) (mq_heap s);
     Some (m, s\<lparr>inbound_queue := q, mq_heap := h\<rparr>, w) })"

definition connector_enqueue_outbound_message ::
    "'w os \<Rightarrow> connector_message cptr \<Rightarrow> message_queues \<times> 'w \<Rightarrow> (message_queues \<times> 'w) option" where
  "connector_enqueue_outbound_message env m sw = (case sw of (s, w) \<Rightarrow> do {
     (q, h, f, w') \<leftarrow> enqueue_message env (outbound_queue s) m (mq_heap s) (mq_fresh s) w;
     Some (s\<lparr>outbound_queue := q, mq_heap := h, mq_fresh := f\<rparr>, w') })"

definition connector_acquire_outbound_message ::
    "message_queues \<times> 'w \<Rightarrow> (connector_message cptr \<times> message_queues \<times> 'w) option" where
  "connector_acquire_outbound_message sw = (case sw of (s, w) \<Rightarrow> do {
     (m, q, h) \<leftarrow> dequeue_message (outbound_queue s) (mq_heap s);
     Some (m, s\<lparr>outbound_queue := q, mq_heap := h\<rparr>, w) })"

section \<open>The contract of a queue among others\<close>

text \<open>
  What the threads that use a message queue rely on. \<open>frame\<close> is the rest of the state that
  an operation on this queue must leave alone.
\<close>

locale framed_fifo =
  fixes enq :: "'a \<Rightarrow> 's \<Rightarrow> 's option"
    and deq :: "'s \<Rightarrow> ('a \<times> 's) option"
    and nothing :: 'a
    and contents :: "'s \<Rightarrow> 'a list"
    and frame :: "'s \<Rightarrow> 'b"
    and invar :: "'s \<Rightarrow> bool"
  assumes enq_law: "invar s \<Longrightarrow> \<exists>s'. enq x s = Some s' \<and> invar s' \<and> contents s' = contents s @ [x] \<and>
      frame s' = frame s"
    and deq_empty: "invar s \<Longrightarrow> contents s = [] \<Longrightarrow> \<exists>s'. deq s = Some (nothing, s') \<and> invar s' \<and>
      contents s' = [] \<and> frame s' = frame s"
    and deq_cons: "invar s \<Longrightarrow> contents s = x # xs \<Longrightarrow> \<exists>s'. deq s = Some (x, s') \<and> invar s' \<and>
      contents s' = xs \<and> frame s' = frame s"
begin

text \<open>The first element or nothing, and the rest: what a take returns and leaves.\<close>

lemma deq_total:
  assumes "invar s"
  shows "\<exists>s'. deq s = Some (case contents s of [] \<Rightarrow> nothing | x # _ \<Rightarrow> x, s') \<and> invar s' \<and>
    contents s' = tl (contents s) \<and> frame s' = frame s"
proof (cases "contents s")
  case Nil
  with deq_empty [OF assms] show ?thesis by simp
next
  case (Cons x xs)
  with deq_cons [OF assms Cons] show ?thesis by simp
qed

end

section \<open>The two queues\<close>

definition queue_addresses :: "connector_message cptr connector_locked_queue \<Rightarrow> message_heap \<Rightarrow> nat list" where
  "queue_addresses q h = (THE xs. queue_nodes q h xs)"

lemma queue_addresses_eq: "queue_nodes q h xs \<Longrightarrow> queue_addresses q h = xs"
  unfolding queue_addresses_def queue_nodes_def by (rule the_equality) (auto dest: link_path_unique)

definition in_nodes :: "message_queues \<Rightarrow> nat list" where
  "in_nodes s = queue_addresses (inbound_queue s) (mq_heap s)"

definition out_nodes :: "message_queues \<Rightarrow> nat list" where
  "out_nodes s = queue_addresses (outbound_queue s) (mq_heap s)"

definition inbound_messages :: "message_queues \<Rightarrow> connector_message cptr list" where
  "inbound_messages s = node_values (mq_heap s) (in_nodes s)"

definition outbound_messages :: "message_queues \<Rightarrow> connector_message cptr list" where
  "outbound_messages s = node_values (mq_heap s) (out_nodes s)"

text \<open>Both lists are intact, share no node, and account for every node in the heap.\<close>

definition wf_queues :: "message_queues \<Rightarrow> bool" where
  "wf_queues s \<longleftrightarrow> queue_nodes (inbound_queue s) (mq_heap s) (in_nodes s) \<and>
     queue_nodes (outbound_queue s) (mq_heap s) (out_nodes s) \<and>
     set (in_nodes s) \<inter> set (out_nodes s) = {} \<and>
     dom (mq_heap s) = set (in_nodes s) \<union> set (out_nodes s) \<and>
     (\<forall>a \<in> dom (mq_heap s). a < mq_fresh s) \<and>
     queue_handler (inbound_queue s) = handle_message \<and> queue_handler (outbound_queue s) = handle_message"

lemma wf_queuesI:
  assumes "queue_nodes (inbound_queue s) (mq_heap s) xs" "queue_nodes (outbound_queue s) (mq_heap s) ys"
    "set xs \<inter> set ys = {}" "dom (mq_heap s) = set xs \<union> set ys" "\<forall>a \<in> dom (mq_heap s). a < mq_fresh s"
    "queue_handler (inbound_queue s) = handle_message" "queue_handler (outbound_queue s) = handle_message"
  shows "wf_queues s \<and> in_nodes s = xs \<and> out_nodes s = ys"
  using assms by (simp add: wf_queues_def in_nodes_def out_nodes_def queue_addresses_eq)

text \<open>The generic step of one queue beside another one with nodes \<open>ys\<close>.\<close>

lemma enqueue_message_nodes:
  assumes al: "allocator_succeeds env"
    and q: "queue_nodes q h xs" "queue_nodes q2 h ys" "set xs \<inter> set ys = {}" "dom h = set xs \<union> set ys"
    and fr: "\<forall>a \<in> dom h. a < fresh"
  obtains q' h' w' where "enqueue_message env q m h fresh w = Some (q', h', Suc fresh, w')"
    "queue_nodes q' h' (xs @ [fresh])" "node_values h' (xs @ [fresh]) = node_values h xs @ [m]"
    "queue_nodes q2 h' ys" "node_values h' ys = node_values h ys"
    "dom h' = set (xs @ [fresh]) \<union> set ys" "fresh \<notin> set xs \<union> set ys" "queue_handler q' = queue_handler q"
proof -
  let ?h = "h(fresh \<mapsto> \<lparr>node_next = None, node_contents = m\<rparr>)"
  have f: "fresh \<notin> dom h" using fr by blast
  then have f': "fresh \<notin> set xs" "fresh \<notin> set ys" using q(4) by auto
  obtain b w' where al': "connector_allocate env 16 w = (Some b, w')"
    using connector_allocate_ok [OF al] by blast
  have "queue_nodes q ?h xs" using q(1) f' by (auto intro: queue_nodes_frame)
  then obtain q' h' where e: "connector_locked_enqueue q fresh ?h = Some (q', h')"
    "queue_nodes q' h' (xs @ [fresh])" "node_values h' (xs @ [fresh]) = node_values ?h xs @ [m]"
    "queue_handler q' = queue_handler q" "dom h' = dom ?h" "\<forall>a. a \<notin> set (xs @ [fresh]) \<longrightarrow> h' a = ?h a"
    using enqueue_nodes [of q ?h xs fresh] f' by auto
  have other: "h' a = h a" if "a \<in> set ys" for a using e(6) that f' q(3) by auto
  have "node_values ?h xs = node_values h xs" using f' by (intro node_values_frame) auto
  then show ?thesis
    using that [of q' h' w'] al' e other q f'
      queue_nodes_frame [OF q(2), of h'] node_values_frame [of ys h' h]
    by (auto simp: enqueue_message_def)
qed

lemma dequeue_message_nodes:
  assumes q: "queue_nodes q h (x # xs)" "queue_nodes q2 h ys" "set (x # xs) \<inter> set ys = {}"
    "dom h = set (x # xs) \<union> set ys"
  obtains q' h' where "dequeue_message q h = Some (node_contents (the (h x)), q', h')"
    "queue_nodes q' h' xs" "node_values h' xs = node_values h xs"
    "queue_nodes q2 h' ys" "node_values h' ys = node_values h ys"
    "dom h' = set xs \<union> set ys" "queue_handler q' = queue_handler q"
proof -
  obtain q' where d: "connector_locked_dequeue q h = Some (Some x, q')" "queue_nodes q' h xs"
      "queue_handler q' = queue_handler q"
    using dequeue_nodes [OF q(1)] by blast
  have x: "x \<notin> set xs" "x \<notin> set ys" using q(1,3) by (auto simp: queue_nodes_def)
  obtain n where n: "h x = Some n" using q(4) by auto
  have same: "a \<in> set xs \<union> set ys \<Longrightarrow> (h(x := None)) a = h a" for a using x by auto
  have "queue_nodes q' (h(x := None)) xs" by (rule queue_nodes_frame [OF d(2)]) (rule same, simp)
  moreover have "queue_nodes q2 (h(x := None)) ys" by (rule queue_nodes_frame [OF q(2)]) (rule same, simp)
  moreover have "node_values (h(x := None)) xs = node_values h xs" by (rule node_values_frame) (rule same, simp)
  moreover have "node_values (h(x := None)) ys = node_values h ys" by (rule node_values_frame) (rule same, simp)
  moreover have "dom (h(x := None)) = set xs \<union> set ys" using q(4) x by auto
  moreover have "dequeue_message q h = Some (node_contents (the (h x)), q', h(x := None))"
    using d n by (simp add: dequeue_message_def)
  ultimately show ?thesis using d(3) by (intro that [of q' "h(x := None)"])
qed

subsection \<open>Each queue keeps its contract\<close>

text \<open>The invariant of the contract carries the working allocator the queues need.\<close>

definition queues_invar :: "'w os \<Rightarrow> message_queues \<times> 'w \<Rightarrow> bool" where
  "queues_invar env sw \<longleftrightarrow> wf_queues (fst sw) \<and> allocator_succeeds env"

lemma wf_queuesD:
  assumes "wf_queues s"
  shows "queue_nodes (inbound_queue s) (mq_heap s) (in_nodes s)"
    "queue_nodes (outbound_queue s) (mq_heap s) (out_nodes s)"
    "set (in_nodes s) \<inter> set (out_nodes s) = {}" "set (out_nodes s) \<inter> set (in_nodes s) = {}"
    "dom (mq_heap s) = set (in_nodes s) \<union> set (out_nodes s)"
    "dom (mq_heap s) = set (out_nodes s) \<union> set (in_nodes s)"
    "\<forall>a \<in> dom (mq_heap s). a < mq_fresh s"
    "queue_handler (inbound_queue s) = handle_message" "queue_handler (outbound_queue s) = handle_message"
  using assms by (auto simp: wf_queues_def)

lemma inbound_enqueue:
  assumes "wf_queues s" "allocator_succeeds env"
  shows "\<exists>s' w'. connector_enqueue_inbound_message env m (s, w) = Some (s', w') \<and> wf_queues s' \<and>
    inbound_messages s' = inbound_messages s @ [m] \<and> outbound_messages s' = outbound_messages s \<and>
    message_queue_state s' = message_queue_state s"
proof -
  note d = wf_queuesD [OF assms(1)]
  obtain q' h' w' where e: "enqueue_message env (inbound_queue s) m (mq_heap s) (mq_fresh s) w
      = Some (q', h', Suc (mq_fresh s), w')"
    "queue_nodes q' h' (in_nodes s @ [mq_fresh s])"
    "node_values h' (in_nodes s @ [mq_fresh s]) = node_values (mq_heap s) (in_nodes s) @ [m]"
    "queue_nodes (outbound_queue s) h' (out_nodes s)"
    "node_values h' (out_nodes s) = node_values (mq_heap s) (out_nodes s)"
    "dom h' = set (in_nodes s @ [mq_fresh s]) \<union> set (out_nodes s)"
    "mq_fresh s \<notin> set (in_nodes s) \<union> set (out_nodes s)" "queue_handler q' = queue_handler (inbound_queue s)"
    by (rule enqueue_message_nodes [OF assms(2) d(1,2,3,5,7)])
  let ?s = "s\<lparr>inbound_queue := q', mq_heap := h', mq_fresh := Suc (mq_fresh s)\<rparr>"
  have "wf_queues ?s \<and> in_nodes ?s = in_nodes s @ [mq_fresh s] \<and> out_nodes ?s = out_nodes s"
    using e d by (intro wf_queuesI) (auto simp: less_Suc_eq)
  with e show ?thesis
    by (simp add: connector_enqueue_inbound_message_def inbound_messages_def outbound_messages_def)
qed

lemma outbound_enqueue:
  assumes "wf_queues s" "allocator_succeeds env"
  shows "\<exists>s' w'. connector_enqueue_outbound_message env m (s, w) = Some (s', w') \<and> wf_queues s' \<and>
    outbound_messages s' = outbound_messages s @ [m] \<and> inbound_messages s' = inbound_messages s \<and>
    message_queue_state s' = message_queue_state s"
proof -
  note d = wf_queuesD [OF assms(1)]
  obtain q' h' w' where e: "enqueue_message env (outbound_queue s) m (mq_heap s) (mq_fresh s) w
      = Some (q', h', Suc (mq_fresh s), w')"
    "queue_nodes q' h' (out_nodes s @ [mq_fresh s])"
    "node_values h' (out_nodes s @ [mq_fresh s]) = node_values (mq_heap s) (out_nodes s) @ [m]"
    "queue_nodes (inbound_queue s) h' (in_nodes s)"
    "node_values h' (in_nodes s) = node_values (mq_heap s) (in_nodes s)"
    "dom h' = set (out_nodes s @ [mq_fresh s]) \<union> set (in_nodes s)"
    "mq_fresh s \<notin> set (out_nodes s) \<union> set (in_nodes s)" "queue_handler q' = queue_handler (outbound_queue s)"
    by (rule enqueue_message_nodes [OF assms(2) d(2,1,4,6,7)])
  let ?s = "s\<lparr>outbound_queue := q', mq_heap := h', mq_fresh := Suc (mq_fresh s)\<rparr>"
  have "wf_queues ?s \<and> in_nodes ?s = in_nodes s \<and> out_nodes ?s = out_nodes s @ [mq_fresh s]"
    using e d by (intro wf_queuesI) (auto simp: less_Suc_eq)
  with e show ?thesis
    by (simp add: connector_enqueue_outbound_message_def inbound_messages_def outbound_messages_def)
qed

lemma inbound_dequeue_empty:
  assumes "wf_queues s" "inbound_messages s = []"
  shows "connector_acquire_inbound_message (s, w) = Some (NULL, s, w)"
proof -
  have "in_nodes s = []" using assms(2) by (simp add: inbound_messages_def node_values_def)
  then have "connector_locked_dequeue (inbound_queue s) (mq_heap s) = Some (None, inbound_queue s)"
    using wf_queuesD(1) [OF assms(1)] by (simp add: dequeue_empty)
  then show ?thesis by (simp add: connector_acquire_inbound_message_def dequeue_message_def)
qed

lemma outbound_dequeue_empty:
  assumes "wf_queues s" "outbound_messages s = []"
  shows "connector_acquire_outbound_message (s, w) = Some (NULL, s, w)"
proof -
  have "out_nodes s = []" using assms(2) by (simp add: outbound_messages_def node_values_def)
  then have "connector_locked_dequeue (outbound_queue s) (mq_heap s) = Some (None, outbound_queue s)"
    using wf_queuesD(2) [OF assms(1)] by (simp add: dequeue_empty)
  then show ?thesis by (simp add: connector_acquire_outbound_message_def dequeue_message_def)
qed

lemma inbound_dequeue:
  assumes "wf_queues s" "inbound_messages s = m # ms"
  shows "\<exists>s'. connector_acquire_inbound_message (s, w) = Some (m, s', w) \<and> wf_queues s' \<and>
    inbound_messages s' = ms \<and> outbound_messages s' = outbound_messages s \<and>
    message_queue_state s' = message_queue_state s"
proof -
  note d = wf_queuesD [OF assms(1)]
  obtain x xs where x: "in_nodes s = x # xs"
    using assms(2) by (auto simp: inbound_messages_def node_values_def)
  have v: "m = node_contents (the (mq_heap s x))" "node_values (mq_heap s) xs = ms"
    using assms(2) x by (auto simp: inbound_messages_def node_values_def)
  obtain q' h' where e: "dequeue_message (inbound_queue s) (mq_heap s) = Some (m, q', h')"
    "queue_nodes q' h' xs" "node_values h' xs = node_values (mq_heap s) xs"
    "queue_nodes (outbound_queue s) h' (out_nodes s)"
    "node_values h' (out_nodes s) = node_values (mq_heap s) (out_nodes s)"
    "dom h' = set xs \<union> set (out_nodes s)" "queue_handler q' = queue_handler (inbound_queue s)"
    by (rule dequeue_message_nodes [OF d(1,2,3,5) [unfolded x], folded v(1)])
  let ?s = "s\<lparr>inbound_queue := q', mq_heap := h'\<rparr>"
  have "wf_queues ?s \<and> in_nodes ?s = xs \<and> out_nodes ?s = out_nodes s"
    using e d x by (intro wf_queuesI) auto
  with e v show ?thesis
    by (simp add: connector_acquire_inbound_message_def inbound_messages_def outbound_messages_def)
qed

lemma outbound_dequeue:
  assumes "wf_queues s" "outbound_messages s = m # ms"
  shows "\<exists>s'. connector_acquire_outbound_message (s, w) = Some (m, s', w) \<and> wf_queues s' \<and>
    outbound_messages s' = ms \<and> inbound_messages s' = inbound_messages s \<and>
    message_queue_state s' = message_queue_state s"
proof -
  note d = wf_queuesD [OF assms(1)]
  obtain x xs where x: "out_nodes s = x # xs"
    using assms(2) by (auto simp: outbound_messages_def node_values_def)
  have v: "m = node_contents (the (mq_heap s x))" "node_values (mq_heap s) xs = ms"
    using assms(2) x by (auto simp: outbound_messages_def node_values_def)
  obtain q' h' where e: "dequeue_message (outbound_queue s) (mq_heap s) = Some (m, q', h')"
    "queue_nodes q' h' xs" "node_values h' xs = node_values (mq_heap s) xs"
    "queue_nodes (inbound_queue s) h' (in_nodes s)"
    "node_values h' (in_nodes s) = node_values (mq_heap s) (in_nodes s)"
    "dom h' = set xs \<union> set (in_nodes s)" "queue_handler q' = queue_handler (outbound_queue s)"
    by (rule dequeue_message_nodes [OF d(2,1,4,6) [unfolded x], folded v(1)])
  let ?s = "s\<lparr>outbound_queue := q', mq_heap := h'\<rparr>"
  have "wf_queues ?s \<and> in_nodes ?s = in_nodes s \<and> out_nodes ?s = xs"
    using e d x by (intro wf_queuesI) auto
  with e v show ?thesis
    by (simp add: connector_acquire_outbound_message_def inbound_messages_def outbound_messages_def)
qed

interpretation inq: framed_fifo "connector_enqueue_inbound_message env" connector_acquire_inbound_message NULL
  "\<lambda>sw. inbound_messages (fst sw)" "\<lambda>sw. (outbound_messages (fst sw), message_queue_state (fst sw))"
  "queues_invar env" for env :: "'w os"
proof unfold_locales
  fix sw :: "message_queues \<times> 'w" and x xs
  assume inv: "queues_invar env sw"
  then have wf: "wf_queues (fst sw)" "allocator_succeeds env" by (auto simp: queues_invar_def)
  show "\<exists>s'. connector_enqueue_inbound_message env x sw = Some s' \<and> queues_invar env s' \<and>
      inbound_messages (fst s') = inbound_messages (fst sw) @ [x] \<and>
      (outbound_messages (fst s'), message_queue_state (fst s')) =
      (outbound_messages (fst sw), message_queue_state (fst sw))"
    using inbound_enqueue [OF wf, of x "snd sw"] wf(2) by (auto simp: queues_invar_def)
  show "\<exists>s'. connector_acquire_inbound_message sw = Some (NULL, s') \<and> queues_invar env s' \<and>
      inbound_messages (fst s') = [] \<and>
      (outbound_messages (fst s'), message_queue_state (fst s')) =
      (outbound_messages (fst sw), message_queue_state (fst sw))"
    if "inbound_messages (fst sw) = []"
    using inbound_dequeue_empty [OF wf(1) that, of "snd sw"] inv that by auto
  show "\<exists>s'. connector_acquire_inbound_message sw = Some (x, s') \<and> queues_invar env s' \<and>
      inbound_messages (fst s') = xs \<and>
      (outbound_messages (fst s'), message_queue_state (fst s')) =
      (outbound_messages (fst sw), message_queue_state (fst sw))"
    if "inbound_messages (fst sw) = x # xs"
    using inbound_dequeue [OF wf(1) that, of "snd sw"] wf(2) by (auto simp: queues_invar_def)
qed

interpretation outq: framed_fifo "connector_enqueue_outbound_message env" connector_acquire_outbound_message NULL
  "\<lambda>sw. outbound_messages (fst sw)" "\<lambda>sw. (inbound_messages (fst sw), message_queue_state (fst sw))"
  "queues_invar env" for env :: "'w os"
proof unfold_locales
  fix sw :: "message_queues \<times> 'w" and x xs
  assume inv: "queues_invar env sw"
  then have wf: "wf_queues (fst sw)" "allocator_succeeds env" by (auto simp: queues_invar_def)
  show "\<exists>s'. connector_enqueue_outbound_message env x sw = Some s' \<and> queues_invar env s' \<and>
      outbound_messages (fst s') = outbound_messages (fst sw) @ [x] \<and>
      (inbound_messages (fst s'), message_queue_state (fst s')) =
      (inbound_messages (fst sw), message_queue_state (fst sw))"
    using outbound_enqueue [OF wf, of x "snd sw"] wf(2) by (auto simp: queues_invar_def)
  show "\<exists>s'. connector_acquire_outbound_message sw = Some (NULL, s') \<and> queues_invar env s' \<and>
      outbound_messages (fst s') = [] \<and>
      (inbound_messages (fst s'), message_queue_state (fst s')) =
      (inbound_messages (fst sw), message_queue_state (fst sw))"
    if "outbound_messages (fst sw) = []"
    using outbound_dequeue_empty [OF wf(1) that, of "snd sw"] inv that by auto
  show "\<exists>s'. connector_acquire_outbound_message sw = Some (x, s') \<and> queues_invar env s' \<and>
      outbound_messages (fst s') = xs \<and>
      (inbound_messages (fst s'), message_queue_state (fst s')) =
      (inbound_messages (fst sw), message_queue_state (fst sw))"
    if "outbound_messages (fst sw) = x # xs"
    using outbound_dequeue [OF wf(1) that, of "snd sw"] wf(2) by (auto simp: queues_invar_def)
qed

section \<open>Scripts over both queues\<close>

datatype 'm mq_op = PutIn 'm | TakeIn | PutOut 'm | TakeOut

fun run_mq :: "'w os \<Rightarrow> connector_message cptr mq_op list \<Rightarrow> message_queues \<times> 'w \<Rightarrow>
    (connector_message cptr list \<times> message_queues \<times> 'w) option" where
  "run_mq env [] sw = Some ([], sw)"
| "run_mq env (PutIn m # ops) sw = do { sw1 \<leftarrow> connector_enqueue_inbound_message env m sw; run_mq env ops sw1 }"
| "run_mq env (PutOut m # ops) sw = do { sw1 \<leftarrow> connector_enqueue_outbound_message env m sw; run_mq env ops sw1 }"
| "run_mq env (TakeIn # ops) sw = do { (m, sw1) \<leftarrow> connector_acquire_inbound_message sw;
     (ms, sw2) \<leftarrow> run_mq env ops sw1; Some (m # ms, sw2) }"
| "run_mq env (TakeOut # ops) sw = do { (m, sw1) \<leftarrow> connector_acquire_outbound_message sw;
     (ms, sw2) \<leftarrow> run_mq env ops sw1; Some (m # ms, sw2) }"

fun list_mq :: "'m \<Rightarrow> 'm mq_op list \<Rightarrow> 'm list \<Rightarrow> 'm list \<Rightarrow> 'm list \<times> 'm list \<times> 'm list" where
  "list_mq nothing [] xs ys = ([], xs, ys)"
| "list_mq nothing (PutIn m # ops) xs ys = list_mq nothing ops (xs @ [m]) ys"
| "list_mq nothing (PutOut m # ops) xs ys = list_mq nothing ops xs (ys @ [m])"
| "list_mq nothing (TakeIn # ops) xs ys =
     (case list_mq nothing ops (tl xs) ys of (ms, r) \<Rightarrow> ((case xs of [] \<Rightarrow> nothing | x # _ \<Rightarrow> x) # ms, r))"
| "list_mq nothing (TakeOut # ops) xs ys =
     (case list_mq nothing ops xs (tl ys) of (ms, r) \<Rightarrow> ((case ys of [] \<Rightarrow> nothing | y # _ \<Rightarrow> y) # ms, r))"

lemma run_mq_lists:
  assumes "queues_invar env sw"
  shows "\<exists>ms sw'. run_mq env ops sw = Some (ms, sw') \<and> queues_invar env sw' \<and>
    list_mq NULL ops (inbound_messages (fst sw)) (outbound_messages (fst sw)) =
      (ms, inbound_messages (fst sw'), outbound_messages (fst sw'))"
  using assms
proof (induction ops arbitrary: sw)
  case Nil
  then show ?case by simp
next
  case (Cons a ops)
  show ?case
  proof (cases a)
    case (PutIn m)
    then show ?thesis using inq.enq_law [OF Cons.prems, of m] Cons.IH by fastforce
  next
    case (PutOut m)
    then show ?thesis using outq.enq_law [OF Cons.prems, of m] Cons.IH by fastforce
  next
    case TakeIn
    obtain sw1 where "connector_acquire_inbound_message sw =
        Some (case inbound_messages (fst sw) of [] \<Rightarrow> NULL | x # _ \<Rightarrow> x, sw1)" "queues_invar env sw1"
        "inbound_messages (fst sw1) = tl (inbound_messages (fst sw))"
        "outbound_messages (fst sw1) = outbound_messages (fst sw)"
      using inq.deq_total [OF Cons.prems] by auto
    with Cons.IH [of sw1] TakeIn show ?thesis by (auto split: prod.splits)
  next
    case TakeOut
    obtain sw1 where "connector_acquire_outbound_message sw =
        Some (case outbound_messages (fst sw) of [] \<Rightarrow> NULL | x # _ \<Rightarrow> x, sw1)" "queues_invar env sw1"
        "outbound_messages (fst sw1) = tl (outbound_messages (fst sw))"
        "inbound_messages (fst sw1) = inbound_messages (fst sw)"
      using outq.deq_total [OF Cons.prems] by auto
    with Cons.IH [of sw1] TakeOut show ?thesis by (auto split: prod.splits)
  qed
qed

section \<open>Life cycle\<close>

text \<open>A message that can be cleared and released: NULL, or an owned block whose text is owned or absent.\<close>

definition releasable :: "connector_message cptr \<Rightarrow> bool" where
  "releasable m \<longleftrightarrow> m = NULL \<or>
     (\<exists>x. m = OWNED x \<and> (msg_message x = NULL \<or> (\<exists>b. msg_message x = OWNED b)))"

lemma handle_message_releasable:
  assumes "h a = Some n" "releasable (node_contents n)"
  shows "handle_message a h = Some (h(a := None))"
  using assms by (auto simp: handle_message_def releasable_def connector_clear_message_def)

lemma handled_messages:
  assumes "distinct xs" "set xs \<subseteq> dom h" "list_all releasable (node_values h xs)"
  shows "handled handle_message xs h = Some (h |` (- set xs))"
  using assms
proof (induction xs arbitrary: h)
  case Nil
  then show ?case by simp
next
  case (Cons x xs)
  obtain n where n: "h x = Some n" using Cons.prems(2) by auto
  then have hm: "handle_message x h = Some (h(x := None))"
    using Cons.prems(3) by (intro handle_message_releasable) (auto simp: node_values_def)
  have "node_values (h(x := None)) xs = node_values h xs"
    using Cons.prems(1) by (intro node_values_frame) auto
  moreover have "list_all releasable (node_values h xs)"
    using Cons.prems(3) by (simp add: node_values_def)
  moreover have "set xs \<subseteq> dom (h(x := None))" using Cons.prems by auto
  ultimately have "handled handle_message xs (h(x := None)) = Some ((h(x := None)) |` (- set xs))"
    using Cons.prems(1) by (intro Cons.IH) (simp_all only: distinct.simps)
  moreover have "(h(x := None)) |` (- set xs) = h |` (- set (x # xs))" by (auto simp: restrict_map_def)
  ultimately show ?case using hm by simp
qed

lemma local_handle_message: "local_handler handle_message"
  by (auto simp: local_handler_def handle_message_def split: option_bind_splits)

lemma clear_messages:
  assumes "queue_nodes q h xs" "queue_handler q = handle_message" "list_all releasable (node_values h xs)"
  shows "connector_locked_queue_clear q h = Some (q\<lparr>queue_front := None\<rparr>, h |` (- set xs))"
proof (rule clear_walks [OF _ assms(1)])
  show "local_handler (queue_handler q)" using assms(2) local_handle_message by simp
  have "distinct xs" using assms(1) by (simp add: queue_nodes_def)
  then show "handled (queue_handler q) xs h = Some (h |` (- set xs))"
    unfolding assms(2) using queue_nodes_dom [OF assms(1)] assms(3) by (rule handled_messages)
qed

lemma shutdown_releases:
  assumes "wf_queues s" "message_queue_state s = MESSAGE_QUEUE_INITIALIZED"
    "list_all releasable (inbound_messages s)" "list_all releasable (outbound_messages s)"
  shows "\<exists>s'. connector_shutdown_message_queue_subsystem s = Some (SUBSTANCE_CONNECTOR_SUCCESS, s') \<and>
    mq_heap s' = Map.empty \<and> message_queue_state s' = MESSAGE_QUEUE_SHUTDOWN"
proof -
  note d = wf_queuesD [OF assms(1)]
  let ?h = "mq_heap s" and ?xs = "in_nodes s" and ?ys = "out_nodes s"
  let ?h1 = "?h |` (- set ?xs)"
  have in_clear: "connector_locked_queue_clear (inbound_queue s) ?h
      = Some ((inbound_queue s)\<lparr>queue_front := None\<rparr>, ?h1)"
    using d(1,8) assms(3) by (intro clear_messages) (simp_all add: inbound_messages_def)
  have same: "?h1 a = ?h a" if "a \<in> set ?ys" for a
    using that d(3) by (auto simp: restrict_map_def disjoint_iff)
  have "queue_nodes (outbound_queue s) ?h1 ?ys" by (rule queue_nodes_frame [OF d(2) same])
  moreover have "node_values ?h1 ?ys = node_values ?h ?ys" by (rule node_values_frame [OF same])
  ultimately have "connector_locked_queue_clear (outbound_queue s) ?h1 =
      Some ((outbound_queue s)\<lparr>queue_front := None\<rparr>, ?h1 |` (- set ?ys))"
    using d(9) assms(4) by (intro clear_messages) (simp_all add: outbound_messages_def)
  moreover have "?h1 |` (- set ?ys) = Map.empty"
    using d(5) by (auto simp: restrict_map_def fun_eq_iff dom_def)
  ultimately show ?thesis
    using in_clear assms(2)
    by (simp add: connector_shutdown_message_queue_subsystem_def)
qed

lemma init_wf:
  assumes "message_queue_state s = MESSAGE_QUEUE_SHUTDOWN" "mq_heap s = Map.empty"
  shows "\<exists>s'. connector_init_message_queue_subsystem s = (SUBSTANCE_CONNECTOR_SUCCESS, s') \<and> wf_queues s' \<and>
    inbound_messages s' = [] \<and> outbound_messages s' = [] \<and>
    message_queue_state s' = MESSAGE_QUEUE_INITIALIZED"
proof -
  let ?s = "snd (connector_init_message_queue_subsystem s)"
  have s: "connector_init_message_queue_subsystem s = (SUBSTANCE_CONNECTOR_SUCCESS, ?s)"
    "message_queue_state ?s = MESSAGE_QUEUE_INITIALIZED"
    "inbound_queue ?s = connector_locked_queue_init (Some handle_message)"
    "outbound_queue ?s = connector_locked_queue_init (Some handle_message)" "mq_heap ?s = Map.empty"
    using assms by (simp_all add: connector_init_message_queue_subsystem_def)
  have "wf_queues ?s \<and> in_nodes ?s = [] \<and> out_nodes ?s = []"
    using s by (intro wf_queuesI) (simp_all add: connector_locked_queue_init_def queue_nodes_def)
  with s show ?thesis by (auto simp: inbound_messages_def outbound_messages_def node_values_def)
qed

section \<open>Properties\<close>

definition no_queues :: message_queues where
  "no_queues = \<lparr>mq_heap = Map.empty, mq_fresh = 0, inbound_queue = connector_locked_queue_init None,
     outbound_queue = connector_locked_queue_init None, message_queue_state = MESSAGE_QUEUE_SHUTDOWN\<rparr>"

text \<open>
  C22: after initialisation the inbound and the outbound queue are two independent
  first-in first-out queues: any script of enqueues and acquires on both returns exactly
  what two plain lists return, NULL standing for an empty queue, and no step faults.
\<close>

theorem message_queues_are_fifo:
  assumes "allocator_succeeds env" and "message_queue_state s = MESSAGE_QUEUE_SHUTDOWN"
    and "mq_heap s = Map.empty"
  shows "\<exists>s0 ms s' w'. connector_init_message_queue_subsystem s = (SUBSTANCE_CONNECTOR_SUCCESS, s0) \<and>
    run_mq env ops (s0, w) = Some (ms, s', w') \<and>
    list_mq NULL ops [] [] = (ms, inbound_messages s', outbound_messages s')"
proof -
  obtain s0 where s0: "connector_init_message_queue_subsystem s = (SUBSTANCE_CONNECTOR_SUCCESS, s0)"
      "wf_queues s0" "inbound_messages s0 = []" "outbound_messages s0 = []"
    using init_wf [OF assms(2,3)] by blast
  then have "queues_invar env (s0, w)" using assms(1) by (simp add: queues_invar_def)
  from run_mq_lists [OF this, of ops] s0 show ?thesis by fastforce
qed

theorem message_queues_are_fifo_witness:
  "\<exists>s0 ms s' w'. connector_init_message_queue_subsystem no_queues = (SUBSTANCE_CONNECTOR_SUCCESS, s0) \<and>
    run_mq sample_os [TakeOut, PutIn DANGLING, PutIn NULL, TakeIn] (s0, []) = Some (ms, s', w') \<and>
    ms = [NULL, DANGLING] \<and> inbound_messages s' = [NULL]"
  using message_queues_are_fifo [of sample_os no_queues "[TakeOut, PutIn DANGLING, PutIn NULL, TakeIn]" "[]"]
  by (auto simp: no_queues_def)

text \<open>
  Shutdown gives everything back. On an initialised subsystem whose messages are
  intact it terminates, releases every node and every message of both queues without
  touching released memory, and the subsystem can be initialised again; a second
  initialisation or a shutdown in any other state is refused and changes nothing.
\<close>

theorem message_queue_life_cycle:
  assumes "wf_queues s" and "message_queue_state s = MESSAGE_QUEUE_INITIALIZED"
    and "list_all releasable (inbound_messages s)" and "list_all releasable (outbound_messages s)"
  shows "connector_init_message_queue_subsystem s = (SUBSTANCE_CONNECTOR_ERROR, s) \<and>
    (\<exists>s' s''. connector_shutdown_message_queue_subsystem s = Some (SUBSTANCE_CONNECTOR_SUCCESS, s') \<and>
      mq_heap s' = Map.empty \<and>
      connector_shutdown_message_queue_subsystem s' = Some (SUBSTANCE_CONNECTOR_ERROR, s') \<and>
      connector_init_message_queue_subsystem s' = (SUBSTANCE_CONNECTOR_SUCCESS, s'') \<and> wf_queues s'' \<and>
      inbound_messages s'' = [] \<and> outbound_messages s'' = [])"
proof -
  obtain s' where s': "connector_shutdown_message_queue_subsystem s = Some (SUBSTANCE_CONNECTOR_SUCCESS, s')"
      "mq_heap s' = Map.empty" "message_queue_state s' = MESSAGE_QUEUE_SHUTDOWN"
    using shutdown_releases [OF assms] by blast
  have r: "connector_init_message_queue_subsystem s = (SUBSTANCE_CONNECTOR_ERROR, s)"
    using assms(2) by (simp add: connector_init_message_queue_subsystem_def CONNECTOR_ATOMIC_COMPARE_EXCHANGE_def)
  have "connector_shutdown_message_queue_subsystem s' = Some (SUBSTANCE_CONNECTOR_ERROR, s')"
    using s'(3) by (simp add: connector_shutdown_message_queue_subsystem_def CONNECTOR_ATOMIC_COMPARE_EXCHANGE_def)
  with r s' init_wf [OF s'(3,2)] show ?thesis by blast
qed

theorem message_queue_life_cycle_witness:
  "\<exists>s s'. connector_init_message_queue_subsystem no_queues = (SUBSTANCE_CONNECTOR_SUCCESS, s) \<and>
     connector_shutdown_message_queue_subsystem s = Some (SUBSTANCE_CONNECTOR_SUCCESS, s') \<and>
     mq_heap s' = Map.empty"
proof -
  obtain s where s: "connector_init_message_queue_subsystem no_queues = (SUBSTANCE_CONNECTOR_SUCCESS, s)"
      "wf_queues s" "inbound_messages s = []" "outbound_messages s = []"
      "message_queue_state s = MESSAGE_QUEUE_INITIALIZED"
    using init_wf [of no_queues] by (auto simp: no_queues_def)
  with message_queue_life_cycle [of s] show ?thesis by auto
qed

end
