(* ===== verification/Configuration.thy ===== *)
theory Configuration
  imports String_Utils
begin

text \<open>
  Process-wide settings: the installed memory callbacks (\<^verbatim>\<open>memory.c\<close>) and the application
  name with the configuration entry points (\<^verbatim>\<open>configuration.c\<close>).
\<close>

section \<open>Memory callbacks\<close>

text \<open>
  The two static function pointers. \<open>'f\<close> stands for the addresses of functions; \<open>malloc\<close> and
  \<open>free\<close> are the defaults.
\<close>

record 'f allocators =
  connector_memory_allocate :: 'f
  connector_memory_free :: 'f

definition connector_clear_allocators :: "'f \<Rightarrow> 'f \<Rightarrow> 'f allocators \<Rightarrow> substance_connector_error \<times> 'f allocators" where
  "connector_clear_allocators malloc free a =
     (SUBSTANCE_CONNECTOR_SUCCESS, a\<lparr>connector_memory_allocate := malloc, connector_memory_free := free\<rparr>)"

definition connector_set_allocator :: "'f \<Rightarrow> 'f allocators \<Rightarrow> 'f allocators" where
  "connector_set_allocator allocator a = a\<lparr>connector_memory_allocate := allocator\<rparr>"

definition connector_set_deallocator :: "'f \<Rightarrow> 'f allocators \<Rightarrow> 'f allocators" where
  "connector_set_deallocator deallocator a = a\<lparr>connector_memory_free := deallocator\<rparr>"

text \<open>\<^verbatim>\<open>connector_array_allocate\<close>: the product is computed at 64 bits.\<close>

definition connector_array_allocate :: "'w os \<Rightarrow> u64 \<Rightarrow> u64 \<Rightarrow> 'w \<Rightarrow> u8 list option \<times> 'w" where
  "connector_array_allocate env num sz w = connector_allocate env (num * sz) w"

section \<open>Configuration\<close>

definition connector_parse_configuration_buffer :: "u8 list cptr \<Rightarrow> substance_connector_error" where
  "connector_parse_configuration_buffer buffer =
     (if buffer \<noteq> NULL then SUBSTANCE_CONNECTOR_SUCCESS else SUBSTANCE_CONNECTOR_ERROR)"

text \<open>
  \<^verbatim>\<open>connector_parse_configuration_file\<close>: the whole file is read into a block one byte longer
  than the file, which the reader does not fill. The stream stays open.
\<close>

definition connector_parse_configuration_file ::
    "'w os \<Rightarrow> u8 list cptr \<Rightarrow> 'w \<Rightarrow> (substance_connector_error \<times> 'w) option" where
  "connector_parse_configuration_file env filepath w =
     (if filepath \<noteq> NULL then do {
        b \<leftarrow> deref filepath;
        _ \<leftarrow> strlen b;
        case os_read_file env (cstr b) w of
          (None, w1) \<Rightarrow> Some (SUBSTANCE_CONNECTOR_ERROR, w1)
        | (Some data, w1) \<Rightarrow>
            (case connector_allocate env (of_nat (length data) + 1) w1 of
               (None, w2) \<Rightarrow> None
             | (Some blk, w2) \<Rightarrow> do {
                 buffer \<leftarrow> memcpy blk data (length data);
                 let retcode = connector_parse_configuration_buffer (OWNED buffer);
                 _ \<leftarrow> connector_free (OWNED buffer);
                 Some (retcode, w2) }) }
      else Some (SUBSTANCE_CONNECTOR_ERROR, w))"

text \<open>The application name: the static pointer before and after each call.\<close>

definition connector_set_application_name ::
    "'w os \<Rightarrow> u8 list cptr \<Rightarrow> u8 list cptr \<Rightarrow> 'w \<Rightarrow>
      (substance_connector_error \<times> u8 list cptr \<times> 'w) option" where
  "connector_set_application_name env name application_name w = do {
     _ \<leftarrow> connector_free application_name;
     (copy, w1) \<leftarrow> connector_strdup env name w;
     Some (if copy \<noteq> NULL then SUBSTANCE_CONNECTOR_SUCCESS else SUBSTANCE_CONNECTOR_ERROR, copy, w1) }"

definition connector_get_application_name :: "u8 list cptr \<Rightarrow> u8 list cptr" where
  "connector_get_application_name application_name = application_name"

definition connector_clear_application_name :: "u8 list cptr \<Rightarrow> u8 list cptr option" where
  "connector_clear_application_name application_name = do {
     _ \<leftarrow> connector_free application_name;
     Some NULL }"

section \<open>The application name is always releasable\<close>

definition name_ok :: "u8 list cptr \<Rightarrow> bool" where
  "name_ok p \<longleftrightarrow> p = NULL \<or> (\<exists>s. p = OWNED (c_string s) \<and> 0 \<notin> set s)"

lemma name_ok_free: "name_ok p \<Longrightarrow> \<exists>q. connector_free p = Some q"
  by (auto simp: name_ok_def)

lemma set_application_name_result:
  assumes "allocator_succeeds env" "name_ok old" "deref p = Some b" "0 \<in> set b" "length b < 2 ^ 64"
  shows "\<exists>w'. connector_set_application_name env p old w =
    Some (SUBSTANCE_CONNECTOR_SUCCESS, OWNED (c_string (cstr b)), w')"
  using strdup_result [OF assms(1,3-5), of w] name_ok_free [OF assms(2)]
  by (auto simp: connector_set_application_name_def)

text \<open>
  The application name. From any state the calls can leave behind, setting a terminated
  name releases the old one, keeps a private copy and returns it on the next query, setting
  NULL clears the name with an error code, and clearing releases it; no sequence of these
  calls releases a block twice.
\<close>

theorem application_name_set_get_clear:
  assumes "allocator_succeeds env" and "name_ok old" and "deref p = Some b" and "0 \<in> set b"
    and "length b < 2 ^ 64"
  shows "\<exists>new w'. connector_set_application_name env p old w = Some (SUBSTANCE_CONNECTOR_SUCCESS, new, w') \<and>
    name_ok new \<and> (\<exists>c. deref (connector_get_application_name new) = Some c \<and> cstr c = cstr b) \<and>
    connector_clear_application_name new = Some NULL \<and>
    connector_set_application_name env NULL new w' = Some (SUBSTANCE_CONNECTOR_ERROR, NULL, w')"
  using set_application_name_result [OF assms, of w] cstr_no_zero [of b]
  by (auto simp: name_ok_def connector_get_application_name_def connector_clear_application_name_def
      connector_set_application_name_def connector_strdup_def)

theorem application_name_set_get_clear_witness:
  "\<exists>new w'. connector_set_application_name sample_os (BORROWED [65, 0]) (OWNED [66, 0]) [] =
     Some (SUBSTANCE_CONNECTOR_SUCCESS, new, w') \<and> connector_clear_application_name new = Some NULL"
proof -
  have "name_ok (OWNED [66, 0])" unfolding name_ok_def by (intro disjI2 exI [of _ "[66]"]) (simp add: c_string_def)
  then show ?thesis
    using application_name_set_get_clear [of sample_os "OWNED [66, 0]" "BORROWED [65, 0]" "[65, 0]" "[]"] by auto
qed

end
