(* ===== verification/Available_Queue.thy ===== *)
theory Available_Queue
  imports Uint_Queue
begin

text \<open>
  The queue of contexts that wait for a read thread (\<^verbatim>\<open>available_queue.c\<close>). Each operation
  works on the static queue pointer, which it returns updated.
\<close>

definition SUBSTANCE_CONNECTOR_CONTEXT_COUNT :: u32 where "SUBSTANCE_CONNECTOR_CONTEXT_COUNT = 32"
definition SUBSTANCE_CONNECTOR_AVAILABLE_RETRIES :: nat where "SUBSTANCE_CONNECTOR_AVAILABLE_RETRIES = 5"

definition connector_available_queue_init ::
    "'w os \<Rightarrow> uint_queue cptr \<Rightarrow> 'w \<Rightarrow> (substance_connector_error \<times> uint_queue cptr \<times> 'w) option" where
  "connector_available_queue_init env q w =
     (if q = NULL then do {
        (q', w') \<leftarrow> connector_uint_queue_create env SUBSTANCE_CONNECTOR_CONTEXT_COUNT w;
        Some (if q' = NULL then SUBSTANCE_CONNECTOR_ERROR else SUBSTANCE_CONNECTOR_SUCCESS, q', w') }
      else Some (SUBSTANCE_CONNECTOR_ERROR, q, w))"

definition connector_available_queue_shutdown ::
    "uint_queue cptr \<Rightarrow> (substance_connector_error \<times> uint_queue cptr) option" where
  "connector_available_queue_shutdown q = do {
     (r, q') \<leftarrow> connector_uint_queue_destroy q;
     Some (r, if r = SUBSTANCE_CONNECTOR_SUCCESS then NULL else q') }"

definition connector_available_queue_push ::
    "uint_queue cptr \<Rightarrow> u32 \<Rightarrow> (substance_connector_error \<times> uint_queue cptr) option" where
  "connector_available_queue_push q ctx =
     (if q \<noteq> NULL then connector_uint_queue_push q ctx else Some (SUBSTANCE_CONNECTOR_ERROR, q))"

fun available_retry :: "nat \<Rightarrow> uint_queue cptr \<Rightarrow> (substance_connector_error \<times> u32 option \<times> uint_queue cptr) option" where
  "available_retry 0 q = Some (SUBSTANCE_CONNECTOR_ERROR, None, q)"
| "available_retry (Suc n) q = do {
     (r, v, q') \<leftarrow> connector_uint_queue_pop q;
     if r = SUBSTANCE_CONNECTOR_SUCCESS then Some (r, v, q') else available_retry n q' }"

definition connector_available_queue_pop ::
    "uint_queue cptr \<Rightarrow> (substance_connector_error \<times> u32 option \<times> uint_queue cptr) option" where
  "connector_available_queue_pop q =
     (if q \<noteq> NULL then available_retry SUBSTANCE_CONNECTOR_AVAILABLE_RETRIES q
      else Some (SUBSTANCE_CONNECTOR_ERROR, None, q))"

section \<open>Behaviour on a well-formed queue\<close>

lemma fifo_invar_nonnull: "fifo_invar q \<Longrightarrow> q \<noteq> NULL"
  by (auto elim: fifo_invarE)

lemma available_retry_empty:
  "fifo_invar q \<Longrightarrow> fifo_contents q = [] \<Longrightarrow> available_retry n q = Some (SUBSTANCE_CONNECTOR_ERROR, None, q)"
  by (induction n) (simp_all add: uq.pop_empty)

text \<open>The retries do not change the contract: the available queue is a bounded queue too.\<close>

interpretation aq: bounded_fifo connector_available_queue_push connector_available_queue_pop
  fifo_contents fifo_capacity fifo_budget fifo_invar
proof unfold_locales
  fix q :: "uint_queue cptr" and x :: u32
  assume inv: "fifo_invar q"
  note nn = fifo_invar_nonnull [OF inv]
  show "length (fifo_contents q) \<le> fifo_capacity q" by (rule uq.bounded [OF inv])
  show "connector_available_queue_push q x = Some (SUBSTANCE_CONNECTOR_ERROR, q)"
    if "length (fifo_contents q) = fifo_capacity q" "0 < fifo_budget q"
    using uq.push_full [OF inv that] nn by (simp add: connector_available_queue_push_def)
  show "\<exists>q'. connector_available_queue_push q x = Some (SUBSTANCE_CONNECTOR_SUCCESS, q') \<and> fifo_invar q' \<and>
      fifo_contents q' = fifo_contents q @ [x] \<and> fifo_capacity q' = fifo_capacity q \<and>
      fifo_budget q' = fifo_budget q - 1"
    if "length (fifo_contents q) < fifo_capacity q" "0 < fifo_budget q"
    using uq.push_room [OF inv that, of x] nn by (simp add: connector_available_queue_push_def)
  show "connector_available_queue_pop q = Some (SUBSTANCE_CONNECTOR_ERROR, None, q)" if "fifo_contents q = []"
    using available_retry_empty [OF inv that] nn by (simp add: connector_available_queue_pop_def)
  show "\<exists>q'. connector_available_queue_pop q = Some (SUBSTANCE_CONNECTOR_SUCCESS, Some y, q') \<and> fifo_invar q' \<and>
      fifo_contents q' = ys \<and> fifo_capacity q' = fifo_capacity q \<and> fifo_budget q' = fifo_budget q"
    if "fifo_contents q = y # ys" for y ys
    using uq.pop_cons [OF inv that] nn
    by (auto simp: connector_available_queue_pop_def SUBSTANCE_CONNECTOR_AVAILABLE_RETRIES_def numeral_eq_Suc)
qed

text \<open>The two pools of the library are created with room for every context.\<close>

lemma create_context_pool:
  assumes "allocator_succeeds env"
  shows "\<exists>q w'. connector_uint_queue_create env SUBSTANCE_CONNECTOR_CONTEXT_COUNT w = Some (q, w') \<and>
    fifo_invar q \<and> fifo_contents q = [] \<and> fifo_capacity q = 33 \<and> fifo_budget q = 2 ^ 32 - 1"
proof -
  obtain q w' where c: "connector_uint_queue_create env 32 w = Some (OWNED q, w')"
    using create_success [of 32 env w] assms by auto
  note r = create_context_queue [OF c]
  then have "fifo_invar (OWNED q)" "fifo_contents (OWNED q) = []" "fifo_capacity (OWNED q) = 33"
      "fifo_budget (OWNED q) = 2 ^ 32 - 1"
    by (simp_all add: fifo_contents_def fifo_capacity_def fifo_budget_def)
  with c show ?thesis unfolding SUBSTANCE_CONNECTOR_CONTEXT_COUNT_def by blast
qed

end
