(* ===== verification/System_State.thy ===== *)
theory System_State
  imports Connection Callbacks Message_Queue Configuration Available_Queue
begin

text \<open>
  The state of the whole library: the static variables of its modules, the history of the
  condition signals and of the callback calls, and the outside world. The module functions
  of the theories that follow act on it.
\<close>

text \<open>The condition variables that wake the threads.\<close>

datatype wakeup = WakeRead | WakeWrite | WakeDispatch

record 'w sys =
  context_list :: "connector_context list"
  free_contexts :: "uint_queue cptr"
  connection_queue :: "uint_queue cptr"
  trampolines :: trampoline_list
  queues :: message_queues
  application_name :: "u8 list cptr"
  signals :: "wakeup list"
  calls :: "trampoline_call list"
  world :: 'w

text \<open>
  \<^verbatim>\<open>connector_flag_read\<close>, \<^verbatim>\<open>connector_flag_write\<close> and \<^verbatim>\<open>connector_flag_dispatch\<close>: lock, signal,
  unlock.
\<close>

definition signal :: "wakeup \<Rightarrow> 'w sys \<Rightarrow> 'w sys" where
  "signal k s = s\<lparr>signals := signals s @ [k]\<rparr>"

definition connector_flag_read_impl :: "'w sys \<Rightarrow> substance_connector_error \<times> 'w sys" where
  "connector_flag_read_impl s = (SUBSTANCE_CONNECTOR_SUCCESS, signal WakeRead s)"

definition connector_flag_write_impl :: "'w sys \<Rightarrow> substance_connector_error \<times> 'w sys" where
  "connector_flag_write_impl s = (SUBSTANCE_CONNECTOR_SUCCESS, signal WakeWrite s)"

definition connector_flag_dispatch :: "'w sys \<Rightarrow> substance_connector_error \<times> 'w sys" where
  "connector_flag_dispatch s = (SUBSTANCE_CONNECTOR_SUCCESS, signal WakeDispatch s)"

definition connector_flag_read :: "'w sys \<Rightarrow> substance_connector_error \<times> 'w sys" where
  "connector_flag_read s = connector_flag_read_impl s"

definition connector_flag_write :: "'w sys \<Rightarrow> substance_connector_error \<times> 'w sys" where
  "connector_flag_write s = connector_flag_write_impl s"

text \<open>Access to an element of the context array, undefined outside it.\<close>

definition get_context :: "'w sys \<Rightarrow> u32 \<Rightarrow> connector_context option" where
  "get_context s i = (if unat i < length (context_list s) then Some (context_list s ! unat i) else None)"

definition set_context :: "u32 \<Rightarrow> connector_context \<Rightarrow> 'w sys \<Rightarrow> 'w sys" where
  "set_context i c s = s\<lparr>context_list := (context_list s)[unat i := c]\<rparr>"

definition zero_context :: connector_context where
  "zero_context = \<lparr>ctx_configuration = 0, ctx_fd = 0, ctx_port = 0, ctx_connection_data = NULL,
     ctx_application_name = NULL, ctx_identifier = 0\<rparr>"

text \<open>The zero-initialised static variables of a process that has not called the library yet.\<close>

definition initial_sys :: "'w \<Rightarrow> 'w sys" where
  "initial_sys w = \<lparr>context_list = replicate 32 zero_context, free_contexts = NULL, connection_queue = NULL,
     trampolines = \<lparr>tr_heap = Map.empty, tr_fresh = 0, tr_front = None\<rparr>,
     queues = \<lparr>mq_heap = Map.empty, mq_fresh = 0, inbound_queue = connector_locked_queue_init None,
       outbound_queue = connector_locked_queue_init None, message_queue_state = MESSAGE_QUEUE_SHUTDOWN\<rparr>,
     application_name = NULL, signals = [], calls = [], world = w\<rparr>"

lemma get_set_context:
  "unat i < length (context_list s) \<Longrightarrow> get_context (set_context i c s) j = (if i = j then Some c else get_context s j)"
  by (auto simp: get_context_def set_context_def unat_inject)

lemma signal_simps [simp]:
  "context_list (signal k s) = context_list s" "free_contexts (signal k s) = free_contexts s"
  "connection_queue (signal k s) = connection_queue s" "trampolines (signal k s) = trampolines s"
  "queues (signal k s) = queues s" "application_name (signal k s) = application_name s"
  "calls (signal k s) = calls s" "world (signal k s) = world s" "signals (signal k s) = signals s @ [k]"
  by (simp_all add: signal_def)

lemma set_context_simps [simp]:
  "free_contexts (set_context i c s) = free_contexts s" "connection_queue (set_context i c s) = connection_queue s"
  "trampolines (set_context i c s) = trampolines s" "queues (set_context i c s) = queues s"
  "application_name (set_context i c s) = application_name s" "calls (set_context i c s) = calls s"
  "world (set_context i c s) = world s" "signals (set_context i c s) = signals s"
  "context_list (set_context i c s) = (context_list s)[unat i := c]"
  by (simp_all add: set_context_def)

end
