(* ===== verification/Context_Queue.thy ===== *)
theory Context_Queue
  imports System_State
begin

text \<open>
  The table of contexts (\<^verbatim>\<open>context_queue.c\<close>): a fixed array of context structures, the pool of
  free indices, and the operations that open, connect, accept, close, read and write
  contexts. An output parameter \<open>unsigned int *identifier\<close> is modelled by the flag that tells
  whether the pointer is there and the value stored through it.
\<close>

section \<open>Helpers\<close>

record connector_context_desc =
  desc_configuration :: u64
  desc_connection_data :: "u8 list cptr"
  desc_port :: u32

definition clear_context_struct :: "connector_context \<Rightarrow> connector_context option" where
  "clear_context_struct c = do {
     _ \<leftarrow> connector_free (ctx_application_name c);
     _ \<leftarrow> connector_free (ctx_connection_data c);
     Some zero_context }"

definition append_available :: "u32 \<Rightarrow> 'w sys \<Rightarrow> (substance_connector_error \<times> 'w sys) option" where
  "append_available ctx s = do {
     (r, q) \<leftarrow> connector_available_queue_push (connection_queue s) ctx;
     let s1 = s\<lparr>connection_queue := q\<rparr>;
     Some (if r = SUBSTANCE_CONNECTOR_SUCCESS then connector_flag_read s1 else (r, s1)) }"

text \<open>An operation on the array element, its result written back.\<close>

definition context_op_generic ::
    "u32 \<Rightarrow> (connector_context option \<Rightarrow> 'w \<Rightarrow> (substance_connector_error \<times> connector_context option \<times> 'w) option) \<Rightarrow>
      'w sys \<Rightarrow> (substance_connector_error \<times> 'w sys) option" where
  "context_op_generic ctx op s =
     (if ctx < SUBSTANCE_CONNECTOR_CONTEXT_COUNT then do {
        c \<leftarrow> get_context s ctx;
        (r, c', w') \<leftarrow> op (Some c) (world s);
        Some (r, (case c' of None \<Rightarrow> s | Some d \<Rightarrow> set_context ctx d s)\<lparr>world := w'\<rparr>) }
      else Some (SUBSTANCE_CONNECTOR_ERROR, s))"

definition context_message_op_generic ::
    "u32 \<Rightarrow> connector_message cptr \<Rightarrow>
      (connector_context option \<Rightarrow> connector_message cptr \<Rightarrow> 'w \<Rightarrow>
        (substance_connector_error \<times> connector_message cptr \<times> 'w) option) \<Rightarrow>
      'w sys \<Rightarrow> (substance_connector_error \<times> connector_message cptr \<times> 'w sys) option" where
  "context_message_op_generic ctx message op s =
     (if ctx < SUBSTANCE_CONNECTOR_CONTEXT_COUNT \<and> message \<noteq> NULL then do {
        c \<leftarrow> get_context s ctx;
        if ctx_configuration c AND SUBSTANCE_CONNECTOR_CONN_MASK = SUBSTANCE_CONNECTOR_CONN_CONNECTED then do {
          (r, m', w') \<leftarrow> op (Some c) message (world s);
          Some (r, m', s\<lparr>world := w'\<rparr>) }
        else Some (SUBSTANCE_CONNECTOR_INVALID, message, s) }
      else Some (SUBSTANCE_CONNECTOR_ERROR, message, s))"

text \<open>The masked configuration at 32 bits; \<open>- 1\<close> is \<open>UINT_MAX\<close>.\<close>

definition context_configuration :: "u32 \<Rightarrow> u64 \<Rightarrow> 'w sys \<Rightarrow> u32 option" where
  "context_configuration ctx comm_mask s =
     (if ctx < SUBSTANCE_CONNECTOR_CONTEXT_COUNT then do {
        c \<leftarrow> get_context s ctx;
        Some (ucast (ctx_configuration c AND comm_mask)) }
      else Some (- 1))"

definition connector_context_state :: "u32 \<Rightarrow> 'w sys \<Rightarrow> u32 option" where
  "connector_context_state ctx s = context_configuration ctx SUBSTANCE_CONNECTOR_CONN_MASK s"

definition connector_context_type :: "u32 \<Rightarrow> 'w sys \<Rightarrow> u32 option" where
  "connector_context_type ctx s = context_configuration ctx SUBSTANCE_CONNECTOR_COMM_MASK s"

text \<open>The port is read without a bounds check.\<close>

definition connector_context_port :: "u32 \<Rightarrow> 'w sys \<Rightarrow> u32 option" where
  "connector_context_port ctx s = do { c \<leftarrow> get_context s ctx; Some (ucast (ctx_port c)) }"

definition connector_context_get_fd :: "u32 \<Rightarrow> 'w sys \<Rightarrow> c_int option" where
  "connector_context_get_fd ctx s =
     (if ctx < SUBSTANCE_CONNECTOR_CONTEXT_COUNT then do { c \<leftarrow> get_context s ctx; Some (context_socket c) }
      else Some (- 1))"

section \<open>Opening and connecting\<close>

text \<open>A pop of the free pool and a push back into it.\<close>

definition pop_free :: "'w sys \<Rightarrow> (substance_connector_error \<times> u32 option \<times> 'w sys) option" where
  "pop_free s = do {
     (r, v, q) \<leftarrow> connector_uint_queue_pop (free_contexts s);
     Some (r, v, s\<lparr>free_contexts := q\<rparr>) }"

definition connector_return_context :: "u32 \<Rightarrow> 'w sys \<Rightarrow> (substance_connector_error \<times> 'w sys) option" where
  "connector_return_context ctx s = do {
     (r, q) \<leftarrow> connector_uint_queue_push (free_contexts s) ctx;
     Some (r, s\<lparr>free_contexts := q\<rparr>) }"

definition connector_context_open ::
    "'w os \<Rightarrow> connector_context_desc option \<Rightarrow> bool \<Rightarrow> 'w sys \<Rightarrow>
      (substance_connector_error \<times> u32 option \<times> 'w sys) option" where
  "connector_context_open env desc want s =
     (case desc of
        None \<Rightarrow> Some (SUBSTANCE_CONNECTOR_ERROR, None, s)
      | Some d \<Rightarrow>
          if \<not> want then Some (SUBSTANCE_CONNECTOR_ERROR, None, s)
          else do {
            let comm_type = desc_configuration d AND SUBSTANCE_CONNECTOR_COMM_MASK;
            (r0, v, s1) \<leftarrow> pop_free s;
            let ctx = (case v of None \<Rightarrow> 0 | Some i \<Rightarrow> i);
            if r0 = SUBSTANCE_CONNECTOR_SUCCESS then do {
              _ \<leftarrow> get_context s1 ctx;
              (copy, w1) \<leftarrow> connector_strdup env (desc_connection_data d) (world s1);
              let c = zero_context\<lparr>ctx_configuration := comm_type OR SUBSTANCE_CONNECTOR_CONN_OPEN,
                ctx_connection_data := copy, ctx_port := ucast (desc_port d)\<rparr>;
              (r, s2) \<leftarrow> context_op_generic ctx (connector_open_connection env)
                (set_context ctx c s1\<lparr>world := w1\<rparr>);
              if r \<noteq> SUBSTANCE_CONNECTOR_SUCCESS then do {
                (_, s3) \<leftarrow> connector_return_context ctx (set_context ctx zero_context s2);
                Some (r, None, s3) }
              else do {
                (_, s3) \<leftarrow> append_available ctx s2;
                Some (r, Some ctx, s3) } }
            else Some (r0, None, s1) })"

text \<open>\<^verbatim>\<open>connector_context_connect\<close> ignores whether the pool had a context and keeps index 0 if not.\<close>

definition connector_context_connect ::
    "'w os \<Rightarrow> connector_context_desc option \<Rightarrow> bool \<Rightarrow> 'w sys \<Rightarrow>
      (substance_connector_error \<times> u32 option \<times> 'w sys) option" where
  "connector_context_connect env desc want s =
     (case desc of
        None \<Rightarrow> Some (SUBSTANCE_CONNECTOR_ERROR, None, s)
      | Some d \<Rightarrow>
          if \<not> want then Some (SUBSTANCE_CONNECTOR_ERROR, None, s)
          else do {
            let comm_type = desc_configuration d AND SUBSTANCE_CONNECTOR_COMM_MASK;
            (_, v, s1) \<leftarrow> pop_free s;
            let ctx = (case v of None \<Rightarrow> 0 | Some i \<Rightarrow> i);
            _ \<leftarrow> get_context s1 ctx;
            let c = zero_context\<lparr>ctx_configuration := comm_type OR SUBSTANCE_CONNECTOR_CONN_OPEN,
              ctx_connection_data := desc_connection_data d, ctx_port := ucast (desc_port d)\<rparr>;
            (r, s2) \<leftarrow> context_op_generic ctx (connector_bridge_connection env) (set_context ctx c s1);
            if r \<noteq> SUBSTANCE_CONNECTOR_SUCCESS then do {
              (_, s3) \<leftarrow> connector_return_context ctx s2;
              Some (r, None, s3) }
            else do {
              c2 \<leftarrow> get_context s2 ctx;
              let c3 = c2\<lparr>ctx_configuration := (ctx_configuration c2 AND NOT SUBSTANCE_CONNECTOR_CONN_MASK)
                OR SUBSTANCE_CONNECTOR_CONN_CONNECTED, ctx_connection_data := NULL\<rparr>;
              (_, s3) \<leftarrow> append_available ctx (set_context ctx c3 s2);
              Some (r, Some ctx, s3) } })"

definition connector_context_open_tcp where
  "connector_context_open_tcp env port want s = connector_context_open env
     (Some \<lparr>desc_configuration = SUBSTANCE_CONNECTOR_COMM_TCP, desc_connection_data = NULL, desc_port = port\<rparr>) want s"

definition connector_context_open_unix where
  "connector_context_open_unix env filepath want s = connector_context_open env
     (Some \<lparr>desc_configuration = SUBSTANCE_CONNECTOR_COMM_UNIX, desc_connection_data = filepath, desc_port = 0\<rparr>) want s"

definition connector_context_connect_tcp where
  "connector_context_connect_tcp env port want s = connector_context_connect env
     (Some \<lparr>desc_configuration = SUBSTANCE_CONNECTOR_COMM_TCP, desc_connection_data = NULL, desc_port = port\<rparr>) want s"

definition connector_context_connect_unix where
  "connector_context_connect_unix env filepath want s = connector_context_connect env
     (Some \<lparr>desc_configuration = SUBSTANCE_CONNECTOR_COMM_UNIX, desc_connection_data = filepath, desc_port = 0\<rparr>) want s"

section \<open>Life of a context\<close>

definition connector_context_close :: "u32 \<Rightarrow> 'w sys \<Rightarrow> (substance_connector_error \<times> 'w sys) option" where
  "connector_context_close ctx s =
     (if ctx < SUBSTANCE_CONNECTOR_CONTEXT_COUNT then do {
        c \<leftarrow> get_context s ctx;
        let connection_state = ctx_configuration c AND SUBSTANCE_CONNECTOR_CONN_MASK;
        if connection_state AND SUBSTANCE_CONNECTOR_CONN_OPEN \<noteq> 0 \<or>
           connection_state AND SUBSTANCE_CONNECTOR_CONN_CONNECTED \<noteq> 0
        then Some (SUBSTANCE_CONNECTOR_SUCCESS,
          set_context ctx (c\<lparr>ctx_configuration := ctx_configuration c OR SUBSTANCE_CONNECTOR_CONN_SHUTDOWN\<rparr>) s)
        else Some (SUBSTANCE_CONNECTOR_ERROR, s) }
      else Some (SUBSTANCE_CONNECTOR_ERROR, s))"

text \<open>
  \<^verbatim>\<open>connector_context_accept\<close>: the pool's answer is ignored here too, and the structure of the
  new context is not zeroed before its configuration and descriptor are filled in.
\<close>

definition connector_context_accept ::
    "'w os \<Rightarrow> u32 \<Rightarrow> bool \<Rightarrow> 'w sys \<Rightarrow> (substance_connector_error \<times> u32 option \<times> 'w sys) option" where
  "connector_context_accept env ctx want s = do {
     state \<leftarrow> connector_context_state ctx s;
     if ctx < SUBSTANCE_CONNECTOR_CONTEXT_COUNT \<and> want \<and> state = ucast SUBSTANCE_CONNECTOR_CONN_OPEN then do {
       c \<leftarrow> get_context s ctx;
       case connector_accept_connection env (Some c) (world s) of (fd, w1) \<Rightarrow>
         if \<not> c_negative fd then do {
           (_, v, s1) \<leftarrow> pop_free (s\<lparr>world := w1\<rparr>);
           let new = (case v of None \<Rightarrow> 0 | Some i \<Rightarrow> i);
           n \<leftarrow> get_context s1 new;
           type \<leftarrow> connector_context_type ctx s1;
           (_, s2) \<leftarrow> append_available new (set_context new
             (n\<lparr>ctx_configuration := ucast type OR SUBSTANCE_CONNECTOR_CONN_CONNECTED, ctx_fd := scast fd\<rparr>) s1);
           Some (SUBSTANCE_CONNECTOR_SUCCESS, Some new, s2) }
         else Some (SUBSTANCE_CONNECTOR_OPEN_FAIL, None, s\<lparr>world := w1\<rparr>) }
     else Some (SUBSTANCE_CONNECTOR_INVALID, None, s) }"

definition connector_context_write where
  "connector_context_write env ctx message s =
     context_message_op_generic ctx message (connector_write_connection env) s"

definition connector_context_read where
  "connector_context_read env ctx message s =
     context_message_op_generic ctx message (connector_read_connection env) s"

text \<open>The header of a message with further description bits set.\<close>

definition flag_description :: "u16 \<Rightarrow> connector_message cptr \<Rightarrow> connector_message cptr option" where
  "flag_description bits message = do {
     m \<leftarrow> deref message;
     h \<leftarrow> deref (msg_header m);
     Some (repoint message (m\<lparr>msg_header := repoint (msg_header m)
       (h\<lparr>description := description h OR bits\<rparr>)\<rparr>)) }"

definition release_message :: "connector_message cptr \<Rightarrow> unit option" where
  "release_message message = do {
     m \<leftarrow> connector_clear_message message;
     _ \<leftarrow> connector_free m;
     Some () }"

definition connector_context_write_handshake ::
    "'w os \<Rightarrow> u32 \<Rightarrow> 'w sys \<Rightarrow> (substance_connector_error \<times> 'w sys) option" where
  "connector_context_write_handshake env ctx s =
     (if ctx < SUBSTANCE_CONNECTOR_CONTEXT_COUNT then do {
        c \<leftarrow> get_context s ctx;
        if ctx_configuration c AND SUBSTANCE_CONNECTOR_HANDSHAKE_MASK = SUBSTANCE_CONNECTOR_HANDSHAKE_SENT
        then Some (SUBSTANCE_CONNECTOR_SUCCESS, s)
        else if ctx_configuration c AND SUBSTANCE_CONNECTOR_CONN_MASK = SUBSTANCE_CONNECTOR_CONN_CONNECTED then do {
          (message, w1) \<leftarrow> connector_build_message env ctx (BORROWED connector_internal_handshake_uuid)
            (connector_get_application_name (application_name s)) (world s);
          let s1 = s\<lparr>world := w1\<rparr>;
          if message \<noteq> NULL then do {
            m1 \<leftarrow> flag_description CONNECTOR_INTERNAL_IDENTIFIER message;
            (r, m2, s2) \<leftarrow> context_message_op_generic ctx m1 (connector_write_connection env) s1;
            c2 \<leftarrow> get_context s2 ctx;
            let s3 = (if r = SUBSTANCE_CONNECTOR_SUCCESS
              then set_context ctx (c2\<lparr>ctx_configuration := ctx_configuration c2 OR SUBSTANCE_CONNECTOR_HANDSHAKE_SENT\<rparr>) s2
              else s2);
            _ \<leftarrow> release_message m2;
            Some (r, s3) }
          else Some (SUBSTANCE_CONNECTOR_ERROR, s1) }
        else Some (SUBSTANCE_CONNECTOR_SUCCESS, s) }
      else Some (SUBSTANCE_CONNECTOR_ERROR, s))"

definition connector_context_shutdown_from_read_thread ::
    "'w os \<Rightarrow> u32 \<Rightarrow> 'w sys \<Rightarrow> (substance_connector_error \<times> 'w sys) option" where
  "connector_context_shutdown_from_read_thread env ctx s =
     (if ctx < SUBSTANCE_CONNECTOR_CONTEXT_COUNT then do {
        (r, s1) \<leftarrow> context_op_generic ctx (connector_close_connection env) s;
        c \<leftarrow> get_context s1 ctx;
        s2 \<leftarrow> (if ctx_application_name c \<noteq> NULL then do {
                 (_, cs) \<leftarrow> connector_notify_trampolines (trampolines s1) ctx
                   connector_internal_connection_closed_uuid (ctx_application_name c);
                 Some (s1\<lparr>calls := calls s1 @ cs\<rparr>) }
               else Some s1);
        z \<leftarrow> clear_context_struct c;
        (_, s3) \<leftarrow> connector_return_context ctx (set_context ctx z s2);
        Some (r, s3) }
      else Some (SUBSTANCE_CONNECTOR_ERROR, s))"

definition connector_context_set_application_name ::
    "'w os \<Rightarrow> u32 \<Rightarrow> u8 list cptr \<Rightarrow> 'w sys \<Rightarrow> (substance_connector_error \<times> 'w sys) option" where
  "connector_context_set_application_name env ctx name s =
     (if ctx < SUBSTANCE_CONNECTOR_CONTEXT_COUNT \<and> name \<noteq> NULL then do {
        c \<leftarrow> get_context s ctx;
        _ \<leftarrow> connector_free (ctx_application_name c);
        (copy, w1) \<leftarrow> connector_strdup env name (world s);
        Some (SUBSTANCE_CONNECTOR_SUCCESS, set_context ctx (c\<lparr>ctx_application_name := copy\<rparr>) s\<lparr>world := w1\<rparr>) }
      else Some (SUBSTANCE_CONNECTOR_ERROR, s))"

definition connector_context_get_application_name :: "u32 \<Rightarrow> 'w sys \<Rightarrow> u8 list cptr option" where
  "connector_context_get_application_name ctx s =
     (if ctx < SUBSTANCE_CONNECTOR_CONTEXT_COUNT then do { c \<leftarrow> get_context s ctx; Some (ctx_application_name c) }
      else Some NULL)"

section \<open>The subsystem\<close>

definition connector_init_context_subsystem ::
    "'w os \<Rightarrow> 'w sys \<Rightarrow> (substance_connector_error \<times> 'w sys) option" where
  "connector_init_context_subsystem env s = do {
     let s1 = s\<lparr>context_list := replicate 32 zero_context\<rparr>;
     (q, w1) \<leftarrow> connector_uint_queue_create env SUBSTANCE_CONNECTOR_CONTEXT_COUNT (world s1);
     if q \<noteq> NULL then do {
       q' \<leftarrow> push_all connector_uint_queue_push q (map of_nat [0..<32]);
       Some (SUBSTANCE_CONNECTOR_SUCCESS, s1\<lparr>free_contexts := q', world := w1\<rparr>) }
     else Some (SUBSTANCE_CONNECTOR_ERROR, s1\<lparr>free_contexts := q, world := w1\<rparr>) }"

definition connector_shutdown_context_subsystem ::
    "'w sys \<Rightarrow> (substance_connector_error \<times> 'w sys) option" where
  "connector_shutdown_context_subsystem s = do {
     (r, q) \<leftarrow> connector_uint_queue_destroy (free_contexts s);
     Some (r, s\<lparr>free_contexts := if r = SUBSTANCE_CONNECTOR_SUCCESS then NULL else q\<rparr>) }"

end
