(* ===== verification/Context_Ownership.thy ===== *)
theory Context_Ownership
  imports Context_Queue "HOL-Library.Multiset"
begin

text \<open>
  Who owns a context. Every index of the context table is at any time in the pool of free
  contexts, in the queue of contexts that wait for a read thread, or held by a read thread.
  The operations of \<^verbatim>\<open>context_queue.c\<close> only move indices between the three places.
\<close>

section \<open>The three places\<close>

definition free_ids :: "'w sys \<Rightarrow> u32 list" where
  "free_ids s = fifo_contents (free_contexts s)"

definition waiting_ids :: "'w sys \<Rightarrow> u32 list" where
  "waiting_ids s = fifo_contents (connection_queue s)"

definition context_ids :: "u32 list" where
  "context_ids = map of_nat [0..<32]"

text \<open>A pool created for the contexts: well formed, with 33 places.\<close>

definition pool_ok :: "uint_queue cptr \<Rightarrow> bool" where
  "pool_ok q \<longleftrightarrow> fifo_invar q \<and> fifo_capacity q = 33"

definition owned :: "'w sys \<Rightarrow> u32 list \<Rightarrow> bool" where
  "owned s held \<longleftrightarrow> length (context_list s) = 32 \<and> pool_ok (free_contexts s) \<and> pool_ok (connection_queue s) \<and>
     mset (free_ids s @ waiting_ids s @ held) = mset context_ids"

text \<open>The number of pushes both queues still take before a 32-bit counter wraps.\<close>

definition pushes_left :: "'w sys \<Rightarrow> nat" where
  "pushes_left s = min (fifo_budget (free_contexts s)) (fifo_budget (connection_queue s))"

lemma context_ids_simps [simp]:
  "length context_ids = 32" "distinct context_ids" "context_ids \<noteq> []"
  by (simp_all add: context_ids_def upt_conv_Cons)

lemma set_context_ids: "i \<in> set context_ids \<longleftrightarrow> unat i < 32"
proof
  assume "unat i < 32"
  moreover have "i = of_nat (unat i)" by simp
  ultimately show "i \<in> set context_ids" unfolding context_ids_def by (metis atLeastLessThan_iff image_eqI le0 set_map set_upt)
qed (auto simp: context_ids_def unat_of_nat)

lemma ownedD:
  assumes "owned s held"
  shows "length (context_list s) = 32" "pool_ok (free_contexts s)" "pool_ok (connection_queue s)"
    "length (free_ids s) + length (waiting_ids s) + length held = 32"
    "distinct (free_ids s @ waiting_ids s @ held)"
    "set (free_ids s) \<union> set (waiting_ids s) \<union> set held = set context_ids"
proof -
  from assms have m: "mset (free_ids s @ waiting_ids s @ held) = mset context_ids"
    and o: "length (context_list s) = 32" "pool_ok (free_contexts s)" "pool_ok (connection_queue s)"
    by (auto simp: owned_def)
  show "length (free_ids s) + length (waiting_ids s) + length held = 32"
    using mset_eq_length [OF m] by simp
  show "distinct (free_ids s @ waiting_ids s @ held)"
    using mset_eq_imp_distinct_iff [OF m] by simp
  show "set (free_ids s) \<union> set (waiting_ids s) \<union> set held = set context_ids"
    using mset_eq_setD [OF m] by (simp add: Un_assoc)
qed (use assms in \<open>simp_all add: owned_def\<close>)

text \<open>Only the two queues and the size of the table matter for ownership.\<close>

lemma owned_cong:
  assumes "free_contexts s' = free_contexts s" "connection_queue s' = connection_queue s"
    "length (context_list s') = length (context_list s)"
  shows "owned s' held = owned s held" "pushes_left s' = pushes_left s"
    "free_ids s' = free_ids s" "waiting_ids s' = waiting_ids s"
  using assms by (simp_all add: owned_def free_ids_def waiting_ids_def pushes_left_def)

section \<open>Moves\<close>

lemma pop_free_empty:
  assumes "owned s held" "free_ids s = []"
  shows "pop_free s = Some (SUBSTANCE_CONNECTOR_ERROR, None, s)"
  using assms uq.pop_empty [of "free_contexts s"]
  by (simp add: pop_free_def owned_def pool_ok_def free_ids_def)

lemma pop_free_moves:
  assumes "owned s held" "free_ids s = i # rest"
  shows "\<exists>q. pop_free s = Some (SUBSTANCE_CONNECTOR_SUCCESS, Some i, s\<lparr>free_contexts := q\<rparr>) \<and>
    owned (s\<lparr>free_contexts := q\<rparr>) (i # held) \<and> free_ids (s\<lparr>free_contexts := q\<rparr>) = rest \<and>
    pushes_left (s\<lparr>free_contexts := q\<rparr>) = pushes_left s"
proof -
  have "fifo_invar (free_contexts s)" "fifo_contents (free_contexts s) = i # rest"
    using assms by (simp_all add: owned_def pool_ok_def free_ids_def)
  from uq.pop_cons [OF this] show ?thesis using assms
    by (auto simp: pop_free_def owned_def pool_ok_def free_ids_def waiting_ids_def pushes_left_def)
qed

lemma return_moves:
  assumes "owned s (i # held)" "0 < pushes_left s"
  shows "\<exists>q. connector_return_context i s = Some (SUBSTANCE_CONNECTOR_SUCCESS, s\<lparr>free_contexts := q\<rparr>) \<and>
    owned (s\<lparr>free_contexts := q\<rparr>) held \<and> free_ids (s\<lparr>free_contexts := q\<rparr>) = free_ids s @ [i] \<and>
    pushes_left s - 1 \<le> pushes_left (s\<lparr>free_contexts := q\<rparr>)"
proof -
  note o = ownedD [OF assms(1)]
  have "fifo_invar (free_contexts s)" "length (fifo_contents (free_contexts s)) < fifo_capacity (free_contexts s)"
    "0 < fifo_budget (free_contexts s)"
    using o(2,4) assms(2) by (auto simp: pool_ok_def free_ids_def pushes_left_def)
  from uq.push_room [OF this, of i] show ?thesis using assms
    by (auto simp: connector_return_context_def owned_def pool_ok_def free_ids_def waiting_ids_def pushes_left_def)
qed

lemma append_moves:
  assumes "owned s (i # held)" "0 < pushes_left s"
  shows "\<exists>s'. append_available i s = Some (SUBSTANCE_CONNECTOR_SUCCESS, s') \<and> owned s' held \<and>
    waiting_ids s' = waiting_ids s @ [i] \<and> free_contexts s' = free_contexts s \<and> context_list s' = context_list s \<and>
    signals s' = signals s @ [WakeRead] \<and> pushes_left s - 1 \<le> pushes_left s'"
proof -
  note o = ownedD [OF assms(1)]
  have "fifo_invar (connection_queue s)"
    "length (fifo_contents (connection_queue s)) < fifo_capacity (connection_queue s)"
    "0 < fifo_budget (connection_queue s)"
    using o(3,4) assms(2) by (auto simp: pool_ok_def waiting_ids_def pushes_left_def)
  from aq.push_room [OF this, of i] show ?thesis using assms
    by (auto simp: append_available_def connector_flag_read_def connector_flag_read_impl_def owned_def pool_ok_def
        free_ids_def waiting_ids_def pushes_left_def)
qed

lemma context_op_frame:
  assumes "context_op_generic i op s = Some (r, s')"
  shows "free_contexts s' = free_contexts s" "connection_queue s' = connection_queue s"
    "length (context_list s') = length (context_list s)"
    "j \<noteq> i \<Longrightarrow> get_context s' j = get_context s j"
  using assms
  by (auto simp: context_op_generic_def get_context_def unat_inject nth_list_update
      split: option_bind_splits if_splits option.splits)

text \<open>A held index is inside the table.\<close>

lemma held_in_table:
  assumes "owned s held" "i \<in> set held"
  shows "unat i < 32" "unat i < length (context_list s)"
  using ownedD(1,6) [OF assms(1)] assms(2) set_context_ids by auto

section \<open>What the operations do to the places\<close>

text \<open>
  The outcome of an operation that may hand out a context: on success the first free index
  now waits for a read thread, otherwise the pool has the same indices as before. No other
  element of the table changes.
\<close>

definition handed_out ::
    "'w sys \<Rightarrow> substance_connector_error \<Rightarrow> u32 option \<Rightarrow> 'w sys \<Rightarrow> bool" where
  "handed_out s r v s' \<longleftrightarrow> (case v of
       Some i \<Rightarrow> r = SUBSTANCE_CONNECTOR_SUCCESS \<and> free_ids s = i # free_ids s' \<and>
         waiting_ids s' = waiting_ids s @ [i] \<and> (\<forall>j. j \<noteq> i \<longrightarrow> get_context s' j = get_context s j)
     | None \<Rightarrow> r \<noteq> SUBSTANCE_CONNECTOR_SUCCESS \<and> mset (free_ids s') = mset (free_ids s) \<and>
         waiting_ids s' = waiting_ids s \<and> (\<forall>j. j \<notin> set (free_ids s) \<longrightarrow> get_context s' j = get_context s j))"

definition keeps :: "'w sys \<Rightarrow> 'w sys \<Rightarrow> bool" where
  "keeps s s' \<longleftrightarrow> free_contexts s' = free_contexts s \<and> connection_queue s' = connection_queue s \<and>
     length (context_list s') = length (context_list s)"

lemma keepsD:
  assumes "keeps s s'"
  shows "owned s' held = owned s held" "pushes_left s' = pushes_left s" "free_ids s' = free_ids s"
    "waiting_ids s' = waiting_ids s"
  using assms owned_cong unfolding keeps_def by blast+

lemma keeps_simps [simp]:
  "keeps s s" "keeps s (set_context i c s)" "keeps s (s\<lparr>world := w\<rparr>)" "keeps s (s\<lparr>calls := cs\<rparr>)"
  by (simp_all add: keeps_def)

lemma keeps_trans: "keeps s s' \<Longrightarrow> keeps s' s'' \<Longrightarrow> keeps s s''"
  by (simp add: keeps_def)

lemma context_op_keeps: "context_op_generic i op s = Some (r, s') \<Longrightarrow> keeps s s'"
  using context_op_frame unfolding keeps_def by blast

lemma get_context_simps [simp]:
  "get_context (s\<lparr>free_contexts := q\<rparr>) j = get_context s j"
  "get_context (s\<lparr>world := w\<rparr>) j = get_context s j"
  "j \<noteq> i \<Longrightarrow> get_context (set_context i c s) j = get_context s j"
  by (simp_all add: get_context_def unat_inject)

text \<open>The end of an open or a connect: the index goes back to the pool or to the waiting queue.\<close>

lemma give_back:
  assumes o: "owned s held" and free: "free_ids s = i # rest"
    and s1: "owned s1 (i # held)" "free_ids s1 = rest" "waiting_ids s1 = waiting_ids s" "pushes_left s1 = pushes_left s"
    and other: "\<And>j. j \<noteq> i \<Longrightarrow> get_context s1 j = get_context s j" and b: "0 < pushes_left s"
    and r: "r \<noteq> SUBSTANCE_CONNECTOR_SUCCESS" and ret: "connector_return_context i s1 = Some (x, s')"
  shows "owned s' held \<and> pushes_left s - 1 \<le> pushes_left s' \<and> handed_out s r None s'"
proof -
  obtain q where q: "connector_return_context i s1 = Some (SUBSTANCE_CONNECTOR_SUCCESS, s1\<lparr>free_contexts := q\<rparr>)"
    "owned (s1\<lparr>free_contexts := q\<rparr>) held" "free_ids (s1\<lparr>free_contexts := q\<rparr>) = rest @ [i]"
    "pushes_left s - 1 \<le> pushes_left (s1\<lparr>free_contexts := q\<rparr>)"
    using return_moves [OF s1(1)] s1(2,4) b by auto
  with ret have s': "s' = s1\<lparr>free_contexts := q\<rparr>" by simp
  have "waiting_ids s' = waiting_ids s" using s1(3) by (simp add: s' waiting_ids_def)
  then show ?thesis using q r free other by (auto simp: handed_out_def s')
qed

lemma hand_out:
  assumes free: "free_ids s = i # rest"
    and s1: "owned s1 (i # held)" "free_ids s1 = rest" "waiting_ids s1 = waiting_ids s" "pushes_left s1 = pushes_left s"
    and other: "\<And>j. j \<noteq> i \<Longrightarrow> get_context s1 j = get_context s j" and b: "0 < pushes_left s"
    and app: "append_available i s1 = Some (x, s')"
  shows "owned s' held \<and> pushes_left s - 1 \<le> pushes_left s' \<and> handed_out s SUBSTANCE_CONNECTOR_SUCCESS (Some i) s'"
proof -
  obtain s2 where s2: "append_available i s1 = Some (SUBSTANCE_CONNECTOR_SUCCESS, s2)" "owned s2 held"
    "waiting_ids s2 = waiting_ids s1 @ [i]" "free_contexts s2 = free_contexts s1" "context_list s2 = context_list s1"
    "pushes_left s1 - 1 \<le> pushes_left s2"
    using append_moves [OF s1(1)] s1(4) b by auto
  with app have s': "s' = s2" by simp
  have "get_context s' j = get_context s1 j" for j by (simp add: get_context_def s' s2(5))
  moreover have "free_ids s' = rest" using s1(2) s2(4) by (simp add: s' free_ids_def)
  ultimately show ?thesis using s2 s1 free other by (auto simp: handed_out_def s')
qed

text \<open>The course of an open and of a connect once an index was taken from the pool.\<close>

lemma open_course:
  assumes "pop_free s = Some (SUBSTANCE_CONNECTOR_SUCCESS, Some i, s1)"
    and "connector_context_open env (Some d) True s = Some (r, v, s')"
  shows "\<exists>c w1 s2. context_op_generic i (connector_open_connection env) (set_context i c s1\<lparr>world := w1\<rparr>) = Some (r, s2) \<and>
    (if r \<noteq> SUBSTANCE_CONNECTOR_SUCCESS
     then v = None \<and> (\<exists>x. connector_return_context i (set_context i zero_context s2) = Some (x, s'))
     else v = Some i \<and> (\<exists>x. append_available i s2 = Some (x, s')))"
  using assms
  by (auto simp: connector_context_open_def Let_def Option.bind_eq_Some_conv split: if_splits)

lemma connect_course:
  assumes "pop_free s = Some (SUBSTANCE_CONNECTOR_SUCCESS, Some i, s1)"
    and "connector_context_connect env (Some d) True s = Some (r, v, s')"
  shows "\<exists>c s2. context_op_generic i (connector_bridge_connection env) (set_context i c s1) = Some (r, s2) \<and>
    (if r \<noteq> SUBSTANCE_CONNECTOR_SUCCESS
     then v = None \<and> (\<exists>x. connector_return_context i s2 = Some (x, s'))
     else v = Some i \<and> (\<exists>c x. append_available i (set_context i c s2) = Some (x, s')))"
  using assms
  by (auto simp: connector_context_connect_def Let_def Option.bind_eq_Some_conv split: if_splits)

lemma open_owned:
  assumes o: "owned s held" and b: "0 < pushes_left s"
    and op: "connector_context_open env (Some d) True s = Some (r, v, s')"
  shows "owned s' held \<and> pushes_left s - 1 \<le> pushes_left s' \<and> handed_out s r v s'"
proof (cases "free_ids s")
  case Nil
  then have "r = SUBSTANCE_CONNECTOR_ERROR" "v = None" "s' = s"
    using op pop_free_empty [OF o Nil] by (auto simp: connector_context_open_def)
  with o show ?thesis by (simp add: handed_out_def)
next
  case (Cons i rest)
  from pop_free_moves [OF o Cons] obtain q where
    q: "pop_free s = Some (SUBSTANCE_CONNECTOR_SUCCESS, Some i, s\<lparr>free_contexts := q\<rparr>)"
    and h: "owned (s\<lparr>free_contexts := q\<rparr>) (i # held)" "free_ids (s\<lparr>free_contexts := q\<rparr>) = rest"
      "pushes_left (s\<lparr>free_contexts := q\<rparr>) = pushes_left s" by blast
  have w: "waiting_ids (s\<lparr>free_contexts := q\<rparr>) = waiting_ids s" by (simp add: waiting_ids_def)
  obtain c w1 s2 where
    op2: "context_op_generic i (connector_open_connection env)
       (set_context i c (s\<lparr>free_contexts := q\<rparr>)\<lparr>world := w1\<rparr>) = Some (r, s2)"
    and fin: "if r \<noteq> SUBSTANCE_CONNECTOR_SUCCESS
       then v = None \<and> (\<exists>x. connector_return_context i (set_context i zero_context s2) = Some (x, s'))
       else v = Some i \<and> (\<exists>x. append_available i s2 = Some (x, s'))"
    using open_course [OF q op] by blast
  have k: "keeps (s\<lparr>free_contexts := q\<rparr>) s2"
    using context_op_frame(1-3) [OF op2] by (simp add: keeps_def)
  have k2: "keeps (s\<lparr>free_contexts := q\<rparr>) (set_context i zero_context s2)"
    using k by (simp add: keeps_def)
  have other: "j \<noteq> i \<Longrightarrow> get_context s2 j = get_context s j" for j
    using context_op_frame(4) [OF op2, of j] by simp
  show ?thesis
  proof (cases "r = SUBSTANCE_CONNECTOR_SUCCESS")
    case True
    with fin obtain x where "v = Some i" "append_available i s2 = Some (x, s')" by auto
    with True hand_out [OF Cons _ _ _ _ other b this(2)] keepsD [OF k] h w show ?thesis by simp
  next
    case False
    with fin obtain x where "v = None" "connector_return_context i (set_context i zero_context s2) = Some (x, s')"
      by auto
    with give_back [OF o Cons _ _ _ _ _ b False this(2)] keepsD [OF k2] h w other show ?thesis by simp
  qed
qed

lemma connect_owned:
  assumes o: "owned s held" and b: "0 < pushes_left s" and ne: "free_ids s \<noteq> []"
    and op: "connector_context_connect env (Some d) True s = Some (r, v, s')"
  shows "owned s' held \<and> pushes_left s - 1 \<le> pushes_left s' \<and> handed_out s r v s'"
proof -
  from ne obtain i rest where Cons: "free_ids s = i # rest" by (cases "free_ids s") auto
  from pop_free_moves [OF o Cons] obtain q where
    q: "pop_free s = Some (SUBSTANCE_CONNECTOR_SUCCESS, Some i, s\<lparr>free_contexts := q\<rparr>)"
    and h: "owned (s\<lparr>free_contexts := q\<rparr>) (i # held)" "free_ids (s\<lparr>free_contexts := q\<rparr>) = rest"
      "pushes_left (s\<lparr>free_contexts := q\<rparr>) = pushes_left s" by blast
  have w: "waiting_ids (s\<lparr>free_contexts := q\<rparr>) = waiting_ids s" by (simp add: waiting_ids_def)
  obtain c s2 where
    op2: "context_op_generic i (connector_bridge_connection env)
       (set_context i c (s\<lparr>free_contexts := q\<rparr>)) = Some (r, s2)"
    and fin: "if r \<noteq> SUBSTANCE_CONNECTOR_SUCCESS
       then v = None \<and> (\<exists>x. connector_return_context i s2 = Some (x, s'))
       else v = Some i \<and> (\<exists>c x. append_available i (set_context i c s2) = Some (x, s'))"
    using connect_course [OF q op] by blast
  have k: "keeps (s\<lparr>free_contexts := q\<rparr>) s2"
    using context_op_frame(1-3) [OF op2] by (simp add: keeps_def)
  have k2: "keeps (s\<lparr>free_contexts := q\<rparr>) (set_context i c s2)" for c
    using k by (simp add: keeps_def)
  have other: "j \<noteq> i \<Longrightarrow> get_context s2 j = get_context s j" for j
    using context_op_frame(4) [OF op2, of j] by simp
  show ?thesis
  proof (cases "r = SUBSTANCE_CONNECTOR_SUCCESS")
    case True
    with fin obtain c x where "v = Some i" "append_available i (set_context i c s2) = Some (x, s')" by auto
    with True hand_out [OF Cons _ _ _ _ _ b this(2)] keepsD [OF k2] h w other show ?thesis by simp
  next
    case False
    with fin obtain x where "v = None" "connector_return_context i s2 = Some (x, s')" by auto
    with give_back [OF o Cons _ _ _ _ other b False this(2)] keepsD [OF k] h w show ?thesis by simp
  qed
qed

lemma pop_free_world:
  "pop_free s = Some (r, v, s\<lparr>free_contexts := q\<rparr>) \<Longrightarrow>
    pop_free (s\<lparr>world := w\<rparr>) = Some (r, v, s\<lparr>free_contexts := q, world := w\<rparr>)"
  by (auto simp: pop_free_def Option.bind_eq_Some_conv dest!: arg_cong [where f = free_contexts])

lemma accept_course:
  assumes pop: "pop_free s = Some (SUBSTANCE_CONNECTOR_SUCCESS, Some i, s\<lparr>free_contexts := q\<rparr>)"
    and op: "connector_context_accept env ctx want s = Some (r, v, s')"
  shows "v = None \<and> r \<noteq> SUBSTANCE_CONNECTOR_SUCCESS \<and> (\<exists>w. s' = s\<lparr>world := w\<rparr>) \<or>
    v = Some i \<and> r = SUBSTANCE_CONNECTOR_SUCCESS \<and>
    (\<exists>w c x. append_available i (set_context i c (s\<lparr>free_contexts := q, world := w\<rparr>)) = Some (x, s'))"
proof -
  have "s = s\<lparr>world := world s\<rparr>" by simp
  then have idle: "\<exists>w. s = s\<lparr>world := w\<rparr>" by blast
  obtain state where st: "connector_context_state ctx s = Some state"
    using op by (auto simp: connector_context_accept_def Option.bind_eq_Some_conv)
  show ?thesis
  proof (cases "ctx < SUBSTANCE_CONNECTOR_CONTEXT_COUNT \<and> want \<and> state = ucast SUBSTANCE_CONNECTOR_CONN_OPEN")
    case False
    then show ?thesis using op st idle by (auto simp: connector_context_accept_def)
  next
    case True
    then obtain c where "get_context s ctx = Some c"
      using op st by (cases "get_context s ctx") (auto simp: connector_context_accept_def)
    moreover obtain fd w where "connector_accept_connection env (Some c) (world s) = (fd, w)" by fastforce
    ultimately have c: "get_context s ctx = Some c" "connector_accept_connection env (Some c) (world s) = (fd, w)" .
    show ?thesis using op st True c pop_free_world [OF pop, of w]
      by (cases "c_negative fd") (auto simp: connector_context_accept_def Let_def Option.bind_eq_Some_conv)
  qed
qed

lemma accept_owned:
  assumes o: "owned s held" and b: "0 < pushes_left s" and ne: "free_ids s \<noteq> []"
    and op: "connector_context_accept env ctx want s = Some (r, v, s')"
  shows "owned s' held \<and> pushes_left s - 1 \<le> pushes_left s' \<and> handed_out s r v s'"
proof -
  from ne obtain i rest where Cons: "free_ids s = i # rest" by (cases "free_ids s") auto
  from pop_free_moves [OF o Cons] obtain q where
    q: "pop_free s = Some (SUBSTANCE_CONNECTOR_SUCCESS, Some i, s\<lparr>free_contexts := q\<rparr>)"
    and h: "owned (s\<lparr>free_contexts := q\<rparr>) (i # held)" "free_ids (s\<lparr>free_contexts := q\<rparr>) = rest"
      "pushes_left (s\<lparr>free_contexts := q\<rparr>) = pushes_left s" by blast
  have w: "waiting_ids (s\<lparr>free_contexts := q\<rparr>) = waiting_ids s" by (simp add: waiting_ids_def)
  from accept_course [OF q op] show ?thesis
  proof (elim disjE exE conjE)
    fix w1
    assume "v = None" "r \<noteq> SUBSTANCE_CONNECTOR_SUCCESS" "s' = s\<lparr>world := w1\<rparr>"
    then show ?thesis using o keepsD [OF keeps_simps(3) [of s w1]] by (simp add: handed_out_def)
  next
    fix w1 c x
    let ?t = "set_context i c (s\<lparr>free_contexts := q, world := w1\<rparr>)"
    assume a: "v = Some i" "r = SUBSTANCE_CONNECTOR_SUCCESS" "append_available i ?t = Some (x, s')"
    have k: "keeps (s\<lparr>free_contexts := q\<rparr>) ?t" by (simp add: keeps_def)
    show ?thesis using hand_out [OF Cons _ _ _ _ _ b a(3), of held] keepsD [OF k] a h w by simp
  qed
qed

lemma acquire_owned:
  assumes o: "owned s held"
    and op: "connector_available_queue_pop (connection_queue s) = Some (SUBSTANCE_CONNECTOR_SUCCESS, Some i, q)"
  shows "owned (s\<lparr>connection_queue := q\<rparr>) (i # held) \<and> pushes_left (s\<lparr>connection_queue := q\<rparr>) = pushes_left s \<and>
    waiting_ids s = i # waiting_ids (s\<lparr>connection_queue := q\<rparr>)"
proof -
  have inv: "fifo_invar (connection_queue s)" using o by (simp add: owned_def pool_ok_def)
  show ?thesis
  proof (cases "waiting_ids s")
    case Nil
    with op aq.pop_empty [OF inv] show ?thesis by (simp add: waiting_ids_def)
  next
    case (Cons x xs)
    with op aq.pop_cons [OF inv, of x xs] o show ?thesis
      by (auto simp: waiting_ids_def owned_def pool_ok_def free_ids_def pushes_left_def)
  qed
qed

lemma shutdown_course:
  assumes "i < SUBSTANCE_CONNECTOR_CONTEXT_COUNT" "connector_context_shutdown_from_read_thread env i s = Some (r, s')"
  shows "\<exists>s1 cs. context_op_generic i (connector_close_connection env) s = Some (r, s1) \<and>
    (\<exists>x. connector_return_context i (set_context i zero_context (s1\<lparr>calls := cs\<rparr>)) = Some (x, s'))"
proof -
  obtain s1 c where c: "context_op_generic i (connector_close_connection env) s = Some (r, s1)" "get_context s1 i = Some c"
    using assms by (auto simp: connector_context_shutdown_from_read_thread_def Option.bind_eq_Some_conv)
  have "\<exists>cs x. connector_return_context i (set_context i zero_context (s1\<lparr>calls := cs\<rparr>)) = Some (x, s')"
  proof (cases "ctx_application_name c = NULL")
    case True
    then have "\<exists>x. connector_return_context i (set_context i zero_context (s1\<lparr>calls := calls s1\<rparr>)) = Some (x, s')"
      using assms c
      by (auto simp: connector_context_shutdown_from_read_thread_def clear_context_struct_def Option.bind_eq_Some_conv)
    then show ?thesis by blast
  next
    case False
    then show ?thesis using assms c
      by (auto simp: connector_context_shutdown_from_read_thread_def clear_context_struct_def Option.bind_eq_Some_conv)
  qed
  with c(1) show ?thesis by blast
qed

text \<open>Shutting down a held context empties its element and returns the index to the pool.\<close>

lemma shutdown_owned:
  assumes o: "owned s held" and b: "0 < pushes_left s" and i: "i \<in> set held"
    and op: "connector_context_shutdown_from_read_thread env i s = Some (r, s')"
  shows "owned s' (remove1 i held) \<and> pushes_left s - 1 \<le> pushes_left s' \<and> free_ids s' = free_ids s @ [i] \<and>
    waiting_ids s' = waiting_ids s \<and> get_context s' i = Some zero_context \<and>
    (\<forall>j. j \<noteq> i \<longrightarrow> get_context s' j = get_context s j)"
proof -
  have "mset held = mset (i # remove1 i held)" using i by simp
  then have o1: "owned s (i # remove1 i held)" using o by (simp add: owned_def)
  have lt: "i < SUBSTANCE_CONNECTOR_CONTEXT_COUNT"
    using held_in_table(1) [OF o i] by (simp add: SUBSTANCE_CONNECTOR_CONTEXT_COUNT_def word_less_nat_alt)
  obtain s1 cs where op2: "context_op_generic i (connector_close_connection env) s = Some (r, s1)"
    and ret: "\<exists>x. connector_return_context i (set_context i zero_context (s1\<lparr>calls := cs\<rparr>)) = Some (x, s')"
    using shutdown_course [OF lt op] by blast
  let ?t = "set_context i zero_context (s1\<lparr>calls := cs\<rparr>)"
  have k: "keeps s ?t" using context_op_frame(1-3) [OF op2] by (simp add: keeps_def)
  from return_moves [of ?t i "remove1 i held"] ret o1 b keepsD [OF k]
  obtain q where q: "s' = ?t\<lparr>free_contexts := q\<rparr>" "owned s' (remove1 i held)" "free_ids s' = free_ids s @ [i]"
    "pushes_left s - 1 \<le> pushes_left s'" by auto
  have "unat i < length (context_list s1)"
    using held_in_table(2) [OF o i] context_op_frame(3) [OF op2] by simp
  moreover have "j \<noteq> i \<Longrightarrow> get_context s1 j = get_context s j" for j
    using context_op_frame(4) [OF op2] by simp
  moreover have "get_context s' = get_context ?t" by (simp add: get_context_def q(1) fun_eq_iff)
  moreover have "get_context ?t j = (if i = j then Some zero_context else get_context s1 j)" for j
    using get_set_context [of i "s1\<lparr>calls := cs\<rparr>"] calculation(1) by (simp add: get_context_def)
  ultimately show ?thesis using q keepsD(4) [OF k] by (simp add: waiting_ids_def)
qed

lemma message_op_keeps:
  "context_message_op_generic i m op s = Some (r, m', s') \<Longrightarrow> keeps s s'"
  by (auto simp: context_message_op_generic_def keeps_def split: option_bind_splits if_splits)

lemma session_keeps:
  "connector_context_close i s = Some (r, s') \<Longrightarrow> keeps s s'"
  "connector_context_set_application_name env i nm s = Some (r, s') \<Longrightarrow> keeps s s'"
  "connector_context_write env i m s = Some (r, m', s') \<Longrightarrow> keeps s s'"
  "connector_context_read env i m s = Some (r, m', s') \<Longrightarrow> keeps s s'"
  by (auto simp: connector_context_close_def connector_context_set_application_name_def Let_def
      connector_context_write_def connector_context_read_def keeps_def dest!: message_op_keeps
      split: option_bind_splits if_splits)

lemma handshake_keeps: "connector_context_write_handshake env i s = Some (r, s') \<Longrightarrow> keeps s s'"
  by (auto simp: connector_context_write_handshake_def Let_def Option.bind_eq_Some_conv keeps_def
      dest!: message_op_keeps split: if_splits)

section \<open>The protocol of the library\<close>

text \<open>
  One call into the context table, with the indices the read threads hold. A connect or an
  accept is taken while the pool has a context; a read thread accepts on, and shuts down,
  only contexts it holds.
\<close>

inductive context_step :: "'w os \<Rightarrow> 'w sys \<times> u32 list \<Rightarrow> 'w sys \<times> u32 list \<Rightarrow> bool" for env where
  step_open: "connector_context_open env d want s = Some (r, v, s') \<Longrightarrow> context_step env (s, held) (s', held)"
| step_connect: "free_ids s \<noteq> [] \<Longrightarrow> connector_context_connect env d want s = Some (r, v, s') \<Longrightarrow>
    context_step env (s, held) (s', held)"
| step_accept: "i \<in> set held \<Longrightarrow> free_ids s \<noteq> [] \<Longrightarrow> connector_context_accept env i want s = Some (r, v, s') \<Longrightarrow>
    context_step env (s, held) (s', held)"
| step_acquire: "connector_available_queue_pop (connection_queue s) = Some (SUBSTANCE_CONNECTOR_SUCCESS, Some i, q) \<Longrightarrow>
    context_step env (s, held) (s\<lparr>connection_queue := q\<rparr>, i # held)"
| step_shutdown: "i \<in> set held \<Longrightarrow> connector_context_shutdown_from_read_thread env i s = Some (r, s') \<Longrightarrow>
    context_step env (s, held) (s', remove1 i held)"
| step_close: "connector_context_close i s = Some (r, s') \<Longrightarrow> context_step env (s, held) (s', held)"
| step_name: "connector_context_set_application_name env i nm s = Some (r, s') \<Longrightarrow> context_step env (s, held) (s', held)"
| step_handshake: "connector_context_write_handshake env i s = Some (r, s') \<Longrightarrow> context_step env (s, held) (s', held)"
| step_write: "connector_context_write env i m s = Some (r, m', s') \<Longrightarrow> context_step env (s, held) (s', held)"
| step_read: "connector_context_read env i m s = Some (r, m', s') \<Longrightarrow> context_step env (s, held) (s', held)"

lemma open_refused:
  "connector_context_open env None want s = Some (SUBSTANCE_CONNECTOR_ERROR, None, s)"
  "connector_context_open env d False s = Some (SUBSTANCE_CONNECTOR_ERROR, None, s)"
  "connector_context_connect env None want s = Some (SUBSTANCE_CONNECTOR_ERROR, None, s)"
  "connector_context_connect env d False s = Some (SUBSTANCE_CONNECTOR_ERROR, None, s)"
  by (auto simp: connector_context_open_def connector_context_connect_def split: option.splits)

lemma keeps_owned:
  "keeps s s' \<Longrightarrow> owned s held \<Longrightarrow> owned s' held \<and> pushes_left s - 1 \<le> pushes_left s'"
  using keepsD by (metis diff_le_self)

lemma context_step_owned:
  assumes "context_step env x y" "owned (fst x) (snd x)" "0 < pushes_left (fst x)"
  shows "owned (fst y) (snd y) \<and> pushes_left (fst x) - 1 \<le> pushes_left (fst y)"
  using assms
proof (induction rule: context_step.induct)
  case (step_open d want s r v s' held)
  show ?case
  proof (cases "d = None \<or> \<not> want")
    case True
    with step_open show ?thesis by (auto simp: open_refused)
  next
    case False
    then obtain e where "d = Some e" "want" by auto
    with step_open show ?thesis using open_owned [of s held env e r v s'] by simp
  qed
next
  case (step_connect s d want r v s' held)
  show ?case
  proof (cases "d = None \<or> \<not> want")
    case True
    with step_connect show ?thesis by (auto simp: open_refused)
  next
    case False
    then obtain e where "d = Some e" "want" by auto
    with step_connect show ?thesis using connect_owned [of s held env e r v s'] by simp
  qed
next
  case (step_accept i held s want r v s')
  then show ?case using accept_owned [of s held env i want r v s'] by simp
next
  case (step_acquire s i q held)
  then show ?case using acquire_owned [of s held i q] by simp
next
  case (step_shutdown i held s r s')
  then show ?case using shutdown_owned [of s held i env r s'] by simp
qed (auto dest!: session_keeps handshake_keeps keeps_owned)

lemma context_run_owned:
  assumes "(context_step env ^^ n) x y" "owned (fst x) (snd x)" "n \<le> pushes_left (fst x)"
  shows "owned (fst y) (snd y) \<and> pushes_left (fst x) - n \<le> pushes_left (fst y)"
  using assms
proof (induction n arbitrary: y)
  case (Suc n)
  then obtain z where z: "(context_step env ^^ n) x z" "context_step env z y" by auto
  with Suc.IH [OF z(1)] Suc.prems have o: "owned (fst z) (snd z)" "pushes_left (fst x) - n \<le> pushes_left (fst z)" by auto
  then have "0 < pushes_left (fst z)" using Suc.prems(3) by linarith
  from context_step_owned [OF z(2) o(1) this] o(2) show ?case by linarith
qed simp

section \<open>The subsystem starts with every context free\<close>

lemma init_contexts:
  assumes "allocator_succeeds env"
  shows "\<exists>q w. connector_init_context_subsystem env s =
      Some (SUBSTANCE_CONNECTOR_SUCCESS, s\<lparr>context_list := replicate 32 zero_context, free_contexts := q, world := w\<rparr>) \<and>
    pool_ok q \<and> fifo_contents q = context_ids \<and> fifo_budget q = 2 ^ 32 - 33"
proof -
  obtain q w where c: "connector_uint_queue_create env SUBSTANCE_CONNECTOR_CONTEXT_COUNT (world s) = Some (q, w)"
    and q: "fifo_invar q" "fifo_contents q = []" "fifo_capacity q = 33" "fifo_budget q = 2 ^ 32 - 1"
    using create_context_pool [OF assms] by blast
  obtain q' where q': "push_all connector_uint_queue_push q context_ids = Some q'" "fifo_invar q'"
    "fifo_contents q' = context_ids" "fifo_capacity q' = 33" "fifo_budget q' = 2 ^ 32 - 33"
    using uq.push_all_contents [of q context_ids] q by auto
  show ?thesis using c q q' fifo_invar_nonnull [OF q(1)]
    by (auto simp: connector_init_context_subsystem_def context_ids_def [symmetric] pool_ok_def)
qed

lemma init_available:
  assumes "allocator_succeeds env"
  shows "\<exists>q w'. connector_available_queue_init env NULL w = Some (SUBSTANCE_CONNECTOR_SUCCESS, q, w') \<and>
    pool_ok q \<and> fifo_contents q = [] \<and> fifo_budget q = 2 ^ 32 - 1"
  using create_context_pool [OF assms, of w]
  by (auto simp: connector_available_queue_init_def pool_ok_def dest: fifo_invar_nonnull)

lemma init_owned:
  assumes "allocator_succeeds env"
    and "connector_init_context_subsystem env s0 = Some (r1, s1)"
    and "connector_available_queue_init env NULL (world s1) = Some (r2, q, w)"
  shows "owned (s1\<lparr>connection_queue := q, world := w\<rparr>) [] \<and>
    pushes_left (s1\<lparr>connection_queue := q, world := w\<rparr>) = 2 ^ 32 - 33"
  using init_contexts [OF assms(1), of s0] init_available [OF assms(1), of "world s1"] assms(2,3)
  by (auto simp: owned_def free_ids_def waiting_ids_def pushes_left_def)

section \<open>A connect, step by step\<close>

text \<open>The context structure while a connect is under way and after it succeeded.\<close>

definition connecting :: "connector_context_desc \<Rightarrow> connector_context" where
  "connecting d = zero_context\<lparr>ctx_configuration := (desc_configuration d AND SUBSTANCE_CONNECTOR_COMM_MASK)
     OR SUBSTANCE_CONNECTOR_CONN_OPEN, ctx_connection_data := desc_connection_data d, ctx_port := ucast (desc_port d)\<rparr>"

definition connected :: "connector_context \<Rightarrow> connector_context" where
  "connected c = c\<lparr>ctx_configuration := (ctx_configuration c AND NOT SUBSTANCE_CONNECTOR_CONN_MASK)
     OR SUBSTANCE_CONNECTOR_CONN_CONNECTED, ctx_connection_data := NULL\<rparr>"

lemma connect_forward:
  assumes pop: "pop_free s = Some (r0, v, s1)" and i: "i = (case v of None \<Rightarrow> 0 | Some j \<Rightarrow> j)"
    and tab: "unat i < 32" "length (context_list s1) = 32"
    and br: "connector_bridge_connection env (Some (connecting d)) (world s1) = Some (r, Some c, w)"
  shows "connector_context_connect env (Some d) True s =
    (if r \<noteq> SUBSTANCE_CONNECTOR_SUCCESS
     then do { (_, s3) \<leftarrow> connector_return_context i (set_context i c s1\<lparr>world := w\<rparr>); Some (r, None, s3) }
     else do { (_, s3) \<leftarrow> append_available i (set_context i (connected c) s1\<lparr>world := w\<rparr>); Some (r, Some i, s3) })"
proof -
  have lt: "i < SUBSTANCE_CONNECTOR_CONTEXT_COUNT"
    using tab(1) by (simp add: SUBSTANCE_CONNECTOR_CONTEXT_COUNT_def word_less_nat_alt)
  have upd: "s1\<lparr>world := w, context_list := l\<rparr> = s1\<lparr>context_list := l, world := w\<rparr>" for l by (cases s1) simp
  show ?thesis using pop br lt tab
    by (simp add: upd connector_context_connect_def Let_def i [symmetric] context_op_generic_def get_context_def
        connecting_def [symmetric] connected_def set_context_def)
qed

section \<open>A concrete run\<close>

definition sample_desc :: connector_context_desc where
  "sample_desc = \<lparr>desc_configuration = SUBSTANCE_CONNECTOR_COMM_TCP, desc_connection_data = NULL, desc_port = 8080\<rparr>"

lemma sample_bridge:
  "\<exists>c. connector_bridge_connection sample_os (Some (connecting sample_desc)) w = Some (SUBSTANCE_CONNECTOR_SUCCESS, Some c, w)"
  by (simp add: connector_bridge_connection_def context_operation_def connect_functions_def table_index_def
      connection_type_def connecting_def zero_context_def comm_defs conn_defs connector_connect_tcp_def
      connector_connect_tcp_impl_def sample_os_def sample_desc_def c_negative_def)

lemma sample_connect:
  "\<exists>r1 s1 r2 q w s3. connector_init_context_subsystem sample_os (initial_sys []) = Some (r1, s1) \<and>
     connector_available_queue_init sample_os NULL (world s1) = Some (r2, q, w) \<and>
     free_ids (s1\<lparr>connection_queue := q, world := w\<rparr>) = context_ids \<and>
     connector_context_connect sample_os (Some sample_desc) True (s1\<lparr>connection_queue := q, world := w\<rparr>)
       = Some (SUBSTANCE_CONNECTOR_SUCCESS, Some 0, s3) \<and> waiting_ids s3 = [0] \<and> owned s3 []"
proof -
  obtain fq w1 where i: "connector_init_context_subsystem sample_os (initial_sys []) = Some (SUBSTANCE_CONNECTOR_SUCCESS,
      (initial_sys [])\<lparr>context_list := replicate 32 zero_context, free_contexts := fq, world := w1\<rparr>)"
    (is "_ = Some (_, ?s1)") and fq: "fifo_contents fq = context_ids"
    using init_contexts [of sample_os "initial_sys []"] by auto
  obtain q w where a: "connector_available_queue_init sample_os NULL (world ?s1) = Some (SUBSTANCE_CONNECTOR_SUCCESS, q, w)"
    and q: "fifo_contents q = []"
    using init_available [of sample_os "world ?s1"] by auto
  let ?s2 = "?s1\<lparr>connection_queue := q, world := w\<rparr>"
  note o = init_owned [OF sample_os_allocator i a]
  have f: "free_ids ?s2 = 0 # tl context_ids" "free_ids ?s2 = context_ids" "waiting_ids ?s2 = []"
    using fq q by (simp_all add: free_ids_def waiting_ids_def context_ids_def upt_conv_Cons)
  obtain q2 where p: "pop_free ?s2 = Some (SUBSTANCE_CONNECTOR_SUCCESS, Some 0, ?s2\<lparr>free_contexts := q2\<rparr>)"
    "owned (?s2\<lparr>free_contexts := q2\<rparr>) [0]" "pushes_left (?s2\<lparr>free_contexts := q2\<rparr>) = 2 ^ 32 - 33"
    using pop_free_moves [of ?s2 "[]" 0] o f(1) by auto
  obtain c where br: "connector_bridge_connection sample_os (Some (connecting sample_desc))
      (world (?s2\<lparr>free_contexts := q2\<rparr>)) = Some (SUBSTANCE_CONNECTOR_SUCCESS, Some c, w)"
    using sample_bridge [of w] by auto
  let ?t = "set_context 0 (connected c) (?s2\<lparr>free_contexts := q2\<rparr>)\<lparr>world := w\<rparr>"
  have k: "keeps (?s2\<lparr>free_contexts := q2\<rparr>) ?t" by (simp add: keeps_def)
  obtain s3 where s3: "append_available 0 ?t = Some (SUBSTANCE_CONNECTOR_SUCCESS, s3)" "waiting_ids s3 = [0]" "owned s3 []"
    using append_moves [of ?t 0 "[]"] keepsD [OF k] p(2,3) f(3) by (auto simp: waiting_ids_def)
  have "connector_context_connect sample_os (Some sample_desc) True ?s2 = Some (SUBSTANCE_CONNECTOR_SUCCESS, Some 0, s3)"
    using connect_forward [OF p(1) _ _ _ br, of 0] s3(1) by (simp add: initial_sys_def)
  with i a f(2) s3(2,3) show ?thesis by blast
qed

section \<open>Properties\<close>



text \<open>
  C24: what an open, a connect or an accept does to the pool. While a context is free, a call
  that returns hands out the first free index, queues it for the read threads and touches no
  other context, or fails, keeps every index free and touches only free contexts.
\<close>

theorem context_hand_out:
  assumes "owned s held" and "0 < pushes_left s" and "free_ids s \<noteq> []"
    and "connector_context_open env (Some d) True s = Some (r, v, s') \<or>
      connector_context_connect env (Some d) True s = Some (r, v, s') \<or>
      connector_context_accept env i True s = Some (r, v, s')"
  shows "handed_out s r v s' \<and> owned s' held"
  using open_owned [OF assms(1,2)] connect_owned [OF assms(1-3)] accept_owned [OF assms(1-3)] assms(4) by blast

theorem context_hand_out_witness:
  "\<exists>s s'. free_ids s = context_ids \<and>
     connector_context_connect sample_os (Some sample_desc) True s = Some (SUBSTANCE_CONNECTOR_SUCCESS, Some 0, s') \<and>
     free_ids s' = tl context_ids \<and> waiting_ids s' = waiting_ids s @ [0]"
proof -
  obtain r1 s1 r2 q w s3 where i: "connector_init_context_subsystem sample_os (initial_sys []) = Some (r1, s1)"
    and a: "connector_available_queue_init sample_os NULL (world s1) = Some (r2, q, w)"
    and f: "free_ids (s1\<lparr>connection_queue := q, world := w\<rparr>) = context_ids"
    and c: "connector_context_connect sample_os (Some sample_desc) True (s1\<lparr>connection_queue := q, world := w\<rparr>)
      = Some (SUBSTANCE_CONNECTOR_SUCCESS, Some 0, s3)" using sample_connect by blast
  have "free_ids (s1\<lparr>connection_queue := q, world := w\<rparr>) \<noteq> []" using f by simp
  with context_hand_out [OF _ _ this, of "[]" sample_os sample_desc] init_owned [OF sample_os_allocator i a] c
  have "handed_out (s1\<lparr>connection_queue := q, world := w\<rparr>) SUBSTANCE_CONNECTOR_SUCCESS (Some 0) s3" by simp
  then have "context_ids = 0 # free_ids s3" "waiting_ids s3 = waiting_ids (s1\<lparr>connection_queue := q, world := w\<rparr>) @ [0]"
    using f by (simp_all add: handed_out_def)
  then show ?thesis using f c by (metis list.sel(3))
qed

text \<open>
  C35: a connect on an exhausted pool takes over context 0. The result of the pop is not
  tested, so when the protocol call succeeds the call reports success with index 0, although
  context 0 is waiting or held: its structure is overwritten and the index is queued a
  second time.
\<close>

theorem connect_exhausted_pool:
  assumes "owned s held" and "free_ids s = []" and "0 < pushes_left s"
    and "connector_bridge_connection env (Some (connecting d)) (world s) = Some (SUBSTANCE_CONNECTOR_SUCCESS, Some c, w)"
  shows "\<exists>s'. connector_context_connect env (Some d) True s = Some (SUBSTANCE_CONNECTOR_SUCCESS, Some 0, s') \<and>
    0 \<in> set (waiting_ids s @ held) \<and> waiting_ids s' = waiting_ids s @ [0] \<and> get_context s' 0 = Some (connected c)"
proof -
  note o = ownedD [OF assms(1)]
  let ?t = "set_context 0 (connected c) s\<lparr>world := w\<rparr>"
  have fwd: "connector_context_connect env (Some d) True s =
    do { (_, s3) \<leftarrow> append_available 0 ?t; Some (SUBSTANCE_CONNECTOR_SUCCESS, Some 0, s3) }"
    using connect_forward [OF pop_free_empty [OF assms(1,2)] _ _ _ assms(4), of 0] o(1) by simp
  have "0 \<in> set context_ids" using set_context_ids by simp
  with o(6) assms(2) have in_use: "0 \<in> set (waiting_ids s @ held)" by auto
  have q: "fifo_invar (connection_queue s)" "length (fifo_contents (connection_queue s)) < fifo_capacity (connection_queue s)"
    "0 < fifo_budget (connection_queue s)"
    using o(3,4) assms(3) by (auto simp: pool_ok_def waiting_ids_def pushes_left_def)
  obtain q' where q': "connector_available_queue_push (connection_queue s) 0 = Some (SUBSTANCE_CONNECTOR_SUCCESS, q')"
    "fifo_contents q' = fifo_contents (connection_queue s) @ [0]" using aq.push_room [OF q, of 0] by blast
  have "append_available 0 ?t = Some (SUBSTANCE_CONNECTOR_SUCCESS, signal WakeRead (?t\<lparr>connection_queue := q'\<rparr>))"
    using q'(1) by (simp add: append_available_def connector_flag_read_def connector_flag_read_impl_def)
  moreover have "context_list s \<noteq> []" using o(1) by auto
  ultimately show ?thesis using fwd in_use q'(2) by (simp add: waiting_ids_def get_context_def)
qed

text \<open>A state in which every context is held by a read thread.\<close>

definition empty_pool :: "uint_queue cptr" where
  "empty_pool = OWNED \<lparr>write_index = 0, read_index = 0, max_index = 0, queue_size = 34, queue_array = OWNED (replicate 34 0)\<rparr>"

definition busy_sys :: "u8 list sys" where
  "busy_sys = (initial_sys [])\<lparr>free_contexts := empty_pool, connection_queue := empty_pool\<rparr>"

lemma busy_sys_owned: "owned busy_sys context_ids" "free_ids busy_sys = []" "waiting_ids busy_sys = []" "0 < pushes_left busy_sys"
  by (simp_all add: owned_def busy_sys_def empty_pool_def initial_sys_def free_ids_def waiting_ids_def pushes_left_def
      pool_ok_def fifo_contents_def fifo_capacity_def fifo_budget_def queue_contents_def wf_queue_def queue_elems_def)

theorem connect_exhausted_pool_witness:
  "\<exists>s'. connector_context_connect sample_os (Some sample_desc) True busy_sys = Some (SUBSTANCE_CONNECTOR_SUCCESS, Some 0, s') \<and>
    0 \<in> set (waiting_ids busy_sys @ context_ids) \<and> waiting_ids s' = waiting_ids busy_sys @ [0]"
proof -
  obtain c where "connector_bridge_connection sample_os (Some (connecting sample_desc)) (world busy_sys)
      = Some (SUBSTANCE_CONNECTOR_SUCCESS, Some c, world busy_sys)" using sample_bridge by blast
  from connect_exhausted_pool [OF busy_sys_owned(1,2,4) this] show ?thesis by blast
qed


definition idle_sys :: "u8 list sys" where
  "idle_sys = (initial_sys [])\<lparr>connection_queue := empty_pool, free_contexts := OWNED \<lparr>write_index = 32, read_index = 0,
     max_index = 32, queue_size = 34, queue_array = OWNED (context_ids @ [0, 0])\<rparr>\<rparr>"

lemma idle_sys_owned: "owned idle_sys []" "free_ids idle_sys = 0 # tl context_ids" "0 < pushes_left idle_sys"
proof -
  have "map (\<lambda>t. (context_ids @ [0, 0]) ! (t mod 34)) [0..<32] = context_ids"
    by (rule nth_equalityI) (simp_all add: nth_append)
  then have "free_ids idle_sys = context_ids" "waiting_ids idle_sys = []"
    by (simp_all add: idle_sys_def free_ids_def waiting_ids_def fifo_contents_def queue_contents_def queue_elems_def
        empty_pool_def)
  then show "owned idle_sys []" "free_ids idle_sys = 0 # tl context_ids"
    by (simp_all add: owned_def idle_sys_def empty_pool_def initial_sys_def pool_ok_def fifo_capacity_def wf_queue_def
        queue_elems_def context_ids_def upt_conv_Cons)
  show "0 < pushes_left idle_sys"
    by (simp add: pushes_left_def idle_sys_def empty_pool_def fifo_budget_def)
qed

definition refusing_os :: "u8 list os" where
  "refusing_os = sample_os\<lparr>os_connect := (\<lambda>fd a w. (- 1, w))\<rparr>"

definition path_desc :: connector_context_desc where
  "path_desc = \<lparr>desc_configuration = SUBSTANCE_CONNECTOR_COMM_UNIX, desc_connection_data = BORROWED [47, 120, 0],
     desc_port = 0\<rparr>"

lemma refused_bridge:
  "connector_bridge_connection refusing_os (Some (connecting path_desc)) w =
     Some (SUBSTANCE_CONNECTOR_OPEN_FAIL, Some (connecting path_desc), w)"
  by (simp add: connector_bridge_connection_def context_operation_def connect_functions_def table_index_def
      connection_type_def connecting_def zero_context_def comm_defs conn_defs connector_connect_unix_def
      refusing_os_def sample_os_def path_desc_def c_negative_def c_path_def strlen_def cstr_def SIZEOF_SUN_PATH_def)


lemma handshake_frame:
  assumes link: "reliable_link env (send_socket env) (read_socket env) pending" and al: "allocator_succeeds env"
    and c: "get_context s i = Some c" "i < SUBSTANCE_CONNECTOR_CONTEXT_COUNT"
      "ctx_configuration c AND SUBSTANCE_CONNECTOR_CONN_MASK = SUBSTANCE_CONNECTOR_CONN_CONNECTED"
      "ctx_configuration c AND SUBSTANCE_CONNECTOR_HANDSHAKE_MASK \<noteq> SUBSTANCE_CONNECTOR_HANDSHAKE_SENT"
      "connection_type c = SUBSTANCE_CONNECTOR_COMM_TCP \<or> connection_type c = SUBSTANCE_CONNECTOR_COMM_UNIX"
    and name: "deref (application_name s) = Some b" "0 \<in> set b" "length b < 2 ^ 32"
  shows "\<exists>f w'. connector_context_write_handshake env i s = Some (SUBSTANCE_CONNECTOR_SUCCESS,
      set_context i (c\<lparr>ctx_configuration := ctx_configuration c OR SUBSTANCE_CONNECTOR_HANDSHAKE_SENT\<rparr>) (s\<lparr>world := w'\<rparr>)) \<and>
    length f = 24 \<and> pending w' = pending (world s) @ f @ cstr b \<and>
    connector_ntohheader (load_header f) = \<lparr>description = CONNECTOR_MESSAGE_IDENTIFIER OR CONNECTOR_INTERNAL_IDENTIFIER,
      message_length = of_nat (length (cstr b)), message_id = connector_internal_handshake_uuid\<rparr>"
proof -
  let ?h = "\<lparr>description = CONNECTOR_MESSAGE_IDENTIFIER, message_length = of_nat (length (cstr b)),
      message_id = connector_internal_handshake_uuid\<rparr>"
  let ?m = "\<lparr>msg_header = OWNED ?h, msg_message = OWNED (c_string (cstr b)), msg_context = i\<rparr>"
  let ?h' = "?h\<lparr>description := CONNECTOR_MESSAGE_IDENTIFIER OR CONNECTOR_INTERNAL_IDENTIFIER\<rparr>"
  let ?m' = "?m\<lparr>msg_header := OWNED ?h'\<rparr>"
  obtain w1 where b: "connector_build_message env i (BORROWED connector_internal_handshake_uuid) (application_name s) (world s)
      = Some (OWNED ?m, w1)" "pending w1 = pending (world s)"
    using build_message_result [OF al name(1,2), of "BORROWED connector_internal_handshake_uuid"] name(3)
      build_pending [OF link] by fastforce
  have flag: "flag_description CONNECTOR_INTERNAL_IDENTIFIER (OWNED ?m) = Some (OWNED ?m')"
    by (simp add: flag_description_def)
  have "length (cstr b) < 2 ^ 32" using cstr_less [OF name(2)] name(3) by simp
  then have len: "unat (of_nat (length (cstr b)) :: u32) = length (cstr b)" by (simp add: unat_of_nat)
  obtain f w' where f: "connector_send_message_generic env (Some c) (OWNED ?m') (send_socket env) w1 = Some (SUBSTANCE_CONNECTOR_SUCCESS, w')"
    "length f = 24" "connector_ntohheader (load_header f) = ?h'"
    "pending w' = pending w1 @ f @ take (unat (message_length ?h')) (c_string (cstr b))"
    by (rule send_frame [OF link al, of "OWNED ?m'" ?m' ?h' "c_string (cstr b)" c w1]) (use len in \<open>auto simp: c_string_def\<close>)
  have w: "connector_write_connection env (Some c) (OWNED ?m') w1 = Some (SUBSTANCE_CONNECTOR_SUCCESS, OWNED ?m', w')"
    using c(5) f(1)
    by (auto simp: connector_write_connection_def message_operation_def table_index_def write_functions_def comm_defs
        keep_message_def connector_write_tcp_def connector_write_unix_def)
  have "connector_context_write_handshake env i s = Some (SUBSTANCE_CONNECTOR_SUCCESS,
      set_context i (c\<lparr>ctx_configuration := ctx_configuration c OR SUBSTANCE_CONNECTOR_HANDSHAKE_SENT\<rparr>) (s\<lparr>world := w'\<rparr>))"
    using c(1-4) b flag w
    by (simp add: connector_context_write_handshake_def connector_get_application_name_def context_message_op_generic_def
        release_message_def connector_clear_message_def)
  then show ?thesis using f b(2) len by (intro exI [of _ f] exI [of _ w']) (simp add: c_string_def)
qed

text \<open>
  C12: the handshake is sent, and sent once. On a connected context that has not sent it, over a
  reliable link, the call puts exactly one frame on the wire: a header marked internal, with
  the handshake type and the length of the application name, followed by the name. The context
  is marked and is otherwise unchanged, and every further call reports success and changes
  nothing at all, the outside world included.
\<close>

theorem handshake_sent_once:
  assumes "reliable_link env (send_socket env) (read_socket env) pending" and "allocator_succeeds env"
    and "get_context s i = Some c" and "i < SUBSTANCE_CONNECTOR_CONTEXT_COUNT"
    and "ctx_configuration c AND SUBSTANCE_CONNECTOR_CONN_MASK = SUBSTANCE_CONNECTOR_CONN_CONNECTED"
    and "ctx_configuration c AND SUBSTANCE_CONNECTOR_HANDSHAKE_MASK \<noteq> SUBSTANCE_CONNECTOR_HANDSHAKE_SENT"
    and "connection_type c = SUBSTANCE_CONNECTOR_COMM_TCP \<or> connection_type c = SUBSTANCE_CONNECTOR_COMM_UNIX"
    and "deref (application_name s) = Some b" and "0 \<in> set b" and "length b < 2 ^ 32"
  shows "\<exists>f s'. connector_context_write_handshake env i s = Some (SUBSTANCE_CONNECTOR_SUCCESS, s') \<and>
    pending (world s') = pending (world s) @ f @ cstr b \<and> length f = 24 \<and>
    CONNECTOR_IDENTIFY_INTERNAL (description (connector_ntohheader (load_header f))) \<and>
    message_id (connector_ntohheader (load_header f)) = connector_internal_handshake_uuid \<and>
    unat (message_length (connector_ntohheader (load_header f))) = length (cstr b) \<and>
    get_context s' i = Some (c\<lparr>ctx_configuration := ctx_configuration c OR SUBSTANCE_CONNECTOR_HANDSHAKE_SENT\<rparr>) \<and>
    connector_context_write_handshake env i s' = Some (SUBSTANCE_CONNECTOR_SUCCESS, s')"
proof -
  let ?c = "c\<lparr>ctx_configuration := ctx_configuration c OR SUBSTANCE_CONNECTOR_HANDSHAKE_SENT\<rparr>"
  obtain f w where f: "connector_context_write_handshake env i s = Some (SUBSTANCE_CONNECTOR_SUCCESS, set_context i ?c (s\<lparr>world := w\<rparr>))"
    "length f = 24" "pending w = pending (world s) @ f @ cstr b"
    "connector_ntohheader (load_header f) = \<lparr>description = CONNECTOR_MESSAGE_IDENTIFIER OR CONNECTOR_INTERNAL_IDENTIFIER,
      message_length = of_nat (length (cstr b)), message_id = connector_internal_handshake_uuid\<rparr>"
    using handshake_frame [OF assms] by blast
  let ?s = "set_context i ?c (s\<lparr>world := w\<rparr>)"
  have g: "get_context ?s i = Some ?c" using assms(3) by (auto simp: get_context_def split: if_splits)
  have bit: "(x OR SUBSTANCE_CONNECTOR_HANDSHAKE_SENT) AND SUBSTANCE_CONNECTOR_HANDSHAKE_MASK = SUBSTANCE_CONNECTOR_HANDSHAKE_SENT"
    for x by (simp add: handshake_defs bit.conj_disj_distrib2)
  have again: "connector_context_write_handshake env i ?s = Some (SUBSTANCE_CONNECTOR_SUCCESS, ?s)"
    using g assms(4) bit by (simp add: connector_context_write_handshake_def)
  have "CONNECTOR_IDENTIFY_INTERNAL (CONNECTOR_MESSAGE_IDENTIFIER OR CONNECTOR_INTERNAL_IDENTIFIER)"
    by (simp add: CONNECTOR_IDENTIFY_INTERNAL_def CONNECTOR_MESSAGE_IDENTIFIER_def CONNECTOR_INTERNAL_IDENTIFIER_def)
  moreover have "unat (of_nat (length (cstr b)) :: u32) = length (cstr b)"
    using cstr_less [OF assms(9)] assms(10) by (simp add: unat_of_nat)
  ultimately show ?thesis using f g again by (intro exI [of _ f] exI [of _ ?s]) simp
qed

definition connected_sys :: "u8 list sys" where
  "connected_sys = (initial_sys [])\<lparr>context_list := sample_context # replicate 31 zero_context,
     application_name := OWNED [104, 105, 0]\<rparr>"

theorem handshake_sent_once_witness:
  "\<exists>f s'. connector_context_write_handshake sample_os 0 connected_sys = Some (SUBSTANCE_CONNECTOR_SUCCESS, s') \<and>
     world s' = f @ [104, 105] \<and> length f = 24 \<and>
     connector_context_write_handshake sample_os 0 s' = Some (SUBSTANCE_CONNECTOR_SUCCESS, s')"
proof -
  have "send_socket sample_os = os_send sample_os" "read_socket sample_os = os_recv sample_os"
    by (simp_all add: send_socket_def read_socket_def fun_eq_iff)
  then have link: "reliable_link sample_os (send_socket sample_os) (read_socket sample_os) (\<lambda>w. w)"
    using sample_link by simp
  have "get_context connected_sys 0 = Some sample_context" "deref (application_name connected_sys) = Some [104, 105, 0]"
    "world connected_sys = []" "cstr [104, 105, 0 :: u8] = [104, 105]"
    by (simp_all add: connected_sys_def initial_sys_def get_context_def cstr_def)
  with handshake_sent_once [OF link sample_os_allocator, of connected_sys 0 sample_context "[104, 105, 0]"]
  show ?thesis
    by (auto simp: sample_context_def conn_defs handshake_defs comm_defs connection_type_def
        SUBSTANCE_CONNECTOR_CONTEXT_COUNT_def)
qed

end
