(* ===== verification/Internal_Messages.thy ===== *)
theory Internal_Messages
  imports Context_Ownership
begin

text \<open>
  Messages the library handles itself (\<^verbatim>\<open>internal_messages.c\<close>) and the disconnect helper
  (\<^verbatim>\<open>disconnect_message.c\<close>): a table from message types to callbacks searched with the C
  library's \<^verbatim>\<open>bsearch\<close>, and the handshake callback, its only entry.
\<close>

section \<open>The table and its search\<close>

text \<open>The callbacks of the table, by name.\<close>

datatype connector_callback_fp = INTERNAL_HANDSHAKE_CALLBACK

record intern_callback =
  intern_key :: substance_connector_uuid
  intern_function :: connector_callback_fp

definition internal_messages :: "intern_callback list" where
  "internal_messages = [\<lparr>intern_key = connector_internal_handshake_uuid, intern_function = INTERNAL_HANDSHAKE_CALLBACK\<rparr>]"

text \<open>\<^verbatim>\<open>bsearch\<close>: the element in the middle of the window is compared with the key, key first.\<close>

function bsearch_loop :: "('k \<Rightarrow> 'e \<Rightarrow> int) \<Rightarrow> 'k \<Rightarrow> 'e list \<Rightarrow> nat \<Rightarrow> nat \<Rightarrow> 'e option" where
  "bsearch_loop compar key base l u =
     (if l < u then
        let idx = (l + u) div 2; c = compar key (base ! idx)
        in if c < 0 then bsearch_loop compar key base l idx
           else if c > 0 then bsearch_loop compar key base (Suc idx) u
           else Some (base ! idx)
      else None)"
  by pat_completeness auto
termination by (relation "measure (\<lambda>(_, _, _, l, u). u - l)") auto

declare bsearch_loop.simps [simp del]

definition bsearch :: "('k \<Rightarrow> 'e \<Rightarrow> int) \<Rightarrow> 'k \<Rightarrow> 'e list \<Rightarrow> 'e option" where
  "bsearch compar key base = bsearch_loop compar key base 0 (length base)"

text \<open>The comparison passes the element's key first and the searched key second.\<close>

definition compare_callback :: "substance_connector_uuid \<Rightarrow> intern_callback \<Rightarrow> int" where
  "compare_callback key callback = connector_compare_uuid (intern_key callback) key"

definition find_callback :: "substance_connector_uuid \<Rightarrow> connector_callback_fp option" where
  "find_callback type = map_option intern_function (bsearch compare_callback type internal_messages)"

section \<open>The handshake\<close>

definition enqueue_outbound ::
    "'w os \<Rightarrow> connector_message cptr \<Rightarrow> 'w sys \<Rightarrow> 'w sys option" where
  "enqueue_outbound env m s = do {
     (q, w) \<leftarrow> connector_enqueue_outbound_message env m (queues s, world s);
     Some (s\<lparr>queues := q, world := w\<rparr>) }"

definition internal_handshake_callback ::
    "'w os \<Rightarrow> u32 \<Rightarrow> substance_connector_uuid \<Rightarrow> u8 list cptr \<Rightarrow> 'w sys \<Rightarrow> 'w sys option" where
  "internal_handshake_callback env ctx type message s = do {
     let name = connector_get_application_name (application_name s);
     (out_message, w1) \<leftarrow> connector_build_message env ctx (BORROWED connector_internal_handshake_uuid) name (world s);
     (in_message, w2) \<leftarrow> connector_build_message env ctx (BORROWED connector_internal_handshake_uuid) message w1;
     let s1 = s\<lparr>world := w2\<rparr>;
     s2 \<leftarrow> (if out_message \<noteq> NULL then do {
              s' \<leftarrow> enqueue_outbound env out_message s1;
              Some (snd (connector_flag_write s')) }
            else Some s1);
     if in_message \<noteq> NULL then do {
       (_, s3) \<leftarrow> connector_context_set_application_name env ctx message s2;
       _ \<leftarrow> release_message in_message;
       Some s3 }
     else Some s2 }"

definition connector_call_internal_message ::
    "'w os \<Rightarrow> u32 \<Rightarrow> substance_connector_uuid \<Rightarrow> u8 list cptr \<Rightarrow> 'w sys \<Rightarrow>
      (substance_connector_error \<times> 'w sys) option" where
  "connector_call_internal_message env ctx type message s =
     (case find_callback type of
        None \<Rightarrow> Some (SUBSTANCE_CONNECTOR_ERROR, s)
      | Some INTERNAL_HANDSHAKE_CALLBACK \<Rightarrow> do {
          s' \<leftarrow> internal_handshake_callback env ctx type message s;
          Some (SUBSTANCE_CONNECTOR_SUCCESS, s') })"

text \<open>\<^verbatim>\<open>connector_handle_error_disconnect\<close> copies the name and releases the copy.\<close>

definition connector_handle_error_disconnect ::
    "'w os \<Rightarrow> u32 \<Rightarrow> 'w sys \<Rightarrow> (substance_connector_error \<times> 'w sys) option" where
  "connector_handle_error_disconnect env ctx s = do {
     stored \<leftarrow> connector_context_get_application_name ctx s;
     (name, w1) \<leftarrow> connector_strdup env stored (world s);
     if name \<noteq> NULL then do {
       _ \<leftarrow> connector_free name;
       Some (SUBSTANCE_CONNECTOR_SUCCESS, s\<lparr>world := w1\<rparr>) }
     else Some (SUBSTANCE_CONNECTOR_ERROR, s\<lparr>world := w1\<rparr>) }"

section \<open>What the search finds\<close>

lemma compare_callback_eq_0: "compare_callback k e = 0 \<longleftrightarrow> intern_key e = k"
  by (simp add: compare_callback_def connector_compare_uuid_def compare_elements_eq_0 elements_inject)

lemma find_callback_handshake:
  "find_callback type = (if type = connector_internal_handshake_uuid then Some INTERNAL_HANDSHAKE_CALLBACK else None)"
proof -
  let ?e = "\<lparr>intern_key = connector_internal_handshake_uuid, intern_function = INTERNAL_HANDSHAKE_CALLBACK\<rparr>"
  have "bsearch_loop compare_callback type internal_messages 0 0 = None"
    "bsearch_loop compare_callback type internal_messages 1 1 = None" by (simp_all add: bsearch_loop.simps)
  moreover have "internal_messages ! 0 = ?e" by (simp add: internal_messages_def)
  ultimately have "bsearch_loop compare_callback type internal_messages 0 1 =
      (if compare_callback type ?e = 0 then Some ?e else None)"
    by (subst bsearch_loop.simps) (simp add: Let_def)
  then show ?thesis using compare_callback_eq_0 [of type ?e]
    by (auto simp: find_callback_def bsearch_def internal_messages_def)
qed

section \<open>The answer to a handshake\<close>

text \<open>The reply: an ordinary message of the handshake type that carries this application's name.\<close>

definition handshake_reply :: "u32 \<Rightarrow> u8 list \<Rightarrow> connector_message" where
  "handshake_reply ctx b = \<lparr>msg_header = OWNED \<lparr>description = CONNECTOR_MESSAGE_IDENTIFIER,
       message_length = of_nat (length (cstr b)), message_id = connector_internal_handshake_uuid\<rparr>,
     msg_message = OWNED (c_string (cstr b)), msg_context = ctx\<rparr>"

lemma build_handshake:
  assumes "allocator_succeeds env" "deref p = Some b" "0 \<in> set b" "length b < 2 ^ 64"
  shows "\<exists>w'. connector_build_message env ctx (BORROWED connector_internal_handshake_uuid) p w
    = Some (OWNED (handshake_reply ctx b), w')"
  using build_message_result [OF assms, of "BORROWED connector_internal_handshake_uuid"]
  by (simp add: handshake_reply_def)

lemma release_reply [simp]: "release_message (OWNED (handshake_reply ctx b)) = Some ()"
  by (simp add: release_message_def connector_clear_message_def handshake_reply_def)

lemma handshake_callback_result:
  assumes al: "allocator_succeeds env" and q: "wf_queues (queues s)"
    and name: "deref (application_name s) = Some b" "0 \<in> set b" "length b < 2 ^ 64"
    and peer: "deref message = Some pb" "0 \<in> set pb" "length pb < 2 ^ 64"
    and ctx: "ctx < SUBSTANCE_CONNECTOR_CONTEXT_COUNT" "get_context s ctx = Some c" "name_ok (ctx_application_name c)"
  shows "\<exists>q' w'. internal_handshake_callback env ctx type message s = Some (set_context ctx
      (c\<lparr>ctx_application_name := OWNED (c_string (cstr pb))\<rparr>) (signal WakeWrite (s\<lparr>queues := q', world := w'\<rparr>))) \<and>
    wf_queues q' \<and> outbound_messages q' = outbound_messages (queues s) @ [OWNED (handshake_reply ctx b)] \<and>
    inbound_messages q' = inbound_messages (queues s) \<and> message_queue_state q' = message_queue_state (queues s)"
proof -
  obtain w1 where b1: "connector_build_message env ctx (BORROWED connector_internal_handshake_uuid) (application_name s) (world s)
      = Some (OWNED (handshake_reply ctx b), w1)" using build_handshake [OF al name] by blast
  obtain w2 where b2: "connector_build_message env ctx (BORROWED connector_internal_handshake_uuid) message w1
      = Some (OWNED (handshake_reply ctx pb), w2)" using build_handshake [OF al peer] by blast
  obtain q' w3 where e: "connector_enqueue_outbound_message env (OWNED (handshake_reply ctx b)) (queues s, w2) = Some (q', w3)"
    "wf_queues q'" "outbound_messages q' = outbound_messages (queues s) @ [OWNED (handshake_reply ctx b)]"
    "inbound_messages q' = inbound_messages (queues s)" "message_queue_state q' = message_queue_state (queues s)"
    using outbound_enqueue [OF q al] by blast
  obtain w4 where d: "connector_strdup env message w3 = Some (OWNED (c_string (cstr pb)), w4)"
    using strdup_result [OF al peer] by blast
  have nn: "message \<noteq> NULL" using peer(1) by auto
  obtain f where "connector_free (ctx_application_name c) = Some f"
    using ctx(3) by (auto simp: name_ok_def)
  then have set: "connector_context_set_application_name env ctx message (signal WakeWrite (s\<lparr>queues := q', world := w3\<rparr>))
      = Some (SUBSTANCE_CONNECTOR_SUCCESS, set_context ctx (c\<lparr>ctx_application_name := OWNED (c_string (cstr pb))\<rparr>)
          (signal WakeWrite (s\<lparr>queues := q', world := w4\<rparr>)))"
    using ctx nn d
    by (simp add: connector_context_set_application_name_def get_context_def set_context_def signal_def split: if_splits)
  have "internal_handshake_callback env ctx type message s = Some (set_context ctx
      (c\<lparr>ctx_application_name := OWNED (c_string (cstr pb))\<rparr>) (signal WakeWrite (s\<lparr>queues := q', world := w4\<rparr>)))"
    using b1 b2 e(1) set
    by (simp add: internal_handshake_callback_def connector_get_application_name_def enqueue_outbound_def Let_def
        connector_flag_write_def connector_flag_write_impl_def)
  with e show ?thesis by blast
qed

section \<open>Properties\<close>

text \<open>
  C13: a handshake is answered and does not echo. An internal message of the handshake type
  queues one reply with this application's name, wakes the writers and records the peer's
  name in the context; the reply is not an internal message, so the peer delivers it to its
  callbacks instead of answering it. Every other internal type is an error that changes
  nothing.
\<close>

theorem handshake_answered:
  assumes "allocator_succeeds env" and "wf_queues (queues s)"
    and "deref (application_name s) = Some b" and "0 \<in> set b" and "length b < 2 ^ 64"
    and "deref message = Some pb" and "0 \<in> set pb" and "length pb < 2 ^ 64"
    and "ctx < SUBSTANCE_CONNECTOR_CONTEXT_COUNT" and "get_context s ctx = Some c" and "name_ok (ctx_application_name c)"
  shows "(\<exists>s' h. connector_call_internal_message env ctx connector_internal_handshake_uuid message s
        = Some (SUBSTANCE_CONNECTOR_SUCCESS, s') \<and>
      outbound_messages (queues s') = outbound_messages (queues s) @ [OWNED (handshake_reply ctx b)] \<and>
      inbound_messages (queues s') = inbound_messages (queues s) \<and>
      msg_header (handshake_reply ctx b) = OWNED h \<and> \<not> CONNECTOR_IDENTIFY_INTERNAL (description h) \<and>
      get_context s' ctx = Some (c\<lparr>ctx_application_name := OWNED (c_string (cstr pb))\<rparr>) \<and>
      signals s' = signals s @ [WakeWrite] \<and> calls s' = calls s) \<and>
    (\<forall>type. type \<noteq> connector_internal_handshake_uuid \<longrightarrow>
      connector_call_internal_message env ctx type message s = Some (SUBSTANCE_CONNECTOR_ERROR, s))"
proof -
  obtain q' w' where r: "internal_handshake_callback env ctx connector_internal_handshake_uuid message s = Some (set_context ctx
      (c\<lparr>ctx_application_name := OWNED (c_string (cstr pb))\<rparr>) (signal WakeWrite (s\<lparr>queues := q', world := w'\<rparr>)))"
    "outbound_messages q' = outbound_messages (queues s) @ [OWNED (handshake_reply ctx b)]"
    "inbound_messages q' = inbound_messages (queues s)"
    using handshake_callback_result [OF assms] by blast
  have "unat ctx < length (context_list s)" using assms(10) by (auto simp: get_context_def split: if_splits)
  then show ?thesis using r
    by (simp add: connector_call_internal_message_def find_callback_handshake handshake_reply_def get_context_def)
qed

theorem handshake_answered_witness:
  "\<exists>s'. connector_call_internal_message sample_os 0 connector_internal_handshake_uuid (BORROWED [120, 0])
       (connected_sys\<lparr>queues := snd (connector_init_message_queue_subsystem no_queues)\<rparr>) = Some (SUBSTANCE_CONNECTOR_SUCCESS, s') \<and>
     outbound_messages (queues s') = [OWNED (handshake_reply 0 [104, 105, 0])] \<and>
     get_context s' 0 = Some (sample_context\<lparr>ctx_application_name := OWNED [120, 0]\<rparr>)"
proof -
  let ?q = "snd (connector_init_message_queue_subsystem no_queues)"
  have q: "wf_queues ?q" "outbound_messages ?q = []" using init_wf [of no_queues] by (auto simp: no_queues_def)
  let ?s = "connected_sys\<lparr>queues := ?q\<rparr>"
  have "get_context ?s 0 = Some sample_context" "deref (application_name ?s) = Some [104, 105, 0]"
    "cstr [120, 0 :: u8] = [120]"
    by (simp_all add: connected_sys_def initial_sys_def get_context_def cstr_def)
  moreover have "name_ok (ctx_application_name sample_context)" by (simp add: name_ok_def sample_context_def)
  ultimately show ?thesis
    using handshake_answered [of sample_os ?s "[104, 105, 0]" "BORROWED [120, 0]" "[120, 0]" 0 sample_context] q
    by (auto simp: c_string_def SUBSTANCE_CONNECTOR_CONTEXT_COUNT_def)
qed

text \<open>
  The comparison of the callback table is reversed. In a table of two entries sorted by
  key, as the comment on the table asks for, the search does not find the smaller key: it
  compares the entry with the key instead of the key with the entry and turns away from it.
\<close>

theorem two_entry_table_misses:
  assumes "k1 < (k2 :: substance_connector_uuid)"
  shows "bsearch compare_callback k1 [\<lparr>intern_key = k1, intern_function = f1\<rparr>, \<lparr>intern_key = k2, intern_function = f2\<rparr>] = None"
proof -
  have "connector_compare_uuid k2 k1 = - connector_compare_uuid k1 k2"
    unfolding connector_compare_uuid_def by (rule compare_elements_antisym)
  moreover have "connector_compare_uuid k1 k2 < 0" using assms by (simp add: less_substance_connector_uuid_def)
  ultimately have c: "connector_compare_uuid k2 k1 > 0" by simp
  have "bsearch_loop compare_callback k1 t (Suc (Suc 0)) (Suc (Suc 0)) = None" for t by (subst bsearch_loop.simps) simp
  with c show ?thesis
    by (simp add: bsearch_def bsearch_loop.simps [of _ _ _ 0 "Suc (Suc 0)"] Let_def compare_callback_def)
qed

theorem two_entry_table_misses_witness:
  "bsearch compare_callback connector_internal_handshake_uuid
     [\<lparr>intern_key = connector_internal_handshake_uuid, intern_function = INTERNAL_HANDSHAKE_CALLBACK\<rparr>,
      \<lparr>intern_key = connector_internal_log_uuid, intern_function = INTERNAL_HANDSHAKE_CALLBACK\<rparr>] = None"
proof -
  have "connector_compare_uuid connector_internal_handshake_uuid connector_internal_log_uuid = - 1" by code_simp
  then have "connector_internal_handshake_uuid < connector_internal_log_uuid"
    unfolding less_substance_connector_uuid_def by simp
  then show ?thesis by (rule two_entry_table_misses)
qed

end
