(* ===== verification/Scheduling.thy ===== *)
theory Scheduling
  imports Connector_Prelude "HOL-Library.Multiset"
begin

text \<open>
  Runs of a family of threads under a schedule, and the argument that carries a property
  of every step to every run. A state is whatever the threads share; a schedule is the list
  of the threads that step.
\<close>

fun run_schedule :: "('i \<Rightarrow> 'x \<Rightarrow> 'x option) \<Rightarrow> 'i list \<Rightarrow> 'x \<Rightarrow> 'x option" where
  "run_schedule step [] x = Some x"
| "run_schedule step (i # sched) x = do { y \<leftarrow> step i x; run_schedule step sched y }"

lemma run_schedule_append:
  "run_schedule step (as @ bs) x = do { y \<leftarrow> run_schedule step as x; run_schedule step bs y }"
proof (induction as arbitrary: x)
  case (Cons i as)
  then show ?case by (cases "step i x") simp_all
qed simp

text \<open>
  A family of threads whose steps never fault in a good state, lead to good states and
  relate each state to the next by a preorder: what the threads may change.
\<close>

locale thread_family =
  fixes step :: "nat \<Rightarrow> 'x \<Rightarrow> 'x option" and threads :: "'x \<Rightarrow> nat" and good :: "'x \<Rightarrow> bool" and change :: "'x \<Rightarrow> 'x \<Rightarrow> bool"
  assumes change_refl: "change x x"
    and change_trans: "change x y \<Longrightarrow> change y z \<Longrightarrow> change x z"
    and step_total: "good x \<Longrightarrow> i < threads x \<Longrightarrow> \<exists>y. step i x = Some y \<and> good y \<and> threads y = threads x \<and> change x y"
begin

lemma run_total:
  assumes "good x" "list_all (\<lambda>i. i < threads x) sched"
  shows "\<exists>y. run_schedule step sched x = Some y \<and> good y \<and> threads y = threads x \<and> change x y"
  using assms
proof (induction sched arbitrary: x)
  case Nil
  then show ?case by (simp add: change_refl)
next
  case (Cons i sched)
  from step_total [OF Cons.prems(1), of i] Cons.prems(2) obtain y where
    y: "step i x = Some y" "good y" "threads y = threads x" "change x y" by auto
  from Cons.IH [OF y(2)] Cons.prems(2) y(3) obtain z where
    "run_schedule step sched y = Some z" "good z" "threads z = threads y" "change y z" by auto
  with y change_trans [of x y z] show ?case by simp
qed

end

section \<open>Counting what the threads hold\<close>

lemma sum_list_update_mset:
  fixes f :: "'a \<Rightarrow> 'b multiset"
  assumes "i < length xs"
  shows "(\<Sum>x \<leftarrow> xs[i := y]. f x) + f (xs ! i) = (\<Sum>x \<leftarrow> xs. f x) + f y"
  using assms
proof (induction xs arbitrary: i)
  case (Cons a xs)
  then show ?case by (cases i) (auto simp: ac_simps)
qed simp

lemma mset_exchange:
  fixes c :: "'a multiset"
  assumes "c' + p' + i' = c + p + i" "t' + p = t + p'"
  shows "c' + (t' + i') = c + (t + i)"
proof -
  have "c' + (t' + i') + p = (c' + i') + (t' + p)" by (simp only: ac_simps)
  also have "\<dots> = (c' + p' + i') + t" unfolding assms(2) by (simp only: ac_simps)
  also have "\<dots> = c + (t + i) + p" unfolding assms(1) by (simp only: ac_simps)
  finally show ?thesis by simp
qed

lemma concat_pick:
  "i < length xs \<Longrightarrow> mset (concat (map f (xs[i := y]))) = mset (f y @ concat (map f (take i xs @ drop (Suc i) xs)))"
  by (simp add: upd_conv_take_nth_drop)

end
