(* ===== verification/Dispatch.thy ===== *)
theory Dispatch
  imports Internal_Messages Scheduling
begin

text \<open>
  The dispatch threads (\<^verbatim>\<open>dispatch.c\<close>). A thread is a program counter over the points of
  \<^verbatim>\<open>dispatch_routine\<close> between which it takes or waits for a lock; a step runs the code from
  one point to the next. The theory shows that a thread delivers the inbound messages in
  order, each to every callback, and that it stops when the shutdown code is set.
\<close>

section \<open>State\<close>

definition SUBSTANCE_CONNECTOR_DISPATCH_COUNT :: nat where "SUBSTANCE_CONNECTOR_DISPATCH_COUNT = 2"

text \<open>
  The points of the routine, with the value of its variable \<open>message\<close>: the head of the outer
  loop, the head of the waiting loop with the lock held, the condition wait, its return, the
  head of the processing loop, the label \<open>thread_exit\<close> and the end of the thread.
\<close>

datatype dispatch_pc =
    DLoop "connector_message cptr"
  | DLocked "connector_message cptr"
  | DWaiting
  | DWoken
  | DProcess "connector_message cptr"
  | DExit "connector_message cptr"
  | DDone

record connector_dispatch_thread =
  dt_initialized :: bool
  dt_id :: nat
  dt_pc :: dispatch_pc

record dispatch_module =
  dispatch_threads :: "connector_dispatch_thread list"
  dispatch_shutdown_code :: u32
  dispatch_signal_main :: bool
  main_broadcasts :: nat

section \<open>The routine\<close>

definition dispatch_signal_main_condition :: "dispatch_module \<Rightarrow> dispatch_module" where
  "dispatch_signal_main_condition d =
     (if dispatch_signal_main d then d\<lparr>main_broadcasts := Suc (main_broadcasts d)\<rparr> else d)"

definition acquire_inbound :: "'w sys \<Rightarrow> (connector_message cptr \<times> 'w sys) option" where
  "acquire_inbound s = do {
     (m, q, w) \<leftarrow> connector_acquire_inbound_message (queues s, world s);
     Some (m, s\<lparr>queues := q, world := w\<rparr>) }"

text \<open>The body of the processing loop up to the next acquisition.\<close>

definition dispatch_message :: "'w os \<Rightarrow> connector_message cptr \<Rightarrow> 'w sys \<Rightarrow> 'w sys option" where
  "dispatch_message env message s = do {
     m \<leftarrow> deref message;
     h \<leftarrow> deref (msg_header m);
     s1 \<leftarrow> (if CONNECTOR_IDENTIFY_INTERNAL (description h) then do {
              (_, s') \<leftarrow> connector_call_internal_message env (msg_context m) (message_id h) (msg_message m) s;
              Some s' }
            else do {
              (_, cs) \<leftarrow> connector_notify_trampolines (trampolines s) (msg_context m) (message_id h) (msg_message m);
              Some (s\<lparr>calls := calls s @ cs\<rparr>) });
     _ \<leftarrow> release_message message;
     Some s1 }"

definition dispatch_routine ::
    "'w os \<Rightarrow> nat \<Rightarrow> dispatch_pc \<Rightarrow> dispatch_module \<Rightarrow> 'w sys \<Rightarrow> (dispatch_pc \<times> dispatch_module \<times> 'w sys) option" where
  "dispatch_routine env i pc d s =
     (case pc of
        DLoop message \<Rightarrow>
          if dispatch_shutdown_code d = 0 then do {
            (m, s1) \<leftarrow> acquire_inbound s;
            Some (DLocked m, d, s1) }
          else Some (DExit message, d, s)
      | DLocked message \<Rightarrow>
          if message = NULL \<and> dispatch_shutdown_code d = 0 then
            Some (DWaiting, d\<lparr>dispatch_threads := (dispatch_threads d)[i := (dispatch_threads d ! i)\<lparr>dt_initialized := True\<rparr>]\<rparr>, s)
          else Some (DProcess message, d, s)
      | DWaiting \<Rightarrow> Some (DWoken, d, s)
      | DWoken \<Rightarrow>
          if dispatch_shutdown_code d \<noteq> 0 then Some (DExit NULL, d, s)
          else do {
            (m, s1) \<leftarrow> acquire_inbound s;
            Some (DLocked m, if m = NULL then dispatch_signal_main_condition d else d, s1) }
      | DProcess message \<Rightarrow>
          if message \<noteq> NULL \<and> dispatch_shutdown_code d = 0 then do {
            s1 \<leftarrow> dispatch_message env message s;
            (m, s2) \<leftarrow> acquire_inbound s1;
            Some (DProcess m, d, s2) }
          else Some (DLoop message, dispatch_signal_main_condition d, s)
      | DExit message \<Rightarrow> do {
          _ \<leftarrow> release_message message;
          Some (DDone, d, s) }
      | DDone \<Rightarrow> Some (DDone, d, s))"

section \<open>The subsystem\<close>

definition connector_await_dispatch ::
    "dispatch_module \<Rightarrow> 'w sys \<Rightarrow> substance_connector_error \<times> 'w sys" where
  "connector_await_dispatch d s =
     (if dispatch_signal_main d then (SUBSTANCE_CONNECTOR_SUCCESS, snd (connector_flag_dispatch s))
      else (SUBSTANCE_CONNECTOR_ERROR, s))"

text \<open>Creation starts the threads at the head of the routine; the caller then spins until all have waited once.\<close>

definition connector_init_dispatch_subsystem :: "bool \<Rightarrow> dispatch_module \<Rightarrow> dispatch_module" where
  "connector_init_dispatch_subsystem signal_main d =
     (let d1 = (if signal_main then d\<lparr>dispatch_signal_main := True\<rparr> else d)
      in d1\<lparr>dispatch_threads := map (\<lambda>i. \<lparr>dt_initialized = False, dt_id = i, dt_pc = DLoop NULL\<rparr>)
           [0..<SUBSTANCE_CONNECTOR_DISPATCH_COUNT]\<rparr>)"

definition dispatch_initialized :: "dispatch_module \<Rightarrow> bool" where
  "dispatch_initialized d \<longleftrightarrow> list_all dt_initialized (dispatch_threads d)"

text \<open>
  \<^verbatim>\<open>terminate_dispatch\<close> in two parts: the request, and the reset of the code after every thread
  was joined. The broadcast lets a waiting thread take its next step.
\<close>

definition terminate_dispatch_request :: "dispatch_module \<Rightarrow> dispatch_module" where
  "terminate_dispatch_request d =
     d\<lparr>dispatch_shutdown_code := fst (CONNECTOR_ATOMIC_COMPARE_EXCHANGE (dispatch_shutdown_code d) 0 1)\<rparr>"

definition dispatch_joined :: "dispatch_module \<Rightarrow> bool" where
  "dispatch_joined d \<longleftrightarrow> list_all (\<lambda>t. dt_pc t = DDone) (dispatch_threads d)"

definition terminate_dispatch_reset :: "dispatch_module \<Rightarrow> dispatch_module" where
  "terminate_dispatch_reset d =
     d\<lparr>dispatch_shutdown_code := fst (CONNECTOR_ATOMIC_COMPARE_EXCHANGE (dispatch_shutdown_code d) 1 0)\<rparr>"

text \<open>The thread \<open>i\<close> takes a step.\<close>

definition dispatch_thread_step ::
    "'w os \<Rightarrow> nat \<Rightarrow> dispatch_module \<times> 'w sys \<Rightarrow> (dispatch_module \<times> 'w sys) option" where
  "dispatch_thread_step env i x = (case x of (d, s) \<Rightarrow>
     if i < length (dispatch_threads d) then do {
       (pc, d1, s1) \<leftarrow> dispatch_routine env i (dt_pc (dispatch_threads d ! i)) d s;
       Some (d1\<lparr>dispatch_threads := (dispatch_threads d1)[i := (dispatch_threads d1 ! i)\<lparr>dt_pc := pc\<rparr>]\<rparr>, s1) }
     else None)"

abbreviation dispatch_run ::
    "'w os \<Rightarrow> nat list \<Rightarrow> dispatch_module \<times> 'w sys \<Rightarrow> (dispatch_module \<times> 'w sys) option" where
  "dispatch_run env sched x \<equiv> run_schedule (dispatch_thread_step env) sched x"

section \<open>What a message is worth\<close>

text \<open>The calls a message causes: one per registered callback, none if it is internal.\<close>

definition delivery :: "nat list \<Rightarrow> connector_message cptr \<Rightarrow> trampoline_call list" where
  "delivery fs message = (case deref message of None \<Rightarrow> [] | Some m \<Rightarrow>
     (case deref (msg_header m) of None \<Rightarrow> [] | Some h \<Rightarrow>
        if CONNECTOR_IDENTIFY_INTERNAL (description h) then []
        else map (\<lambda>f. \<lparr>call_target = f, call_context = msg_context m, call_type = message_id h,
               call_message = msg_message m\<rparr>) fs))"

lemma delivery_NULL [simp]: "delivery fs NULL = []"
  by (simp add: delivery_def)

text \<open>Messages as the read threads build them: a block of its own with a header and a text.\<close>

definition deliverable :: "connector_message cptr \<Rightarrow> bool" where
  "deliverable message \<longleftrightarrow> (\<exists>m h. message = OWNED m \<and> deref (msg_header m) = Some h \<and>
     (msg_message m = NULL \<or> (\<exists>t. msg_message m = OWNED t)) \<and>
     (CONNECTOR_IDENTIFY_INTERNAL (description h) \<and> message_id h = connector_internal_handshake_uuid \<longrightarrow>
        msg_context m < SUBSTANCE_CONNECTOR_CONTEXT_COUNT \<and>
        (\<exists>t. msg_message m = OWNED t \<and> 0 \<in> set t \<and> length t < 2 ^ 64)))"

definition ready :: "nat list \<Rightarrow> 'w sys \<Rightarrow> bool" where
  "ready fs s \<longleftrightarrow> wf_queues (queues s) \<and> registered (trampolines s) fs \<and>
     (\<exists>b. deref (application_name s) = Some b \<and> 0 \<in> set b \<and> length b < 2 ^ 64) \<and>
     length (context_list s) = 32 \<and> (\<forall>c \<in> set (context_list s). name_ok (ctx_application_name c))"

lemma deliverable_release: "deliverable m \<Longrightarrow> release_message m = Some ()"
  by (auto simp: deliverable_def release_message_def connector_clear_message_def)

lemma ready_set_context:
  "ready fs s \<Longrightarrow> name_ok (ctx_application_name c) \<Longrightarrow> ready fs (set_context i c s)"
  by (auto simp: ready_def dest!: subsetD [OF set_update_subset_insert])

text \<open>Processing one message makes its calls and nothing else that a thread depends on.\<close>

lemma dispatch_message_ready:
  assumes al: "allocator_succeeds env" and rd: "ready fs s" and dl: "deliverable message"
  shows "\<exists>s'. dispatch_message env message s = Some s' \<and> ready fs s' \<and> calls s' = calls s @ delivery fs message \<and>
    inbound_messages (queues s') = inbound_messages (queues s)"
proof -
  obtain m h where m: "message = OWNED m" "deref (msg_header m) = Some h" using dl by (auto simp: deliverable_def)
  note rel = deliverable_release [OF dl]
  show ?thesis
  proof (cases "CONNECTOR_IDENTIFY_INTERNAL (description h)")
    case False
    have "connector_notify_trampolines (trampolines s) (msg_context m) (message_id h) (msg_message m) =
        Some (SUBSTANCE_CONNECTOR_SUCCESS, delivery fs message)"
      using rd m False by (simp add: registered_notify ready_def delivery_def)
    then show ?thesis using m False rel rd by (simp add: dispatch_message_def ready_def)
  next
    case True
    then have dv: "delivery fs message = []" using m by (simp add: delivery_def)
    show ?thesis
    proof (cases "message_id h = connector_internal_handshake_uuid")
      case False
      then have "connector_call_internal_message env (msg_context m) (message_id h) (msg_message m) s =
          Some (SUBSTANCE_CONNECTOR_ERROR, s)"
        by (simp add: connector_call_internal_message_def find_callback_handshake)
      then show ?thesis using m True rel rd dv by (simp add: dispatch_message_def)
    next
      case hs: True
      obtain b where b: "deref (application_name s) = Some b" "0 \<in> set b" "length b < 2 ^ 64" and q: "wf_queues (queues s)"
        and tab: "length (context_list s) = 32" "\<forall>c \<in> set (context_list s). name_ok (ctx_application_name c)"
        using rd by (auto simp: ready_def)
      obtain t where t: "deref (msg_message m) = Some t" "0 \<in> set t" "length t < 2 ^ 64"
        and ctx: "msg_context m < SUBSTANCE_CONNECTOR_CONTEXT_COUNT" using dl m True hs by (auto simp: deliverable_def)
      have lt: "unat (msg_context m) < 32"
        using ctx by (simp add: SUBSTANCE_CONNECTOR_CONTEXT_COUNT_def word_less_nat_alt)
      then obtain c where c: "get_context s (msg_context m) = Some c" "name_ok (ctx_application_name c)"
        using tab by (auto simp: get_context_def)
      let ?c = "c\<lparr>ctx_application_name := OWNED (c_string (cstr t))\<rparr>"
      obtain q' w' where r: "internal_handshake_callback env (msg_context m) (message_id h) (msg_message m) s =
          Some (set_context (msg_context m) ?c (signal WakeWrite (s\<lparr>queues := q', world := w'\<rparr>)))"
        "wf_queues q'" "inbound_messages q' = inbound_messages (queues s)"
        using handshake_callback_result [OF al q b t ctx c] by blast
      have "ready fs (signal WakeWrite (s\<lparr>queues := q', world := w'\<rparr>))" using rd r(2) by (simp add: ready_def)
      moreover have "name_ok (ctx_application_name ?c)" using cstr_no_zero [of t] by (auto simp: name_ok_def)
      ultimately have "ready fs (set_context (msg_context m) ?c (signal WakeWrite (s\<lparr>queues := q', world := w'\<rparr>)))"
        by (rule ready_set_context)
      then show ?thesis using r m True hs rel dv
        by (simp add: dispatch_message_def connector_call_internal_message_def find_callback_handshake)
    qed
  qed
qed

lemma acquire_inbound_ready:
  assumes "ready fs s"
  shows "\<exists>s'. acquire_inbound s = Some (case inbound_messages (queues s) of [] \<Rightarrow> NULL | m # _ \<Rightarrow> m, s') \<and> ready fs s' \<and>
    inbound_messages (queues s') = tl (inbound_messages (queues s)) \<and> calls s' = calls s"
proof (cases "inbound_messages (queues s)")
  case Nil
  with inbound_dequeue_empty [of "queues s" "world s"] assms show ?thesis by (simp add: acquire_inbound_def ready_def)
next
  case (Cons m ms)
  with inbound_dequeue [of "queues s" m ms "world s"] assms show ?thesis by (auto simp: acquire_inbound_def ready_def)
qed

section \<open>One thread on its own\<close>

fun dispatch_steps :: "nat \<Rightarrow> 'w os \<Rightarrow> nat \<Rightarrow> dispatch_pc \<Rightarrow> dispatch_module \<Rightarrow> 'w sys \<Rightarrow>
    (dispatch_pc \<times> dispatch_module \<times> 'w sys) option" where
  "dispatch_steps 0 env i pc d s = Some (pc, d, s)"
| "dispatch_steps (Suc n) env i pc d s = do {
     (pc', d', s') \<leftarrow> dispatch_routine env i pc d s;
     dispatch_steps n env i pc' d' s' }"

lemma process_drains:
  assumes "allocator_succeeds env" "ready fs s" "dispatch_shutdown_code d = 0"
    "deliverable m" "list_all deliverable (inbound_messages (queues s))"
  shows "\<exists>s'. dispatch_steps (Suc (length (inbound_messages (queues s)))) env i (DProcess m) d s = Some (DProcess NULL, d, s') \<and>
    ready fs s' \<and> inbound_messages (queues s') = [] \<and>
    calls s' = calls s @ concat (map (delivery fs) (m # inbound_messages (queues s)))"
  using assms
proof (induction "inbound_messages (queues s)" arbitrary: m s)
  case Nil
  have "m \<noteq> NULL" using Nil.prems(4) by (auto simp: deliverable_def)
  obtain s1 where s1: "dispatch_message env m s = Some s1" "ready fs s1" "calls s1 = calls s @ delivery fs m"
    "inbound_messages (queues s1) = []"
    using dispatch_message_ready [OF Nil.prems(1,2,4)] Nil.hyps by auto
  with acquire_inbound_ready [OF s1(2)] \<open>m \<noteq> NULL\<close> Nil.prems(3) Nil.hyps show ?case
    by (auto simp: dispatch_routine_def)
next
  case (Cons x xs)
  have "m \<noteq> NULL" using Cons.prems(4) by (auto simp: deliverable_def)
  obtain s1 where s1: "dispatch_message env m s = Some s1" "ready fs s1" "calls s1 = calls s @ delivery fs m"
    "inbound_messages (queues s1) = x # xs"
    using dispatch_message_ready [OF Cons.prems(1,2,4)] Cons.hyps(2) by auto
  obtain s2 where s2: "acquire_inbound s1 = Some (x, s2)" "ready fs s2" "inbound_messages (queues s2) = xs" "calls s2 = calls s1"
    using acquire_inbound_ready [OF s1(2)] s1(4) by auto
  have "dispatch_routine env i (DProcess m) d s = Some (DProcess x, d, s2)"
    using \<open>m \<noteq> NULL\<close> Cons.prems(3) s1(1) s2(1) by (simp add: dispatch_routine_def)
  moreover have "deliverable x" "list_all deliverable (inbound_messages (queues s2))"
    using Cons.prems(5) Cons.hyps(2) s2(3) by (metis list.pred_inject(2))+
  ultimately show ?case
    using Cons.hyps(1) [OF s2(3) [symmetric] Cons.prems(1) s2(2) Cons.prems(3)] s1(3) s2(3,4)
    by (simp flip: Cons.hyps(2))
qed

section \<open>Any interleaving of the threads\<close>

fun pc_message :: "dispatch_pc \<Rightarrow> connector_message cptr" where
  "pc_message (DLoop m) = m"
| "pc_message (DLocked m) = m"
| "pc_message (DProcess m) = m"
| "pc_message (DExit m) = m"
| "pc_message _ = NULL"

text \<open>The points a thread can be at while the shutdown code is clear, holding nothing or a good message.\<close>

definition pc_ok :: "dispatch_pc \<Rightarrow> bool" where
  "pc_ok pc \<longleftrightarrow> (case pc of DLoop m \<Rightarrow> m = NULL | DExit m \<Rightarrow> False | DDone \<Rightarrow> False
     | _ \<Rightarrow> pc_message pc = NULL \<or> deliverable (pc_message pc))"

definition dispatch_ok :: "nat list \<Rightarrow> dispatch_module \<times> 'w sys \<Rightarrow> bool" where
  "dispatch_ok fs x \<longleftrightarrow> (case x of (d, s) \<Rightarrow> dispatch_shutdown_code d = 0 \<and> ready fs s \<and>
     list_all deliverable (inbound_messages (queues s)) \<and> list_all (\<lambda>t. pc_ok (dt_pc t)) (dispatch_threads d))"

text \<open>The calls made, the calls owed for messages the threads hold, and those owed for the queue.\<close>

definition calls_owed :: "nat list \<Rightarrow> dispatch_module \<times> 'w sys \<Rightarrow> trampoline_call multiset" where
  "calls_owed fs x = (case x of (d, s) \<Rightarrow>
     (\<Sum>t \<leftarrow> dispatch_threads d. mset (delivery fs (pc_message (dt_pc t)))) +
     mset (concat (map (delivery fs) (inbound_messages (queues s)))))"

lemma routine_conserves:
  assumes "allocator_succeeds env" "dispatch_shutdown_code d = 0" "ready fs s"
    "list_all deliverable (inbound_messages (queues s))" "pc_ok pc"
  shows "\<exists>pc' d' s'. dispatch_routine env i pc d s = Some (pc', d', s') \<and> pc_ok pc' \<and> ready fs s' \<and>
    list_all deliverable (inbound_messages (queues s')) \<and> dispatch_shutdown_code d' = 0 \<and>
    (dispatch_threads d' = dispatch_threads d \<or>
      dispatch_threads d' = (dispatch_threads d)[i := (dispatch_threads d ! i)\<lparr>dt_initialized := True\<rparr>]) \<and>
    mset (calls s') + mset (delivery fs (pc_message pc')) + mset (concat (map (delivery fs) (inbound_messages (queues s')))) =
    mset (calls s) + mset (delivery fs (pc_message pc)) + mset (concat (map (delivery fs) (inbound_messages (queues s))))"
proof -
  have acq: "\<exists>m s'. acquire_inbound t = Some (m, s') \<and> (m = NULL \<or> deliverable m) \<and> ready fs s' \<and>
      list_all deliverable (inbound_messages (queues s')) \<and> calls s' = calls t \<and>
      mset (delivery fs m) + mset (concat (map (delivery fs) (inbound_messages (queues s')))) =
      mset (concat (map (delivery fs) (inbound_messages (queues t))))"
    if "ready fs t" "list_all deliverable (inbound_messages (queues t))" for t :: "'a sys"
    using acquire_inbound_ready [OF that(1)] that(2)
    by (cases "inbound_messages (queues t)") (fastforce simp: list_all_iff)+
  obtain m1 s1 where a1: "acquire_inbound s = Some (m1, s1)" "m1 = NULL \<or> deliverable m1" "ready fs s1"
    "list_all deliverable (inbound_messages (queues s1))" "calls s1 = calls s"
    "mset (delivery fs m1) + mset (concat (map (delivery fs) (inbound_messages (queues s1)))) =
      mset (concat (map (delivery fs) (inbound_messages (queues s))))"
    using acq [OF assms(3,4)] by blast
  show ?thesis
  proof (cases pc)
    case (DLoop m)
    with assms a1 show ?thesis by (auto simp: dispatch_routine_def pc_ok_def)
  next
    case (DLocked m)
    with assms show ?thesis by (auto simp: dispatch_routine_def pc_ok_def)
  next
    case DWaiting
    with assms show ?thesis by (auto simp: dispatch_routine_def pc_ok_def)
  next
    case DWoken
    with assms a1 show ?thesis by (auto simp: dispatch_routine_def pc_ok_def dispatch_signal_main_condition_def)
  next
    case (DProcess m)
    show ?thesis
    proof (cases "m = NULL")
      case True
      with assms DProcess show ?thesis by (auto simp: dispatch_routine_def pc_ok_def dispatch_signal_main_condition_def)
    next
      case False
      then have "deliverable m" using assms(5) DProcess by (simp add: pc_ok_def)
      from dispatch_message_ready [OF assms(1,3) this] obtain s2 where
        s2: "dispatch_message env m s = Some s2" "ready fs s2" "calls s2 = calls s @ delivery fs m"
          "inbound_messages (queues s2) = inbound_messages (queues s)" by blast
      obtain m3 s3 where a3: "acquire_inbound s2 = Some (m3, s3)" "m3 = NULL \<or> deliverable m3" "ready fs s3"
        "list_all deliverable (inbound_messages (queues s3))" "calls s3 = calls s2"
        "mset (delivery fs m3) + mset (concat (map (delivery fs) (inbound_messages (queues s3)))) =
          mset (concat (map (delivery fs) (inbound_messages (queues s2))))"
        using acq [OF s2(2)] s2(4) assms(4) by auto
      have "dispatch_routine env i pc d s = Some (DProcess m3, d, s3)"
        using False assms(2) s2(1) a3(1) DProcess by (simp add: dispatch_routine_def)
      moreover have "pc_ok (DProcess m3)" using a3(2) by (simp add: pc_ok_def)
      moreover have "mset (calls s3) + mset (delivery fs m3) + mset (concat (map (delivery fs) (inbound_messages (queues s3)))) =
          mset (calls s) + mset (delivery fs m) + mset (concat (map (delivery fs) (inbound_messages (queues s))))"
        using a3(5,6) s2(3,4) by (simp add: ac_simps)
      ultimately show ?thesis using a3(3,4) assms(2) DProcess by simp
    qed
  qed (use assms(5) in \<open>auto simp: pc_ok_def\<close>)
qed

lemma thread_step_conserves:
  assumes al: "allocator_succeeds env" and ok: "dispatch_ok fs (d, s)" and i: "i < length (dispatch_threads d)"
  shows "\<exists>d' s'. dispatch_thread_step env i (d, s) = Some (d', s') \<and> dispatch_ok fs (d', s') \<and>
    length (dispatch_threads d') = length (dispatch_threads d) \<and>
    mset (calls s') + calls_owed fs (d', s') = mset (calls s) + calls_owed fs (d, s)"
proof -
  let ?t = "dispatch_threads d ! i"
  have o: "dispatch_shutdown_code d = 0" "ready fs s" "list_all deliverable (inbound_messages (queues s))"
    "list_all (\<lambda>t. pc_ok (dt_pc t)) (dispatch_threads d)" using ok by (auto simp: dispatch_ok_def)
  then have "pc_ok (dt_pc ?t)" using i by (simp add: list_all_length)
  from routine_conserves [OF al o(1-3) this, of i] obtain pc' d' s' where
    r: "dispatch_routine env i (dt_pc ?t) d s = Some (pc', d', s')" "pc_ok pc'" "ready fs s'"
      "list_all deliverable (inbound_messages (queues s'))" "dispatch_shutdown_code d' = 0"
    and th: "dispatch_threads d' = dispatch_threads d \<or> dispatch_threads d' = (dispatch_threads d)[i := ?t\<lparr>dt_initialized := True\<rparr>]"
    and eq: "mset (calls s') + mset (delivery fs (pc_message pc')) + mset (concat (map (delivery fs) (inbound_messages (queues s')))) =
      mset (calls s) + mset (delivery fs (pc_message (dt_pc ?t))) + mset (concat (map (delivery fs) (inbound_messages (queues s))))"
    by blast
  obtain u where u: "(dispatch_threads d')[i := (dispatch_threads d' ! i)\<lparr>dt_pc := pc'\<rparr>] = (dispatch_threads d)[i := u]" "dt_pc u = pc'"
    using th i by auto
  let ?d = "d'\<lparr>dispatch_threads := (dispatch_threads d)[i := u]\<rparr>"
  have step: "dispatch_thread_step env i (d, s) = Some (?d, s')"
    using r(1) i u(1) by (simp add: dispatch_thread_step_def)
  have "list_all (\<lambda>t. pc_ok (dt_pc t)) ((dispatch_threads d)[i := u])"
    using o(4) r(2) u(2) i by (auto simp: list_all_length nth_list_update)
  then have ok': "dispatch_ok fs (?d, s')" using r by (simp add: dispatch_ok_def)
  have "(\<Sum>t \<leftarrow> (dispatch_threads d)[i := u]. mset (delivery fs (pc_message (dt_pc t)))) + mset (delivery fs (pc_message (dt_pc ?t)))
      = (\<Sum>t \<leftarrow> dispatch_threads d. mset (delivery fs (pc_message (dt_pc t)))) + mset (delivery fs (pc_message pc'))"
    using sum_list_update_mset [OF i, of "\<lambda>t. mset (delivery fs (pc_message (dt_pc t)))" u] u(2) by simp
  from mset_exchange [OF eq this] have "mset (calls s') + calls_owed fs (?d, s') = mset (calls s) + calls_owed fs (d, s)"
    by (simp add: calls_owed_def)
  with step ok' show ?thesis by auto
qed

text \<open>The dispatch threads are a family that conserves the calls owed.\<close>

definition dispatch_good :: "'w os \<Rightarrow> nat list \<Rightarrow> dispatch_module \<times> 'w sys \<Rightarrow> bool" where
  "dispatch_good env fs x \<longleftrightarrow> allocator_succeeds env \<and> dispatch_ok fs x"

definition same_calls :: "nat list \<Rightarrow> dispatch_module \<times> 'w sys \<Rightarrow> dispatch_module \<times> 'w sys \<Rightarrow> bool" where
  "same_calls fs x y \<longleftrightarrow> mset (calls (snd y)) + calls_owed fs y = mset (calls (snd x)) + calls_owed fs x"

interpretation dispatchers: thread_family "dispatch_thread_step env" "\<lambda>x. length (dispatch_threads (fst x))"
  "dispatch_good env fs" "same_calls fs" for env :: "'w os" and fs
proof unfold_locales
  fix x :: "dispatch_module \<times> 'w sys" and i
  assume g: "dispatch_good env fs x" and i: "i < length (dispatch_threads (fst x))"
  obtain d s where x: "x = (d, s)" by fastforce
  from thread_step_conserves [of env fs d s i] g i show "\<exists>y. dispatch_thread_step env i x = Some y \<and> dispatch_good env fs y \<and>
      length (dispatch_threads (fst y)) = length (dispatch_threads (fst x)) \<and> same_calls fs x y"
    by (auto simp: x dispatch_good_def same_calls_def)
qed (simp_all add: same_calls_def)

section \<open>Stopping\<close>

text \<open>A thread that holds nothing or a message it can release.\<close>

definition releasable_pc :: "dispatch_pc \<Rightarrow> bool" where
  "releasable_pc pc \<longleftrightarrow> release_message (pc_message pc) = Some ()"

lemma release_NULL [simp]: "release_message NULL = Some ()"
  by (simp add: release_message_def connector_clear_message_def)

section \<open>A concrete module\<close>

definition sample_dispatch_sys :: "u8 list sys" where
  "sample_dispatch_sys = connected_sys\<lparr>queues := snd (connector_init_message_queue_subsystem no_queues),
     trampolines := \<lparr>tr_heap = [0 \<mapsto> \<lparr>node_trampoline = 5, node_link = None\<rparr>], tr_fresh = 1, tr_front = Some 0\<rparr>\<rparr>"

definition sample_dispatch :: dispatch_module where
  "sample_dispatch = \<lparr>dispatch_threads = [\<lparr>dt_initialized = True, dt_id = 0, dt_pc = DProcess sample_message\<rparr>,
       \<lparr>dt_initialized = True, dt_id = 1, dt_pc = DLoop NULL\<rparr>],
     dispatch_shutdown_code = 0, dispatch_signal_main = False, main_broadcasts = 0\<rparr>"

lemma sample_ready: "ready [5] sample_dispatch_sys" "inbound_messages (queues sample_dispatch_sys) = []"
proof -
  have q: "wf_queues (snd (connector_init_message_queue_subsystem no_queues))"
    "inbound_messages (snd (connector_init_message_queue_subsystem no_queues)) = []"
    using init_wf [of no_queues] by (auto simp: no_queues_def)
  have "wf_trampolines (trampolines sample_dispatch_sys) [0]" "targets (trampolines sample_dispatch_sys) [0] = [5]"
    by (simp_all add: wf_trampolines_def targets_def sample_dispatch_sys_def)
  then have "registered (trampolines sample_dispatch_sys) [5]" by (auto simp: registered_def)
  with q show "ready [5] sample_dispatch_sys" "inbound_messages (queues sample_dispatch_sys) = []"
    by (auto simp: ready_def sample_dispatch_sys_def connected_sys_def sample_context_def zero_context_def name_ok_def
        split: if_splits)
qed

lemma sample_deliverable: "deliverable sample_message"
  by (simp add: deliverable_def sample_message_def)

lemma sample_delivery: "delivery [5] sample_message =
  [\<lparr>call_target = 5, call_context = 0, call_type = UUID 1 2 3 4, call_message = OWNED [104, 105, 0]\<rparr>]"
  by (simp add: delivery_def sample_message_def)

section \<open>Properties\<close>

text \<open>
  A dispatch thread delivers in order. A thread that starts processing a message goes
  through the whole inbound queue in as many steps as there are messages, ends with the queue
  empty and nothing in hand, and has made the calls of each message, in the order of the queue
  and within a message in the order of the registered callbacks; internal messages are
  handled without a call.
\<close>

theorem dispatch_delivers_in_order:
  assumes "allocator_succeeds env" and "ready fs s" and "dispatch_shutdown_code d = 0"
    and "deliverable m" and "list_all deliverable (inbound_messages (queues s))"
  shows "\<exists>s'. dispatch_steps (Suc (length (inbound_messages (queues s)))) env i (DProcess m) d s = Some (DProcess NULL, d, s') \<and>
    inbound_messages (queues s') = [] \<and>
    calls s' = calls s @ concat (map (delivery fs) (m # inbound_messages (queues s)))"
  using process_drains [OF assms] by blast

theorem dispatch_delivers_in_order_witness:
  "\<exists>s'. dispatch_steps 1 sample_os 0 (DProcess sample_message) sample_dispatch sample_dispatch_sys
       = Some (DProcess NULL, sample_dispatch, s') \<and>
     calls s' = [\<lparr>call_target = 5, call_context = 0, call_type = UUID 1 2 3 4, call_message = OWNED [104, 105, 0]\<rparr>]"
  using dispatch_delivers_in_order [OF sample_os_allocator sample_ready(1) _ sample_deliverable, of sample_dispatch 0] sample_ready(2)
  by (auto simp: sample_dispatch_def sample_delivery sample_dispatch_sys_def connected_sys_def initial_sys_def)



text \<open>
  A dispatch thread stops. Once the shutdown code is set, a thread at any point of its
  routine reaches its end within four of its own steps, makes no further call, takes nothing
  from the queue, and releases the message it held.
\<close>

theorem dispatch_thread_stops:
  assumes "dispatch_shutdown_code d \<noteq> 0" and "releasable_pc pc"
  shows "\<exists>d'. dispatch_steps 4 env i pc d s = Some (DDone, d', s)"
proof -
  have [simp]: "dispatch_shutdown_code (dispatch_signal_main_condition d) = dispatch_shutdown_code d"
    by (simp add: dispatch_signal_main_condition_def)
  show ?thesis using assms
    by (cases pc) (simp_all add: numeral_eq_Suc dispatch_routine_def releasable_pc_def)
qed

theorem dispatch_thread_stops_witness:
  "\<exists>d'. dispatch_steps 4 sample_os 0 (DProcess sample_message) (terminate_dispatch_request sample_dispatch) sample_dispatch_sys
     = Some (DDone, d', sample_dispatch_sys)"
proof -
  have "releasable_pc (DProcess sample_message)"
    using deliverable_release [OF sample_deliverable] by (simp add: releasable_pc_def)
  then show ?thesis
    by (intro dispatch_thread_stops) (simp_all add: terminate_dispatch_request_def sample_dispatch_def)
qed

end
