(* ===== verification/Read_Struct.thy ===== *)
theory Read_Struct
  imports Context_Ownership
begin

text \<open>
  The set of contexts a read thread serves (\<^verbatim>\<open>readstructimpl.c\<close>): two parallel arrays of 17
  slots, of which the first \<open>assigned_contexts\<close> are in use. A slot outside the arrays is a
  fault. The theory shows that taking and giving up contexts keeps the ownership of every
  index, and that the cleanup gives up exactly the contexts marked for shutdown.
\<close>

section \<open>The structure and its operations\<close>

definition SUBSTANCE_CONNECTOR_INBOUND_COUNT :: nat where "SUBSTANCE_CONNECTOR_INBOUND_COUNT = 2"

definition SUBSTANCE_CONNECTOR_READ_CONTEXTS :: u32 where
  "SUBSTANCE_CONNECTOR_READ_CONTEXTS = SUBSTANCE_CONNECTOR_CONTEXT_COUNT div of_nat SUBSTANCE_CONNECTOR_INBOUND_COUNT + 1"

definition POLLIN :: u16 where "POLLIN = 0x001"
definition POLLERR :: u16 where "POLLERR = 0x008"
definition POLLHUP :: u16 where "POLLHUP = 0x010"

record connector_read_thread =
  rt_id :: nat
  rt_contexts :: "pollfd list"
  rt_context_ids :: "u32 list"
  assigned_contexts :: u32

definition slot :: "'a list \<Rightarrow> u32 \<Rightarrow> 'a option" where
  "slot xs i = (if unat i < length xs then Some (xs ! unat i) else None)"

definition put_slot :: "'a list \<Rightarrow> u32 \<Rightarrow> 'a \<Rightarrow> 'a list option" where
  "put_slot xs i x = (if unat i < length xs then Some (xs[unat i := x]) else None)"

definition connector_read_thread_remove_context ::
    "connector_read_thread \<Rightarrow> u32 \<Rightarrow> (substance_connector_error \<times> connector_read_thread) option" where
  "connector_read_thread_remove_context t index =
     (if index < assigned_contexts t then do {
        let n = assigned_contexts t - 1;
        let t1 = t\<lparr>assigned_contexts := n\<rparr>;
        if n > 0 then do {
          last_id \<leftarrow> slot (rt_context_ids t1) n;
          ids \<leftarrow> put_slot (rt_context_ids t1) index last_id;
          last_poll \<leftarrow> slot (rt_contexts t1) n;
          polls \<leftarrow> put_slot (rt_contexts t1) index last_poll;
          Some (SUBSTANCE_CONNECTOR_SUCCESS, t1\<lparr>rt_context_ids := ids, rt_contexts := polls\<rparr>) }
        else Some (SUBSTANCE_CONNECTOR_SUCCESS, t1) }
      else Some (SUBSTANCE_CONNECTOR_ERROR, t))"

definition connector_read_thread_check_load :: "connector_read_thread \<Rightarrow> bool" where
  "connector_read_thread_check_load t \<longleftrightarrow> assigned_contexts t < SUBSTANCE_CONNECTOR_READ_CONTEXTS"

definition connector_read_thread_try_acquire ::
    "'w os \<Rightarrow> connector_read_thread \<Rightarrow> 'w sys \<Rightarrow>
      (substance_connector_error \<times> connector_read_thread \<times> 'w sys) option" where
  "connector_read_thread_try_acquire env t s = do {
     (r, v, q) \<leftarrow> connector_available_queue_pop (connection_queue s);
     let s1 = s\<lparr>connection_queue := q\<rparr>;
     if r = SUBSTANCE_CONNECTOR_SUCCESS then do {
       let ctx = (case v of None \<Rightarrow> 0 | Some i \<Rightarrow> i);
       let index = assigned_contexts t;
       fd \<leftarrow> connector_context_get_fd ctx s1;
       p \<leftarrow> slot (rt_contexts t) index;
       polls \<leftarrow> put_slot (rt_contexts t) index (p\<lparr>pfd_fd := fd, pfd_events := POLLIN\<rparr>);
       ids \<leftarrow> put_slot (rt_context_ids t) index ctx;
       (r2, s2) \<leftarrow> connector_context_write_handshake env ctx s1;
       Some (r2, t\<lparr>rt_contexts := polls, rt_context_ids := ids, assigned_contexts := index + 1\<rparr>, s2) }
     else Some (r, t, s1) }"

text \<open>The loop of the cleanup, from index \<open>n - 1\<close> down to 0.\<close>

fun cleanup_loop ::
    "'w os \<Rightarrow> nat \<Rightarrow> connector_read_thread \<Rightarrow> 'w sys \<Rightarrow> substance_connector_error \<Rightarrow>
      (substance_connector_error \<times> connector_read_thread \<times> 'w sys) option" where
  "cleanup_loop env 0 t s retcode = Some (retcode, t, s)"
| "cleanup_loop env (Suc i) t s retcode = do {
     ctx \<leftarrow> slot (rt_context_ids t) (of_nat i);
     state \<leftarrow> connector_context_state ctx s;
     if state AND ucast SUBSTANCE_CONNECTOR_CONN_SHUTDOWN \<noteq> 0 then do {
       (r, t1) \<leftarrow> connector_read_thread_remove_context t (of_nat i);
       if r = SUBSTANCE_CONNECTOR_SUCCESS then do {
         (r2, s1) \<leftarrow> connector_context_shutdown_from_read_thread env ctx s;
         cleanup_loop env i t1 s1 r2 }
       else cleanup_loop env i t1 s r }
     else cleanup_loop env i t s retcode }"

definition connector_read_thread_cleanup_connections ::
    "'w os \<Rightarrow> connector_read_thread \<Rightarrow> 'w sys \<Rightarrow>
      (substance_connector_error \<times> connector_read_thread \<times> 'w sys) option" where
  "connector_read_thread_cleanup_connections env t s =
     cleanup_loop env (unat (assigned_contexts t)) t s SUBSTANCE_CONNECTOR_ERROR"

section \<open>Well-formed structures\<close>

definition held_ids :: "connector_read_thread \<Rightarrow> u32 list" where
  "held_ids t = take (unat (assigned_contexts t)) (rt_context_ids t)"

definition rt_ok :: "connector_read_thread \<Rightarrow> bool" where
  "rt_ok t \<longleftrightarrow> length (rt_contexts t) = 17 \<and> length (rt_context_ids t) = 17 \<and> unat (assigned_contexts t) \<le> 17"

lemma read_contexts: "SUBSTANCE_CONNECTOR_READ_CONTEXTS = 17"
  by (simp add: SUBSTANCE_CONNECTOR_READ_CONTEXTS_def SUBSTANCE_CONNECTOR_CONTEXT_COUNT_def
      SUBSTANCE_CONNECTOR_INBOUND_COUNT_def)

lemma check_load_iff: "connector_read_thread_check_load t \<longleftrightarrow> unat (assigned_contexts t) < 17"
  by (simp add: connector_read_thread_check_load_def read_contexts word_less_nat_alt)

lemma length_held_ids: "rt_ok t \<Longrightarrow> length (held_ids t) = unat (assigned_contexts t)"
  by (simp add: held_ids_def rt_ok_def)

text \<open>Removing slot \<open>i\<close> moves the last context in use into it.\<close>

lemma remove_context_held:
  assumes ok: "rt_ok t" and i: "i < unat (assigned_contexts t)"
  shows "\<exists>t1. connector_read_thread_remove_context t (of_nat i) = Some (SUBSTANCE_CONNECTOR_SUCCESS, t1) \<and> rt_ok t1 \<and>
    assigned_contexts t1 = assigned_contexts t - 1 \<and>
    held_ids t1 = butlast ((held_ids t)[i := last (held_ids t)])"
proof -
  let ?n = "unat (assigned_contexts t)"
  have b: "?n \<le> 17" "length (rt_context_ids t) = 17" "length (rt_contexts t) = 17" using ok by (auto simp: rt_ok_def)
  have ui: "unat (of_nat i :: u32) = i" using i b by (simp add: unat_of_nat)
  have pos: "assigned_contexts t \<noteq> 0" using i by auto
  then have un: "unat (assigned_contexts t - 1) = ?n - 1" using i
    by (metis unat_minus_one)
  have lt: "of_nat i < assigned_contexts t" using i ui by (simp add: word_less_nat_alt)
  have lh: "length (held_ids t) = ?n" using length_held_ids [OF ok] .
  have lst: "last (held_ids t) = rt_context_ids t ! (?n - 1)"
    using i b lh by (subst last_conv_nth) (auto simp: held_ids_def)
  show ?thesis
  proof (cases "assigned_contexts t - 1 > 0")
    case True
    have "butlast ((held_ids t)[i := last (held_ids t)]) = take (?n - 1) ((rt_context_ids t)[i := rt_context_ids t ! (?n - 1)])"
      using lst lh b i by (simp add: held_ids_def butlast_take take_update_swap min_def butlast_conv_take)
    then show ?thesis using True lt b un i ui
      by (simp add: connector_read_thread_remove_context_def slot_def put_slot_def held_ids_def rt_ok_def Let_def)
  next
    case False
    then have z: "assigned_contexts t - 1 = 0" by (metis word_gt_0)
    then have "?n = 1" using un i by simp
    then have "butlast ((held_ids t)[i := last (held_ids t)]) = []" using lh
      by (metis One_nat_def butlast.simps(2) length_0_conv length_Suc_conv length_list_update)
    then show ?thesis using False z lt b
      by (simp add: connector_read_thread_remove_context_def held_ids_def rt_ok_def Let_def)
  qed
qed

lemma butlast_swap_mset:
  assumes "i < length xs"
  shows "mset (butlast (xs[i := last xs])) = mset xs - {#xs ! i#}"
proof -
  obtain ys a where xs: "xs = ys @ [a]" using assms by (cases xs rule: rev_cases) auto
  show ?thesis
  proof (cases "i < length ys")
    case True
    then obtain M where M: "mset ys = add_mset (ys ! i) M" by (metis nth_mem_mset multi_member_split)
    then have "mset (ys[i := a]) = add_mset a M" using True by (simp add: mset_update)
    moreover have "mset xs - {#xs ! i#} = add_mset a M"
      using True M by (simp add: xs nth_append)
    ultimately show ?thesis using True by (simp add: xs list_update_append)
  next
    case False
    then have "i = length ys" using assms by (simp add: xs)
    then show ?thesis by (simp add: xs)
  qed
qed

section \<open>The cleanup\<close>

text \<open>A context marked for shutdown, as the cleanup tests it.\<close>

definition shutting :: "'w sys \<Rightarrow> u32 \<Rightarrow> bool" where
  "shutting s i \<longleftrightarrow> (case connector_context_state i s of
     None \<Rightarrow> False | Some st \<Rightarrow> st AND ucast SUBSTANCE_CONNECTOR_CONN_SHUTDOWN \<noteq> 0)"

lemma shutting_cong: "get_context s' i = get_context s i \<Longrightarrow> shutting s' i = shutting s i"
  by (simp add: shutting_def connector_context_state_def context_configuration_def)

text \<open>What a pass over the contexts of \<open>t\<close> leaves, with the indices in other hands in \<open>others\<close>.\<close>

definition cleaned :: "'w sys \<Rightarrow> connector_read_thread \<Rightarrow> u32 list \<Rightarrow> connector_read_thread \<Rightarrow> 'w sys \<Rightarrow> bool" where
  "cleaned s t others t' s' \<longleftrightarrow> rt_ok t' \<and> owned s' (held_ids t' @ others) \<and>
     mset (held_ids t') = mset (filter (\<lambda>i. \<not> shutting s i) (held_ids t)) \<and>
     (\<forall>i \<in> set (held_ids t). shutting s i \<longrightarrow> get_context s' i = Some zero_context \<and> i \<in> set (free_ids s')) \<and>
     (\<forall>i. i \<notin> set (held_ids t) \<or> \<not> shutting s i \<longrightarrow> get_context s' i = get_context s i) \<and>
     set (free_ids s) \<subseteq> set (free_ids s') \<and> waiting_ids s' = waiting_ids s \<and>
     pushes_left s \<le> pushes_left s' + length (held_ids t) \<and> trampolines s' = trampolines s"

lemma shutdown_trampolines:
  assumes "connector_context_shutdown_from_read_thread env i s = Some (r, s')"
  shows "trampolines s' = trampolines s"
proof (cases "i < SUBSTANCE_CONNECTOR_CONTEXT_COUNT")
  case True
  from shutdown_course [OF this assms] obtain s1 cs x where
    "context_op_generic i (connector_close_connection env) s = Some (r, s1)"
    "connector_return_context i (set_context i zero_context (s1\<lparr>calls := cs\<rparr>)) = Some (x, s')" by blast
  then have "trampolines s1 = trampolines s" "trampolines s' = trampolines s1"
    by (auto simp: context_op_generic_def connector_return_context_def split: option_bind_splits if_splits option.splits)
  then show ?thesis by simp
qed (use assms in \<open>simp add: connector_context_shutdown_from_read_thread_def\<close>)

lemma held_after_removal:
  assumes ok: "rt_ok t" and dist: "distinct (held_ids t)" and n: "n < unat (assigned_contexts t)"
    and t1: "assigned_contexts t1 = assigned_contexts t - 1" "held_ids t1 = butlast ((held_ids t)[n := last (held_ids t)])"
  shows "unat (assigned_contexts t1) = unat (assigned_contexts t) - 1"
    "mset (held_ids t) = add_mset (held_ids t ! n) (mset (held_ids t1))"
    "held_ids t ! n \<notin> set (held_ids t1)" "set (held_ids t) = insert (held_ids t ! n) (set (held_ids t1))"
    "\<lbrakk>n \<le> j; j < unat (assigned_contexts t1)\<rbrakk> \<Longrightarrow> \<exists>k. Suc n \<le> k \<and> k < unat (assigned_contexts t) \<and> held_ids t1 ! j = held_ids t ! k"
proof -
  have lh: "length (held_ids t) = unat (assigned_contexts t)" by (rule length_held_ids [OF ok])
  show ua: "unat (assigned_contexts t1) = unat (assigned_contexts t) - 1"
    using t1(1) n by (metis gr_implies_not0 unat_eq_zero unat_minus_one)
  have mem: "held_ids t ! n \<in># mset (held_ids t)" using n lh by simp
  show ms: "mset (held_ids t) = add_mset (held_ids t ! n) (mset (held_ids t1))"
    using butlast_swap_mset [of n "held_ids t"] t1(2) n lh insert_DiffM [OF mem] by simp
  have "count (mset (held_ids t)) (held_ids t ! n) = 1" using dist mem by (simp add: distinct_count_atmost_1)
  then show "held_ids t ! n \<notin> set (held_ids t1)" using ms by (simp add: count_eq_zero_iff)
  show "set (held_ids t) = insert (held_ids t ! n) (set (held_ids t1))"
    using arg_cong [OF ms, of set_mset] by simp
  show "\<exists>k. Suc n \<le> k \<and> k < unat (assigned_contexts t) \<and> held_ids t1 ! j = held_ids t ! k"
    if j: "n \<le> j" "j < unat (assigned_contexts t1)"
  proof -
    have "held_ids t \<noteq> []" using n lh by auto
    then have "last (held_ids t) = held_ids t ! (unat (assigned_contexts t) - 1)" using lh by (simp add: last_conv_nth)
    then have "held_ids t1 ! j = (if j = n then held_ids t ! (unat (assigned_contexts t) - 1) else held_ids t ! j)"
      using j ua lh t1(2) n by (simp add: nth_butlast nth_list_update)
    then show ?thesis using j ua
      by (intro exI [of _ "if j = n then unat (assigned_contexts t) - 1 else j"]) auto
  qed
qed

text \<open>One removal followed by a pass over the rest is a pass over the whole.\<close>

lemma cleaned_Cons:
  assumes c: "cleaned s1 t1 others t' s'"
    and held: "mset (held_ids t) = add_mset i (mset (held_ids t1))" "i \<notin> set (held_ids t1)"
      "set (held_ids t) = insert i (set (held_ids t1))"
    and sd: "free_ids s1 = free_ids s @ [i]" "waiting_ids s1 = waiting_ids s" "get_context s1 i = Some zero_context"
      "\<And>j. j \<noteq> i \<Longrightarrow> get_context s1 j = get_context s j"
    and kept: "pushes_left s - 1 \<le> pushes_left s1" "trampolines s1 = trampolines s"
    and sh: "shutting s i"
  shows "cleaned s t others t' s'"
proof -
  have same: "shutting s1 j = shutting s j" if "j \<noteq> i" for j using sd(4) [OF that] by (rule shutting_cong)
  have "filter_mset (\<lambda>i. \<not> shutting s1 i) (mset (held_ids t1)) = filter_mset (\<lambda>i. \<not> shutting s i) (mset (held_ids t1))"
  proof (rule filter_mset_cong [OF refl])
    fix j assume "j \<in># mset (held_ids t1)"
    then have "j \<noteq> i" using held(2) by auto
    then show "(\<not> shutting s1 j) = (\<not> shutting s j)" using same by simp
  qed
  also have "\<dots> = filter_mset (\<lambda>i. \<not> shutting s i) (mset (held_ids t))" using held(1) sh by simp
  finally have fl: "mset (filter (\<lambda>i. \<not> shutting s1 i) (held_ids t1)) = mset (filter (\<lambda>i. \<not> shutting s i) (held_ids t))"
    by simp
  have own: "get_context s' i = Some zero_context" "i \<in> set (free_ids s')"
    using c held(2) sd(1,3) by (auto simp: cleaned_def)
  have marked: "get_context s' j = Some zero_context \<and> j \<in> set (free_ids s')"
    if "j \<in> set (held_ids t)" "j \<noteq> i" "shutting s j" for j
    using that c held(3) same by (simp add: cleaned_def)
  have rest: "get_context s' j = get_context s j" if "j \<notin> set (held_ids t) \<or> \<not> shutting s j" for j
  proof -
    have "j \<noteq> i" using that sh held(3) by auto
    then show ?thesis using that c held(3) same sd(4) by (auto simp: cleaned_def)
  qed
  have "length (held_ids t) = Suc (length (held_ids t1))" using arg_cong [OF held(1), of size] by simp
  moreover have "pushes_left s1 \<le> pushes_left s' + length (held_ids t1)" using c by (simp add: cleaned_def)
  ultimately have "pushes_left s \<le> pushes_left s' + length (held_ids t)" using kept(1) by linarith
  then show ?thesis using own marked rest c fl sd(1,2) held(3) kept(2) unfolding cleaned_def by auto
qed

lemma cleanup_loop_cleaned:
  assumes "rt_ok t" "n \<le> unat (assigned_contexts t)" "owned s (held_ids t @ others)" "n \<le> pushes_left s"
    and "\<And>j. n \<le> j \<Longrightarrow> j < unat (assigned_contexts t) \<Longrightarrow> \<not> shutting s (held_ids t ! j)"
    and "cleanup_loop env n t s r0 = Some (r, t', s')"
  shows "cleaned s t others t' s'"
  using assms
proof (induction n arbitrary: t s r0)
  case 0
  have "\<not> shutting s i" if "i \<in> set (held_ids t)" for i
    using that 0(5) length_held_ids [OF 0(1)] by (auto simp: in_set_conv_nth)
  moreover then have "filter (\<lambda>i. \<not> shutting s i) (held_ids t) = held_ids t" by (intro filter_True) auto
  ultimately show ?case using 0 by (auto simp: cleaned_def)
next
  case (Suc n)
  note ok = Suc.prems(1) and o = Suc.prems(3)
  let ?c = "held_ids t ! n"
  have n: "n < unat (assigned_contexts t)" "n < 17" using Suc.prems(1,2) by (auto simp: rt_ok_def)
  have slot: "slot (rt_context_ids t) (of_nat n) = Some ?c"
    using n ok by (simp add: slot_def rt_ok_def held_ids_def unat_of_nat)
  have mem: "?c \<in> set (held_ids t)" using n length_held_ids [OF ok] by simp
  have dist: "distinct (held_ids t)" using ownedD(5) [OF o] by simp
  obtain st where st: "connector_context_state ?c s = Some st" using Suc.prems(6) slot
    by (auto simp: Option.bind_eq_Some_conv)
  show ?case
  proof (cases "shutting s ?c")
    case False
    then have "cleanup_loop env n t s r0 = Some (r, t', s')"
      using Suc.prems(6) slot st by (simp add: shutting_def)
    moreover have "\<not> shutting s (held_ids t ! j)" if "n \<le> j" "j < unat (assigned_contexts t)" for j
      using that Suc.prems(5) [of j] False by (cases "j = n") auto
    ultimately show ?thesis using Suc.IH [OF ok _ o] n Suc.prems(4) by simp
  next
    case True
    obtain t1 where t1: "connector_read_thread_remove_context t (of_nat n) = Some (SUBSTANCE_CONNECTOR_SUCCESS, t1)"
      "rt_ok t1" "assigned_contexts t1 = assigned_contexts t - 1"
      "held_ids t1 = butlast ((held_ids t)[n := last (held_ids t)])"
      using remove_context_held [OF ok n(1)] by blast
    note h = held_after_removal [OF ok dist n(1) t1(3,4)]
    obtain r2 s1 where s1: "connector_context_shutdown_from_read_thread env ?c s = Some (r2, s1)"
      and rest: "cleanup_loop env n t1 s1 r2 = Some (r, t', s')"
      using Suc.prems(6) slot st True t1(1) by (auto simp: Option.bind_eq_Some_conv shutting_def)
    have sd: "owned s1 (remove1 ?c (held_ids t @ others))" "pushes_left s - 1 \<le> pushes_left s1"
      "free_ids s1 = free_ids s @ [?c]" "waiting_ids s1 = waiting_ids s" "get_context s1 ?c = Some zero_context"
      "\<And>j. j \<noteq> ?c \<Longrightarrow> get_context s1 j = get_context s j"
      using shutdown_owned [OF o _ _ s1] mem Suc.prems(4) by auto
    have "mset (remove1 ?c (held_ids t @ others)) = mset (held_ids t1 @ others)"
      using mem h(2) by (simp add: remove1_append)
    then have o1: "owned s1 (held_ids t1 @ others)" using sd(1) by (simp add: owned_def)
    have nz: "\<not> shutting s1 (held_ids t1 ! j)" if j: "n \<le> j" "j < unat (assigned_contexts t1)" for j
    proof -
      obtain k where k: "Suc n \<le> k" "k < unat (assigned_contexts t)" "held_ids t1 ! j = held_ids t ! k" using h(5) [OF j] by blast
      have "held_ids t1 ! j \<in> set (held_ids t1)" using j length_held_ids [OF t1(2)] by simp
      then have "held_ids t1 ! j \<noteq> ?c" using h(3) by auto
      then show ?thesis using Suc.prems(5) [OF k(1,2)] k(3) sd(6) shutting_cong by metis
    qed
    have "cleaned s1 t1 others t' s'"
      using Suc.IH [OF t1(2) _ o1 _ nz rest] h(1) n(1) sd(2) Suc.prems(4) by linarith
    from cleaned_Cons [OF this h(2-4) sd(3-6,2) shutdown_trampolines [OF s1] True] show ?thesis .
  qed
qed

section \<open>The cleanup does not fault\<close>

text \<open>A context whose strings are NULL or blocks of the library's own.\<close>

definition releasable_context :: "connector_context \<Rightarrow> bool" where
  "releasable_context c \<longleftrightarrow> connector_free (ctx_application_name c) \<noteq> None \<and> connector_free (ctx_connection_data c) \<noteq> None"

lemma remove_port_total:
  assumes "allocator_succeeds env"
  shows "\<exists>r w'. connector_remove_open_tcp_port env port w = Some (r, w')"
proof -
  let ?f = "tcp_port_path port"
  obtain w1 where c: "create_tcp_filepath env port w = Some (OWNED (c_string ?f), w1)"
    using create_tcp_filepath_result [OF assms] by blast
  have p: "c_path (OWNED (c_string ?f)) = Some ?f" using tcp_port_path_no_zero by simp
  show ?thesis using c p
    by (auto simp: connector_remove_open_tcp_port_def connector_is_file_def test_file_type_def
        connector_remove_file_def split: prod.splits)
qed

lemma close_connection_total:
  assumes "allocator_succeeds env"
  shows "\<exists>r w'. connector_close_connection env (Some c) w = Some (r, Some c, w')"
proof -
  have "\<exists>r d w'. connector_close_tcp env c w = Some (r, d, w')"
    using remove_port_total [OF assms, of "ucast (ctx_port c)" w]
    by (cases "ctx_configuration c AND SUBSTANCE_CONNECTOR_CONN_OPEN = 0")
      (auto simp: connector_close_tcp_def split: prod.splits)
  moreover have "\<exists>r d w'. connector_close_unix env c w = Some (r, d, w')"
    by (simp add: connector_close_unix_def split: prod.splits)
  moreover have "\<exists>r d w'. default_context_operation c w = Some (r, d, w')"
    by (simp add: default_context_operation_def)
  ultimately obtain r d w' where "(close_functions env ! table_index c) c w = Some (r, d, w')"
    by (cases c rule: table_index_cases) (simp add: close_functions_def; blast)+
  then have x: "connector_close_connection env (Some c) w = Some (r, Some d, w')"
    by (simp add: connector_close_connection_def context_operation_def)
  from close_connection_frame [OF x] x show ?thesis by simp
qed

lemma shutdown_total:
  assumes al: "allocator_succeeds env" and reg: "registered (trampolines s) fs"
    and o: "owned s held" "0 < pushes_left s" "i \<in> set held"
    and c: "get_context s i = Some c" "releasable_context c"
  shows "\<exists>r s'. connector_context_shutdown_from_read_thread env i s = Some (r, s') \<and> trampolines s' = trampolines s"
proof -
  have lt: "i < SUBSTANCE_CONNECTOR_CONTEXT_COUNT"
    using held_in_table [OF o(1,3)] by (simp add: SUBSTANCE_CONNECTOR_CONTEXT_COUNT_def word_less_nat_alt)
  obtain r w where r: "connector_close_connection env (Some c) (world s) = Some (r, Some c, w)"
    using close_connection_total [OF al] by blast
  let ?s1 = "set_context i c s\<lparr>world := w\<rparr>"
  have op: "context_op_generic i (connector_close_connection env) s = Some (r, ?s1)"
    using lt c(1) r by (simp add: context_op_generic_def)
  have g: "get_context ?s1 i = Some c" using held_in_table [OF o(1,3)] by (simp add: get_set_context)
  obtain z where z: "clear_context_struct c = Some z" using c(2)
    by (auto simp: clear_context_struct_def releasable_context_def)
  define s2 where "s2 = (if ctx_application_name c = NULL then ?s1 else ?s1\<lparr>calls := calls s @
    map (\<lambda>f. \<lparr>call_target = f, call_context = i, call_type = connector_internal_connection_closed_uuid,
      call_message = ctx_application_name c\<rparr>) fs\<rparr>)"
  have s2: "keeps s (set_context i z s2)" "trampolines s2 = trampolines s" by (simp_all add: s2_def keeps_def)
  have "mset held = mset (i # remove1 i held)" using o(3) by simp
  then have "owned (set_context i z s2) (i # remove1 i held)" "0 < pushes_left (set_context i z s2)"
    using o(1,2) keepsD(1,2) [OF s2(1)] by (simp_all add: owned_def)
  from return_moves [OF this] obtain q where
    "connector_return_context i (set_context i z s2) =
      Some (SUBSTANCE_CONNECTOR_SUCCESS, (set_context i z s2)\<lparr>free_contexts := q\<rparr>)" by blast
  moreover have "(if ctx_application_name c \<noteq> NULL then do {
      (_, cs) \<leftarrow> connector_notify_trampolines (trampolines ?s1) i connector_internal_connection_closed_uuid (ctx_application_name c);
      Some (?s1\<lparr>calls := calls ?s1 @ cs\<rparr>) } else Some ?s1) = Some s2"
    using registered_notify [OF reg] by (simp add: s2_def)
  ultimately show ?thesis using lt op g z s2(2)
    by (simp add: connector_context_shutdown_from_read_thread_def)
qed

lemma cleanup_loop_total:
  assumes al: "allocator_succeeds env"
    and "rt_ok t" "n \<le> unat (assigned_contexts t)" "owned s (held_ids t @ others)" "n \<le> pushes_left s"
    and "registered (trampolines s) fs"
    and "\<And>i. i \<in> set (held_ids t) \<Longrightarrow> \<exists>c. get_context s i = Some c \<and> releasable_context c"
  shows "\<exists>r t' s'. cleanup_loop env n t s r0 = Some (r, t', s')"
  using assms(2-)
proof (induction n arbitrary: t s r0)
  case (Suc n)
  note ok = Suc.prems(1) and o = Suc.prems(3)
  let ?c = "held_ids t ! n"
  have n: "n < unat (assigned_contexts t)" "n < 17" using Suc.prems(1,2) by (auto simp: rt_ok_def)
  have slot: "slot (rt_context_ids t) (of_nat n) = Some ?c"
    using n ok by (simp add: slot_def rt_ok_def held_ids_def unat_of_nat)
  have mem: "?c \<in> set (held_ids t)" using n length_held_ids [OF ok] by simp
  have dist: "distinct (held_ids t)" using ownedD(5) [OF o] by simp
  obtain c where c: "get_context s ?c = Some c" "releasable_context c" using Suc.prems(6) [OF mem] by blast
  then obtain st where st: "connector_context_state ?c s = Some st"
    by (cases "?c < SUBSTANCE_CONNECTOR_CONTEXT_COUNT") (auto simp: connector_context_state_def context_configuration_def)
  show ?case
  proof (cases "shutting s ?c")
    case False
    then show ?thesis using Suc.IH [OF ok _ o] Suc.prems(2,4-6) slot st by (simp add: shutting_def)
  next
    case True
    obtain t1 where t1: "connector_read_thread_remove_context t (of_nat n) = Some (SUBSTANCE_CONNECTOR_SUCCESS, t1)"
      "rt_ok t1" "assigned_contexts t1 = assigned_contexts t - 1"
      "held_ids t1 = butlast ((held_ids t)[n := last (held_ids t)])"
      using remove_context_held [OF ok n(1)] by blast
    note h = held_after_removal [OF ok dist n(1) t1(3,4)]
    have mo: "?c \<in> set (held_ids t @ others)" and b: "0 < pushes_left s" using mem Suc.prems(4) by auto
    obtain r2 s1 where s1: "connector_context_shutdown_from_read_thread env ?c s = Some (r2, s1)"
      "trampolines s1 = trampolines s"
      using shutdown_total [OF al Suc.prems(5) o b mo c] by blast
    have sd: "owned s1 (remove1 ?c (held_ids t @ others))" "pushes_left s - 1 \<le> pushes_left s1"
      "\<And>j. j \<noteq> ?c \<Longrightarrow> get_context s1 j = get_context s j"
      using shutdown_owned [OF o b mo s1(1)] by auto
    have "mset (remove1 ?c (held_ids t @ others)) = mset (held_ids t1 @ others)"
      using mem h(2) by (simp add: remove1_append)
    then have o1: "owned s1 (held_ids t1 @ others)" using sd(1) by (simp add: owned_def)
    have "\<exists>d. get_context s1 i = Some d \<and> releasable_context d" if "i \<in> set (held_ids t1)" for i
    proof -
      have "i \<noteq> ?c" "i \<in> set (held_ids t)" using that h(3,4) by auto
      then show ?thesis using sd(3) Suc.prems(6) by simp
    qed
    then have "\<exists>r t' s'. cleanup_loop env n t1 s1 r2 = Some (r, t', s')"
      using Suc.IH [OF t1(2) _ o1] h(1) n(1) sd(2) Suc.prems(4,5) s1(2) by simp
    then show ?thesis using slot st True t1(1) s1(1) by (auto simp: shutting_def)
  qed
qed simp

lemma cleanup_total:
  assumes "allocator_succeeds env" "rt_ok t" "owned s (held_ids t @ others)" "unat (assigned_contexts t) \<le> pushes_left s"
    and "registered (trampolines s) fs"
    and "\<And>i. i \<in> set (held_ids t) \<Longrightarrow> \<exists>c. get_context s i = Some c \<and> releasable_context c"
  shows "\<exists>r t' s'. connector_read_thread_cleanup_connections env t s = Some (r, t', s') \<and> cleaned s t others t' s'"
proof -
  obtain r t' s' where run: "cleanup_loop env (unat (assigned_contexts t)) t s SUBSTANCE_CONNECTOR_ERROR = Some (r, t', s')"
    using cleanup_loop_total [OF assms(1,2) le_refl assms(3-6)] by blast
  have "cleaned s t others t' s'"
    by (rule cleanup_loop_cleaned [OF assms(2) le_refl assms(3,4) _ run]) simp
  with run show ?thesis by (auto simp: connector_read_thread_cleanup_connections_def)
qed

section \<open>Taking over a context\<close>

text \<open>The thread with the context \<open>i\<close> of descriptor \<open>fd\<close> in its next slot.\<close>

definition take_over :: "connector_read_thread \<Rightarrow> u32 \<Rightarrow> c_int \<Rightarrow> connector_read_thread" where
  "take_over t i fd = (let n = unat (assigned_contexts t) in
     t\<lparr>rt_contexts := (rt_contexts t)[n := (rt_contexts t ! n)\<lparr>pfd_fd := fd, pfd_events := POLLIN\<rparr>],
       rt_context_ids := (rt_context_ids t)[n := i], assigned_contexts := assigned_contexts t + 1\<rparr>)"

lemma take_over_ok:
  assumes "rt_ok t" "connector_read_thread_check_load t"
  shows "rt_ok (take_over t i fd)" "held_ids (take_over t i fd) = held_ids t @ [i]"
proof -
  have n: "unat (assigned_contexts t) < 17" using assms(2) by (simp add: check_load_iff)
  then have "unat (assigned_contexts t + 1) = Suc (unat (assigned_contexts t))" by (simp add: unat_word_ariths)
  with n assms(1) show "rt_ok (take_over t i fd)" "held_ids (take_over t i fd) = held_ids t @ [i]"
    by (simp_all add: rt_ok_def held_ids_def take_over_def Let_def take_Suc_conv_app_nth)
qed

lemma try_acquire_empty:
  assumes "owned s held" "waiting_ids s = []"
  shows "connector_read_thread_try_acquire env t s = Some (SUBSTANCE_CONNECTOR_ERROR, t, s)"
  using aq.pop_empty [of "connection_queue s"] assms
  by (simp add: connector_read_thread_try_acquire_def owned_def pool_ok_def waiting_ids_def)

lemma try_acquire_moves:
  assumes ok: "rt_ok t" "connector_read_thread_check_load t" and o: "owned s (held_ids t @ others)"
    and wait: "waiting_ids s = i # rest" and c: "get_context s i = Some c"
  shows "\<exists>q. connector_read_thread_try_acquire env t s =
      map_option (\<lambda>(r, s2). (r, take_over t i (context_socket c), s2))
        (connector_context_write_handshake env i (s\<lparr>connection_queue := q\<rparr>)) \<and>
    owned (s\<lparr>connection_queue := q\<rparr>) (held_ids (take_over t i (context_socket c)) @ others) \<and>
    waiting_ids (s\<lparr>connection_queue := q\<rparr>) = rest \<and> pushes_left (s\<lparr>connection_queue := q\<rparr>) = pushes_left s"
proof -
  have inv: "fifo_invar (connection_queue s)" "fifo_contents (connection_queue s) = i # rest"
    using o wait by (auto simp: owned_def pool_ok_def waiting_ids_def)
  from aq.pop_cons [OF inv] obtain q where
    q: "connector_available_queue_pop (connection_queue s) = Some (SUBSTANCE_CONNECTOR_SUCCESS, Some i, q)" by blast
  let ?s = "s\<lparr>connection_queue := q\<rparr>"
  note a = acquire_owned [OF o q]
  then have "owned ?s (i # held_ids t @ others)" by blast
  then have "owned ?s (held_ids (take_over t i (context_socket c)) @ others)"
    by (simp add: take_over_ok [OF ok] owned_def)
  moreover have "i < SUBSTANCE_CONNECTOR_CONTEXT_COUNT"
    using \<open>owned ?s (i # held_ids t @ others)\<close> held_in_table(1) [of ?s _ i]
    by (simp add: SUBSTANCE_CONNECTOR_CONTEXT_COUNT_def word_less_nat_alt)
  then have "connector_context_get_fd i ?s = Some (context_socket c)"
    using c by (auto simp: connector_context_get_fd_def get_context_def split: if_splits)
  then have "connector_read_thread_try_acquire env t s =
      map_option (\<lambda>(r, s2). (r, take_over t i (context_socket c), s2)) (connector_context_write_handshake env i ?s)"
    using q ok by (simp add: connector_read_thread_try_acquire_def slot_def put_slot_def rt_ok_def check_load_iff
        take_over_def Let_def split: Option.bind_splits option.splits)
  ultimately show ?thesis using a wait by auto
qed

section \<open>A concrete thread\<close>

definition sample_read_thread :: connector_read_thread where
  "sample_read_thread = \<lparr>rt_id = 0, rt_contexts = replicate 17 \<lparr>pfd_fd = 7, pfd_events = POLLIN, pfd_revents = 0\<rparr>,
     rt_context_ids = 0 # 1 # replicate 15 0, assigned_contexts = 2\<rparr>"

text \<open>Context 0 is connected and marked for shutdown; all others are blank and in the hands of the read threads.\<close>

definition closing_sys :: "u8 list sys" where
  "closing_sys = set_context 0 (sample_context\<lparr>ctx_configuration := 0x601\<rparr>) busy_sys"

lemma sample_read_thread_ok: "rt_ok sample_read_thread" "held_ids sample_read_thread = [0, 1]"
  by (simp_all add: rt_ok_def held_ids_def sample_read_thread_def)

lemma closing_sys_owned: "owned closing_sys (held_ids sample_read_thread @ drop 2 context_ids)"
proof -
  have "context_ids = held_ids sample_read_thread @ drop 2 context_ids"
    by (simp add: sample_read_thread_ok context_ids_def upt_conv_Cons)
  then show ?thesis using busy_sys_owned(1) keepsD(1) [of busy_sys closing_sys] by (simp add: closing_sys_def)
qed

lemma closing_sys_contexts:
  "get_context closing_sys 0 = Some (sample_context\<lparr>ctx_configuration := 0x601\<rparr>)" "get_context closing_sys 1 = Some zero_context"
  "shutting closing_sys 0" "\<not> shutting closing_sys 1"
  by (simp_all add: closing_sys_def get_context_def busy_sys_def initial_sys_def shutting_def connector_context_state_def
      context_configuration_def SUBSTANCE_CONNECTOR_CONTEXT_COUNT_def conn_defs sample_context_def zero_context_def)

text \<open>Context 2 waits for a read thread.\<close>

definition waiting_sys :: "u8 list sys" where
  "waiting_sys = busy_sys\<lparr>connection_queue := OWNED \<lparr>write_index = 1, read_index = 0, max_index = 1, queue_size = 34,
     queue_array = OWNED (2 # replicate 33 0)\<rparr>\<rparr>"

lemma waiting_sys_owned: "owned waiting_sys (held_ids sample_read_thread @ drop 3 context_ids)"
  by (simp add: owned_def waiting_sys_def busy_sys_def empty_pool_def initial_sys_def free_ids_def waiting_ids_def
      pool_ok_def fifo_contents_def fifo_capacity_def queue_contents_def wf_queue_def queue_elems_def
      sample_read_thread_ok context_ids_def upt_conv_Cons)

section \<open>Properties\<close>

text \<open>
  The cleanup of a read thread gives up exactly the contexts marked for shutdown. It
  does not fault; afterwards the thread holds the contexts it held before that were not
  marked, each marked one is blank and back in the free pool, no other context has
  changed, and every index still has exactly one owner.
\<close>

theorem cleanup_gives_up_marked:
  assumes "allocator_succeeds env" and "rt_ok t" and "owned s (held_ids t @ others)"
    and "unat (assigned_contexts t) \<le> pushes_left s" and "registered (trampolines s) fs"
    and "\<And>i. i \<in> set (held_ids t) \<Longrightarrow> \<exists>c. get_context s i = Some c \<and> releasable_context c"
  shows "\<exists>r t' s'. connector_read_thread_cleanup_connections env t s = Some (r, t', s') \<and> rt_ok t' \<and>
    mset (held_ids t') = mset (filter (\<lambda>i. \<not> shutting s i) (held_ids t)) \<and>
    (\<forall>i. get_context s' i = (if i \<in> set (held_ids t) \<and> shutting s i then Some zero_context else get_context s i)) \<and>
    (\<forall>i \<in> set (held_ids t). shutting s i \<longrightarrow> i \<in> set (free_ids s')) \<and>
    waiting_ids s' = waiting_ids s \<and> owned s' (held_ids t' @ others)"
  using cleanup_total [OF assms] unfolding cleaned_def by force

theorem cleanup_gives_up_marked_witness:
  "\<exists>r t' s'. connector_read_thread_cleanup_connections sample_os sample_read_thread closing_sys = Some (r, t', s') \<and>
     held_ids t' = [1] \<and> get_context s' 0 = Some zero_context \<and> 0 \<in> set (free_ids s')"
proof -
  have "registered (trampolines closing_sys) []"
    by (auto simp: registered_def wf_trampolines_def targets_def closing_sys_def busy_sys_def initial_sys_def)
  moreover have "unat (assigned_contexts sample_read_thread) \<le> pushes_left closing_sys"
    by (simp add: sample_read_thread_def closing_sys_def busy_sys_def pushes_left_def empty_pool_def fifo_budget_def)
  moreover have "\<exists>c. get_context closing_sys i = Some c \<and> releasable_context c" if "i \<in> set (held_ids sample_read_thread)" for i
    using that by (auto simp: sample_read_thread_ok closing_sys_contexts releasable_context_def sample_context_def zero_context_def)
  ultimately obtain r t' s' where "connector_read_thread_cleanup_connections sample_os sample_read_thread closing_sys = Some (r, t', s')"
    "mset (held_ids t') = mset (filter (\<lambda>i. \<not> shutting closing_sys i) [0, 1])"
    "\<And>i. get_context s' i = (if i \<in> {0, 1} \<and> shutting closing_sys i then Some zero_context else get_context closing_sys i)"
    "\<forall>i \<in> {0, 1}. shutting closing_sys i \<longrightarrow> i \<in> set (free_ids s')"
    using cleanup_gives_up_marked [OF sample_os_allocator sample_read_thread_ok(1) closing_sys_owned, of "[]"]
    unfolding sample_read_thread_ok by auto
  then show ?thesis by (auto simp: closing_sys_contexts)
qed

text \<open>
  Taking over a context never writes past the slots of the thread. Below the load limit a
  thread takes the context that has waited longest into its next slot, with its
  descriptor polled for input, and sends the handshake on it; without a waiting
  context nothing changes.
\<close>

theorem acquire_takes_longest_waiting:
  assumes "rt_ok t" and "connector_read_thread_check_load t" and "owned s (held_ids t @ others)"
  shows "case waiting_ids s of
      [] \<Rightarrow> connector_read_thread_try_acquire env t s = Some (SUBSTANCE_CONNECTOR_ERROR, t, s)
    | i # rest \<Rightarrow> \<exists>c q. get_context s i = Some c \<and> connector_read_thread_try_acquire env t s =
          map_option (\<lambda>(r, s2). (r, take_over t i (context_socket c), s2))
            (connector_context_write_handshake env i (s\<lparr>connection_queue := q\<rparr>)) \<and>
        rt_ok (take_over t i (context_socket c)) \<and> held_ids (take_over t i (context_socket c)) = held_ids t @ [i] \<and>
        waiting_ids (s\<lparr>connection_queue := q\<rparr>) = rest \<and>
        owned (s\<lparr>connection_queue := q\<rparr>) (held_ids t @ i # others)"
proof (cases "waiting_ids s")
  case Nil
  then show ?thesis using try_acquire_empty [OF assms(3)] by simp
next
  case (Cons i rest)
  have "unat i < length (context_list s)" using ownedD(1,6) [OF assms(3)] Cons set_context_ids [of i] by auto
  then obtain c where "get_context s i = Some c" by (simp add: get_context_def)
  with try_acquire_moves [OF assms Cons this] show ?thesis using Cons take_over_ok [OF assms(1,2)] by auto
qed

theorem acquire_takes_longest_waiting_witness:
  "\<exists>r t' s'. connector_read_thread_try_acquire sample_os sample_read_thread waiting_sys = Some (r, t', s') \<and>
     held_ids t' = [0, 1, 2] \<and> waiting_ids waiting_sys = [2]"
proof -
  have w: "waiting_ids waiting_sys = [2]"
    by (simp add: waiting_ids_def waiting_sys_def fifo_contents_def queue_contents_def queue_elems_def)
  have g: "get_context waiting_sys 2 = Some zero_context"
    by (simp add: get_context_def waiting_sys_def busy_sys_def initial_sys_def)
  then have hs: "connector_context_write_handshake sample_os 2 (waiting_sys\<lparr>connection_queue := q\<rparr>)
      = Some (SUBSTANCE_CONNECTOR_SUCCESS, waiting_sys\<lparr>connection_queue := q\<rparr>)" for q
    by (simp add: connector_context_write_handshake_def get_context_def zero_context_def conn_defs handshake_defs
        SUBSTANCE_CONNECTOR_CONTEXT_COUNT_def split: if_splits)
  have "connector_read_thread_check_load sample_read_thread" by (simp add: check_load_iff sample_read_thread_def)
  from acquire_takes_longest_waiting [OF sample_read_thread_ok(1) this waiting_sys_owned, of sample_os]
  obtain c q where "connector_read_thread_try_acquire sample_os sample_read_thread waiting_sys =
      Some (SUBSTANCE_CONNECTOR_SUCCESS, take_over sample_read_thread 2 (context_socket c), waiting_sys\<lparr>connection_queue := q\<rparr>)"
    "held_ids (take_over sample_read_thread 2 (context_socket c)) = [0, 1] @ [2]"
    by (auto simp: w hs sample_read_thread_ok)
  with w show ?thesis by simp
qed

end
