(* ===== verification/Session.thy ===== *)
theory Session
  imports Context_Ownership
begin

text \<open>
  Reading and writing on an established connection: on a connected context of a supported
  type the table operations are the framing functions over the sockets, and over a reliable
  link they transport one frame.
\<close>

definition established :: "'w sys \<Rightarrow> u32 \<Rightarrow> bool" where
  "established s i \<longleftrightarrow> i < SUBSTANCE_CONNECTOR_CONTEXT_COUNT \<and> (\<exists>c. get_context s i = Some c \<and>
     ctx_configuration c AND SUBSTANCE_CONNECTOR_CONN_MASK = SUBSTANCE_CONNECTOR_CONN_CONNECTED \<and>
     (connection_type c = SUBSTANCE_CONNECTOR_COMM_TCP \<or> connection_type c = SUBSTANCE_CONNECTOR_COMM_UNIX))"

lemma established_cong: "get_context s' i = get_context s i \<Longrightarrow> established s' i = established s i"
  by (simp add: established_def)

abbreviation socket_link :: "'w os \<Rightarrow> ('w \<Rightarrow> u8 list) \<Rightarrow> bool" where
  "socket_link env pending \<equiv> reliable_link env (send_socket env) (read_socket env) pending"

lemma supported_functions:
  assumes "connection_type c = SUBSTANCE_CONNECTOR_COMM_TCP \<or> connection_type c = SUBSTANCE_CONNECTOR_COMM_UNIX"
  shows "(read_functions env ! table_index c) c m w = connector_read_message_generic env (Some c) m (read_socket env) w"
    "(write_functions env ! table_index c) c m w = do {
       (r, w') \<leftarrow> connector_send_message_generic env (Some c) m (send_socket env) w; Some (r, m, w') }"
  using assms
  by (auto simp: table_index_def comm_defs read_functions_def write_functions_def connector_read_tcp_def
      connector_read_unix_def connector_write_tcp_def connector_write_unix_def keep_message_def)

lemma read_established:
  assumes "established s i" "m \<noteq> NULL"
  obtains c where "connector_context_read env i m s = do {
    (r, m', w) \<leftarrow> connector_read_message_generic env (Some c) m (read_socket env) (world s);
    Some (r, m', s\<lparr>world := w\<rparr>) }"
proof -
  obtain c where c: "i < SUBSTANCE_CONNECTOR_CONTEXT_COUNT" "get_context s i = Some c"
    "ctx_configuration c AND SUBSTANCE_CONNECTOR_CONN_MASK = SUBSTANCE_CONNECTOR_CONN_CONNECTED"
    and ty: "connection_type c = SUBSTANCE_CONNECTOR_COMM_TCP \<or> connection_type c = SUBSTANCE_CONNECTOR_COMM_UNIX"
    using assms(1) by (auto simp: established_def)
  with assms(2) supported_functions(1) [OF ty, of env] show ?thesis
    by (intro that [of c])
      (simp add: connector_context_read_def context_message_op_generic_def connector_read_connection_def message_operation_def)
qed

lemma write_established:
  assumes "established s i" "m \<noteq> NULL"
  obtains c where "connector_context_write env i m s = do {
    (r, w) \<leftarrow> connector_send_message_generic env (Some c) m (send_socket env) (world s);
    Some (r, m, s\<lparr>world := w\<rparr>) }"
proof -
  obtain c where c: "i < SUBSTANCE_CONNECTOR_CONTEXT_COUNT" "get_context s i = Some c"
    "ctx_configuration c AND SUBSTANCE_CONNECTOR_CONN_MASK = SUBSTANCE_CONNECTOR_CONN_CONNECTED"
    and ty: "connection_type c = SUBSTANCE_CONNECTOR_COMM_TCP \<or> connection_type c = SUBSTANCE_CONNECTOR_COMM_UNIX"
    using assms(1) by (auto simp: established_def)
  with assms(2) supported_functions(2) [OF ty, of env] show ?thesis
    by (intro that [of c], cases "connector_send_message_generic env (Some c) m (send_socket env) (world s)")
      (auto simp: connector_context_write_def context_message_op_generic_def connector_write_connection_def
        message_operation_def)
qed

text \<open>One frame out and one frame in.\<close>

lemma context_write_frame:
  assumes "socket_link env pending" "allocator_succeeds env" "established s i" "sendable m"
  shows "\<exists>fr w. connector_context_write env i m s = Some (SUBSTANCE_CONNECTOR_SUCCESS, m, s\<lparr>world := w\<rparr>) \<and>
    frame_of m fr \<and> pending w = pending (world s) @ fr"
proof -
  have "m \<noteq> NULL" using assms(4) by (auto simp: sendable_def)
  with assms(3) obtain c where c: "connector_context_write env i m s = do {
      (r, w) \<leftarrow> connector_send_message_generic env (Some c) m (send_socket env) (world s); Some (r, m, s\<lparr>world := w\<rparr>) }"
    by (rule write_established)
  from send_sendable [OF assms(1,2,4), of c "world s"] obtain fr w where
    "connector_send_message_generic env (Some c) m (send_socket env) (world s) = Some (SUBSTANCE_CONNECTOR_SUCCESS, w)"
    "frame_of m fr" "pending w = pending (world s) @ fr" by blast
  with c show ?thesis by (intro exI [of _ fr] exI [of _ w]) simp
qed

lemma context_read_one:
  assumes "socket_link env pending" "allocator_succeeds env" "established s i"
    and "deref m = Some x" "deref (msg_header x) \<noteq> None"
    and "pending (world s) = f @ body @ rest" "length f = 24" "connector_ntohheader (load_header f) = h"
    and "CONNECTOR_IDENTIFY_MESSAGE (description h)" "message_length h \<noteq> 0xffffffff" "length body = unat (message_length h)"
  shows "\<exists>w. connector_context_read env i m s = Some (SUBSTANCE_CONNECTOR_SUCCESS,
      repoint m \<lparr>msg_header = OWNED h, msg_message = OWNED (c_string body), msg_context = msg_context x\<rparr>, s\<lparr>world := w\<rparr>) \<and>
    pending w = rest"
proof -
  have "m \<noteq> NULL" using assms(4) by auto
  with assms(3) obtain c where c: "connector_context_read env i m s = do {
      (r, m', w) \<leftarrow> connector_read_message_generic env (Some c) m (read_socket env) (world s); Some (r, m', s\<lparr>world := w\<rparr>) }"
    by (rule read_established)
  obtain w where "connector_read_message_generic env (Some c) m (read_socket env) (world s) = Some (SUBSTANCE_CONNECTOR_SUCCESS,
      repoint m \<lparr>msg_header = OWNED h, msg_message = OWNED (c_string body), msg_context = msg_context x\<rparr>, w)"
    "pending w = rest" by (rule read_frame [OF assms(1,2,4-11)])
  with c show ?thesis by (intro exI [of _ w]) simp
qed

end
