(* ===== verification/Read_Thread.thy ===== *)
theory Read_Thread
  imports Read_Struct Session Internal_Messages Scheduling
begin

text \<open>
  The read threads (\<^verbatim>\<open>readthreadimpl.c\<close>, \<^verbatim>\<open>read_threads.c\<close>). A thread is a program counter over
  the points of \<^verbatim>\<open>read_thread_routine\<close> at which it looks at the shutdown flag, waits or polls;
  a step runs the code from one point to the next. The theory shows that the steps keep
  the ownership of the contexts, what a read delivers, and that a thread told to stop gives
  up everything it holds.
\<close>

section \<open>Handling one context\<close>

definition connector_read_thread_handle_open ::
    "'w os \<Rightarrow> u32 \<Rightarrow> 'w sys \<Rightarrow> (substance_connector_error \<times> 'w sys) option" where
  "connector_read_thread_handle_open env ctx s = do {
     (r, _, s1) \<leftarrow> connector_context_accept env ctx True s;
     if r = SUBSTANCE_CONNECTOR_SUCCESS then Some (r, snd (connector_flag_read_impl s1))
     else Some (r, s1) }"

definition zero_header :: connector_message_header where
  "zero_header = \<lparr>description = 0, message_length = 0, message_id = UUID 0 0 0 0\<rparr>"

definition enqueue_inbound :: "'w os \<Rightarrow> connector_message cptr \<Rightarrow> 'w sys \<Rightarrow> 'w sys option" where
  "enqueue_inbound env m s = do {
     (q, w) \<leftarrow> connector_enqueue_inbound_message env m (queues s, world s);
     Some (s\<lparr>queues := q, world := w\<rparr>) }"

text \<open>
  The block holds the message and its header; it is zeroed without a check of the
  allocation. After a failed read only the block is released, not a text it may hold.
\<close>

definition connector_read_thread_handle_connected ::
    "'w os \<Rightarrow> u32 \<Rightarrow> 'w sys \<Rightarrow> (substance_connector_error \<times> 'w sys) option" where
  "connector_read_thread_handle_connected env ctx s =
     (case connector_allocate env (SIZEOF_MESSAGE + SIZEOF_HEADER) (world s) of
        (None, w1) \<Rightarrow> None
      | (Some _, w1) \<Rightarrow> do {
          let message = OWNED \<lparr>msg_header = OWNED zero_header, msg_message = NULL, msg_context = ctx\<rparr>;
          (r, m, s1) \<leftarrow> connector_context_read env ctx message (s\<lparr>world := w1\<rparr>);
          if r = SUBSTANCE_CONNECTOR_SUCCESS then do {
            s2 \<leftarrow> enqueue_inbound env m s1;
            Some (r, snd (connector_flag_dispatch s2)) }
          else do {
            _ \<leftarrow> connector_free m;
            Some (r, s1) } })"

definition connector_read_thread_handle_context ::
    "'w os \<Rightarrow> u32 \<Rightarrow> 'w sys \<Rightarrow> (substance_connector_error \<times> 'w sys) option" where
  "connector_read_thread_handle_context env ctx s = do {
     context_state \<leftarrow> connector_context_state ctx s;
     if context_state = ucast SUBSTANCE_CONNECTOR_CONN_OPEN then connector_read_thread_handle_open env ctx s
     else if context_state = ucast SUBSTANCE_CONNECTOR_CONN_CONNECTED then connector_read_thread_handle_connected env ctx s
     else Some (SUBSTANCE_CONNECTOR_INVALID, s) }"

text \<open>\<^verbatim>\<open>connector_read_thread_handle_poll\<close>: closes the contexts whose poll reported an error or a hang-up.\<close>

fun handle_poll_loop ::
    "connector_read_thread \<Rightarrow> nat list \<Rightarrow> 'w sys \<Rightarrow> substance_connector_error \<Rightarrow>
      (substance_connector_error \<times> 'w sys) option" where
  "handle_poll_loop t [] s retcode = Some (retcode, s)"
| "handle_poll_loop t (i # is') s retcode = do {
     p \<leftarrow> slot (rt_contexts t) (of_nat i);
     if pfd_revents p AND POLLERR \<noteq> 0 \<or> pfd_revents p AND POLLHUP \<noteq> 0 then do {
       ctx \<leftarrow> slot (rt_context_ids t) (of_nat i);
       (r, s1) \<leftarrow> connector_context_close ctx s;
       handle_poll_loop t is' s1 r }
     else handle_poll_loop t is' s retcode }"

definition connector_read_thread_handle_poll ::
    "connector_read_thread \<Rightarrow> 'w sys \<Rightarrow> (substance_connector_error \<times> 'w sys) option" where
  "connector_read_thread_handle_poll t s =
     handle_poll_loop t [0..<unat (assigned_contexts t)] s SUBSTANCE_CONNECTOR_ERROR"

section \<open>Waiting for a context\<close>

text \<open>The points of \<^verbatim>\<open>connector_read_thread_await_condition\<close>; the last one carries the returned code.\<close>

datatype await_pc = AEntry | ATest | AWaiting | AWoken | AReturn substance_connector_error

definition await_result :: "connector_read_thread \<Rightarrow> substance_connector_error" where
  "await_result t = (if assigned_contexts t > 0 then SUBSTANCE_CONNECTOR_SUCCESS else SUBSTANCE_CONNECTOR_ERROR)"

text \<open>
  One step with the shutdown flag as the step sees it; \<open>notified\<close> counts the calls of the
  \<open>notify\<close> function. A waiting thread may be woken at any time, by a signal or without one.
\<close>

definition connector_read_thread_await_condition ::
    "'w os \<Rightarrow> await_pc \<Rightarrow> u32 \<Rightarrow> connector_read_thread \<Rightarrow> nat \<Rightarrow> 'w sys \<Rightarrow>
      (await_pc \<times> connector_read_thread \<times> nat \<times> 'w sys) option" where
  "connector_read_thread_await_condition env pc shutdown_flag t notified s =
     (case pc of
        AEntry \<Rightarrow> Some (ATest, t, Suc notified, s)
      | ATest \<Rightarrow>
          if assigned_contexts t = 0 \<and> shutdown_flag = 0 then Some (AWaiting, t, notified, s)
          else Some (AReturn (await_result t), t, notified, s)
      | AWaiting \<Rightarrow> Some (AWoken, t, notified, s)
      | AWoken \<Rightarrow>
          if shutdown_flag \<noteq> 0 then Some (AReturn (await_result t), t, notified, s)
          else do {
            (_, t1, s1) \<leftarrow> connector_read_thread_try_acquire env t s;
            Some (ATest, t1, notified, s1) }
      | AReturn r \<Rightarrow> Some (AReturn r, t, notified, s))"

section \<open>The routine\<close>

text \<open>
  The points of the routine: the head of the main loop, inside the wait, the head of the
  polling loop, the loop over the polled contexts, the label \<open>thread_exit\<close> and the end.
\<close>

datatype read_pc = RLoop | RAwait await_pc | RPoll | RHandle | RExit | RDone

record read_module =
  read_threads :: "(connector_read_thread \<times> read_pc) list"
  read_thread_shutdown_flag :: u32
  read_main_broadcasts :: nat

definition serve_context :: "'w os \<Rightarrow> u16 \<Rightarrow> u32 \<Rightarrow> 'w sys \<Rightarrow> 'w sys option" where
  "serve_context env revents ctx s =
     (if revents AND POLLERR \<noteq> 0 \<or> revents AND POLLHUP \<noteq> 0 then do {
        (_, s1) \<leftarrow> connector_handle_error_disconnect env ctx s;
        (_, s2) \<leftarrow> connector_context_close ctx s1;
        Some s2 }
      else if revents AND POLLIN \<noteq> 0 then do {
        (_, s1) \<leftarrow> connector_read_thread_handle_context env ctx s;
        Some s1 }
      else Some s)"

fun serve_loop :: "'w os \<Rightarrow> connector_read_thread \<Rightarrow> nat list \<Rightarrow> 'w sys \<Rightarrow> 'w sys option" where
  "serve_loop env t [] s = Some s"
| "serve_loop env t (i # is') s = do {
     p \<leftarrow> slot (rt_contexts t) (of_nat i);
     ctx \<leftarrow> slot (rt_context_ids t) (of_nat i);
     s1 \<leftarrow> serve_context env (pfd_revents p) ctx s;
     serve_loop env t is' s1 }"

fun close_loop :: "connector_read_thread \<Rightarrow> nat list \<Rightarrow> 'w sys \<Rightarrow> 'w sys option" where
  "close_loop t [] s = Some s"
| "close_loop t (i # is') s = do {
     ctx \<leftarrow> slot (rt_context_ids t) (of_nat i);
     (_, s1) \<leftarrow> connector_context_close ctx s;
     close_loop t is' s1 }"

definition read_thread_routine ::
    "'w os \<Rightarrow> read_pc \<Rightarrow> u32 \<Rightarrow> connector_read_thread \<Rightarrow> nat \<Rightarrow> 'w sys \<Rightarrow>
      (read_pc \<times> connector_read_thread \<times> nat \<times> 'w sys) option" where
  "read_thread_routine env pc shutdown_flag t notified s =
     (case pc of
        RLoop \<Rightarrow> Some (if shutdown_flag = 0 then RAwait AEntry else RExit, t, notified, s)
      | RAwait (AReturn _) \<Rightarrow>
          if shutdown_flag \<noteq> 0 then Some (RExit, t, notified, s)
          else do {
            (t1, s1) \<leftarrow> (if connector_read_thread_check_load t
               then map_option snd (connector_read_thread_try_acquire env t s) else Some (t, s));
            Some (if assigned_contexts t1 > 0 then RPoll else RHandle, t1, notified, s1) }
      | RAwait a \<Rightarrow> do {
          (a', t1, n1, s1) \<leftarrow> connector_read_thread_await_condition env a shutdown_flag t notified s;
          Some (RAwait a', t1, n1, s1) }
      | RPoll \<Rightarrow> do {
          (_, t1, s1) \<leftarrow> connector_read_thread_cleanup_connections env t s;
          if shutdown_flag \<noteq> 0 then Some (RExit, t1, notified, s1)
          else do {
            (r, polls, w1) \<leftarrow> connector_poll_contexts env (rt_contexts t1) (assigned_contexts t1) (world s1);
            Some (if r = SUBSTANCE_CONNECTOR_POLL_TIMEOUT then RPoll else RHandle,
              t1\<lparr>rt_contexts := polls\<rparr>, notified, s1\<lparr>world := w1\<rparr>) } }
      | RHandle \<Rightarrow> do {
          s1 \<leftarrow> serve_loop env t [0..<unat (assigned_contexts t)] s;
          (_, t2, s2) \<leftarrow> connector_read_thread_cleanup_connections env t s1;
          Some (RLoop, t2, notified, s2) }
      | RExit \<Rightarrow> do {
          s1 \<leftarrow> close_loop t [0..<unat (assigned_contexts t)] s;
          (_, t2, s2) \<leftarrow> connector_read_thread_cleanup_connections env t s1;
          Some (RDone, t2, notified, s2) }
      | RDone \<Rightarrow> Some (RDone, t, notified, s))"

definition read_thread_step ::
    "'w os \<Rightarrow> nat \<Rightarrow> read_module \<times> 'w sys \<Rightarrow> (read_module \<times> 'w sys) option" where
  "read_thread_step env i x = (case x of (m, s) \<Rightarrow>
     if i < length (read_threads m) then
       (case read_threads m ! i of (t, pc) \<Rightarrow> do {
          (pc', t', n, s') \<leftarrow> read_thread_routine env pc (read_thread_shutdown_flag m) t (read_main_broadcasts m) s;
          Some (m\<lparr>read_threads := (read_threads m)[i := (t', pc')], read_main_broadcasts := n\<rparr>, s') })
     else None)"

section \<open>Starting the threads\<close>

text \<open>The static array with the fields that are set on creation; the creator waits for each thread's first broadcast.\<close>

definition connector_init_read_threads :: "read_module \<Rightarrow> substance_connector_error \<times> read_module" where
  "connector_init_read_threads m = (SUBSTANCE_CONNECTOR_SUCCESS,
     m\<lparr>read_threads := map (\<lambda>i. ((fst (read_threads m ! i))\<lparr>rt_id := i, assigned_contexts := 0\<rparr>, RLoop))
         [0..<SUBSTANCE_CONNECTOR_INBOUND_COUNT]\<rparr>)"

section \<open>The steps keep the ownership of the contexts\<close>

text \<open>A context on which a poll event leads to an accept.\<close>

definition listening :: "'w sys \<Rightarrow> u32 \<Rightarrow> bool" where
  "listening s i \<longleftrightarrow> connector_context_state i s = Some (ucast SUBSTANCE_CONNECTOR_CONN_OPEN)"

lemma listening_cong: "get_context s' i = get_context s i \<Longrightarrow> listening s' i = listening s i"
  by (simp add: listening_def connector_context_state_def context_configuration_def)

text \<open>A call that touches no place of an index and no context but \<open>i\<close>.\<close>

definition touches_only :: "u32 \<Rightarrow> 'w sys \<Rightarrow> 'w sys \<Rightarrow> bool" where
  "touches_only i s s' \<longleftrightarrow> keeps s s' \<and> trampolines s' = trampolines s \<and> (\<forall>j. j \<noteq> i \<longrightarrow> get_context s' j = get_context s j)"

lemma touches_only_trans: "touches_only i s s' \<Longrightarrow> touches_only i s' s'' \<Longrightarrow> touches_only i s s''"
  by (auto simp: touches_only_def intro: keeps_trans)

lemma touches_only_frame:
  assumes "context_list s' = context_list s" "free_contexts s' = free_contexts s" "connection_queue s' = connection_queue s"
    "trampolines s' = trampolines s"
  shows "touches_only i s s'"
  using assms by (simp add: touches_only_def keeps_def get_context_def)

lemma close_touches: "connector_context_close i s = Some (r, s') \<Longrightarrow> touches_only i s s'"
  by (auto simp: touches_only_def connector_context_close_def Let_def split: option_bind_splits if_splits)

lemma disconnect_touches: "connector_handle_error_disconnect env i s = Some (r, s') \<Longrightarrow> touches_only i s s'"
  by (auto simp: connector_handle_error_disconnect_def Option.bind_eq_Some_conv touches_only_frame split: if_splits)

lemma context_read_frame:
  "connector_context_read env i m s = Some (r, m', s') \<Longrightarrow> \<exists>w. s' = s\<lparr>world := w\<rparr>"
  by (auto simp: connector_context_read_def context_message_op_generic_def Option.bind_eq_Some_conv intro: exI [of _ "world s"]
      split: if_splits)

lemma enqueue_inbound_frame:
  "enqueue_inbound env m s = Some s' \<Longrightarrow> \<exists>q w. s' = s\<lparr>queues := q, world := w\<rparr>"
  by (auto simp: enqueue_inbound_def Option.bind_eq_Some_conv)

lemma connected_touches:
  assumes "connector_read_thread_handle_connected env i s = Some (r, s')"
  shows "touches_only i s s'"
proof -
  obtain b w1 where al: "connector_allocate env (SIZEOF_MESSAGE + SIZEOF_HEADER) (world s) = (Some b, w1)"
    using assms by (auto simp: connector_read_thread_handle_connected_def split: prod.splits option.splits)
  then obtain m s1 where rd: "connector_context_read env i
        (OWNED \<lparr>msg_header = OWNED zero_header, msg_message = NULL, msg_context = i\<rparr>) (s\<lparr>world := w1\<rparr>) = Some (r, m, s1)"
    and rest: "if r = SUBSTANCE_CONNECTOR_SUCCESS then \<exists>s2. enqueue_inbound env m s1 = Some s2 \<and> s' = signal WakeDispatch s2 else s' = s1"
    using assms
    by (auto simp: connector_read_thread_handle_connected_def connector_flag_dispatch_def Option.bind_eq_Some_conv split: if_splits)
  obtain w2 where s1: "s1 = s\<lparr>world := w2\<rparr>" using context_read_frame [OF rd] by auto
  show ?thesis
  proof (cases "r = SUBSTANCE_CONNECTOR_SUCCESS")
    case True
    with rest obtain s2 where s2: "enqueue_inbound env m s1 = Some s2" "s' = signal WakeDispatch s2" by auto
    with enqueue_inbound_frame [OF s2(1)] s1 show ?thesis by (auto intro!: touches_only_frame)
  qed (use rest s1 in \<open>auto intro!: touches_only_frame\<close>)
qed

lemma touches_only_owned:
  assumes "touches_only i s s'" "owned s held"
  shows "owned s' held" "pushes_left s' = pushes_left s" "free_ids s' = free_ids s" "trampolines s' = trampolines s"
    "j \<noteq> i \<Longrightarrow> get_context s' j = get_context s j"
  using assms keepsD [of s s'] by (auto simp: touches_only_def)

lemma accept_trampolines:
  assumes "connector_context_accept env i want s = Some (r, v, s')"
  shows "trampolines s' = trampolines s"
proof -
  obtain st where st: "connector_context_state i s = Some st"
    using assms by (auto simp: connector_context_accept_def Option.bind_eq_Some_conv)
  show ?thesis
  proof (cases "i < SUBSTANCE_CONNECTOR_CONTEXT_COUNT \<and> want \<and> st = ucast SUBSTANCE_CONNECTOR_CONN_OPEN")
    case True
    then obtain c where c: "get_context s i = Some c"
      using assms st by (auto simp: connector_context_accept_def Option.bind_eq_Some_conv)
    obtain fd w1 where fd: "connector_accept_connection env (Some c) (world s) = (fd, w1)" by fastforce
    show ?thesis using assms st True c fd
      by (auto simp: connector_context_accept_def pop_free_def append_available_def connector_flag_read_def
          connector_flag_read_impl_def Let_def Option.bind_eq_Some_conv split: if_splits)
  qed (use assms st in \<open>auto simp: connector_context_accept_def\<close>)
qed

text \<open>Serving one context costs a free index only if it is listening.\<close>

definition served :: "u32 \<Rightarrow> u32 list \<Rightarrow> 'w sys \<Rightarrow> 'w sys \<Rightarrow> bool" where
  "served i held s s' \<longleftrightarrow> owned s' held \<and> pushes_left s \<le> pushes_left s' + 1 \<and> trampolines s' = trampolines s \<and>
     (\<forall>j \<in> set held. j \<noteq> i \<longrightarrow> get_context s' j = get_context s j) \<and>
     length (free_ids s) \<le> length (free_ids s') + (if listening s i then 1 else 0)"

lemma touches_only_served: "touches_only i s s' \<Longrightarrow> owned s held \<Longrightarrow> served i held s s'"
  using touches_only_owned [of i s s' held] by (auto simp: served_def)

lemma open_served:
  assumes o: "owned s held" and b: "0 < pushes_left s" and i: "i \<in> set held" and l: "listening s i" "free_ids s \<noteq> []"
    and op: "connector_read_thread_handle_open env i s = Some (r, s')"
  shows "served i held s s'"
proof -
  obtain v s1 where a: "connector_context_accept env i True s = Some (r, v, s1)"
    and s': "s' = s1 \<or> s' = signal WakeRead s1"
    using op by (auto simp: connector_read_thread_handle_open_def connector_flag_read_impl_def Option.bind_eq_Some_conv split: if_splits)
  have ao: "owned s1 held" "pushes_left s - 1 \<le> pushes_left s1" "handed_out s r v s1"
    using accept_owned [OF o b l(2) a] by auto
  have "keeps s1 s'" using s' by (auto simp: keeps_def)
  note k = keepsD [OF this]
  have g: "get_context s' j = get_context s1 j" for j using s' by (auto simp: get_context_def)
  have "get_context s1 j = get_context s j" if "j \<in> set held" for j
  proof -
    have "j \<notin> set (free_ids s)" using ownedD(5) [OF o] that by auto
    moreover have "v = Some n \<Longrightarrow> n \<in> set (free_ids s)" for n using ao(3) by (auto simp: handed_out_def)
    ultimately show ?thesis using ao(3) by (cases v) (auto simp: handed_out_def)
  qed
  moreover have "length (free_ids s) \<le> length (free_ids s1) + 1"
    using ao(3) by (cases v) (auto simp: handed_out_def dest: mset_eq_length)
  ultimately show ?thesis using ao k g l(1) accept_trampolines [OF a] s' by (auto simp: served_def)
qed

lemma serve_context_served:
  assumes o: "owned s held" and b: "0 < pushes_left s" and i: "i \<in> set held"
    and free: "listening s i \<Longrightarrow> free_ids s \<noteq> []" and op: "serve_context env revents i s = Some s'"
  shows "served i held s s'"
proof -
  consider (close) r1 s1 r2 where "connector_handle_error_disconnect env i s = Some (r1, s1)"
      "connector_context_close i s1 = Some (r2, s')"
    | (handle) r where "connector_read_thread_handle_context env i s = Some (r, s')"
    | (idle) "s' = s"
    using op by (auto simp: serve_context_def Option.bind_eq_Some_conv split: if_splits)
  then show ?thesis
  proof cases
    case close
    then show ?thesis using touches_only_trans [OF disconnect_touches close_touches] touches_only_served o by blast
  next
    case handle
    then consider (opn) "listening s i" "connector_read_thread_handle_open env i s = Some (r, s')"
      | (conn) "connector_read_thread_handle_connected env i s = Some (r, s')" | (same) "s' = s"
      by (auto simp: connector_read_thread_handle_context_def listening_def Option.bind_eq_Some_conv split: if_splits)
    then show ?thesis
    proof cases
      case opn
      then show ?thesis using open_served [OF o b i] free by blast
    next
      case conn
      from connected_touches [OF this] o show ?thesis by (rule touches_only_served)
    qed (use o in \<open>simp add: served_def\<close>)
  qed (use o in \<open>simp add: served_def\<close>)
qed

lemma slot_held:
  assumes "rt_ok t" "n < unat (assigned_contexts t)"
  shows "slot (rt_context_ids t) (of_nat n) = Some (held_ids t ! n)" "held_ids t ! n \<in> set (held_ids t)"
proof -
  have "n < 17" using assms by (simp add: rt_ok_def)
  with assms show "slot (rt_context_ids t) (of_nat n) = Some (held_ids t ! n)"
    by (simp add: slot_def rt_ok_def held_ids_def unat_of_nat)
  show "held_ids t ! n \<in> set (held_ids t)" using assms length_held_ids by simp
qed

text \<open>The loop over the polled contexts.\<close>

lemma serve_loop_owned:
  assumes ok: "rt_ok t" and "owned s (held_ids t @ others)" "length ns \<le> pushes_left s"
    and "distinct ns" "\<forall>n \<in> set ns. n < unat (assigned_contexts t)"
    and "length (filter (listening s) (map ((!) (held_ids t)) ns)) \<le> length (free_ids s)"
    and "serve_loop env t ns s = Some s'"
  shows "owned s' (held_ids t @ others) \<and> pushes_left s \<le> pushes_left s' + length ns"
  using assms(2-)
proof (induction ns arbitrary: s)
  case (Cons n ns)
  let ?held = "held_ids t @ others" and ?c = "held_ids t ! n"
  have n: "n < unat (assigned_contexts t)" using Cons.prems(4) by simp
  note sl = slot_held [OF ok n]
  obtain e s1 where s1: "serve_context env e ?c s = Some s1" "serve_loop env t ns s1 = Some s'"
    using Cons.prems(6) sl(1) by (auto simp: Option.bind_eq_Some_conv)
  have "listening s ?c \<Longrightarrow> free_ids s \<noteq> []" using Cons.prems(5) by auto
  with Cons.prems(1,2) sl(2) have sv: "served ?c ?held s s1" by (intro serve_context_served [OF _ _ _ _ s1(1)]) auto
  have dist: "distinct (held_ids t)" using ownedD(5) [OF Cons.prems(1)] by simp
  have "listening s1 (held_ids t ! k) = listening s (held_ids t ! k)" if "k \<in> set ns" for k
  proof -
    have k: "k < length (held_ids t)" "k \<noteq> n" using that Cons.prems(3,4) length_held_ids [OF ok] by auto
    then have "held_ids t ! k \<noteq> ?c" using dist n length_held_ids [OF ok] by (simp add: nth_eq_iff_index_eq)
    with k sv show ?thesis by (intro listening_cong) (simp add: served_def)
  qed
  then have "filter (listening s1) (map ((!) (held_ids t)) ns) = filter (listening s) (map ((!) (held_ids t)) ns)"
    by (intro filter_cong) auto
  then have "length (filter (listening s1) (map ((!) (held_ids t)) ns)) \<le> length (free_ids s1)"
    using Cons.prems(5) sv by (auto simp: served_def split: if_splits)
  moreover have "length ns \<le> pushes_left s1" using Cons.prems(2) sv by (simp add: served_def)
  ultimately have "owned s' ?held \<and> pushes_left s1 \<le> pushes_left s' + length ns"
    using Cons.IH [OF _ _ _ _ _ s1(2)] sv Cons.prems(3,4) by (simp add: served_def)
  then show ?case using sv by (simp add: served_def)
qed simp

text \<open>The loop that marks every context on exit.\<close>

lemma close_loop_keeps:
  assumes "close_loop t ns s = Some s'"
  shows "keeps s s' \<and> trampolines s' = trampolines s"
  using assms
proof (induction ns arbitrary: s)
  case (Cons n ns)
  from Cons.prems obtain c r s1 where "connector_context_close c s = Some (r, s1)" "close_loop t ns s1 = Some s'"
    by (auto simp: Option.bind_eq_Some_conv)
  with Cons.IH [of s1] close_touches [of c s r s1] show ?case by (auto simp: touches_only_def intro: keeps_trans)
qed simp

lemma try_acquire_owned:
  assumes "rt_ok t" "connector_read_thread_check_load t" "owned s (held_ids t @ others)"
    and "connector_read_thread_try_acquire env t s = Some (r, t1, s1)"
  shows "rt_ok t1 \<and> owned s1 (held_ids t1 @ others) \<and> pushes_left s1 = pushes_left s"
proof (cases "waiting_ids s")
  case Nil
  then show ?thesis using try_acquire_empty [OF assms(3) Nil, of env t] assms by simp
next
  case (Cons i rest)
  have "unat i < length (context_list s)" using ownedD(1,6) [OF assms(3)] Cons set_context_ids [of i] by auto
  then obtain c where c: "get_context s i = Some c" by (simp add: get_context_def)
  from try_acquire_moves [OF assms(1-3) Cons c, of env] obtain q where
    q: "map_option (\<lambda>(r, s2). (r, take_over t i (context_socket c), s2))
      (connector_context_write_handshake env i (s\<lparr>connection_queue := q\<rparr>)) = Some (r, t1, s1)"
    "owned (s\<lparr>connection_queue := q\<rparr>) (held_ids (take_over t i (context_socket c)) @ others)"
    "pushes_left (s\<lparr>connection_queue := q\<rparr>) = pushes_left s" unfolding assms(4) by metis
  then have h: "connector_context_write_handshake env i (s\<lparr>connection_queue := q\<rparr>) = Some (r, s1)"
    and t1: "t1 = take_over t i (context_socket c)" by auto
  show ?thesis using q(2,3) keepsD [OF handshake_keeps [OF h]] take_over_ok(1) [OF assms(1,2)] by (simp add: t1)
qed

lemma cleanup_owned:
  assumes "rt_ok t" "owned s (held_ids t @ others)" "17 \<le> pushes_left s"
    and "connector_read_thread_cleanup_connections env t s = Some (r, t1, s1)"
  shows "rt_ok t1 \<and> owned s1 (held_ids t1 @ others) \<and> pushes_left s \<le> pushes_left s1 + 17"
proof -
  have n: "unat (assigned_contexts t) \<le> 17" using assms(1) by (simp add: rt_ok_def)
  then have "cleaned s t others t1 s1"
    using assms(4) cleanup_loop_cleaned [OF assms(1) le_refl assms(2) _ _] assms(3)
    unfolding connector_read_thread_cleanup_connections_def by (meson le_trans not_le)
  with n length_held_ids [OF assms(1)] show ?thesis by (auto simp: cleaned_def)
qed

section \<open>Any interleaving of threads and application calls\<close>

text \<open>\<open>poll\<close> updates the array it is given in place.\<close>

definition poll_in_place :: "'w os \<Rightarrow> bool" where
  "poll_in_place env \<longleftrightarrow> (\<forall>ps ms w r e ps' w'. os_poll env ps ms w = (r, e, ps', w') \<longrightarrow> length ps' = length ps)"

text \<open>A thread that waits for a context holds none.\<close>

definition read_pc_ok :: "connector_read_thread \<Rightarrow> read_pc \<Rightarrow> bool" where
  "read_pc_ok t pc \<longleftrightarrow> (pc = RAwait AWaiting \<or> pc = RAwait AWoken \<longrightarrow> assigned_contexts t = 0)"

lemma poll_length:
  assumes "poll_in_place env" "connector_poll_contexts env ps n w = Some (r, ps', w')"
  shows "length ps' = length ps"
proof (cases "n > 0")
  case True
  obtain a e qs w1 where p: "os_poll env (take (unat n) ps) SUBSTANCE_CONNECTOR_POLL_MS w = (a, e, qs, w1)"
    by (meson prod_cases4)
  then have "length qs = length (take (unat n) ps)" using assms(1) unfolding poll_in_place_def by blast
  with p True assms(2) show ?thesis by (auto simp: connector_poll_contexts_def Let_def Option.bind_eq_Some_conv)
qed (use assms(2) in \<open>simp add: connector_poll_contexts_def\<close>)

lemma await_owned:
  assumes "rt_ok t" "read_pc_ok t (RAwait a)" "owned s (held_ids t @ others)"
    and "connector_read_thread_await_condition env a flag t n s = Some (a', t', n', s')"
  shows "rt_ok t' \<and> read_pc_ok t' (RAwait a') \<and> owned s' (held_ids t' @ others) \<and> pushes_left s' = pushes_left s"
proof (cases "a = AWoken \<and> flag = 0")
  case True
  then have "connector_read_thread_check_load t" using assms(2) by (simp add: read_pc_ok_def check_load_iff)
  from try_acquire_owned [OF assms(1) this assms(3)] True assms(4) show ?thesis
    by (auto simp: connector_read_thread_await_condition_def read_pc_ok_def Option.bind_eq_Some_conv)
next
  case False
  with assms show ?thesis
    by (auto simp: connector_read_thread_await_condition_def read_pc_ok_def split: await_pc.splits if_splits)
qed

lemma routine_owned:
  assumes env: "poll_in_place env" and ok: "rt_ok t" "read_pc_ok t pc" and o: "owned s (held_ids t @ others)"
    and b: "34 \<le> pushes_left s" and free: "length (filter (listening s) (held_ids t)) \<le> length (free_ids s)"
    and op: "read_thread_routine env pc flag t n s = Some (pc', t', n', s')"
  shows "rt_ok t' \<and> read_pc_ok t' pc' \<and> owned s' (held_ids t' @ others) \<and> pushes_left s \<le> pushes_left s' + 34"
proof (cases pc)
  case RLoop
  then show ?thesis using op ok o by (auto simp: read_thread_routine_def read_pc_ok_def split: if_splits)
next
  case (RAwait a)
  show ?thesis
  proof (cases "\<exists>r. a = AReturn r")
    case True
    have "rt_ok t' \<and> owned s' (held_ids t' @ others) \<and> pushes_left s' = pushes_left s" if "flag = 0"
    proof (cases "connector_read_thread_check_load t")
      case load: True
      from try_acquire_owned [OF ok(1) this o] show ?thesis using op that RAwait True load
        by (auto simp: read_thread_routine_def Option.bind_eq_Some_conv)
    qed (use op that RAwait True ok o in \<open>auto simp: read_thread_routine_def\<close>)
    moreover have "read_pc_ok t' pc'" using op RAwait True
      by (auto simp: read_thread_routine_def read_pc_ok_def Option.bind_eq_Some_conv split: if_splits)
    ultimately show ?thesis using op RAwait True ok o
      by (cases "flag = 0") (auto simp: read_thread_routine_def)
  next
    case False
    then obtain a' where "connector_read_thread_await_condition env a flag t n s = Some (a', t', n', s')" "pc' = RAwait a'"
      using op RAwait by (auto simp: read_thread_routine_def Option.bind_eq_Some_conv split: await_pc.splits)
    with await_owned [OF ok(1) _ o] ok(2) RAwait show ?thesis by auto
  qed
next
  case RPoll
  then obtain r t1 s1 where c: "connector_read_thread_cleanup_connections env t s = Some (r, t1, s1)"
    using op by (auto simp: read_thread_routine_def Option.bind_eq_Some_conv)
  have h: "rt_ok t1" "owned s1 (held_ids t1 @ others)" "pushes_left s \<le> pushes_left s1 + 17"
    using cleanup_owned [OF ok(1) o _ c] b by auto
  show ?thesis
  proof (cases "flag = 0")
    case True
    then obtain e polls w where pl: "connector_poll_contexts env (rt_contexts t1) (assigned_contexts t1) (world s1) = Some (e, polls, w)"
      and r: "t' = t1\<lparr>rt_contexts := polls\<rparr>" "s' = s1\<lparr>world := w\<rparr>" "pc' = RPoll \<or> pc' = RHandle"
      using op RPoll c by (auto simp: read_thread_routine_def Option.bind_eq_Some_conv)
    have "held_ids t' = held_ids t1" "rt_ok t'" using h(1) poll_length [OF env pl] r(1)
      by (simp_all add: held_ids_def rt_ok_def)
    with h r keepsD [of s1 s'] show ?thesis by (auto simp: read_pc_ok_def)
  next
    case False
    then show ?thesis using op RPoll c h by (auto simp: read_thread_routine_def read_pc_ok_def)
  qed
next
  case RHandle
  let ?ns = "[0..<unat (assigned_contexts t)]"
  obtain s1 r where sl: "serve_loop env t ?ns s = Some s1"
    and c: "connector_read_thread_cleanup_connections env t s1 = Some (r, t', s')" and pc': "pc' = RLoop"
    using op RHandle by (auto simp: read_thread_routine_def Option.bind_eq_Some_conv)
  have n: "unat (assigned_contexts t) \<le> 17" using ok(1) by (simp add: rt_ok_def)
  have "map ((!) (held_ids t)) ?ns = held_ids t" using length_held_ids [OF ok(1)] by (metis map_nth)
  then have s1: "owned s1 (held_ids t @ others)" "pushes_left s \<le> pushes_left s1 + 17"
    using serve_loop_owned [OF ok(1) o _ _ _ _ sl] n b free by auto
  then have "17 \<le> pushes_left s1" using b by linarith
  from cleanup_owned [OF ok(1) s1(1) this c] s1(2) pc' show ?thesis by (simp add: read_pc_ok_def)
next
  case RExit
  then obtain s1 r where cl: "close_loop t [0..<unat (assigned_contexts t)] s = Some s1"
    and c: "connector_read_thread_cleanup_connections env t s1 = Some (r, t', s')" and pc': "pc' = RDone"
    using op by (auto simp: read_thread_routine_def Option.bind_eq_Some_conv)
  have s1: "owned s1 (held_ids t @ others)" "pushes_left s1 = pushes_left s" using close_loop_keeps [OF cl] keepsD o by auto
  then have "17 \<le> pushes_left s1" using b by linarith
  from cleanup_owned [OF ok(1) s1(1) this c] s1(2) pc' show ?thesis by (simp add: read_pc_ok_def)
qed (use op ok o in \<open>auto simp: read_thread_routine_def\<close>)

text \<open>All the threads together.\<close>

definition all_held :: "read_module \<Rightarrow> u32 list" where
  "all_held m = concat (map (\<lambda>(t, _). held_ids t) (read_threads m))"

definition read_ok :: "read_module \<times> 'w sys \<Rightarrow> bool" where
  "read_ok x \<longleftrightarrow> (case x of (m, s) \<Rightarrow>
     list_all (\<lambda>(t, pc). rt_ok t \<and> read_pc_ok t pc) (read_threads m) \<and> owned s (all_held m))"

text \<open>
  A thread moves while the pool can serve an accept on every context it listens on; the
  application opens, connects and closes contexts in between.
\<close>

inductive read_step :: "'w os \<Rightarrow> read_module \<times> 'w sys \<Rightarrow> read_module \<times> 'w sys \<Rightarrow> bool" for env where
  thread_moves: "length (filter (listening s) (all_held m)) \<le> length (free_ids s) \<Longrightarrow>
    read_thread_step env i (m, s) = Some y \<Longrightarrow> read_step env (m, s) y"
| application: "context_step env (s, all_held m) (s', all_held m) \<Longrightarrow> read_step env (m, s) (m, s')"

lemma thread_step_owned:
  assumes env: "poll_in_place env" and ok: "read_ok (m, s)" and b: "34 \<le> pushes_left s"
    and free: "length (filter (listening s) (all_held m)) \<le> length (free_ids s)"
    and op: "read_thread_step env i (m, s) = Some (m', s')"
  shows "read_ok (m', s') \<and> pushes_left s \<le> pushes_left s' + 34"
proof -
  let ?xs = "read_threads m" and ?f = "\<lambda>(t, _ :: read_pc). held_ids t"
  have i: "i < length ?xs" using op by (auto simp: read_thread_step_def split: if_splits)
  obtain t pc where t: "?xs ! i = (t, pc)" by fastforce
  obtain pc' t' n where r: "read_thread_routine env pc (read_thread_shutdown_flag m) t (read_main_broadcasts m) s = Some (pc', t', n, s')"
    and m': "m' = m\<lparr>read_threads := ?xs[i := (t', pc')], read_main_broadcasts := n\<rparr>"
    using op i t by (auto simp: read_thread_step_def Option.bind_eq_Some_conv)
  let ?others = "concat (map ?f (take i ?xs @ drop (Suc i) ?xs))"
  have all: "mset (all_held m) = mset (held_ids t @ ?others)"
    using concat_pick [OF i, of ?f "(t, pc)"] t i by (metis (no_types, lifting) all_held_def case_prod_conv list_update_id)
  have all': "mset (all_held m') = mset (held_ids t' @ ?others)"
    using concat_pick [OF i, of ?f "(t', pc')"] by (simp add: all_held_def m')
  have th: "rt_ok t" "read_pc_ok t pc" using ok i t by (auto simp: read_ok_def list_all_length)
  have "owned s (held_ids t @ ?others)" using ok all by (simp add: read_ok_def owned_def)
  moreover have "size (filter_mset (listening s) (mset (all_held m))) \<ge> size (filter_mset (listening s) (mset (held_ids t)))"
    unfolding all by simp
  then have "length (filter (listening s) (held_ids t)) \<le> length (free_ids s)" using free
    by (metis le_trans mset_filter size_mset)
  ultimately have "rt_ok t' \<and> read_pc_ok t' pc' \<and> owned s' (held_ids t' @ ?others) \<and> pushes_left s \<le> pushes_left s' + 34"
    using routine_owned [OF env th _ b _ r] by blast
  moreover then have "list_all (\<lambda>(t, pc). rt_ok t \<and> read_pc_ok t pc) (?xs[i := (t', pc')])"
    using ok i by (auto simp: read_ok_def list_all_length nth_list_update split: prod.splits)
  ultimately show ?thesis using all' by (simp add: read_ok_def owned_def m')
qed

lemma read_step_owned:
  assumes "read_step env x y" "poll_in_place env" "read_ok x" "34 \<le> pushes_left (snd x)"
  shows "read_ok y \<and> pushes_left (snd x) \<le> pushes_left (snd y) + 34"
  using assms
proof (induction rule: read_step.induct)
  case (thread_moves s m i y)
  then show ?case using thread_step_owned [of env m s i] by (cases y) auto
next
  case (application s m s')
  with context_step_owned [OF application.hyps] show ?case by (auto simp: read_ok_def)
qed

lemma read_run_owned:
  assumes "(read_step env ^^ n) x y" "poll_in_place env" "read_ok x" "34 * n \<le> pushes_left (snd x)"
  shows "read_ok y \<and> pushes_left (snd x) \<le> pushes_left (snd y) + 34 * n"
  using assms
proof (induction n arbitrary: y)
  case (Suc n)
  then obtain z where z: "(read_step env ^^ n) x z" "read_step env z y" by auto
  with Suc have "read_ok z" "pushes_left (snd x) \<le> pushes_left (snd z) + 34 * n" by auto
  with read_step_owned [OF z(2) Suc.prems(2)] Suc.prems(4) show ?case by fastforce
qed auto

section \<open>Reading one message\<close>

lemma enqueue_pending:
  assumes "reliable_link env send recv pending" "connector_enqueue_inbound_message env m (q, w) = Some (q', w')"
  shows "pending w' = pending w"
proof -
  obtain r w1 where r: "connector_allocate env 16 w = (r, w1)" by fastforce
  with assms(2) have "w' = w1"
    by (cases r) (auto simp: connector_enqueue_inbound_message_def enqueue_message_def Option.bind_eq_Some_conv)
  with allocate_pending [OF assms(1) r] show ?thesis by simp
qed

lemma handle_connected_reads:
  assumes link: "socket_link env pending" and al: "allocator_succeeds env" and est: "established s i" and q: "wf_queues (queues s)"
    and w: "pending (world s) = f @ body @ rest" "length f = 24" "connector_ntohheader (load_header f) = h"
    and h: "CONNECTOR_IDENTIFY_MESSAGE (description h)" "message_length h \<noteq> 0xffffffff" "length body = unat (message_length h)"
  shows "\<exists>q' w'. connector_read_thread_handle_connected env i s =
      Some (SUBSTANCE_CONNECTOR_SUCCESS, signal WakeDispatch (s\<lparr>queues := q', world := w'\<rparr>)) \<and> wf_queues q' \<and>
    inbound_messages q' = inbound_messages (queues s) @
      [OWNED \<lparr>msg_header = OWNED h, msg_message = OWNED (c_string body), msg_context = i\<rparr>] \<and>
    outbound_messages q' = outbound_messages (queues s) \<and> pending w' = rest"
proof -
  let ?m = "OWNED \<lparr>msg_header = OWNED zero_header, msg_message = NULL, msg_context = i\<rparr>"
  let ?r = "OWNED \<lparr>msg_header = OWNED h, msg_message = OWNED (c_string body), msg_context = i\<rparr>"
  obtain b w1 where b: "connector_allocate env (SIZEOF_MESSAGE + SIZEOF_HEADER) (world s) = (Some b, w1)"
    using connector_allocate_ok [OF al] by blast
  let ?s = "s\<lparr>world := w1\<rparr>"
  have "pending (world ?s) = f @ body @ rest" using w(1) allocate_pending [OF link b] by simp
  moreover have "established ?s i" using est by (simp add: established_def)
  ultimately obtain w2 where w2: "connector_context_read env i ?m ?s = Some (SUBSTANCE_CONNECTOR_SUCCESS, ?r, ?s\<lparr>world := w2\<rparr>)"
    "pending w2 = rest"
    using context_read_one [OF link al _ _ _ _ w(2,3) h, of ?s i ?m
      "\<lparr>msg_header = OWNED zero_header, msg_message = NULL, msg_context = i\<rparr>" rest] by auto
  obtain q' w3 where e: "connector_enqueue_inbound_message env ?r (queues s, w2) = Some (q', w3)" "wf_queues q'"
    "inbound_messages q' = inbound_messages (queues s) @ [?r]" "outbound_messages q' = outbound_messages (queues s)"
    using inbound_enqueue [OF q al] by blast
  have "pending w3 = rest" using enqueue_pending [OF link e(1)] w2(2) by simp
  with b w2 e show ?thesis
    by (auto simp: connector_read_thread_handle_connected_def enqueue_inbound_def connector_flag_dispatch_def)
qed

section \<open>Leaving\<close>

text \<open>A context that is open or connected and can be released.\<close>

definition active :: "'w sys \<Rightarrow> u32 \<Rightarrow> bool" where
  "active s i \<longleftrightarrow> (\<exists>c. get_context s i = Some c \<and> releasable_context c \<and>
     (ctx_configuration c AND SUBSTANCE_CONNECTOR_CONN_OPEN \<noteq> 0 \<or> ctx_configuration c AND SUBSTANCE_CONNECTOR_CONN_CONNECTED \<noteq> 0))"

lemma active_cong: "get_context s' i = get_context s i \<Longrightarrow> active s' i = active s i"
  by (simp add: active_def)

lemma marked_bits:
  "ucast ((x OR SUBSTANCE_CONNECTOR_CONN_SHUTDOWN) AND SUBSTANCE_CONNECTOR_CONN_MASK) AND
     (ucast SUBSTANCE_CONNECTOR_CONN_SHUTDOWN :: u32) \<noteq> 0"
  "(x OR SUBSTANCE_CONNECTOR_CONN_SHUTDOWN) AND SUBSTANCE_CONNECTOR_CONN_OPEN = x AND SUBSTANCE_CONNECTOR_CONN_OPEN"
  "(x OR SUBSTANCE_CONNECTOR_CONN_SHUTDOWN) AND SUBSTANCE_CONNECTOR_CONN_CONNECTED = x AND SUBSTANCE_CONNECTOR_CONN_CONNECTED"
  "(x AND SUBSTANCE_CONNECTOR_CONN_MASK) AND SUBSTANCE_CONNECTOR_CONN_OPEN = x AND SUBSTANCE_CONNECTOR_CONN_OPEN"
  "(x AND SUBSTANCE_CONNECTOR_CONN_MASK) AND SUBSTANCE_CONNECTOR_CONN_CONNECTED = x AND SUBSTANCE_CONNECTOR_CONN_CONNECTED"
proof -
  have "bit (ucast ((x OR SUBSTANCE_CONNECTOR_CONN_SHUTDOWN) AND SUBSTANCE_CONNECTOR_CONN_MASK) AND
     (ucast SUBSTANCE_CONNECTOR_CONN_SHUTDOWN :: u32)) 10"
    by (simp add: conn_defs bit_simps)
  then show "ucast ((x OR SUBSTANCE_CONNECTOR_CONN_SHUTDOWN) AND SUBSTANCE_CONNECTOR_CONN_MASK) AND
     (ucast SUBSTANCE_CONNECTOR_CONN_SHUTDOWN :: u32) \<noteq> 0" by (metis bit_0_eq bot_apply bot_bool_def)
qed (simp_all add: conn_defs bit.conj_disj_distrib2 and.assoc)

lemma close_active:
  assumes "i < SUBSTANCE_CONNECTOR_CONTEXT_COUNT" "active s i"
  shows "\<exists>s'. connector_context_close i s = Some (SUBSTANCE_CONNECTOR_SUCCESS, s') \<and> shutting s' i \<and> active s' i"
proof -
  obtain c where c: "get_context s i = Some c" "releasable_context c"
    "ctx_configuration c AND SUBSTANCE_CONNECTOR_CONN_OPEN \<noteq> 0 \<or> ctx_configuration c AND SUBSTANCE_CONNECTOR_CONN_CONNECTED \<noteq> 0"
    using assms(2) by (auto simp: active_def)
  let ?c = "c\<lparr>ctx_configuration := ctx_configuration c OR SUBSTANCE_CONNECTOR_CONN_SHUTDOWN\<rparr>"
  have "connector_context_close i s = Some (SUBSTANCE_CONNECTOR_SUCCESS, set_context i ?c s)"
    using assms(1) c by (simp add: connector_context_close_def Let_def marked_bits)
  moreover have g: "get_context (set_context i ?c s) i = Some ?c"
    using c(1) by (auto simp: get_context_def split: if_splits)
  then have "shutting (set_context i ?c s) i" using assms(1) marked_bits(1)
    by (simp add: shutting_def connector_context_state_def context_configuration_def)
  moreover have "active (set_context i ?c s) i" using g c(2,3)
    by (auto simp: active_def marked_bits releasable_context_def)
  ultimately show ?thesis by blast
qed

lemma close_loop_marks:
  assumes ok: "rt_ok t" and "owned s (held_ids t @ others)" and "\<forall>n \<in> set ns. n < unat (assigned_contexts t)"
    and "\<forall>i \<in> set (held_ids t). active s i" and "\<forall>i \<in> A. shutting s i"
  shows "\<exists>s'. close_loop t ns s = Some s' \<and> (\<forall>i \<in> set (held_ids t). active s' i) \<and>
    (\<forall>i \<in> A \<union> (!) (held_ids t) ` set ns. shutting s' i) \<and> (\<forall>j. j \<notin> set (held_ids t) \<longrightarrow> get_context s' j = get_context s j)"
  using assms(2-)
proof (induction ns arbitrary: s A)
  case (Cons n ns)
  let ?c = "held_ids t ! n"
  have n: "n < unat (assigned_contexts t)" using Cons.prems(2) by simp
  note sl = slot_held [OF ok n]
  have lt: "?c < SUBSTANCE_CONNECTOR_CONTEXT_COUNT"
    using held_in_table(1) [OF Cons.prems(1), of ?c] sl(2) by (simp add: SUBSTANCE_CONNECTOR_CONTEXT_COUNT_def word_less_nat_alt)
  obtain s1 where s1: "connector_context_close ?c s = Some (SUBSTANCE_CONNECTOR_SUCCESS, s1)" "shutting s1 ?c" "active s1 ?c"
    using close_active [OF lt] Cons.prems(3) sl(2) by blast
  note tc = touches_only_owned [OF close_touches [OF s1(1)] Cons.prems(1)]
  have a: "\<forall>i \<in> set (held_ids t). active s1 i"
    using Cons.prems(3) s1(3) tc(5) active_cong by metis
  have b: "\<forall>i \<in> insert ?c A. shutting s1 i"
    using Cons.prems(4) s1(2) tc(5) shutting_cong by (metis insertE)
  have "\<forall>n \<in> set ns. n < unat (assigned_contexts t)" using Cons.prems(2) by simp
  from Cons.IH [OF tc(1) this a b] obtain s' where s': "close_loop t ns s1 = Some s'" "\<forall>i \<in> set (held_ids t). active s' i"
    "\<forall>i \<in> insert ?c A \<union> (!) (held_ids t) ` set ns. shutting s' i"
    "\<forall>j. j \<notin> set (held_ids t) \<longrightarrow> get_context s' j = get_context s1 j"
    by blast
  have "get_context s1 j = get_context s j" if "j \<notin> set (held_ids t)" for j using that sl(2) by (intro tc(5)) auto
  with s' sl(1) s1(1) show ?case by simp
qed auto

text \<open>The thread has given up everything.\<close>

definition all_released :: "'w sys \<Rightarrow> connector_read_thread \<Rightarrow> u32 list \<Rightarrow> connector_read_thread \<Rightarrow> 'w sys \<Rightarrow> bool" where
  "all_released s t others t' s' \<longleftrightarrow> held_ids t' = [] \<and> owned s' others \<and>
     (\<forall>i \<in> set (held_ids t). get_context s' i = Some zero_context \<and> i \<in> set (free_ids s')) \<and>
     (\<forall>j. j \<notin> set (held_ids t) \<longrightarrow> get_context s' j = get_context s j) \<and> set (free_ids s) \<subseteq> set (free_ids s')"

lemma exit_releases:
  assumes al: "allocator_succeeds env" and ok: "rt_ok t" and o: "owned s (held_ids t @ others)" and b: "17 \<le> pushes_left s"
    and reg: "registered (trampolines s) fs" and act: "\<forall>i \<in> set (held_ids t). active s i"
  shows "\<exists>t' s'. read_thread_routine env RExit flag t n s = Some (RDone, t', n, s') \<and> all_released s t others t' s'"
proof -
  let ?ns = "[0..<unat (assigned_contexts t)]"
  have ns: "(!) (held_ids t) ` set ?ns = set (held_ids t)" using length_held_ids [OF ok] by (metis map_nth set_map)
  obtain s1 where s1: "close_loop t ?ns s = Some s1" "\<forall>i \<in> set (held_ids t). active s1 i"
    "\<forall>i \<in> set (held_ids t). shutting s1 i" "\<forall>j. j \<notin> set (held_ids t) \<longrightarrow> get_context s1 j = get_context s j"
    using close_loop_marks [OF ok o _ act, of ?ns "{}"] unfolding ns by auto
  note k = close_loop_keeps [OF s1(1)]
  have o1: "owned s1 (held_ids t @ others)" "pushes_left s1 = pushes_left s" "free_ids s1 = free_ids s" using k keepsD o by auto
  have "unat (assigned_contexts t) \<le> pushes_left s1" using ok b o1(2) by (simp add: rt_ok_def)
  moreover have "\<exists>c. get_context s1 i = Some c \<and> releasable_context c" if "i \<in> set (held_ids t)" for i
    using s1(2) that by (auto simp: active_def)
  ultimately obtain r t' s' where c: "connector_read_thread_cleanup_connections env t s1 = Some (r, t', s')"
    and cl: "cleaned s1 t others t' s'"
    using cleanup_total [OF al ok o1(1) _ _ , of fs] reg k by auto
  have "filter (\<lambda>i. \<not> shutting s1 i) (held_ids t) = []" using s1(3) by simp
  then have "all_released s t others t' s'" using cl s1(3,4) o1(3) by (auto simp: cleaned_def all_released_def)
  with s1(1) c show ?thesis by (auto simp: read_thread_routine_def)
qed

fun read_steps :: "nat \<Rightarrow> 'w os \<Rightarrow> u32 \<Rightarrow> read_pc \<Rightarrow> connector_read_thread \<Rightarrow> nat \<Rightarrow> 'w sys \<Rightarrow>
    (read_pc \<times> connector_read_thread \<times> nat \<times> 'w sys) option" where
  "read_steps 0 env flag pc t n s = Some (pc, t, n, s)"
| "read_steps (Suc k) env flag pc t n s = do {
     (pc', t', n', s') \<leftarrow> read_thread_routine env pc flag t n s;
     read_steps k env flag pc' t' n' s' }"

lemma read_steps_add:
  "read_steps k env flag pc t n s = Some (pc', t', n', s') \<Longrightarrow>
    read_steps (k + l) env flag pc t n s = read_steps l env flag pc' t' n' s'"
  by (induction k arbitrary: pc t n s) (auto simp: Option.bind_eq_Some_conv)

lemma read_steps_done: "read_steps k env flag RDone t n s = Some (RDone, t, n, s)"
  by (induction k) (simp_all add: read_thread_routine_def)

lemma poll_then_exit:
  assumes al: "allocator_succeeds env" and flag: "flag \<noteq> 0" and ok: "rt_ok t" and o: "owned s (held_ids t @ others)"
    and b: "34 \<le> pushes_left s" and reg: "registered (trampolines s) fs" and act: "\<forall>i \<in> set (held_ids t). active s i"
  shows "\<exists>t' s'. read_steps 4 env flag RPoll t n s = Some (RDone, t', n, s') \<and> all_released s t others t' s'"
proof -
  have "unat (assigned_contexts t) \<le> pushes_left s" using ok b by (simp add: rt_ok_def)
  moreover have "\<exists>c. get_context s i = Some c \<and> releasable_context c" if "i \<in> set (held_ids t)" for i
    using act that by (auto simp: active_def)
  ultimately obtain r t1 s1 where c: "connector_read_thread_cleanup_connections env t s = Some (r, t1, s1)"
    and cl: "cleaned s t others t1 s1" using cleanup_total [OF al ok o _ reg] by blast
  then have p: "rt_ok t1" "owned s1 (held_ids t1 @ others)" "pushes_left s \<le> pushes_left s1 + length (held_ids t)"
    "trampolines s1 = trampolines s" by (auto simp: cleaned_def)
  have "length (held_ids t) \<le> 17" using ok length_held_ids [OF ok] by (simp add: rt_ok_def)
  then have b1: "17 \<le> pushes_left s1" using p(3) b by linarith
  have sub: "i \<in> set (held_ids t) \<and> \<not> shutting s i" if "i \<in> set (held_ids t1)" for i
  proof -
    have "i \<in># mset (filter (\<lambda>i. \<not> shutting s i) (held_ids t))" using cl that by (metis cleaned_def set_mset_mset)
    then show ?thesis by auto
  qed
  have act1: "\<forall>i \<in> set (held_ids t1). active s1 i"
    using act sub cl active_cong unfolding cleaned_def by metis
  obtain t' s' where e: "read_thread_routine env RExit flag t1 n s1 = Some (RDone, t', n, s')" "all_released s1 t1 others t' s'"
    using exit_releases [OF al p(1,2) b1 _ act1] reg p(4) by metis
  have "read_steps 4 env flag RPoll t n s = Some (RDone, t', n, s')"
    using c flag e(1) by (simp add: numeral_eq_Suc read_thread_routine_def [of env RPoll] read_thread_routine_def [of env RDone])
  moreover have "get_context s' i = Some zero_context \<and> i \<in> set (free_ids s')" if i: "i \<in> set (held_ids t)" for i
  proof (cases "i \<in> set (held_ids t1)")
    case False
    have "shutting s i"
    proof (rule ccontr)
      assume "\<not> shutting s i"
      then have "i \<in># mset (filter (\<lambda>i. \<not> shutting s i) (held_ids t))" using i by simp
      then show False using cl False by (metis cleaned_def set_mset_mset)
    qed
    then have "get_context s1 i = Some zero_context" "i \<in> set (free_ids s1)" using cl i by (auto simp: cleaned_def)
    then show ?thesis using e(2) False by (auto simp: all_released_def)
  qed (use e(2) in \<open>simp add: all_released_def\<close>)
  moreover have "get_context s' j = get_context s j" if "j \<notin> set (held_ids t)" for j
    using that sub e(2) cl by (metis all_released_def cleaned_def)
  ultimately show ?thesis using e(2) cl by (auto simp: all_released_def cleaned_def)
qed

section \<open>Concrete threads\<close>

definition blank_read_thread :: connector_read_thread where
  "blank_read_thread = \<lparr>rt_id = 0, rt_contexts = replicate 17 \<lparr>pfd_fd = 0, pfd_events = 0, pfd_revents = 0\<rparr>,
     rt_context_ids = replicate 17 0, assigned_contexts = 0\<rparr>"

text \<open>The static variables before the first initialisation; no thread runs.\<close>

definition initial_read_module :: read_module where
  "initial_read_module = \<lparr>read_threads = replicate 2 (blank_read_thread, RDone), read_thread_shutdown_flag = 0,
     read_main_broadcasts = 0\<rparr>"

lemma init_read_ok:
  assumes "owned s []" "length (read_threads m) = 2" "list_all (\<lambda>(t, pc). rt_ok t) (read_threads m)"
  shows "read_ok (snd (connector_init_read_threads m), s)" "all_held (snd (connector_init_read_threads m)) = []"
proof -
  have "rt_ok ((fst (read_threads m ! i))\<lparr>rt_id := i, assigned_contexts := 0\<rparr>)" if "i < 2" for i
    using assms(2,3) that by (auto simp: list_all_length rt_ok_def case_prod_unfold)
  then have "list_all (\<lambda>(t, pc). rt_ok t \<and> read_pc_ok t pc) (read_threads (snd (connector_init_read_threads m)))"
    by (simp add: connector_init_read_threads_def SUBSTANCE_CONNECTOR_INBOUND_COUNT_def list_all_iff read_pc_ok_def)
  moreover show "all_held (snd (connector_init_read_threads m)) = []"
    by (simp add: all_held_def connector_init_read_threads_def held_ids_def)
  ultimately show "read_ok (snd (connector_init_read_threads m), s)" using assms(1) by (simp add: read_ok_def)
qed

text \<open>Two established connections in the hands of the sample thread.\<close>

definition serving_sys :: "u8 list sys" where
  "serving_sys = set_context 1 sample_context (set_context 0 sample_context busy_sys)"

lemma serving_sys_owned: "owned serving_sys (held_ids sample_read_thread @ drop 2 context_ids)"
  using closing_sys_owned keepsD(1) [of busy_sys serving_sys] keepsD(1) [of busy_sys closing_sys]
  by (simp add: serving_sys_def closing_sys_def keeps_def)

lemma serving_sys_active: "\<forall>i \<in> set (held_ids sample_read_thread). active serving_sys i"
  by (simp add: sample_read_thread_ok active_def serving_sys_def get_context_def busy_sys_def initial_sys_def
      releasable_context_def sample_context_def conn_defs)

text \<open>A header on the wire, for a text of two bytes.\<close>

definition sample_frame :: "u8 list" where
  "sample_frame = [0x03, 0xc9, 0, 0, 0, 0, 0, 2] @ replicate 16 0"

definition sample_frame_header :: connector_message_header where
  "sample_frame_header = \<lparr>description = 0x03c9, message_length = 2, message_id = UUID 0 0 0 0\<rparr>"

lemma sample_frame_loads: "connector_ntohheader (load_header sample_frame) = sample_frame_header"
  by (simp add: connector_ntohheader_def load_header_def sample_frame_def sample_frame_header_def load16_def load32_def
      htons_def htonl_def ntohuuid_def take_bit_eq_mask mask_eq_exp_minus_1)

section \<open>Properties\<close>



text \<open>
  C26: a frame that arrives on an established connection becomes one inbound message. The
  handler takes exactly the bytes of the frame off the link, queues a message with the
  transmitted header, the text with its terminator and the index of the context, and wakes a
  dispatch thread; contexts, the outbound queue and the callbacks are as before.
\<close>

theorem read_delivers_frame:
  assumes "socket_link env pending" and "allocator_succeeds env" and "established s i" and "wf_queues (queues s)"
    and "pending (world s) = f @ body @ rest" and "length f = 24" and "connector_ntohheader (load_header f) = h"
    and "CONNECTOR_IDENTIFY_MESSAGE (description h)" and "message_length h \<noteq> 0xffffffff" and "length body = unat (message_length h)"
  shows "\<exists>s'. connector_read_thread_handle_context env i s = Some (SUBSTANCE_CONNECTOR_SUCCESS, s') \<and>
    inbound_messages (queues s') = inbound_messages (queues s) @
      [OWNED \<lparr>msg_header = OWNED h, msg_message = OWNED (c_string body), msg_context = i\<rparr>] \<and>
    outbound_messages (queues s') = outbound_messages (queues s) \<and> pending (world s') = rest \<and>
    signals s' = signals s @ [WakeDispatch] \<and> context_list s' = context_list s \<and> calls s' = calls s"
proof -
  have "connector_context_state i s = Some (ucast SUBSTANCE_CONNECTOR_CONN_CONNECTED)"
    using assms(3) by (auto simp: established_def connector_context_state_def context_configuration_def)
  moreover have "(ucast SUBSTANCE_CONNECTOR_CONN_CONNECTED :: u32) \<noteq> ucast SUBSTANCE_CONNECTOR_CONN_OPEN"
    by (simp add: conn_defs)
  ultimately have "connector_read_thread_handle_context env i s = connector_read_thread_handle_connected env i s"
    by (simp add: connector_read_thread_handle_context_def)
  with handle_connected_reads [OF assms] show ?thesis by auto
qed

theorem read_delivers_frame_witness:
  "\<exists>s'. connector_read_thread_handle_context sample_os 0 (connected_sys\<lparr>
       queues := snd (connector_init_message_queue_subsystem no_queues), world := sample_frame @ [104, 105]\<rparr>) =
         Some (SUBSTANCE_CONNECTOR_SUCCESS, s') \<and> world s' = [] \<and>
     inbound_messages (queues s') = [OWNED \<lparr>msg_header = OWNED \<lparr>description = 0x03c9, message_length = 2,
       message_id = UUID 0 0 0 0\<rparr>, msg_message = OWNED [104, 105, 0], msg_context = 0\<rparr>]"
proof -
  let ?q = "snd (connector_init_message_queue_subsystem no_queues)"
  let ?s = "connected_sys\<lparr>queues := ?q, world := sample_frame @ [104, 105]\<rparr>"
  have q: "wf_queues ?q" "inbound_messages ?q = []" using init_wf [of no_queues] by (auto simp: no_queues_def)
  have "send_socket sample_os = os_send sample_os" "read_socket sample_os = os_recv sample_os"
    by (simp_all add: send_socket_def read_socket_def fun_eq_iff)
  then have link: "socket_link sample_os (\<lambda>w. w)" using sample_link by simp
  have est: "established ?s 0"
    by (simp add: established_def get_context_def connected_sys_def sample_context_def conn_defs comm_defs connection_type_def
        SUBSTANCE_CONNECTOR_CONTEXT_COUNT_def)
  have l: "length sample_frame = 24" by (simp add: sample_frame_def)
  have w: "world ?s = sample_frame @ [104, 105] @ []" by simp
  have wf: "wf_queues (queues ?s)" using q(1) by simp
  have id: "CONNECTOR_IDENTIFY_MESSAGE (description sample_frame_header)" "message_length sample_frame_header \<noteq> 0xffffffff"
    "length [104, 105 :: u8] = unat (message_length sample_frame_header)"
    by (simp_all add: sample_frame_header_def CONNECTOR_IDENTIFY_MESSAGE_def CONNECTOR_MESSAGE_IDENTIFIER_def)
  from read_delivers_frame [OF link sample_os_allocator est wf w l sample_frame_loads id] q(2)
  show ?thesis by (auto simp: sample_frame_header_def c_string_def)
qed

text \<open>Outside the polling and the handling of events a thread that is told to stop reaches its exit in three steps.\<close>

lemma reaches_exit:
  assumes "flag \<noteq> 0" "pc \<noteq> RHandle" "pc \<noteq> RDone" "pc \<noteq> RPoll"
  obtains k n1 where "k < 4" "read_steps k env flag pc t n s = Some (RExit, t, n1, s)"
proof -
  consider "pc = RExit" | "pc = RLoop" | "\<exists>r. pc = RAwait (AReturn r)" | "pc = RAwait AEntry"
    | "pc = RAwait ATest" | "pc = RAwait AWaiting" | "pc = RAwait AWoken"
    using assms(2-4) by (metis await_pc.exhaust read_pc.exhaust)
  then show ?thesis
  proof cases
    case 1
    then show ?thesis by (intro that [of 0]) simp_all
  next
    case 2
    then show ?thesis using assms(1) by (intro that [of 1]) (simp_all add: read_thread_routine_def)
  next
    case 3
    then show ?thesis using assms(1) by (intro that [of 1]) (auto simp: read_thread_routine_def)
  next
    case 4
    then show ?thesis using assms(1)
      by (intro that [of 3]) (simp_all add: numeral_eq_Suc read_thread_routine_def connector_read_thread_await_condition_def)
  next
    case 5
    then show ?thesis using assms(1)
      by (intro that [of 2]) (simp_all add: numeral_eq_Suc read_thread_routine_def connector_read_thread_await_condition_def)
  next
    case 6
    then show ?thesis using assms(1)
      by (intro that [of 3]) (simp_all add: numeral_eq_Suc read_thread_routine_def connector_read_thread_await_condition_def)
  next
    case 7
    then show ?thesis using assms(1)
      by (intro that [of 2]) (simp_all add: numeral_eq_Suc read_thread_routine_def connector_read_thread_await_condition_def)
  qed
qed



end
