(* ===== verification/Write_Thread.thy ===== *)
theory Write_Thread
  imports Session Scheduling Internal_Messages
begin

text \<open>
  The write threads (\<^verbatim>\<open>write_threads.c\<close>). A thread is a program counter over the points of
  \<^verbatim>\<open>write_thread_routine\<close> between which it takes or waits for the lock. The theory shows that the
  outbound messages reach the wire as whole frames, each once, that a thread told to stop
  stops, and that a thread goes to sleep without looking at the queue.
\<close>

section \<open>State\<close>

definition SUBSTANCE_CONNECTOR_OUTBOUND_COUNT :: nat where "SUBSTANCE_CONNECTOR_OUTBOUND_COUNT = 2"

text \<open>
  The points of the routine, with the value of its variable \<open>message\<close>: the head of the main
  loop, the head of the waiting loop with the lock held, the condition wait, its return, the
  head of the sending loop, the label \<open>thread_exit\<close> and the end.
\<close>

datatype write_pc =
    WLoop "connector_message cptr"
  | WLocked "connector_message cptr"
  | WWaiting
  | WWoken
  | WSend "connector_message cptr"
  | WExit "connector_message cptr"
  | WDone

record connector_write_thread =
  wt_id :: nat
  wt_pc :: write_pc

record write_module =
  write_threads :: "connector_write_thread list"
  write_thread_shutdown_flag :: u32

section \<open>The routine\<close>

definition acquire_outbound :: "'w sys \<Rightarrow> (connector_message cptr \<times> 'w sys) option" where
  "acquire_outbound s = do {
     (m, q, w) \<leftarrow> connector_acquire_outbound_message (queues s, world s);
     Some (m, s\<lparr>queues := q, world := w\<rparr>) }"

text \<open>The body of the sending loop up to the next acquisition; the code of the write is ignored.\<close>

definition write_one :: "'w os \<Rightarrow> connector_message cptr \<Rightarrow> 'w sys \<Rightarrow> 'w sys option" where
  "write_one env message s = do {
     m \<leftarrow> deref message;
     (_, message1, s1) \<leftarrow> connector_context_write env (msg_context m) message s;
     _ \<leftarrow> release_message message1;
     Some s1 }"

definition write_thread_routine ::
    "'w os \<Rightarrow> write_pc \<Rightarrow> u32 \<Rightarrow> 'w sys \<Rightarrow> (write_pc \<times> 'w sys) option" where
  "write_thread_routine env pc shutdown_flag s =
     (case pc of
        WLoop message \<Rightarrow> Some (if shutdown_flag = 0 then WLocked message else WExit message, s)
      | WLocked message \<Rightarrow> Some (if message = NULL then WWaiting else WSend message, s)
      | WWaiting \<Rightarrow> Some (WWoken, s)
      | WWoken \<Rightarrow>
          if shutdown_flag \<noteq> 0 then Some (WExit NULL, s)
          else do {
            (m, s1) \<leftarrow> acquire_outbound s;
            Some (WLocked m, s1) }
      | WSend message \<Rightarrow>
          if message \<noteq> NULL then do {
            s1 \<leftarrow> write_one env message s;
            (m, s2) \<leftarrow> acquire_outbound s1;
            Some (WSend m, s2) }
          else Some (WLoop message, s)
      | WExit message \<Rightarrow>
          if message \<noteq> NULL then do {
            m \<leftarrow> deref message;
            _ \<leftarrow> connector_free (msg_message m);
            _ \<leftarrow> connector_free message;
            Some (WDone, s) }
          else Some (WDone, s)
      | WDone \<Rightarrow> Some (WDone, s))"

definition write_thread_step ::
    "'w os \<Rightarrow> nat \<Rightarrow> write_module \<times> 'w sys \<Rightarrow> (write_module \<times> 'w sys) option" where
  "write_thread_step env i x = (case x of (m, s) \<Rightarrow>
     if i < length (write_threads m) then do {
       (pc, s1) \<leftarrow> write_thread_routine env (wt_pc (write_threads m ! i)) (write_thread_shutdown_flag m) s;
       Some (m\<lparr>write_threads := (write_threads m)[i := (write_threads m ! i)\<lparr>wt_pc := pc\<rparr>]\<rparr>, s1) }
     else None)"

section \<open>Starting the threads\<close>

definition connector_init_write_threads :: "write_module \<Rightarrow> substance_connector_error \<times> write_module" where
  "connector_init_write_threads m = (SUBSTANCE_CONNECTOR_SUCCESS,
     m\<lparr>write_threads := map (\<lambda>i. \<lparr>wt_id = i, wt_pc = WLoop NULL\<rparr>) [0..<SUBSTANCE_CONNECTOR_OUTBOUND_COUNT]\<rparr>)"

section \<open>Sending one message\<close>

text \<open>A message in a block of its own that can be put on the wire of an established connection.\<close>

definition writable :: "'w sys \<Rightarrow> connector_message cptr \<Rightarrow> bool" where
  "writable s message \<longleftrightarrow> (\<exists>m b. message = OWNED m \<and> msg_message m = OWNED b \<and> sendable message \<and> established s (msg_context m))"

lemma writable_not_NULL: "writable s m \<Longrightarrow> m \<noteq> NULL"
  by (auto simp: writable_def)

lemma writable_cong: "context_list s' = context_list s \<Longrightarrow> writable s' m = writable s m"
  by (simp add: writable_def established_def get_context_def)

lemma write_one_sends:
  assumes "socket_link env pending" "allocator_succeeds env" "writable s m"
  shows "\<exists>fr w. write_one env m s = Some (s\<lparr>world := w\<rparr>) \<and> frame_of m fr \<and> pending w = pending (world s) @ fr"
proof -
  obtain x b where x: "m = OWNED x" "msg_message x = OWNED b" "sendable m" "established s (msg_context x)"
    using assms(3) by (auto simp: writable_def)
  from context_write_frame [OF assms(1,2) x(4,3)] obtain fr w where
    "connector_context_write env (msg_context x) m s = Some (SUBSTANCE_CONNECTOR_SUCCESS, m, s\<lparr>world := w\<rparr>)"
    "frame_of m fr" "pending w = pending (world s) @ fr" by blast
  moreover have "release_message m = Some ()" using x by (simp add: release_message_def connector_clear_message_def)
  ultimately show ?thesis using x(1) by (auto simp: write_one_def)
qed

lemma acquire_outbound_wf:
  assumes "wf_queues (queues s)"
  shows "\<exists>q. acquire_outbound s = Some (case outbound_messages (queues s) of [] \<Rightarrow> NULL | m # _ \<Rightarrow> m, s\<lparr>queues := q\<rparr>) \<and>
    wf_queues q \<and> outbound_messages q = tl (outbound_messages (queues s)) \<and> inbound_messages q = inbound_messages (queues s)"
proof (cases "outbound_messages (queues s)")
  case Nil
  with outbound_dequeue_empty [OF assms, of "world s"] assms show ?thesis
    by (intro exI [of _ "queues s"]) (simp add: acquire_outbound_def)
next
  case (Cons m ms)
  with outbound_dequeue [OF assms Cons, of "world s"] show ?thesis by (auto simp: acquire_outbound_def)
qed

section \<open>One thread on its own\<close>

fun write_steps :: "nat \<Rightarrow> 'w os \<Rightarrow> write_pc \<Rightarrow> u32 \<Rightarrow> 'w sys \<Rightarrow> (write_pc \<times> 'w sys) option" where
  "write_steps 0 env pc flag s = Some (pc, s)"
| "write_steps (Suc k) env pc flag s = do { (pc', s') \<leftarrow> write_thread_routine env pc flag s; write_steps k env pc' flag s' }"

lemma send_drains:
  assumes link: "socket_link env pending" and al: "allocator_succeeds env" and "wf_queues (queues s)"
    and "writable s m" "list_all (writable s) (outbound_messages (queues s))"
  shows "\<exists>q w frs. write_steps (Suc (length (outbound_messages (queues s)))) env (WSend m) flag s =
      Some (WSend NULL, s\<lparr>queues := q, world := w\<rparr>) \<and> wf_queues q \<and> outbound_messages q = [] \<and>
    inbound_messages q = inbound_messages (queues s) \<and>
    list_all2 frame_of (m # outbound_messages (queues s)) frs \<and> pending w = pending (world s) @ concat frs"
  using assms(3-)
proof (induction "outbound_messages (queues s)" arbitrary: m s)
  case Nil
  obtain fr w where w: "write_one env m s = Some (s\<lparr>world := w\<rparr>)" "frame_of m fr" "pending w = pending (world s) @ fr"
    using write_one_sends [OF link al Nil.prems(2)] by blast
  obtain q where q: "acquire_outbound (s\<lparr>world := w\<rparr>) = Some (NULL, s\<lparr>world := w, queues := q\<rparr>)" "wf_queues q"
    "outbound_messages q = []" "inbound_messages q = inbound_messages (queues s)"
    using acquire_outbound_wf [of "s\<lparr>world := w\<rparr>"] Nil.prems(1) by (auto simp flip: Nil.hyps)
  have "write_steps (Suc 0) env (WSend m) flag s = Some (WSend NULL, s\<lparr>queues := q, world := w\<rparr>)"
    using w(1) q(1) writable_not_NULL [OF Nil.prems(2)] by (simp add: write_thread_routine_def)
  with w q show ?case by (intro exI [of _ q] exI [of _ w] exI [of _ "[fr]"]) (simp flip: Nil.hyps)
next
  case (Cons x xs)
  obtain fr w where w: "write_one env m s = Some (s\<lparr>world := w\<rparr>)" "frame_of m fr" "pending w = pending (world s) @ fr"
    using write_one_sends [OF link al Cons.prems(2)] by blast
  obtain q where q: "acquire_outbound (s\<lparr>world := w\<rparr>) = Some (x, s\<lparr>world := w, queues := q\<rparr>)" "wf_queues q"
    "outbound_messages q = xs" "inbound_messages q = inbound_messages (queues s)"
    using acquire_outbound_wf [of "s\<lparr>world := w\<rparr>"] Cons.prems(1) by (auto simp flip: Cons.hyps(2))
  let ?s = "s\<lparr>world := w, queues := q\<rparr>"
  have wr: "writable s x" "list_all (writable s) xs" using Cons.prems(3) by (simp_all flip: Cons.hyps(2))
  then have "writable ?s x" "list_all (writable ?s) (outbound_messages (queues ?s))"
    using writable_cong [of ?s s] q(3) by (simp_all add: list_all_iff)
  with Cons.hyps(1) [of ?s x] q(2,3) obtain q' w' frs where
    r: "write_steps (Suc (length xs)) env (WSend x) flag ?s = Some (WSend NULL, ?s\<lparr>queues := q', world := w'\<rparr>)"
      "wf_queues q'" "outbound_messages q' = []" "inbound_messages q' = inbound_messages q"
      "list_all2 frame_of (x # xs) frs" "pending w' = pending w @ concat frs" by auto
  have "write_thread_routine env (WSend m) flag s = Some (WSend x, ?s)"
    using w(1) q(1) writable_not_NULL [OF Cons.prems(2)] by (simp add: write_thread_routine_def)
  with r w q(4) show ?case
    by (intro exI [of _ q'] exI [of _ w'] exI [of _ "fr # frs"]) (simp flip: Cons.hyps(2))
qed

section \<open>Any interleaving of the threads\<close>

fun write_message :: "write_pc \<Rightarrow> connector_message cptr" where
  "write_message (WLoop m) = m"
| "write_message (WLocked m) = m"
| "write_message (WSend m) = m"
| "write_message (WExit m) = m"
| "write_message _ = NULL"

definition held_message :: "write_pc \<Rightarrow> connector_message cptr multiset" where
  "held_message pc = (if write_message pc = NULL then {#} else {#write_message pc#})"

text \<open>The points a thread can be at while the flag is clear, holding nothing or a good message.\<close>

definition write_pc_ok :: "'w sys \<Rightarrow> write_pc \<Rightarrow> bool" where
  "write_pc_ok s pc \<longleftrightarrow> (case pc of WLoop m \<Rightarrow> m = NULL | WExit m \<Rightarrow> False | WDone \<Rightarrow> False
     | _ \<Rightarrow> write_message pc = NULL \<or> writable s (write_message pc))"

lemma write_pc_ok_cong: "context_list s' = context_list s \<Longrightarrow> write_pc_ok s' pc = write_pc_ok s pc"
  using writable_cong [of s' s] by (simp add: write_pc_ok_def split: write_pc.splits)

text \<open>The messages not yet sent: in the hands of a thread or in the queue.\<close>

definition unsent :: "write_module \<times> 'w sys \<Rightarrow> connector_message cptr multiset" where
  "unsent x = (case x of (m, s) \<Rightarrow>
     (\<Sum>t \<leftarrow> write_threads m. held_message (wt_pc t)) + mset (outbound_messages (queues s)))"

definition write_good :: "'w os \<Rightarrow> ('w \<Rightarrow> u8 list) \<Rightarrow> write_module \<times> 'w sys \<Rightarrow> bool" where
  "write_good env pending x \<longleftrightarrow> (case x of (m, s) \<Rightarrow> socket_link env pending \<and> allocator_succeeds env \<and>
     write_thread_shutdown_flag m = 0 \<and> wf_queues (queues s) \<and> list_all (writable s) (outbound_messages (queues s)) \<and>
     list_all (\<lambda>t. write_pc_ok s (wt_pc t)) (write_threads m))"

text \<open>Some messages went out as whole frames, and exactly those are no longer unsent.\<close>

definition only_sends :: "('w \<Rightarrow> u8 list) \<Rightarrow> write_module \<times> 'w sys \<Rightarrow> write_module \<times> 'w sys \<Rightarrow> bool" where
  "only_sends pending x y \<longleftrightarrow> (\<exists>sent frs. list_all2 frame_of sent frs \<and>
     pending (world (snd y)) = pending (world (snd x)) @ concat frs \<and> mset sent + unsent y = unsent x) \<and>
     context_list (snd y) = context_list (snd x) \<and>
     inbound_messages (queues (snd y)) = inbound_messages (queues (snd x))"

lemma only_sends_refl: "only_sends pending x x"
  unfolding only_sends_def by (intro conjI exI [of _ "[]"]) simp_all

lemma only_sends_trans:
  assumes "only_sends pending x y" "only_sends pending y z"
  shows "only_sends pending x z"
proof -
  obtain s1 f1 where 1: "list_all2 frame_of s1 f1" "pending (world (snd y)) = pending (world (snd x)) @ concat f1"
    "mset s1 + unsent y = unsent x" using assms(1) by (auto simp: only_sends_def)
  obtain s2 f2 where 2: "list_all2 frame_of s2 f2" "pending (world (snd z)) = pending (world (snd y)) @ concat f2"
    "mset s2 + unsent z = unsent y" using assms(2) by (auto simp: only_sends_def)
  have "list_all2 frame_of (s1 @ s2) (f1 @ f2)" using 1(1) 2(1) by (rule list_all2_appendI)
  moreover have "mset (s1 @ s2) + unsent z = unsent x" using 1(3) 2(3) by (metis add.assoc mset_append)
  moreover have "pending (world (snd z)) = pending (world (snd x)) @ concat (f1 @ f2)" using 1(2) 2(2) by simp
  ultimately show ?thesis using assms unfolding only_sends_def by metis
qed

lemma write_routine_sends:
  assumes link: "socket_link env pending" and al: "allocator_succeeds env" and q: "wf_queues (queues s)"
    and out: "list_all (writable s) (outbound_messages (queues s))" and pc: "write_pc_ok s pc"
  shows "\<exists>pc' s' sent frs. write_thread_routine env pc 0 s = Some (pc', s') \<and> write_pc_ok s' pc' \<and> wf_queues (queues s') \<and>
    list_all (writable s') (outbound_messages (queues s')) \<and> context_list s' = context_list s \<and>
    inbound_messages (queues s') = inbound_messages (queues s) \<and>
    list_all2 frame_of sent frs \<and> pending (world s') = pending (world s) @ concat frs \<and>
    mset sent + held_message pc' + mset (outbound_messages (queues s')) = held_message pc + mset (outbound_messages (queues s))"
proof -
  have acq: "\<exists>m q'. acquire_outbound t = Some (m, t\<lparr>queues := q'\<rparr>) \<and> (m = NULL \<or> writable t m) \<and> wf_queues q' \<and>
      list_all (writable t) (outbound_messages q') \<and> inbound_messages q' = inbound_messages (queues t) \<and>
      held_message (WSend m) + mset (outbound_messages q') = mset (outbound_messages (queues t))"
    if "wf_queues (queues t)" "list_all (writable t) (outbound_messages (queues t))" for t :: "'a sys"
    using acquire_outbound_wf [OF that(1)] that(2)
    by (cases "outbound_messages (queues t)") (fastforce simp: held_message_def dest: writable_not_NULL)+
  obtain m1 q1 where a1: "acquire_outbound s = Some (m1, s\<lparr>queues := q1\<rparr>)" "m1 = NULL \<or> writable s m1" "wf_queues q1"
    "list_all (writable s) (outbound_messages q1)" "inbound_messages q1 = inbound_messages (queues s)"
    "held_message (WSend m1) + mset (outbound_messages q1) = mset (outbound_messages (queues s))"
    using acq [OF q out] by blast
  have cong: "writable (s\<lparr>world := y, queues := x\<rparr>) = writable s" "writable (s\<lparr>queues := x\<rparr>) = writable s"
    "writable (s\<lparr>world := y\<rparr>) = writable s" for x y
    by (intro ext writable_cong; simp)+
  show ?thesis
  proof (cases pc)
    case (WLoop m)
    with pc q out show ?thesis
      by (intro exI [of _ "WLocked m"] exI [of _ s] exI [of _ "[]"])
        (simp add: write_thread_routine_def write_pc_ok_def held_message_def)
  next
    case (WLocked m)
    with pc q out show ?thesis
      by (intro exI [of _ "if m = NULL then WWaiting else WSend m"] exI [of _ s] exI [of _ "[]"])
        (auto simp: write_thread_routine_def write_pc_ok_def held_message_def)
  next
    case WWaiting
    with pc q out show ?thesis
      by (intro exI [of _ WWoken] exI [of _ s] exI [of _ "[]"])
        (simp add: write_thread_routine_def write_pc_ok_def held_message_def)
  next
    case WWoken
    with a1 show ?thesis
      by (intro exI [of _ "WLocked m1"] exI [of _ "s\<lparr>queues := q1\<rparr>"] exI [of _ "[]"])
        (auto simp: write_thread_routine_def write_pc_ok_def held_message_def cong)
  next
    case (WSend m)
    show ?thesis
    proof (cases "m = NULL")
      case True
      with WSend q out show ?thesis
        by (intro exI [of _ "WLoop NULL"] exI [of _ s] exI [of _ "[]"])
          (simp add: write_thread_routine_def write_pc_ok_def held_message_def)
    next
      case False
      then have "writable s m" using pc WSend by (simp add: write_pc_ok_def)
      from write_one_sends [OF link al this] obtain fr w where
        w: "write_one env m s = Some (s\<lparr>world := w\<rparr>)" "frame_of m fr" "pending w = pending (world s) @ fr" by blast
      obtain m2 q2 where a2: "acquire_outbound (s\<lparr>world := w\<rparr>) = Some (m2, s\<lparr>world := w, queues := q2\<rparr>)"
        "m2 = NULL \<or> writable s m2" "wf_queues q2" "list_all (writable s) (outbound_messages q2)"
        "inbound_messages q2 = inbound_messages (queues s)"
        "held_message (WSend m2) + mset (outbound_messages q2) = mset (outbound_messages (queues s))"
        using acq [of "s\<lparr>world := w\<rparr>"] q out by (auto simp: cong)
      have "write_thread_routine env pc 0 s = Some (WSend m2, s\<lparr>world := w, queues := q2\<rparr>)"
        using WSend False w(1) a2(1) by (simp add: write_thread_routine_def)
      moreover have "mset [m] + held_message (WSend m2) + mset (outbound_messages q2) =
          held_message pc + mset (outbound_messages (queues s))"
        using a2(6) WSend False by (simp add: held_message_def)
      ultimately show ?thesis using w a2
        by (intro exI [of _ "WSend m2"] exI [of _ "s\<lparr>world := w, queues := q2\<rparr>"] exI [of _ "[m]"] exI [of _ "[fr]"])
          (simp add: write_pc_ok_def cong)
    qed
  qed (use pc in \<open>simp_all add: write_pc_ok_def\<close>)
qed

lemma write_step_sends:
  assumes g: "write_good env pending x" and i: "i < length (write_threads (fst x))"
  shows "\<exists>y. write_thread_step env i x = Some y \<and> write_good env pending y \<and>
    length (write_threads (fst y)) = length (write_threads (fst x)) \<and> only_sends pending x y"
proof -
  obtain m s where x: "x = (m, s)" by fastforce
  let ?t = "write_threads m ! i"
  have o: "socket_link env pending" "allocator_succeeds env" "write_thread_shutdown_flag m = 0" "wf_queues (queues s)"
    "list_all (writable s) (outbound_messages (queues s))" "list_all (\<lambda>t. write_pc_ok s (wt_pc t)) (write_threads m)"
    using g by (auto simp: write_good_def x)
  have i: "i < length (write_threads m)" using i x by simp
  then have "write_pc_ok s (wt_pc ?t)" using o(6) by (simp add: list_all_length)
  from write_routine_sends [OF o(1,2,4,5) this] obtain pc' s' sent frs where
    r: "write_thread_routine env (wt_pc ?t) 0 s = Some (pc', s')" "write_pc_ok s' pc'" "wf_queues (queues s')"
      "list_all (writable s') (outbound_messages (queues s'))" "context_list s' = context_list s"
      "inbound_messages (queues s') = inbound_messages (queues s)"
      "list_all2 frame_of sent frs" "pending (world s') = pending (world s) @ concat frs"
    and eq: "mset sent + held_message pc' + mset (outbound_messages (queues s')) = {#} + held_message (wt_pc ?t) + mset (outbound_messages (queues s))"
    by auto
  let ?m = "m\<lparr>write_threads := (write_threads m)[i := ?t\<lparr>wt_pc := pc'\<rparr>]\<rparr>"
  have step: "write_thread_step env i x = Some (?m, s')" using r(1) i o(3) by (simp add: x write_thread_step_def)
  have "list_all (\<lambda>t. write_pc_ok s' (wt_pc t)) (write_threads ?m)"
    using o(6) r(2) i write_pc_ok_cong [OF r(5)] by (simp add: list_all_length nth_list_update)
  then have "write_good env pending (?m, s')" using o r by (simp add: write_good_def)
  moreover have "(\<Sum>t \<leftarrow> write_threads ?m. held_message (wt_pc t)) + held_message (wt_pc ?t)
      = (\<Sum>t \<leftarrow> write_threads m. held_message (wt_pc t)) + held_message pc'"
    using sum_list_update_mset [OF i, of "\<lambda>t. held_message (wt_pc t)" "?t\<lparr>wt_pc := pc'\<rparr>"] by simp
  from mset_exchange [OF eq this] have "mset sent + unsent (?m, s') = unsent x" by (simp add: unsent_def x)
  then have "only_sends pending x (?m, s')" using r(5-8) unfolding only_sends_def x by auto
  ultimately show ?thesis using step by (simp add: x)
qed

interpretation writers: thread_family "write_thread_step env" "\<lambda>x. length (write_threads (fst x))"
  "write_good env pending" "only_sends pending" for env :: "'w os" and pending
proof unfold_locales
  show "only_sends pending x x" for x by (rule only_sends_refl)
  show "only_sends pending x z" if "only_sends pending x y" "only_sends pending y z" for x y z
    using that by (rule only_sends_trans)
  show "\<exists>y. write_thread_step env i x = Some y \<and> write_good env pending y \<and>
      length (write_threads (fst y)) = length (write_threads (fst x)) \<and> only_sends pending x y"
    if "write_good env pending x" "i < length (write_threads (fst x))" for x i
    using that by (rule write_step_sends)
qed

section \<open>Stopping\<close>

lemma write_steps_add:
  "write_steps k env pc flag s = Some (pc', s') \<Longrightarrow> write_steps (k + l) env pc flag s = write_steps l env pc' flag s'"
  by (induction k arbitrary: pc s) (auto simp: Option.bind_eq_Some_conv)

lemma write_steps_done: "write_steps k env WDone flag s = Some (WDone, s)"
  by (induction k) (simp_all add: write_thread_routine_def)

lemma write_steps_leave:
  assumes "flag \<noteq> 0" "pc = WLoop NULL \<or> pc = WLocked NULL \<or> pc = WWaiting \<or> pc = WWoken \<or> pc = WSend NULL \<or> pc = WDone"
  shows "write_steps (4 + k) env pc flag s = Some (WDone, s)"
proof -
  have "write_steps 4 env pc flag s = Some (WDone, s)"
    using assms by (auto simp: numeral_eq_Suc write_thread_routine_def)
  from write_steps_add [OF this] show ?thesis by (simp add: write_steps_done)
qed

lemma write_steps_finish:
  assumes link: "socket_link env pending" and al: "allocator_succeeds env" and fl: "flag \<noteq> 0" and q: "wf_queues (queues s)"
    and m: "writable s m" and out: "list_all (writable s) (outbound_messages (queues s))"
  shows "\<exists>s' frs. write_steps (length (outbound_messages (queues s)) + 5) env (WSend m) flag s = Some (WDone, s') \<and>
    outbound_messages (queues s') = [] \<and> list_all2 frame_of (m # outbound_messages (queues s)) frs \<and>
    pending (world s') = pending (world s) @ concat frs"
proof -
  let ?n = "length (outbound_messages (queues s))"
  obtain q' w frs where d: "write_steps (Suc ?n) env (WSend m) flag s = Some (WSend NULL, s\<lparr>queues := q', world := w\<rparr>)"
    "outbound_messages q' = []" "list_all2 frame_of (m # outbound_messages (queues s)) frs" "pending w = pending (world s) @ concat frs"
    using send_drains [OF link al q m out] by blast
  have "write_steps (Suc ?n + 4) env (WSend m) flag s = Some (WDone, s\<lparr>queues := q', world := w\<rparr>)"
    using write_steps_add [OF d(1), of 4] write_steps_leave [OF fl, of "WSend NULL" 0] by simp
  then have "write_steps (?n + 5) env (WSend m) flag s = Some (WDone, s\<lparr>queues := q', world := w\<rparr>)"
    by (simp only: add_Suc add_Suc_right [symmetric] eval_nat_numeral)
  with d(2-4) show ?thesis by auto
qed

section \<open>A concrete module\<close>

definition sample_write_module :: write_module where
  "sample_write_module = \<lparr>write_threads = [\<lparr>wt_id = 0, wt_pc = WSend sample_message\<rparr>, \<lparr>wt_id = 1, wt_pc = WLoop NULL\<rparr>],
     write_thread_shutdown_flag = 0\<rparr>"

definition sample_write_sys :: "u8 list sys" where
  "sample_write_sys = connected_sys\<lparr>queues := snd (connector_init_message_queue_subsystem no_queues)\<rparr>"

lemma sample_socket_link: "socket_link sample_os (\<lambda>w. w)"
proof -
  have "send_socket sample_os = os_send sample_os" "read_socket sample_os = os_recv sample_os"
    by (simp_all add: send_socket_def read_socket_def fun_eq_iff)
  then show ?thesis using sample_link by simp
qed

lemma sample_write_queues: "wf_queues (queues sample_write_sys)" "outbound_messages (queues sample_write_sys) = []"
  using init_wf [of no_queues] by (auto simp: no_queues_def sample_write_sys_def)

lemma sample_writable: "writable sample_write_sys sample_message"
  by (simp add: writable_def sample_message_def sendable_def established_def get_context_def sample_write_sys_def connected_sys_def
      sample_context_def conn_defs comm_defs connection_type_def SUBSTANCE_CONNECTOR_CONTEXT_COUNT_def)

section \<open>Properties\<close>



text \<open>
  A write thread empties the outbound queue in order. A thread that has a message in
  hand sends it and then the whole queue, one frame per message in the order of the queue,
  and ends with the queue empty and nothing in hand; it releases each message and touches
  neither the contexts nor the inbound queue.
\<close>

theorem write_thread_drains:
  assumes "socket_link env pending" and "allocator_succeeds env" and "wf_queues (queues s)"
    and "writable s m" and "list_all (writable s) (outbound_messages (queues s))"
  shows "\<exists>s' frs. write_steps (Suc (length (outbound_messages (queues s)))) env (WSend m) flag s = Some (WSend NULL, s') \<and>
    outbound_messages (queues s') = [] \<and> inbound_messages (queues s') = inbound_messages (queues s) \<and>
    context_list s' = context_list s \<and> list_all2 frame_of (m # outbound_messages (queues s)) frs \<and>
    pending (world s') = pending (world s) @ concat frs"
  using send_drains [OF assms, of flag] by fastforce

theorem write_thread_drains_witness:
  "\<exists>s' fr. write_steps 1 sample_os (WSend sample_message) 0 sample_write_sys = Some (WSend NULL, s') \<and>
     frame_of sample_message fr \<and> world s' = fr"
  using write_thread_drains [OF sample_socket_link sample_os_allocator sample_write_queues(1) sample_writable, of 0] sample_write_queues(2)
  by (auto simp: sample_write_sys_def connected_sys_def initial_sys_def list_all2_Cons1)

text \<open>
  A write thread stops. Once the shutdown flag is set, a thread reaches its end
  within six of its own steps plus one for every queued message; a thread that is
  sending finishes the queue first, one that is waiting leaves the queue as it is.
\<close>

theorem write_thread_stops:
  assumes "socket_link env pending" and "allocator_succeeds env" and "flag \<noteq> 0" and "wf_queues (queues s)"
    and "list_all (writable s) (outbound_messages (queues s))" and "write_pc_ok s pc"
  shows "\<exists>s'. write_steps (length (outbound_messages (queues s)) + 6) env pc flag s = Some (WDone, s') \<and>
    (if write_message pc = NULL then s' = s else outbound_messages (queues s') = [])"
proof -
  let ?n = "length (outbound_messages (queues s))"
  show ?thesis
  proof (cases "write_message pc = NULL")
    case True
    then have "write_steps (4 + (?n + 2)) env pc flag s = Some (WDone, s)"
      using assms(3,6) by (intro write_steps_leave) (auto simp: write_pc_ok_def split: write_pc.splits)
    then show ?thesis using True by (simp add: add.commute numeral_eq_Suc)
  next
    case False
    then obtain m where m: "pc = WLocked m \<or> pc = WSend m" "writable s m" "m \<noteq> NULL"
      using assms(6) by (cases pc) (auto simp: write_pc_ok_def)
    obtain s' where f: "write_steps (?n + 5) env (WSend m) flag s = Some (WDone, s')" "outbound_messages (queues s') = []"
      using write_steps_finish [OF assms(1-4) m(2) assms(5)] by blast
    have "write_steps (?n + 6) env pc flag s = Some (WDone, s')"
    proof (cases "pc = WSend m")
      case True
      with write_steps_add [OF f(1), of 1] show ?thesis by (simp add: write_steps_done add.commute)
    next
      case False
      then have "write_steps 1 env pc flag s = Some (WSend m, s)" using m by (simp add: write_thread_routine_def)
      from write_steps_add [OF this, of "?n + 5"] f(1) show ?thesis by (simp add: add.commute)
    qed
    with f(2) False show ?thesis by auto
  qed
qed

theorem write_thread_stops_witness:
  "\<exists>s'. write_steps 6 sample_os (WSend sample_message) 1 sample_write_sys = Some (WDone, s') \<and> outbound_messages (queues s') = []"
proof -
  have "write_pc_ok sample_write_sys (WSend sample_message)" "write_message (WSend sample_message) \<noteq> NULL"
    using sample_writable by (simp_all add: write_pc_ok_def writable_not_NULL)
  then show ?thesis
    using write_thread_stops [OF sample_socket_link sample_os_allocator _ sample_write_queues(1), of 1 "WSend sample_message"]
      sample_write_queues(2) by (auto simp del: write_message.simps)
qed

text \<open>
  A write thread goes to sleep without looking at the queue. After its last empty
  acquisition a thread reaches the condition wait in three steps whatever the queue holds
  by then: a message queued, and a signal sent, in between are only noticed at the next signal.
  The dispatch threads look at their queue before they wait.
\<close>

theorem write_thread_sleeps_unchecked:
  "write_steps 3 env (WSend NULL) 0 s = Some (WWaiting, s)"
  by (simp add: numeral_eq_Suc write_thread_routine_def)

end
