(* ===== verification/Communication.thy ===== *)
theory Communication
  imports Dispatch Read_Thread Write_Thread
begin

text \<open>
  The library as a whole: the state of its modules and its six threads, and the start and
  the stop of the communication and dispatch threads (\<^verbatim>\<open>communication.c\<close>, the ends of
  \<^verbatim>\<open>read_threads.c\<close>, \<^verbatim>\<open>write_threads.c\<close> and \<^verbatim>\<open>dispatch.c\<close>). A call that waits for threads lets the
  threads of the library run in the order of a schedule that is its parameter; a schedule
  after which the awaited condition does not hold is one in which the call has not returned.
\<close>

section \<open>State and threads\<close>

text \<open>\<^verbatim>\<open>enum SubstanceConnectorState\<close>, the state variable of \<^verbatim>\<open>state.h\<close>.\<close>

datatype SubstanceConnectorState =
    SUBSTANCE_CONNECTOR_STATE_SHUTDOWN
  | SUBSTANCE_CONNECTOR_STATE_INIT_STARTED
  | SUBSTANCE_CONNECTOR_STATE_INIT_FINISHED
  | SUBSTANCE_CONNECTOR_STATE_SHUTDOWN_STARTED
  | SUBSTANCE_CONNECTOR_STATE_ALLOCATOR_STARTED
  | SUBSTANCE_CONNECTOR_STATE_INTERNAL_ERROR

record ('w, 'f) connector =
  connector_module_state :: SubstanceConnectorState
  module_allocators :: "'f allocators"
  dispatch_part :: dispatch_module
  read_part :: read_module
  write_part :: write_module
  sys_part :: "'w sys"

datatype connector_thread = DispatchThread nat | ReadThread nat | WriteThread nat

definition thread_step ::
    "'w os \<Rightarrow> connector_thread \<Rightarrow> ('w, 'f) connector \<Rightarrow> ('w, 'f) connector option" where
  "thread_step env t c =
     (case t of
        DispatchThread i \<Rightarrow> do {
          (d, s) \<leftarrow> dispatch_thread_step env i (dispatch_part c, sys_part c);
          Some (c\<lparr>dispatch_part := d, sys_part := s\<rparr>) }
      | ReadThread i \<Rightarrow> do {
          (m, s) \<leftarrow> read_thread_step env i (read_part c, sys_part c);
          Some (c\<lparr>read_part := m, sys_part := s\<rparr>) }
      | WriteThread i \<Rightarrow> do {
          (m, s) \<leftarrow> write_thread_step env i (write_part c, sys_part c);
          Some (c\<lparr>write_part := m, sys_part := s\<rparr>) })"

abbreviation threads_run ::
    "'w os \<Rightarrow> connector_thread list \<Rightarrow> ('w, 'f) connector \<Rightarrow> ('w, 'f) connector option" where
  "threads_run env sched c \<equiv> run_schedule (thread_step env) sched c"

section \<open>Stopping the threads\<close>

definition connector_shutdown_read_threads ::
    "'w os \<Rightarrow> connector_thread list \<Rightarrow> ('w, 'f) connector \<Rightarrow> (substance_connector_error \<times> ('w, 'f) connector) option" where
  "connector_shutdown_read_threads env sched c =
     (case CONNECTOR_ATOMIC_COMPARE_EXCHANGE (read_thread_shutdown_flag (read_part c)) 0 1 of (flag, shutdown) \<Rightarrow>
        let c1 = c\<lparr>read_part := (read_part c)\<lparr>read_thread_shutdown_flag := flag\<rparr>\<rparr> in
        if shutdown = 0 then do {
          c2 \<leftarrow> threads_run env sched (c1\<lparr>sys_part := signal WakeRead (sys_part c1)\<rparr>);
          guard_ok (list_all (\<lambda>t. snd t = RDone) (read_threads (read_part c2)));
          Some (SUBSTANCE_CONNECTOR_SUCCESS, c2\<lparr>read_part := (read_part c2)\<lparr>read_thread_shutdown_flag :=
            fst (CONNECTOR_ATOMIC_COMPARE_EXCHANGE (read_thread_shutdown_flag (read_part c2)) 1 0)\<rparr>\<rparr>) }
        else Some (SUBSTANCE_CONNECTOR_ERROR, c1))"

definition connector_shutdown_write_threads ::
    "'w os \<Rightarrow> connector_thread list \<Rightarrow> ('w, 'f) connector \<Rightarrow> (substance_connector_error \<times> ('w, 'f) connector) option" where
  "connector_shutdown_write_threads env sched c =
     (case CONNECTOR_ATOMIC_COMPARE_EXCHANGE (write_thread_shutdown_flag (write_part c)) 0 1 of (flag, shutdown) \<Rightarrow>
        let c1 = c\<lparr>write_part := (write_part c)\<lparr>write_thread_shutdown_flag := flag\<rparr>\<rparr> in
        if shutdown = 0 then do {
          c2 \<leftarrow> threads_run env sched (c1\<lparr>sys_part := signal WakeWrite (sys_part c1)\<rparr>);
          guard_ok (list_all (\<lambda>t. wt_pc t = WDone) (write_threads (write_part c2)));
          Some (SUBSTANCE_CONNECTOR_SUCCESS, c2\<lparr>write_part := (write_part c2)\<lparr>write_thread_shutdown_flag :=
            fst (CONNECTOR_ATOMIC_COMPARE_EXCHANGE (write_thread_shutdown_flag (write_part c2)) 1 0)\<rparr>\<rparr>) }
        else Some (SUBSTANCE_CONNECTOR_ERROR, c1))"

text \<open>\<^verbatim>\<open>terminate_dispatch\<close> sets the code, wakes the threads, joins them and resets the code.\<close>

definition terminate_dispatch ::
    "'w os \<Rightarrow> connector_thread list \<Rightarrow> ('w, 'f) connector \<Rightarrow> (substance_connector_error \<times> ('w, 'f) connector) option" where
  "terminate_dispatch env sched c = do {
     c2 \<leftarrow> threads_run env sched (c\<lparr>dispatch_part := terminate_dispatch_request (dispatch_part c),
       sys_part := signal WakeDispatch (sys_part c)\<rparr>);
     guard_ok (dispatch_joined (dispatch_part c2));
     Some (SUBSTANCE_CONNECTOR_SUCCESS, c2\<lparr>dispatch_part := terminate_dispatch_reset (dispatch_part c2)\<rparr>) }"

definition connector_shutdown_dispatch_subsystem ::
    "'w os \<Rightarrow> connector_thread list \<Rightarrow> ('w, 'f) connector \<Rightarrow> (substance_connector_error \<times> ('w, 'f) connector) option" where
  "connector_shutdown_dispatch_subsystem env sched c = terminate_dispatch env sched c"

section \<open>The communication subsystem\<close>

definition connector_terminate_comm ::
    "'w os \<Rightarrow> connector_thread list \<Rightarrow> connector_thread list \<Rightarrow> ('w, 'f) connector \<Rightarrow>
      (substance_connector_error \<times> ('w, 'f) connector) option" where
  "connector_terminate_comm env wsched rsched c = do {
     (retcode, c1) \<leftarrow> connector_shutdown_write_threads env wsched c;
     (read_retcode, c2) \<leftarrow> connector_shutdown_read_threads env rsched c1;
     Some (if retcode = SUBSTANCE_CONNECTOR_SUCCESS then read_retcode else retcode, c2) }"

text \<open>The codes of the parts are ignored; the creation of the read threads waits for a broadcast of each.\<close>

definition connector_init_comm_subsystem ::
    "'w os \<Rightarrow> connector_thread list \<Rightarrow> ('w, 'f) connector \<Rightarrow> (substance_connector_error \<times> ('w, 'f) connector) option" where
  "connector_init_comm_subsystem env sched c = do {
     (_, q, w) \<leftarrow> connector_available_queue_init env (connection_queue (sys_part c)) (world (sys_part c));
     let c1 = c\<lparr>sys_part := (sys_part c)\<lparr>connection_queue := q, world := w\<rparr>\<rparr>;
     let c2 = c1\<lparr>write_part := snd (connector_init_write_threads (write_part c1))\<rparr>;
     let c3 = c2\<lparr>read_part := snd (connector_init_read_threads (read_part c2))\<rparr>;
     c4 \<leftarrow> threads_run env sched c3;
     guard_ok (read_main_broadcasts (read_part c4) \<ge> read_main_broadcasts (read_part c3) + SUBSTANCE_CONNECTOR_INBOUND_COUNT);
     Some (SUBSTANCE_CONNECTOR_SUCCESS, c4) }"

text \<open>The code of the termination is overwritten by that of the queue.\<close>

definition connector_shutdown_comm_subsystem ::
    "'w os \<Rightarrow> connector_thread list \<Rightarrow> connector_thread list \<Rightarrow> ('w, 'f) connector \<Rightarrow>
      (substance_connector_error \<times> ('w, 'f) connector) option" where
  "connector_shutdown_comm_subsystem env wsched rsched c = do {
     (_, c1) \<leftarrow> connector_terminate_comm env wsched rsched c;
     (r, q) \<leftarrow> connector_available_queue_shutdown (connection_queue (sys_part c1));
     Some (r, c1\<lparr>sys_part := (sys_part c1)\<lparr>connection_queue := q\<rparr>\<rparr>) }"

end
