(* ===== verification/Autoconnect.thy ===== *)
theory Autoconnect
  imports Context_Ownership
begin

text \<open>
  Discovery of running instances (\<^verbatim>\<open>autoconnect.c\<close>): the announcement files of a directory are
  listed and each is connected to. The theory shows that the port announced by a file
  name is the port that is connected to, unless it is in use already.
\<close>

section \<open>Library functions\<close>

text \<open>\<^verbatim>\<open>strrchr\<close>: the string from the last occurrence of a character on, which must not be the terminator.\<close>

definition strrchr :: "u8 list \<Rightarrow> u8 \<Rightarrow> u8 list option" where
  "strrchr s c = (if c \<in> set s then Some (c # rev (takeWhile (\<lambda>x. x \<noteq> c) (rev s))) else None)"

definition is_space :: "u8 \<Rightarrow> bool" where
  "is_space c \<longleftrightarrow> c = 32 \<or> 9 \<le> c \<and> c \<le> 13"

definition is_digit :: "u8 \<Rightarrow> bool" where
  "is_digit c \<longleftrightarrow> 48 \<le> c \<and> c < 58"

text \<open>\<^verbatim>\<open>atoi\<close> as \<^verbatim>\<open>(int) strtol(s, NULL, 10)\<close>: white space, a sign, digits; saturating at 64 bits.\<close>

definition strtol10 :: "u8 list \<Rightarrow> int" where
  "strtol10 s =
     (let t = dropWhile is_space s;
          negative = (t \<noteq> [] \<and> hd t = 45);
          u = (if t \<noteq> [] \<and> (hd t = 45 \<or> hd t = 43) then tl t else t);
          v = int (digits_value (takeWhile is_digit u))
      in max (- (2 ^ 63)) (min (2 ^ 63 - 1) (if negative then - v else v)))"

definition atoi :: "u8 list \<Rightarrow> c_int" where
  "atoi s = of_int (strtol10 s)"

section \<open>Ports\<close>

fun tcp_validity_loop :: "u32 \<Rightarrow> u32 list \<Rightarrow> 'w sys \<Rightarrow> substance_connector_error option" where
  "tcp_validity_loop port [] s = Some SUBSTANCE_CONNECTOR_SUCCESS"
| "tcp_validity_loop port (i # is') s = do {
     state \<leftarrow> connector_context_state i s;
     type \<leftarrow> connector_context_type i s;
     if state \<noteq> ucast SUBSTANCE_CONNECTOR_CONN_CLOSED \<and> type = ucast SUBSTANCE_CONNECTOR_COMM_TCP then do {
       p \<leftarrow> connector_context_port i s;
       if port = p then Some SUBSTANCE_CONNECTOR_ERROR else tcp_validity_loop port is' s }
     else tcp_validity_loop port is' s }"

definition test_tcp_validity :: "u32 \<Rightarrow> 'w sys \<Rightarrow> substance_connector_error option" where
  "test_tcp_validity port s =
     (if port \<le> 65535 then tcp_validity_loop port (map of_nat [0..<unat SUBSTANCE_CONNECTOR_CONTEXT_COUNT]) s
      else Some SUBSTANCE_CONNECTOR_ERROR)"

text \<open>A path without a delimiter would make the code read through the NULL result of the search.\<close>

definition connect_tcp_path_impl ::
    "'w os \<Rightarrow> u8 list cptr \<Rightarrow> bool \<Rightarrow> 'w sys \<Rightarrow> (substance_connector_error \<times> u32 option \<times> 'w sys) option" where
  "connect_tcp_path_impl env path want s = do {
     p \<leftarrow> c_path path;
     filename \<leftarrow> strrchr p CONNECTOR_PATH_DELIM;
     let filename1 = (case filename of [] \<Rightarrow> [] | c # rest \<Rightarrow> if c \<noteq> 0 then rest else filename);
     let port = atoi filename1;
     valid \<leftarrow> test_tcp_validity port s;
     if valid = SUBSTANCE_CONNECTOR_SUCCESS then connector_context_connect_tcp env port want s
     else Some (SUBSTANCE_CONNECTOR_SUCCESS, None, s) }"

section \<open>Broadcast\<close>

text \<open>A pointer as the callee gets it: the block still belongs to the caller.\<close>

fun lend :: "'a cptr \<Rightarrow> 'a cptr" where
  "lend (OWNED x) = BORROWED x"
| "lend p = p"

type_synonym 'w test_file_type_fp = "u8 list cptr \<Rightarrow> 'w \<Rightarrow> (substance_connector_error \<times> 'w) option"
type_synonym 'w connect_path_fp =
  "u8 list cptr \<Rightarrow> bool \<Rightarrow> 'w sys \<Rightarrow> (substance_connector_error \<times> u32 option \<times> 'w sys) option"

text \<open>The walk over the listed names; \<open>filepath\<close> keeps its value when the join fails.\<close>

fun broadcast_loop ::
    "'w os \<Rightarrow> u8 list cptr \<Rightarrow> 'w test_file_type_fp \<Rightarrow> 'w connect_path_fp \<Rightarrow> u8 list cptr list \<Rightarrow> u8 list cptr \<Rightarrow>
      'w sys \<Rightarrow> 'w sys option" where
  "broadcast_loop env socket_dir test_type connect_path [] filepath s = None"
| "broadcast_loop env socket_dir test_type connect_path (element # rest) filepath s =
     (if element = NULL then Some s
      else do {
        (_, joined, w1) \<leftarrow> connector_path_join env (Some [socket_dir, element, NULL]) True (world s);
        let path = (case joined of None \<Rightarrow> filepath | Some p \<Rightarrow> p);
        (r, w2) \<leftarrow> test_type path w1;
        let s2 = s\<lparr>world := w2\<rparr>;
        s3 \<leftarrow> (if r = SUBSTANCE_CONNECTOR_SUCCESS then do {
                 (rc, _, s') \<leftarrow> connect_path (lend path) True s2;
                 if rc \<noteq> SUBSTANCE_CONNECTOR_SUCCESS then do {
                   (_, w3) \<leftarrow> connector_remove_file env path (world s');
                   Some (s'\<lparr>world := w3\<rparr>) }
                 else Some s' }
               else Some s2);
        freed \<leftarrow> connector_free path;
        broadcast_loop env socket_dir test_type connect_path rest freed s3 })"

definition broadcast_connect_impl ::
    "'w os \<Rightarrow> u8 list cptr \<Rightarrow> 'w test_file_type_fp \<Rightarrow> 'w connect_path_fp \<Rightarrow> 'w sys \<Rightarrow>
      (substance_connector_error \<times> 'w sys) option" where
  "broadcast_connect_impl env socket_dir test_type connect_path s = do {
     (r, w1) \<leftarrow> connector_is_directory env socket_dir (world s);
     if r = SUBSTANCE_CONNECTOR_SUCCESS then do {
       (r2, elements, w2) \<leftarrow> connector_list_directory env socket_dir None NULL w1;
       if r2 = SUBSTANCE_CONNECTOR_SUCCESS \<and> elements \<noteq> NULL then do {
         cells \<leftarrow> deref elements;
         s3 \<leftarrow> broadcast_loop env socket_dir test_type connect_path cells NULL (s\<lparr>world := w2\<rparr>);
         _ \<leftarrow> connector_clear_directory_list elements;
         Some (SUBSTANCE_CONNECTOR_SUCCESS, s3) }
       else Some (SUBSTANCE_CONNECTOR_ERROR, s\<lparr>world := w2\<rparr>) }
     else Some (SUBSTANCE_CONNECTOR_ERROR, s\<lparr>world := w1\<rparr>) }"

definition connector_broadcast_connect_unix :: "'w os \<Rightarrow> 'w sys \<Rightarrow> (substance_connector_error \<times> 'w sys) option" where
  "connector_broadcast_connect_unix env s = broadcast_connect_impl env connector_get_default_unix_directory
     (connector_is_unix_socket env) (connector_context_connect_unix env) s"

definition connector_broadcast_connect_tcp :: "'w os \<Rightarrow> 'w sys \<Rightarrow> (substance_connector_error \<times> 'w sys) option" where
  "connector_broadcast_connect_tcp env s = broadcast_connect_impl env connector_get_default_tcp_directory
     (connector_is_file env) (connect_tcp_path_impl env) s"

definition connector_broadcast_connect_default :: "'w os \<Rightarrow> 'w sys \<Rightarrow> (substance_connector_error \<times> 'w sys) option" where
  "connector_broadcast_connect_default env s = connector_broadcast_connect_unix env s"

definition connector_open_default_tcp where
  "connector_open_default_tcp env want s = connector_context_open_tcp env 0 want s"

definition connector_open_default_unix where
  "connector_open_default_unix env want s = connector_context_open_unix env NULL want s"

definition connector_open_default_connection where
  "connector_open_default_connection env want s = connector_open_default_unix env want s"

section \<open>Reading the announced port\<close>

lemma decimal_is_digit: "c \<in> set (decimal n) \<Longrightarrow> is_digit c"
  using decimal_digits [of c n] by (simp add: is_digit_def word_le_nat_alt word_less_nat_alt)

lemma decimal_not_Nil: "decimal n \<noteq> []"
  by (subst decimal.simps) simp

lemma strtol10_decimal:
  assumes "n < 2 ^ 63"
  shows "strtol10 (decimal n) = int n"
proof -
  obtain c cs where d: "decimal n = c # cs" using decimal_not_Nil by (cases "decimal n") auto
  then have "is_digit c" using decimal_is_digit [of c n] by simp
  then have c: "\<not> is_space c" "c \<noteq> 45" "c \<noteq> 43" by (auto simp: is_digit_def is_space_def word_le_nat_alt word_less_nat_alt)
  have t: "takeWhile is_digit (decimal n) = decimal n" using decimal_is_digit by (simp add: takeWhile_eq_all_conv)
  have "digits_value (takeWhile is_digit (decimal n)) = n" by (simp only: t decimal_value)
  then show ?thesis using assms c d by (simp add: strtol10_def Let_def)
qed

lemma strrchr_last:
  assumes "c \<notin> set ys"
  shows "strrchr (xs @ c # ys) c = Some (c # ys)"
proof -
  have "takeWhile (\<lambda>x. x \<noteq> c) (rev ys @ c # rev xs) = rev ys" using assms by (subst takeWhile_append2) auto
  then show ?thesis by (simp add: strrchr_def)
qed

lemma decimal_no_delim: "CONNECTOR_PATH_DELIM \<notin> set (decimal n)"
  using decimal_digits [of CONNECTOR_PATH_DELIM n] by (auto simp: CONNECTOR_PATH_DELIM_def)

text \<open>A TCP context that is not closed has the port.\<close>

definition port_in_use :: "'w sys \<Rightarrow> u32 \<Rightarrow> bool" where
  "port_in_use s port \<longleftrightarrow> (\<exists>c \<in> set (context_list s). ctx_configuration c AND SUBSTANCE_CONNECTOR_CONN_MASK \<noteq> 0 \<and>
     connection_type c = SUBSTANCE_CONNECTOR_COMM_TCP \<and> ucast (ctx_port c) = port)"

lemma unat_ucast_u32: "(z :: u64) \<le> 0xffffffff \<Longrightarrow> unat (ucast z :: u32) = unat z"
  by (simp add: unsigned_ucast_eq word_le_nat_alt take_bit_word_def take_bit_nat_eq_self_iff unsigned_take_bit_eq)

lemma ucast_masked_eq:
  fixes x y m :: u64
  assumes "m \<le> 0xffffffff" "y \<le> 0xffffffff"
  shows "(ucast (x AND m) :: u32) = ucast y \<longleftrightarrow> x AND m = y"
proof -
  have "x AND m \<le> 0xffffffff" using assms(1) word_and_le1 [of x m] by (meson order_trans)
  with assms(2) show ?thesis by (metis unat_ucast_u32 unsigned_word_eqI)
qed

definition uses_port :: "u32 \<Rightarrow> connector_context \<Rightarrow> bool" where
  "uses_port port c \<longleftrightarrow> ctx_configuration c AND SUBSTANCE_CONNECTOR_CONN_MASK \<noteq> 0 \<and>
     connection_type c = SUBSTANCE_CONNECTOR_COMM_TCP \<and> ucast (ctx_port c) = port"

lemma validity_loop_result:
  assumes "length (context_list s) = 32" "\<forall>i \<in> set ns. unat i < 32"
  shows "tcp_validity_loop port ns s = Some (if \<exists>i \<in> set ns. uses_port port (context_list s ! unat i)
    then SUBSTANCE_CONNECTOR_ERROR else SUBSTANCE_CONNECTOR_SUCCESS)"
  using assms(2)
proof (induction ns)
  case (Cons i ns)
  let ?c = "context_list s ! unat i"
  have i: "i < SUBSTANCE_CONNECTOR_CONTEXT_COUNT" "get_context s i = Some ?c"
    using Cons.prems assms(1) by (simp_all add: get_context_def SUBSTANCE_CONNECTOR_CONTEXT_COUNT_def word_less_nat_alt)
  have "(ucast (ctx_configuration ?c AND SUBSTANCE_CONNECTOR_CONN_MASK) :: u32) = ucast SUBSTANCE_CONNECTOR_CONN_CLOSED
      \<longleftrightarrow> ctx_configuration ?c AND SUBSTANCE_CONNECTOR_CONN_MASK = 0"
    by (subst ucast_masked_eq) (simp_all add: conn_defs)
  moreover have "(ucast (ctx_configuration ?c AND SUBSTANCE_CONNECTOR_COMM_MASK) :: u32) = ucast SUBSTANCE_CONNECTOR_COMM_TCP
      \<longleftrightarrow> connection_type ?c = SUBSTANCE_CONNECTOR_COMM_TCP"
    by (subst ucast_masked_eq) (simp_all add: comm_defs connection_type_def)
  ultimately show ?case using Cons i
    by (auto simp: connector_context_state_def connector_context_type_def context_configuration_def connector_context_port_def
        uses_port_def)
qed simp

lemma test_tcp_validity_result:
  assumes "length (context_list s) = 32"
  shows "test_tcp_validity port s = Some (if port \<le> 65535 \<and> \<not> port_in_use s port
    then SUBSTANCE_CONNECTOR_SUCCESS else SUBSTANCE_CONNECTOR_ERROR)"
proof -
  have ns: "map of_nat [0..<unat SUBSTANCE_CONNECTOR_CONTEXT_COUNT] = context_ids"
    by (simp add: context_ids_def SUBSTANCE_CONNECTOR_CONTEXT_COUNT_def)
  have "(\<exists>i \<in> set context_ids. uses_port port (context_list s ! unat i)) \<longleftrightarrow> port_in_use s port"
  proof
    assume "port_in_use s port"
    then obtain c where "c \<in> set (context_list s)" "uses_port port c" by (auto simp: port_in_use_def uses_port_def)
    then obtain k where k: "k < 32" "uses_port port (context_list s ! k)" using assms by (auto simp: in_set_conv_nth)
    then show "\<exists>i \<in> set context_ids. uses_port port (context_list s ! unat i)"
      by (intro bexI [of _ "of_nat k"]) (simp_all add: set_context_ids unat_of_nat)
  qed (use assms in \<open>auto simp: port_in_use_def uses_port_def set_context_ids\<close>)
  then show ?thesis
    using validity_loop_result [OF assms, of context_ids port] by (simp add: test_tcp_validity_def ns set_context_ids)
qed

section \<open>Properties\<close>

text \<open>
  C28: announcing and discovering a port fit together. For the path under which a port is
  announced, discovery reads the same number back and connects to that port, unless the
  port is no TCP port or a TCP context that is not closed has it already; then nothing is
  done and the file is not reported as stale.
\<close>

theorem announced_port_round_trip:
  assumes "length (context_list s) = 32"
  shows "connect_tcp_path_impl env (BORROWED (c_string (tcp_port_path port))) want s =
    (if port \<le> 65535 \<and> \<not> port_in_use s port then connector_context_connect_tcp env port want s
     else Some (SUBSTANCE_CONNECTOR_SUCCESS, None, s))"
proof -
  have "strrchr (tcp_port_path port) CONNECTOR_PATH_DELIM = Some (CONNECTOR_PATH_DELIM # decimal (unat port))"
    using strrchr_last [OF decimal_no_delim] by (simp add: tcp_port_path_def)
  moreover have "unat port < 2 ^ 63" using unat_bound [of port] by simp
  then have "atoi (decimal (unat port)) = port" by (simp add: atoi_def strtol10_decimal)
  moreover have "CONNECTOR_PATH_DELIM \<noteq> 0" by (simp add: CONNECTOR_PATH_DELIM_def)
  ultimately show ?thesis
    using test_tcp_validity_result [OF assms, of port] tcp_port_path_no_zero [of port]
    by (simp add: connect_tcp_path_impl_def)
qed

theorem announced_port_round_trip_witness:
  "connect_tcp_path_impl sample_os (BORROWED (c_string (tcp_port_path 70000))) True idle_sys
     = Some (SUBSTANCE_CONNECTOR_SUCCESS, None, idle_sys)"
  using announced_port_round_trip [of idle_sys sample_os 70000 True]
  by (simp add: idle_sys_def initial_sys_def)

text \<open>
  A file whose name is not a number is taken for port 0: the connection attempt fails
  and the broadcast removes the file.
\<close>

lemma foreign_name_is_port_0:
  assumes "name \<noteq> []" "\<not> is_space (hd name)" "\<not> is_digit (hd name)" "hd name \<noteq> 45" "hd name \<noteq> 43"
  shows "atoi name = 0"
  using assms by (cases name) (simp_all add: atoi_def strtol10_def Let_def digits_value_def)

end
