(* ===== verification/External_Api.thy ===== *)
theory External_Api
  imports Communication Autoconnect
begin

text \<open>
  The functions the library exports (\<^verbatim>\<open>external_api.c\<close>) and the state machine that guards them
  (\<^verbatim>\<open>state.h\<close>). An operation on the part of the state that holds the tables and queues is
  lifted to the whole library; an output parameter is a flag that tells whether the pointer
  is there and the value stored through it.
\<close>

section \<open>Lifting\<close>

definition on_sys ::
    "('w sys \<Rightarrow> (substance_connector_error \<times> 'w sys) option) \<Rightarrow> ('w, 'f) connector \<Rightarrow>
      (substance_connector_error \<times> ('w, 'f) connector) option" where
  "on_sys f c = do { (r, s) \<leftarrow> f (sys_part c); Some (r, c\<lparr>sys_part := s\<rparr>) }"

definition on_sys_out ::
    "('w sys \<Rightarrow> (substance_connector_error \<times> u32 option \<times> 'w sys) option) \<Rightarrow> ('w, 'f) connector \<Rightarrow>
      (substance_connector_error \<times> u32 option \<times> ('w, 'f) connector) option" where
  "on_sys_out f c = do { (r, v, s) \<leftarrow> f (sys_part c); Some (r, v, c\<lparr>sys_part := s\<rparr>) }"

text \<open>The steps of the initialisation run while the code is success; those of the shutdown run always and the first error is kept.\<close>

definition and_then ::
    "substance_connector_error \<times> 'c \<Rightarrow> ('c \<Rightarrow> (substance_connector_error \<times> 'c) option) \<Rightarrow> (substance_connector_error \<times> 'c) option" where
  "and_then x f = (case x of (r, c) \<Rightarrow> if r = SUBSTANCE_CONNECTOR_SUCCESS then f c else Some (r, c))"

definition and_also ::
    "substance_connector_error \<times> 'c \<Rightarrow> ('c \<Rightarrow> (substance_connector_error \<times> 'c) option) \<Rightarrow> (substance_connector_error \<times> 'c) option" where
  "and_also x f = (case x of (r, c) \<Rightarrow> do {
     (sub_retcode, c') \<leftarrow> f c;
     Some (if r = SUBSTANCE_CONNECTOR_SUCCESS then sub_retcode else r, c') })"

definition exchange_state ::
    "SubstanceConnectorState \<Rightarrow> SubstanceConnectorState \<Rightarrow> ('w, 'f) connector \<Rightarrow> SubstanceConnectorState \<times> ('w, 'f) connector" where
  "exchange_state from to c =
     (case CONNECTOR_ATOMIC_COMPARE_EXCHANGE (connector_module_state c) from to of
        (st, old) \<Rightarrow> (old, c\<lparr>connector_module_state := st\<rparr>))"

section \<open>Initialisation and shutdown\<close>

definition init_application_name ::
    "'w os \<Rightarrow> u8 list cptr \<Rightarrow> 'w sys \<Rightarrow> (substance_connector_error \<times> 'w sys) option" where
  "init_application_name env name s = do {
     (r, copy, w) \<leftarrow> connector_set_application_name env name (application_name s) (world s);
     Some (r, s\<lparr>application_name := copy, world := w\<rparr>) }"

text \<open>Creation of the dispatch threads, and the loop that spins until all have waited once.\<close>

definition init_dispatch ::
    "'w os \<Rightarrow> connector_thread list \<Rightarrow> ('w, 'f) connector \<Rightarrow> (substance_connector_error \<times> ('w, 'f) connector) option" where
  "init_dispatch env sched c = do {
     c1 \<leftarrow> threads_run env sched (c\<lparr>dispatch_part := connector_init_dispatch_subsystem False (dispatch_part c)\<rparr>);
     guard_ok (dispatch_initialized (dispatch_part c1));
     Some (SUBSTANCE_CONNECTOR_SUCCESS, c1) }"

definition substance_connector_init ::
    "'w os \<Rightarrow> u8 list cptr \<Rightarrow> connector_thread list \<Rightarrow> connector_thread list \<Rightarrow> ('w, 'f) connector \<Rightarrow>
      (substance_connector_error \<times> ('w, 'f) connector) option" where
  "substance_connector_init env name dsched csched c =
     (case exchange_state SUBSTANCE_CONNECTOR_STATE_SHUTDOWN SUBSTANCE_CONNECTOR_STATE_INIT_STARTED c of (initialized, c0) \<Rightarrow>
        if initialized = SUBSTANCE_CONNECTOR_STATE_SHUTDOWN then do {
          x1 \<leftarrow> on_sys (init_application_name env name) c0;
          x2 \<leftarrow> and_then x1 (\<lambda>c. Some (connector_setup_default_tcp_directory, c));
          x3 \<leftarrow> and_then x2 (on_sys (connector_init_context_subsystem env));
          x4 \<leftarrow> and_then x3 (on_sys (\<lambda>s. case connector_init_message_queue_subsystem (queues s) of
                  (r, q) \<Rightarrow> Some (r, s\<lparr>queues := q\<rparr>)));
          x5 \<leftarrow> and_then x4 (on_sys (\<lambda>s. case connector_init_trampoline_subsystem (trampolines s) of
                  (r, t) \<Rightarrow> Some (r, s\<lparr>trampolines := t\<rparr>)));
          x6 \<leftarrow> and_then x5 (init_dispatch env dsched);
          (retcode, c7) \<leftarrow> and_then x6 (connector_init_comm_subsystem env csched);
          Some (retcode, snd (exchange_state SUBSTANCE_CONNECTOR_STATE_INIT_STARTED
            (if retcode = SUBSTANCE_CONNECTOR_SUCCESS then SUBSTANCE_CONNECTOR_STATE_INIT_FINISHED
             else SUBSTANCE_CONNECTOR_STATE_INTERNAL_ERROR) c7)) }
        else Some (SUBSTANCE_CONNECTOR_ERROR, c0))"

text \<open>The state is moved on at the end whether or not this call did the work.\<close>

definition substance_connector_shutdown ::
    "'w os \<Rightarrow> 'f \<Rightarrow> 'f \<Rightarrow> connector_thread list \<Rightarrow> connector_thread list \<Rightarrow> connector_thread list \<Rightarrow> ('w, 'f) connector \<Rightarrow>
      (substance_connector_error \<times> ('w, 'f) connector) option" where
  "substance_connector_shutdown env malloc free wsched rsched dsched c =
     (case exchange_state SUBSTANCE_CONNECTOR_STATE_INIT_FINISHED SUBSTANCE_CONNECTOR_STATE_SHUTDOWN_STARTED c of (initialized, c0) \<Rightarrow> do {
        (retcode, c8) \<leftarrow>
          (if initialized = SUBSTANCE_CONNECTOR_STATE_INIT_FINISHED then do {
             x1 \<leftarrow> on_sys connector_shutdown_context_subsystem c0;
             x2 \<leftarrow> and_also x1 (connector_shutdown_comm_subsystem env wsched rsched);
             x3 \<leftarrow> and_also x2 (connector_shutdown_dispatch_subsystem env dsched);
             x4 \<leftarrow> and_also x3 (on_sys (\<lambda>s. do {
                     (r, q) \<leftarrow> connector_shutdown_message_queue_subsystem (queues s); Some (r, s\<lparr>queues := q\<rparr>) }));
             x5 \<leftarrow> and_also x4 (on_sys (\<lambda>s. do {
                     (r, t) \<leftarrow> connector_shutdown_trampoline_subsystem (trampolines s); Some (r, s\<lparr>trampolines := t\<rparr>) }));
             x6 \<leftarrow> and_also x5 (\<lambda>c. Some (connector_cleanup_default_tcp_directory, c));
             and_also x6 (\<lambda>c. case connector_clear_allocators malloc free (module_allocators c) of
               (r, a) \<Rightarrow> Some (r, c\<lparr>module_allocators := a\<rparr>)) }
           else Some (SUBSTANCE_CONNECTOR_ERROR, c0));
        Some (retcode, snd (exchange_state SUBSTANCE_CONNECTOR_STATE_SHUTDOWN_STARTED SUBSTANCE_CONNECTOR_STATE_SHUTDOWN c8)) })"

text \<open>A NULL function pointer is \<^term>\<open>None\<close>.\<close>

definition substance_connector_set_allocators ::
    "'f option \<Rightarrow> 'f option \<Rightarrow> ('w, 'f) connector \<Rightarrow> substance_connector_error \<times> ('w, 'f) connector" where
  "substance_connector_set_allocators allocator deallocator c =
     (case exchange_state SUBSTANCE_CONNECTOR_STATE_SHUTDOWN SUBSTANCE_CONNECTOR_STATE_ALLOCATOR_STARTED c of (initialized, c0) \<Rightarrow>
        if initialized = SUBSTANCE_CONNECTOR_STATE_SHUTDOWN then
          (case (case (allocator, deallocator) of
                   (Some a, Some d) \<Rightarrow> (SUBSTANCE_CONNECTOR_SUCCESS, c0\<lparr>module_allocators :=
                     connector_set_deallocator d (connector_set_allocator a (module_allocators c0))\<rparr>)
                 | _ \<Rightarrow> (SUBSTANCE_CONNECTOR_INVALID, c0)) of
             (retcode, c1) \<Rightarrow> (retcode,
               snd (exchange_state SUBSTANCE_CONNECTOR_STATE_ALLOCATOR_STARTED SUBSTANCE_CONNECTOR_STATE_SHUTDOWN c1)))
        else (SUBSTANCE_CONNECTOR_INVALID, c0))"

section \<open>Messages and callbacks\<close>

definition substance_connector_write_message ::
    "'w os \<Rightarrow> u32 \<Rightarrow> substance_connector_uuid cptr \<Rightarrow> u8 list cptr \<Rightarrow> ('w, 'f) connector \<Rightarrow>
      (substance_connector_error \<times> ('w, 'f) connector) option" where
  "substance_connector_write_message env ctx type message c =
     (if connector_module_state c = SUBSTANCE_CONNECTOR_STATE_INIT_FINISHED then do {
        let s = sys_part c;
        (p, w1) \<leftarrow> connector_build_message env ctx type message (world s);
        let s1 = s\<lparr>world := w1\<rparr>;
        if p \<noteq> NULL then do {
          m \<leftarrow> deref p;
          s2 \<leftarrow> enqueue_outbound env (repoint p (m\<lparr>msg_context := ctx\<rparr>)) s1;
          Some (SUBSTANCE_CONNECTOR_SUCCESS, c\<lparr>sys_part := snd (connector_flag_write s2)\<rparr>) }
        else Some (SUBSTANCE_CONNECTOR_INVALID, c\<lparr>sys_part := s1\<rparr>) }
      else Some (SUBSTANCE_CONNECTOR_INVALID, c))"

definition substance_connector_add_trampoline ::
    "'w os \<Rightarrow> nat option \<Rightarrow> ('w, 'f) connector \<Rightarrow> (substance_connector_error \<times> ('w, 'f) connector) option" where
  "substance_connector_add_trampoline env trampoline c =
     (if connector_module_state c = SUBSTANCE_CONNECTOR_STATE_INIT_FINISHED then
        on_sys (\<lambda>s. do { (r, t, w) \<leftarrow> connector_add_trampoline env trampoline (trampolines s) (world s);
          Some (r, s\<lparr>trampolines := t, world := w\<rparr>) }) c
      else Some (SUBSTANCE_CONNECTOR_ERROR, c))"

definition substance_connector_remove_trampoline ::
    "nat option \<Rightarrow> ('w, 'f) connector \<Rightarrow> (substance_connector_error \<times> ('w, 'f) connector) option" where
  "substance_connector_remove_trampoline trampoline c =
     (if connector_module_state c = SUBSTANCE_CONNECTOR_STATE_INIT_FINISHED then
        on_sys (\<lambda>s. do { (r, t) \<leftarrow> connector_remove_trampoline trampoline (trampolines s);
          Some (r, s\<lparr>trampolines := t\<rparr>) }) c
      else Some (SUBSTANCE_CONNECTOR_ERROR, c))"

section \<open>Contexts\<close>

definition substance_connector_open_tcp where
  "substance_connector_open_tcp env port want c =
     (if connector_module_state c = SUBSTANCE_CONNECTOR_STATE_INIT_FINISHED \<and> want
      then on_sys_out (connector_context_open_tcp env port want) c
      else Some (SUBSTANCE_CONNECTOR_ERROR, None, c))"

definition substance_connector_open_unix where
  "substance_connector_open_unix env filepath want c =
     (if connector_module_state c = SUBSTANCE_CONNECTOR_STATE_INIT_FINISHED \<and> want
      then on_sys_out (connector_context_open_unix env filepath want) c
      else Some (SUBSTANCE_CONNECTOR_ERROR, None, c))"

text \<open>Closing does not look at the state of the library.\<close>

definition substance_connector_close_context ::
    "u32 \<Rightarrow> ('w, 'f) connector \<Rightarrow> (substance_connector_error \<times> ('w, 'f) connector) option" where
  "substance_connector_close_context ctx c = on_sys (connector_context_close ctx) c"

definition substance_connector_connect_tcp where
  "substance_connector_connect_tcp env port want c =
     (if connector_module_state c = SUBSTANCE_CONNECTOR_STATE_INIT_FINISHED \<and> want
      then on_sys_out (connector_context_connect_tcp env port want) c
      else Some (SUBSTANCE_CONNECTOR_ERROR, None, c))"

definition substance_connector_connect_unix where
  "substance_connector_connect_unix env filepath want c =
     (if connector_module_state c = SUBSTANCE_CONNECTOR_STATE_INIT_FINISHED \<and> want
      then on_sys_out (connector_context_connect_unix env filepath want) c
      else Some (SUBSTANCE_CONNECTOR_ERROR, None, c))"

section \<open>Discovery and defaults\<close>

definition substance_connector_broadcast_tcp where
  "substance_connector_broadcast_tcp env c =
     (if connector_module_state c = SUBSTANCE_CONNECTOR_STATE_INIT_FINISHED
      then on_sys (connector_broadcast_connect_tcp env) c else Some (SUBSTANCE_CONNECTOR_ERROR, c))"

definition substance_connector_broadcast_unix where
  "substance_connector_broadcast_unix env c =
     (if connector_module_state c = SUBSTANCE_CONNECTOR_STATE_INIT_FINISHED
      then on_sys (connector_broadcast_connect_unix env) c else Some (SUBSTANCE_CONNECTOR_ERROR, c))"

definition substance_connector_broadcast_default where
  "substance_connector_broadcast_default env c =
     (if connector_module_state c = SUBSTANCE_CONNECTOR_STATE_INIT_FINISHED
      then on_sys (connector_broadcast_connect_default env) c else Some (SUBSTANCE_CONNECTOR_ERROR, c))"

definition substance_connector_open_default_tcp where
  "substance_connector_open_default_tcp env want c =
     (if connector_module_state c = SUBSTANCE_CONNECTOR_STATE_INIT_FINISHED
      then on_sys_out (connector_open_default_tcp env want) c else Some (SUBSTANCE_CONNECTOR_ERROR, None, c))"

definition substance_connector_open_default_unix where
  "substance_connector_open_default_unix env want c =
     (if connector_module_state c = SUBSTANCE_CONNECTOR_STATE_INIT_FINISHED
      then on_sys_out (connector_open_default_unix env want) c else Some (SUBSTANCE_CONNECTOR_ERROR, None, c))"

definition substance_connector_open_default where
  "substance_connector_open_default env want c =
     (if connector_module_state c = SUBSTANCE_CONNECTOR_STATE_INIT_FINISHED
      then on_sys_out (connector_open_default_connection env want) c else Some (SUBSTANCE_CONNECTOR_ERROR, None, c))"

section \<open>The life cycle\<close>

text \<open>A library that is shut down, with nothing left from an earlier session but the application name.\<close>

definition clean :: "('w, 'f) connector \<Rightarrow> bool" where
  "clean c \<longleftrightarrow> (let s = sys_part c in
     connector_module_state c = SUBSTANCE_CONNECTOR_STATE_SHUTDOWN \<and> name_ok (application_name s) \<and>
     message_queue_state (queues s) = MESSAGE_QUEUE_SHUTDOWN \<and> mq_heap (queues s) = Map.empty \<and>
     tr_heap (trampolines s) = Map.empty \<and> connection_queue s = NULL \<and>
     dispatch_shutdown_code (dispatch_part c) = 0 \<and> read_thread_shutdown_flag (read_part c) = 0 \<and>
     write_thread_shutdown_flag (write_part c) = 0 \<and>
     length (read_threads (read_part c)) = 2 \<and> list_all (\<lambda>(t, pc). rt_ok t) (read_threads (read_part c)))"

text \<open>
  A library in session with the callbacks \<open>fs\<close>: tables and queues are well formed and empty, and
  every thread waits for work.
\<close>

definition settled :: "nat list \<Rightarrow> ('w, 'f) connector \<Rightarrow> bool" where
  "settled fs c \<longleftrightarrow> (let s = sys_part c in
     owned s [] \<and> wf_queues (queues s) \<and> message_queue_state (queues s) = MESSAGE_QUEUE_INITIALIZED \<and>
     inbound_messages (queues s) = [] \<and> outbound_messages (queues s) = [] \<and> registered (trampolines s) fs \<and>
     name_ok (application_name s) \<and>
     dispatch_shutdown_code (dispatch_part c) = 0 \<and> read_thread_shutdown_flag (read_part c) = 0 \<and>
     write_thread_shutdown_flag (write_part c) = 0 \<and>
     map dt_pc (dispatch_threads (dispatch_part c)) = [DWaiting, DWaiting] \<and>
     map snd (read_threads (read_part c)) = [RAwait ATest, RAwait ATest] \<and>
     list_all (\<lambda>(t, pc). rt_ok t \<and> assigned_contexts t = 0) (read_threads (read_part c)) \<and>
     map wt_pc (write_threads (write_part c)) = [WLoop NULL, WLoop NULL])"

text \<open>The threads started one after the other until they wait.\<close>

definition start_dispatch :: "connector_thread list" where
  "start_dispatch = [DispatchThread 0, DispatchThread 0, DispatchThread 1, DispatchThread 1]"

definition start_readers :: "connector_thread list" where
  "start_readers = [ReadThread 0, ReadThread 0, ReadThread 1, ReadThread 1]"

definition stop_writers :: "connector_thread list" where
  "stop_writers = [WriteThread 0, WriteThread 0, WriteThread 1, WriteThread 1]"

definition stop_readers :: "connector_thread list" where
  "stop_readers = replicate 3 (ReadThread 0) @ replicate 3 (ReadThread 1)"

definition stop_dispatch :: "connector_thread list" where
  "stop_dispatch = replicate 3 (DispatchThread 0) @ replicate 3 (DispatchThread 1)"

lemma acquire_inbound_empty:
  "wf_queues (queues s) \<Longrightarrow> inbound_messages (queues s) = [] \<Longrightarrow> acquire_inbound s = Some (NULL, s)"
  using inbound_dequeue_empty [of "queues s" "world s"] by (simp add: acquire_inbound_def)

lemma init_dispatch_settles:
  assumes "wf_queues (queues (sys_part c))" "inbound_messages (queues (sys_part c)) = []" "dispatch_shutdown_code (dispatch_part c) = 0"
  shows "\<exists>d. init_dispatch env start_dispatch c = Some (SUBSTANCE_CONNECTOR_SUCCESS, c\<lparr>dispatch_part := d\<rparr>) \<and>
    dispatch_shutdown_code d = 0 \<and> map dt_pc (dispatch_threads d) = [DWaiting, DWaiting]"
proof -
  note a = acquire_inbound_empty [OF assms(1,2)]
  have t: "[0..<SUBSTANCE_CONNECTOR_DISPATCH_COUNT] = [0, 1]" by (simp add: SUBSTANCE_CONNECTOR_DISPATCH_COUNT_def upt_conv_Cons)
  let ?d = "(dispatch_part c)\<lparr>dispatch_threads := [\<lparr>dt_initialized = True, dt_id = 0, dt_pc = DWaiting\<rparr>,
    \<lparr>dt_initialized = True, dt_id = 1, dt_pc = DWaiting\<rparr>]\<rparr>"
  have "threads_run env start_dispatch (c\<lparr>dispatch_part := connector_init_dispatch_subsystem False (dispatch_part c)\<rparr>)
      = Some (c\<lparr>dispatch_part := ?d\<rparr>)"
    using a assms(3)
    by (simp add: start_dispatch_def thread_step_def dispatch_thread_step_def dispatch_routine_def
        connector_init_dispatch_subsystem_def t)
  then show ?thesis using assms(3)
    by (intro exI [of _ ?d]) (simp add: init_dispatch_def dispatch_initialized_def)
qed

lemma init_readers_settle:
  assumes "read_thread_shutdown_flag m = 0" "length (read_threads m) = 2" "list_all (\<lambda>(t, pc). rt_ok t) (read_threads m)"
  shows "\<exists>m'. threads_run env start_readers (c\<lparr>read_part := snd (connector_init_read_threads m)\<rparr>) = Some (c\<lparr>read_part := m'\<rparr>) \<and>
    read_main_broadcasts m' = read_main_broadcasts m + 2 \<and> read_thread_shutdown_flag m' = 0 \<and>
    map snd (read_threads m') = [RAwait ATest, RAwait ATest] \<and>
    list_all (\<lambda>(t, pc). rt_ok t \<and> assigned_contexts t = 0) (read_threads m')"
proof -
  obtain t0 t1 p0 p1 where m: "read_threads m = [(t0, p0), (t1, p1)]"
    using assms(2) by (auto simp: length_Suc_conv numeral_2_eq_2)
  let ?m = "m\<lparr>read_threads := [(t0\<lparr>rt_id := 0, assigned_contexts := 0\<rparr>, RAwait ATest),
    (t1\<lparr>rt_id := 1, assigned_contexts := 0\<rparr>, RAwait ATest)], read_main_broadcasts := read_main_broadcasts m + 2\<rparr>"
  have t: "[0..<SUBSTANCE_CONNECTOR_INBOUND_COUNT] = [0, 1]" by (simp add: SUBSTANCE_CONNECTOR_INBOUND_COUNT_def upt_conv_Cons)
  have "threads_run env start_readers (c\<lparr>read_part := snd (connector_init_read_threads m)\<rparr>) = Some (c\<lparr>read_part := ?m\<rparr>)"
    using assms(1)
    by (simp add: start_readers_def thread_step_def read_thread_step_def read_thread_routine_def
        connector_read_thread_await_condition_def connector_init_read_threads_def t m)
  moreover have "rt_ok (t0\<lparr>rt_id := 0, assigned_contexts := 0\<rparr>)" "rt_ok (t1\<lparr>rt_id := 1, assigned_contexts := 0\<rparr>)"
    using assms(3) by (simp_all add: m rt_ok_def)
  ultimately show ?thesis using assms(1) by (intro exI [of _ ?m]) simp
qed

lemma init_comm_settles:
  assumes al: "allocator_succeeds env" and q: "connection_queue (sys_part c) = NULL" and flag: "write_thread_shutdown_flag (write_part c) = 0"
    and rd: "read_thread_shutdown_flag (read_part c) = 0" "length (read_threads (read_part c)) = 2"
      "list_all (\<lambda>(t, pc). rt_ok t) (read_threads (read_part c))"
  shows "\<exists>c'. connector_init_comm_subsystem env start_readers c = Some (SUBSTANCE_CONNECTOR_SUCCESS, c') \<and>
    connector_module_state c' = connector_module_state c \<and> dispatch_part c' = dispatch_part c \<and>
    (\<exists>q w. sys_part c' = (sys_part c)\<lparr>connection_queue := q, world := w\<rparr> \<and> pool_ok q \<and> fifo_contents q = []) \<and>
    read_thread_shutdown_flag (read_part c') = 0 \<and> map snd (read_threads (read_part c')) = [RAwait ATest, RAwait ATest] \<and>
    list_all (\<lambda>(t, pc). rt_ok t \<and> assigned_contexts t = 0) (read_threads (read_part c')) \<and>
    write_thread_shutdown_flag (write_part c') = 0 \<and> map wt_pc (write_threads (write_part c')) = [WLoop NULL, WLoop NULL]"
proof -
  obtain p w where a: "connector_available_queue_init env NULL (world (sys_part c)) = Some (SUBSTANCE_CONNECTOR_SUCCESS, p, w)"
    "pool_ok p" "fifo_contents p = []" using init_available [OF al] by blast
  let ?c2 = "c\<lparr>sys_part := (sys_part c)\<lparr>connection_queue := p, world := w\<rparr>,
    write_part := snd (connector_init_write_threads (write_part c))\<rparr>"
  from init_readers_settle [OF rd, of env ?c2] obtain m where
    m: "threads_run env start_readers (?c2\<lparr>read_part := snd (connector_init_read_threads (read_part c))\<rparr>) = Some (?c2\<lparr>read_part := m\<rparr>)"
      "read_main_broadcasts m = read_main_broadcasts (read_part c) + 2" "read_thread_shutdown_flag m = 0"
      "map snd (read_threads m) = [RAwait ATest, RAwait ATest]"
      "list_all (\<lambda>(t, pc). rt_ok t \<and> assigned_contexts t = 0) (read_threads m)" by (elim exE conjE)
  have b: "read_main_broadcasts (snd (connector_init_read_threads (read_part c))) = read_main_broadcasts (read_part c)"
    by (simp add: connector_init_read_threads_def)
  have "connector_init_comm_subsystem env start_readers c = Some (SUBSTANCE_CONNECTOR_SUCCESS, ?c2\<lparr>read_part := m\<rparr>)"
    using a(1) q m(1,2) b by (simp add: connector_init_comm_subsystem_def SUBSTANCE_CONNECTOR_INBOUND_COUNT_def)
  moreover have "map wt_pc (write_threads (snd (connector_init_write_threads (write_part c)))) = [WLoop NULL, WLoop NULL]"
    "write_thread_shutdown_flag (snd (connector_init_write_threads (write_part c))) = 0"
    using flag by (simp_all add: connector_init_write_threads_def SUBSTANCE_CONNECTOR_OUTBOUND_COUNT_def upt_conv_Cons)
  ultimately show ?thesis using a(2,3) m by (intro exI [of _ "?c2\<lparr>read_part := m\<rparr>"]) auto
qed

lemma init_settles:
  assumes al: "allocator_succeeds env" and cl: "clean c" and nm: "deref name = Some b" "0 \<in> set b" "length b < 2 ^ 64"
  shows "\<exists>c'. substance_connector_init env name start_dispatch start_readers c = Some (SUBSTANCE_CONNECTOR_SUCCESS, c') \<and>
    connector_module_state c' = SUBSTANCE_CONNECTOR_STATE_INIT_FINISHED \<and> settled [] c' \<and>
    application_name (sys_part c') = OWNED (c_string (cstr b))"
proof -
  let ?s = "sys_part c"
  let ?c0 = "c\<lparr>connector_module_state := SUBSTANCE_CONNECTOR_STATE_INIT_STARTED\<rparr>"
  note cd = cl [unfolded clean_def Let_def]
  obtain w1 where w1: "connector_strdup env name (world ?s) = Some (OWNED (c_string (cstr b)), w1)"
    using strdup_result [OF al nm] by blast
  obtain f where f: "connector_free (application_name ?s) = Some f" using cd name_ok_free by blast
  let ?s1 = "?s\<lparr>application_name := OWNED (c_string (cstr b)), world := w1\<rparr>"
  have x1: "init_application_name env name ?s = Some (SUBSTANCE_CONNECTOR_SUCCESS, ?s1)"
    using w1 f by (simp add: init_application_name_def connector_set_application_name_def)
  obtain q w2 where ctx: "connector_init_context_subsystem env ?s1 = Some (SUBSTANCE_CONNECTOR_SUCCESS,
      ?s1\<lparr>context_list := replicate 32 zero_context, free_contexts := q, world := w2\<rparr>)" "pool_ok q" "fifo_contents q = context_ids"
    using init_contexts [OF al] by blast
  obtain mq where mq: "connector_init_message_queue_subsystem (queues ?s) = (SUBSTANCE_CONNECTOR_SUCCESS, mq)" "wf_queues mq"
    "inbound_messages mq = []" "outbound_messages mq = []" "message_queue_state mq = MESSAGE_QUEUE_INITIALIZED"
    using init_wf [of "queues ?s"] cd by auto
  obtain tl where tr: "connector_init_trampoline_subsystem (trampolines ?s) = (SUBSTANCE_CONNECTOR_SUCCESS, tl)" "registered tl []"
    using registered_init cd by (simp add: connector_init_trampoline_subsystem_def)
  let ?s5 = "?s1\<lparr>context_list := replicate 32 zero_context, free_contexts := q, world := w2, queues := mq, trampolines := tl\<rparr>"
  let ?c5 = "?c0\<lparr>sys_part := ?s5\<rparr>"
  obtain d where d: "init_dispatch env start_dispatch ?c5 = Some (SUBSTANCE_CONNECTOR_SUCCESS, ?c5\<lparr>dispatch_part := d\<rparr>)"
    "dispatch_shutdown_code d = 0" "map dt_pc (dispatch_threads d) = [DWaiting, DWaiting]"
    using init_dispatch_settles [of ?c5 env] mq(2,3) cd by auto
  let ?c6 = "?c5\<lparr>dispatch_part := d\<rparr>"
  obtain c7 p w where c7: "connector_init_comm_subsystem env start_readers ?c6 = Some (SUBSTANCE_CONNECTOR_SUCCESS, c7)"
    "connector_module_state c7 = SUBSTANCE_CONNECTOR_STATE_INIT_STARTED" "dispatch_part c7 = d"
    "sys_part c7 = ?s5\<lparr>connection_queue := p, world := w\<rparr>" "pool_ok p" "fifo_contents p = []"
    "read_thread_shutdown_flag (read_part c7) = 0" "map snd (read_threads (read_part c7)) = [RAwait ATest, RAwait ATest]"
    "list_all (\<lambda>(t, pc). rt_ok t \<and> assigned_contexts t = 0) (read_threads (read_part c7))"
    "write_thread_shutdown_flag (write_part c7) = 0" "map wt_pc (write_threads (write_part c7)) = [WLoop NULL, WLoop NULL]"
    using init_comm_settles [OF al, of ?c6] cd by auto
  let ?c' = "c7\<lparr>connector_module_state := SUBSTANCE_CONNECTOR_STATE_INIT_FINISHED\<rparr>"
  have "substance_connector_init env name start_dispatch start_readers c = Some (SUBSTANCE_CONNECTOR_SUCCESS, ?c')"
    using cd x1 ctx(1) mq(1) tr(1) d(1) c7(1,2)
    by (simp add: substance_connector_init_def exchange_state_def and_then_def connector_setup_default_tcp_directory_def on_sys_def
        CONNECTOR_ATOMIC_COMPARE_EXCHANGE_def)
  moreover have "owned (sys_part c7) []"
    using ctx(2,3) c7(4-6) by (simp add: owned_def free_ids_def waiting_ids_def)
  moreover have "name_ok (OWNED (c_string (cstr b)))" using cstr_no_zero [of b] by (auto simp: name_ok_def)
  ultimately show ?thesis using c7 d mq tr(2) by (intro exI [of _ ?c']) (simp add: settled_def)
qed

text \<open>Stopping the idle threads.\<close>

lemma stop_writers_run:
  assumes "map wt_pc (write_threads (write_part c)) = [WLoop NULL, WLoop NULL]" "write_thread_shutdown_flag (write_part c) = 0"
  shows "\<exists>m. connector_shutdown_write_threads env stop_writers c = Some (SUBSTANCE_CONNECTOR_SUCCESS,
      c\<lparr>write_part := m, sys_part := signal WakeWrite (sys_part c)\<rparr>) \<and> write_thread_shutdown_flag m = 0"
proof -
  obtain t0 t1 where t: "write_threads (write_part c) = [t0, t1]" "wt_pc t0 = WLoop NULL" "wt_pc t1 = WLoop NULL"
    using assms(1) by (auto simp: map_eq_Cons_conv)
  let ?m = "(write_part c)\<lparr>write_threads := [t0\<lparr>wt_pc := WDone\<rparr>, t1\<lparr>wt_pc := WDone\<rparr>], write_thread_shutdown_flag := 1\<rparr>"
  have "threads_run env stop_writers (c\<lparr>write_part := (write_part c)\<lparr>write_thread_shutdown_flag := 1\<rparr>,
      sys_part := signal WakeWrite (sys_part c)\<rparr>) = Some (c\<lparr>write_part := ?m, sys_part := signal WakeWrite (sys_part c)\<rparr>)"
    using t by (simp add: stop_writers_def thread_step_def write_thread_step_def write_thread_routine_def)
  then show ?thesis using assms(2)
    by (intro exI [of _ "?m\<lparr>write_thread_shutdown_flag := 0\<rparr>"])
      (simp add: connector_shutdown_write_threads_def CONNECTOR_ATOMIC_COMPARE_EXCHANGE_def)
qed

lemma stop_readers_run:
  assumes "map snd (read_threads (read_part c)) = [RAwait ATest, RAwait ATest]" "read_thread_shutdown_flag (read_part c) = 0"
    and "list_all (\<lambda>(t, pc). rt_ok t \<and> assigned_contexts t = 0) (read_threads (read_part c))"
  shows "\<exists>m. connector_shutdown_read_threads env stop_readers c = Some (SUBSTANCE_CONNECTOR_SUCCESS,
      c\<lparr>read_part := m, sys_part := signal WakeRead (sys_part c)\<rparr>) \<and> read_thread_shutdown_flag m = 0 \<and>
    length (read_threads m) = 2 \<and> list_all (\<lambda>(t, pc). rt_ok t) (read_threads m)"
proof -
  obtain t0 t1 where t: "read_threads (read_part c) = [(t0, RAwait ATest), (t1, RAwait ATest)]"
    using assms(1) by (auto simp: map_eq_Cons_conv)
  then have a: "assigned_contexts t0 = 0" "assigned_contexts t1 = 0" "rt_ok t0" "rt_ok t1" using assms(3) by auto
  let ?m = "(read_part c)\<lparr>read_threads := [(t0, RDone), (t1, RDone)], read_thread_shutdown_flag := 1\<rparr>"
  have e: "connector_read_thread_cleanup_connections env u s = Some (SUBSTANCE_CONNECTOR_ERROR, u, s)" if "assigned_contexts u = 0" for u s
    using that by (simp add: connector_read_thread_cleanup_connections_def)
  have "threads_run env stop_readers (c\<lparr>read_part := (read_part c)\<lparr>read_thread_shutdown_flag := 1\<rparr>,
      sys_part := signal WakeRead (sys_part c)\<rparr>) = Some (c\<lparr>read_part := ?m, sys_part := signal WakeRead (sys_part c)\<rparr>)"
    using t a(1,2) e [OF a(1)] e [OF a(2)]
    by (simp add: stop_readers_def numeral_eq_Suc thread_step_def read_thread_step_def read_thread_routine_def
        connector_read_thread_await_condition_def)
  then show ?thesis using assms(2) a(3,4)
    by (intro exI [of _ "?m\<lparr>read_thread_shutdown_flag := 0\<rparr>"])
      (simp add: connector_shutdown_read_threads_def CONNECTOR_ATOMIC_COMPARE_EXCHANGE_def)
qed

lemma stop_dispatch_run:
  assumes "map dt_pc (dispatch_threads (dispatch_part c)) = [DWaiting, DWaiting]" "dispatch_shutdown_code (dispatch_part c) = 0"
  shows "\<exists>d. connector_shutdown_dispatch_subsystem env stop_dispatch c = Some (SUBSTANCE_CONNECTOR_SUCCESS,
      c\<lparr>dispatch_part := d, sys_part := signal WakeDispatch (sys_part c)\<rparr>) \<and> dispatch_shutdown_code d = 0"
proof -
  obtain t0 t1 where t: "dispatch_threads (dispatch_part c) = [t0, t1]" "dt_pc t0 = DWaiting" "dt_pc t1 = DWaiting"
    using assms(1) by (auto simp: map_eq_Cons_conv)
  let ?d = "(dispatch_part c)\<lparr>dispatch_threads := [t0\<lparr>dt_pc := DDone\<rparr>, t1\<lparr>dt_pc := DDone\<rparr>], dispatch_shutdown_code := 1\<rparr>"
  have r: "terminate_dispatch_request (dispatch_part c) = (dispatch_part c)\<lparr>dispatch_shutdown_code := 1\<rparr>"
    using assms(2) by (simp add: terminate_dispatch_request_def CONNECTOR_ATOMIC_COMPARE_EXCHANGE_def)
  have "threads_run env stop_dispatch (c\<lparr>dispatch_part := (dispatch_part c)\<lparr>dispatch_shutdown_code := 1\<rparr>,
      sys_part := signal WakeDispatch (sys_part c)\<rparr>) = Some (c\<lparr>dispatch_part := ?d, sys_part := signal WakeDispatch (sys_part c)\<rparr>)"
    using t by (simp add: stop_dispatch_def numeral_eq_Suc thread_step_def dispatch_thread_step_def dispatch_routine_def)
  then show ?thesis
    by (intro exI [of _ "?d\<lparr>dispatch_shutdown_code := 0\<rparr>"])
      (simp add: connector_shutdown_dispatch_subsystem_def terminate_dispatch_def r dispatch_joined_def
        terminate_dispatch_reset_def CONNECTOR_ATOMIC_COMPARE_EXCHANGE_def)
qed

lemma destroy_pool:
  assumes "pool_ok q"
  shows "\<exists>p. connector_uint_queue_destroy q = Some (SUBSTANCE_CONNECTOR_SUCCESS, p)"
proof -
  obtain x where x: "q = OWNED x" "wf_queue x" using assms by (auto simp: pool_ok_def elim: fifo_invarE)
  then obtain b where "queue_array x = OWNED b" by (auto simp: wf_queue_def)
  with x show ?thesis by (simp add: connector_uint_queue_destroy_def)
qed

lemma shutdown_cleans:
  assumes st: "connector_module_state c = SUBSTANCE_CONNECTOR_STATE_INIT_FINISHED" and se: "settled fs c"
  shows "\<exists>c'. substance_connector_shutdown env malloc free stop_writers stop_readers stop_dispatch c =
      Some (SUBSTANCE_CONNECTOR_SUCCESS, c') \<and> clean c' \<and>
    module_allocators c' = \<lparr>connector_memory_allocate = malloc, connector_memory_free = free\<rparr>"
proof -
  note sd = se [unfolded settled_def Let_def]
  let ?s = "sys_part c" and ?c0 = "c\<lparr>connector_module_state := SUBSTANCE_CONNECTOR_STATE_SHUTDOWN_STARTED\<rparr>"
  have pools: "pool_ok (free_contexts ?s)" "pool_ok (connection_queue ?s)" using sd by (auto simp: owned_def)
  obtain p where "connector_uint_queue_destroy (free_contexts ?s) = Some (SUBSTANCE_CONNECTOR_SUCCESS, p)"
    using destroy_pool [OF pools(1)] by blast
  then have x1: "connector_shutdown_context_subsystem ?s = Some (SUBSTANCE_CONNECTOR_SUCCESS, ?s\<lparr>free_contexts := NULL\<rparr>)"
    by (simp add: connector_shutdown_context_subsystem_def)
  let ?c1 = "?c0\<lparr>sys_part := ?s\<lparr>free_contexts := NULL\<rparr>\<rparr>"
  obtain wm where wm: "connector_shutdown_write_threads env stop_writers ?c1 = Some (SUBSTANCE_CONNECTOR_SUCCESS,
      ?c1\<lparr>write_part := wm, sys_part := signal WakeWrite (sys_part ?c1)\<rparr>)" "write_thread_shutdown_flag wm = 0"
    using stop_writers_run [of ?c1 env] sd by auto
  let ?c2 = "?c1\<lparr>write_part := wm, sys_part := signal WakeWrite (sys_part ?c1)\<rparr>"
  obtain rm where rm: "connector_shutdown_read_threads env stop_readers ?c2 = Some (SUBSTANCE_CONNECTOR_SUCCESS,
      ?c2\<lparr>read_part := rm, sys_part := signal WakeRead (sys_part ?c2)\<rparr>)" "read_thread_shutdown_flag rm = 0"
    "length (read_threads rm) = 2" "list_all (\<lambda>(t, pc). rt_ok t) (read_threads rm)"
    using stop_readers_run [of ?c2 env] sd by auto
  obtain p2 where p2: "connector_uint_queue_destroy (connection_queue ?s) = Some (SUBSTANCE_CONNECTOR_SUCCESS, p2)"
    using destroy_pool [OF pools(2)] by blast
  let ?c3 = "?c2\<lparr>read_part := rm, sys_part := (signal WakeRead (sys_part ?c2))\<lparr>connection_queue := NULL\<rparr>\<rparr>"
  have x2: "connector_shutdown_comm_subsystem env stop_writers stop_readers ?c1 = Some (SUBSTANCE_CONNECTOR_SUCCESS, ?c3)"
    using wm(1) rm(1) p2
    by (simp add: connector_shutdown_comm_subsystem_def connector_terminate_comm_def connector_available_queue_shutdown_def)
  obtain d where d: "connector_shutdown_dispatch_subsystem env stop_dispatch ?c3 = Some (SUBSTANCE_CONNECTOR_SUCCESS,
      ?c3\<lparr>dispatch_part := d, sys_part := signal WakeDispatch (sys_part ?c3)\<rparr>)" "dispatch_shutdown_code d = 0"
    using stop_dispatch_run [of ?c3 env] sd by auto
  obtain q where q: "connector_shutdown_message_queue_subsystem (queues ?s) = Some (SUBSTANCE_CONNECTOR_SUCCESS, q)"
    "mq_heap q = Map.empty" "message_queue_state q = MESSAGE_QUEUE_SHUTDOWN"
    using shutdown_releases [of "queues ?s"] sd by auto
  obtain t where t: "connector_shutdown_trampoline_subsystem (trampolines ?s) = Some (SUBSTANCE_CONNECTOR_SUCCESS, t)"
    "tr_heap t = Map.empty" using registered_shutdown [of "trampolines ?s" fs] sd by auto
  let ?a = "\<lparr>connector_memory_allocate = malloc, connector_memory_free = free\<rparr>"
  let ?s5 = "(signal WakeDispatch (sys_part ?c3))\<lparr>queues := q, trampolines := t\<rparr>"
  let ?c5 = "?c3\<lparr>connector_module_state := SUBSTANCE_CONNECTOR_STATE_SHUTDOWN, module_allocators := ?a, dispatch_part := d, sys_part := ?s5\<rparr>"
  have "substance_connector_shutdown env malloc free stop_writers stop_readers stop_dispatch c = Some (SUBSTANCE_CONNECTOR_SUCCESS, ?c5)"
    using st x1 x2 d(1) q(1) t(1)
    by (cases "module_allocators c") (simp add: substance_connector_shutdown_def exchange_state_def and_also_def on_sys_def
        connector_cleanup_default_tcp_directory_def connector_clear_allocators_def CONNECTOR_ATOMIC_COMPARE_EXCHANGE_def)
  moreover have "clean ?c5" using wm(2) rm(2-4) d(2) q(2,3) t(2) sd by (simp add: clean_def)
  ultimately show ?thesis by auto
qed

section \<open>Callbacks of a session\<close>

lemma settled_trampolines:
  assumes "settled fs c" "registered t fs'"
  shows "settled fs' (c\<lparr>sys_part := (sys_part c)\<lparr>trampolines := t, world := w\<rparr>\<rparr>)"
  using assms by (simp add: settled_def Let_def owned_def free_ids_def waiting_ids_def)

lemma add_trampoline_settles:
  assumes "allocator_succeeds env" "connector_module_state c = SUBSTANCE_CONNECTOR_STATE_INIT_FINISHED" "settled fs c"
  shows "\<exists>c'. substance_connector_add_trampoline env (Some f) c = Some (SUBSTANCE_CONNECTOR_SUCCESS, c') \<and>
    connector_module_state c' = SUBSTANCE_CONNECTOR_STATE_INIT_FINISHED \<and> settled (f # fs) c' \<and>
    application_name (sys_part c') = application_name (sys_part c)"
proof -
  have "registered (trampolines (sys_part c)) fs" using assms(3) by (simp add: settled_def Let_def)
  from registered_add [OF this assms(1), of f "world (sys_part c)"] obtain t w where
    t: "connector_add_trampoline env (Some f) (trampolines (sys_part c)) (world (sys_part c)) = Some (SUBSTANCE_CONNECTOR_SUCCESS, t, w)"
      "registered t (f # fs)" by blast
  from settled_trampolines [OF assms(3) t(2), of w] t(1) assms(2) show ?thesis
    by (auto simp: substance_connector_add_trampoline_def on_sys_def)
qed

lemma remove_trampoline_settles:
  assumes "connector_module_state c = SUBSTANCE_CONNECTOR_STATE_INIT_FINISHED" "settled fs c"
  shows "\<exists>r c'. substance_connector_remove_trampoline (Some f) c = Some (r, c') \<and>
    connector_module_state c' = SUBSTANCE_CONNECTOR_STATE_INIT_FINISHED \<and> settled (remove1 f fs) c'"
proof -
  have "registered (trampolines (sys_part c)) fs" using assms(2) by (simp add: settled_def Let_def)
  from registered_remove [OF this, of f] obtain r t where
    t: "connector_remove_trampoline (Some f) (trampolines (sys_part c)) = Some (r, t)" "registered t (remove1 f fs)" by blast
  from settled_trampolines [OF assms(2) t(2), of "world (sys_part c)"] t(1) assms(1) show ?thesis
    by (auto simp: substance_connector_remove_trampoline_def on_sys_def)
qed

section \<open>Sending through the interface\<close>

text \<open>The message the library queues for a text.\<close>

definition outgoing :: "u32 \<Rightarrow> substance_connector_uuid \<Rightarrow> u8 list \<Rightarrow> connector_message cptr" where
  "outgoing ctx type b = OWNED \<lparr>msg_header = OWNED \<lparr>description = CONNECTOR_MESSAGE_IDENTIFIER,
      message_length = of_nat (length (cstr b)), message_id = type\<rparr>,
    msg_message = OWNED (c_string (cstr b)), msg_context = ctx\<rparr>"

lemma enqueue_outbound_pending:
  assumes "reliable_link env send recv pending" "connector_enqueue_outbound_message env m (q, w) = Some (q', w')"
  shows "pending w' = pending w"
proof -
  obtain r w1 where r: "connector_allocate env 16 w = (r, w1)" by fastforce
  with assms(2) have "w' = w1"
    by (cases r) (auto simp: connector_enqueue_outbound_message_def enqueue_message_def Option.bind_eq_Some_conv)
  with allocate_pending [OF assms(1) r] show ?thesis by simp
qed

lemma write_message_queues:
  assumes st: "connector_module_state c = SUBSTANCE_CONNECTOR_STATE_INIT_FINISHED" and al: "allocator_succeeds env"
    and q: "wf_queues (queues (sys_part c))" and m: "deref message = Some b" "0 \<in> set b" "length b < 2 ^ 64"
  shows "\<exists>q' w'. substance_connector_write_message env ctx (BORROWED type) message c =
      Some (SUBSTANCE_CONNECTOR_SUCCESS, c\<lparr>sys_part := signal WakeWrite ((sys_part c)\<lparr>queues := q', world := w'\<rparr>)\<rparr>) \<and> wf_queues q' \<and>
    outbound_messages q' = outbound_messages (queues (sys_part c)) @ [outgoing ctx type b] \<and>
    inbound_messages q' = inbound_messages (queues (sys_part c)) \<and>
    (\<forall>pending. socket_link env pending \<longrightarrow> pending w' = pending (world (sys_part c)))"
proof -
  let ?s = "sys_part c"
  obtain w1 where w1: "connector_build_message env ctx (BORROWED type) message (world ?s) = Some (outgoing ctx type b, w1)"
    using build_message_result [OF al m, of "BORROWED type" type] by (auto simp: outgoing_def)
  obtain q' w' where e: "connector_enqueue_outbound_message env (outgoing ctx type b) (queues ?s, w1) = Some (q', w')" "wf_queues q'"
    "outbound_messages q' = outbound_messages (queues ?s) @ [outgoing ctx type b]" "inbound_messages q' = inbound_messages (queues ?s)"
    using outbound_enqueue [OF q al] by blast
  have "substance_connector_write_message env ctx (BORROWED type) message c =
      Some (SUBSTANCE_CONNECTOR_SUCCESS, c\<lparr>sys_part := signal WakeWrite (?s\<lparr>queues := q', world := w'\<rparr>)\<rparr>)"
    using st w1 e(1)
    by (simp add: substance_connector_write_message_def Let_def outgoing_def enqueue_outbound_def connector_flag_write_def
        connector_flag_write_impl_def)
  moreover have "pending w' = pending (world ?s)" if "socket_link env pending" for pending
    using build_pending [OF that w1] enqueue_outbound_pending [OF that e(1)] by simp
  ultimately show ?thesis using e by blast
qed

text \<open>The library before its first use.\<close>

definition fresh_connector :: "'w \<Rightarrow> 'f allocators \<Rightarrow> ('w, 'f) connector" where
  "fresh_connector w a = \<lparr>connector_module_state = SUBSTANCE_CONNECTOR_STATE_SHUTDOWN, module_allocators = a,
     dispatch_part = \<lparr>dispatch_threads = [], dispatch_shutdown_code = 0, dispatch_signal_main = False, main_broadcasts = 0\<rparr>,
     read_part = initial_read_module, write_part = \<lparr>write_threads = [], write_thread_shutdown_flag = 0\<rparr>,
     sys_part = initial_sys w\<rparr>"

lemma fresh_connector_clean: "clean (fresh_connector w a)"
  by (simp add: clean_def fresh_connector_def initial_sys_def initial_read_module_def name_ok_def rt_ok_def blank_read_thread_def
      numeral_eq_Suc)

section \<open>Properties\<close>



text \<open>
  Outside a session the interface does nothing. Unless the initialisation has finished,
  every call that sends, registers, opens, connects or discovers returns an error code and
  leaves the library as it is, a second initialisation during one is refused, and the
  allocators cannot be changed unless the library is shut down.
\<close>

theorem interface_refused_outside_session:
  assumes "connector_module_state c \<noteq> SUBSTANCE_CONNECTOR_STATE_INIT_FINISHED"
  shows "substance_connector_write_message env ctx type message c = Some (SUBSTANCE_CONNECTOR_INVALID, c) \<and>
    substance_connector_add_trampoline env f c = Some (SUBSTANCE_CONNECTOR_ERROR, c) \<and>
    substance_connector_remove_trampoline f c = Some (SUBSTANCE_CONNECTOR_ERROR, c) \<and>
    substance_connector_open_tcp env port want c = Some (SUBSTANCE_CONNECTOR_ERROR, None, c) \<and>
    substance_connector_open_unix env path want c = Some (SUBSTANCE_CONNECTOR_ERROR, None, c) \<and>
    substance_connector_connect_tcp env port want c = Some (SUBSTANCE_CONNECTOR_ERROR, None, c) \<and>
    substance_connector_connect_unix env path want c = Some (SUBSTANCE_CONNECTOR_ERROR, None, c) \<and>
    substance_connector_broadcast_tcp env c = Some (SUBSTANCE_CONNECTOR_ERROR, c) \<and>
    substance_connector_broadcast_unix env c = Some (SUBSTANCE_CONNECTOR_ERROR, c) \<and>
    substance_connector_broadcast_default env c = Some (SUBSTANCE_CONNECTOR_ERROR, c) \<and>
    substance_connector_open_default_tcp env want c = Some (SUBSTANCE_CONNECTOR_ERROR, None, c) \<and>
    substance_connector_open_default_unix env want c = Some (SUBSTANCE_CONNECTOR_ERROR, None, c) \<and>
    substance_connector_open_default env want c = Some (SUBSTANCE_CONNECTOR_ERROR, None, c) \<and>
    (connector_module_state c \<noteq> SUBSTANCE_CONNECTOR_STATE_SHUTDOWN \<longrightarrow>
      substance_connector_init env name dsched csched c = Some (SUBSTANCE_CONNECTOR_ERROR, c) \<and>
      substance_connector_set_allocators a d c = (SUBSTANCE_CONNECTOR_INVALID, c))"
  using assms
  by (simp add: substance_connector_write_message_def substance_connector_add_trampoline_def
      substance_connector_remove_trampoline_def substance_connector_open_tcp_def substance_connector_open_unix_def
      substance_connector_connect_tcp_def substance_connector_connect_unix_def substance_connector_broadcast_tcp_def
      substance_connector_broadcast_unix_def substance_connector_broadcast_default_def substance_connector_open_default_tcp_def
      substance_connector_open_default_unix_def substance_connector_open_default_def substance_connector_init_def
      substance_connector_set_allocators_def exchange_state_def CONNECTOR_ATOMIC_COMPARE_EXCHANGE_def)

theorem interface_refused_outside_session_witness:
  "substance_connector_open_tcp sample_os 8080 True
     (fresh_connector [] \<lparr>connector_memory_allocate = 0 :: nat, connector_memory_free = 0\<rparr>) =
     Some (SUBSTANCE_CONNECTOR_ERROR, None, fresh_connector [] \<lparr>connector_memory_allocate = 0, connector_memory_free = 0\<rparr>)"
  using interface_refused_outside_session [of "fresh_connector [] \<lparr>connector_memory_allocate = 0 :: nat, connector_memory_free = 0\<rparr>" sample_os]
  by (simp add: fresh_connector_def)

text \<open>
  C38: a second shutdown ends the first one early. A shutdown called while another one is
  in progress does no work and returns an error, but it moves the state of the library
  to shut down: an initialisation that should be refused until the first call has returned
  is then let in while the threads are still being stopped.
\<close>

theorem second_shutdown_ends_first:
  assumes "connector_module_state c = SUBSTANCE_CONNECTOR_STATE_SHUTDOWN_STARTED"
  shows "substance_connector_shutdown env malloc free wsched rsched dsched c =
      Some (SUBSTANCE_CONNECTOR_ERROR, c\<lparr>connector_module_state := SUBSTANCE_CONNECTOR_STATE_SHUTDOWN\<rparr>) \<and>
    substance_connector_init env name ds cs c = Some (SUBSTANCE_CONNECTOR_ERROR, c) \<and>
    fst (exchange_state SUBSTANCE_CONNECTOR_STATE_SHUTDOWN SUBSTANCE_CONNECTOR_STATE_INIT_STARTED
      (c\<lparr>connector_module_state := SUBSTANCE_CONNECTOR_STATE_SHUTDOWN\<rparr>)) = SUBSTANCE_CONNECTOR_STATE_SHUTDOWN"
  using assms
  by (simp add: substance_connector_shutdown_def substance_connector_init_def exchange_state_def CONNECTOR_ATOMIC_COMPARE_EXCHANGE_def)

theorem second_shutdown_ends_first_witness:
  "substance_connector_shutdown sample_os 1 2 [] [] [] ((fresh_connector [] \<lparr>connector_memory_allocate = 0 :: nat, connector_memory_free = 0\<rparr>)
       \<lparr>connector_module_state := SUBSTANCE_CONNECTOR_STATE_SHUTDOWN_STARTED\<rparr>) =
     Some (SUBSTANCE_CONNECTOR_ERROR, fresh_connector [] \<lparr>connector_memory_allocate = 0, connector_memory_free = 0\<rparr>)"
  using second_shutdown_ends_first [of "(fresh_connector [] \<lparr>connector_memory_allocate = 0 :: nat, connector_memory_free = 0\<rparr>)
      \<lparr>connector_module_state := SUBSTANCE_CONNECTOR_STATE_SHUTDOWN_STARTED\<rparr>" sample_os 1 2 "[]" "[]" "[]"]
  by (simp add: fresh_connector_def)

end
