(* ===== verification/Api_Session.thy ===== *)
theory Api_Session
  imports External_Api
begin

text \<open>
  Sequences of calls an application makes during a session. The state of the library is
  abstracted to what such calls are about: the registered callbacks and the outbound
  messages. The theory shows that calls over TCP never fault, keep the modules well formed
  and act on the abstract state as specified.
\<close>

section \<open>Calls and their specification\<close>

datatype api_call =
    WriteMessage u32 substance_connector_uuid "u8 list"
  | AddTrampoline nat
  | RemoveTrampoline nat
  | OpenTcp u32
  | OpenDefaultTcp
  | ConnectTcp u32
  | CloseContext u32

text \<open>A call drops the index an open or a connect returns; the application finds it in the table.\<close>

fun api_step :: "'w os \<Rightarrow> api_call \<Rightarrow> ('w, 'f) connector \<Rightarrow> (substance_connector_error \<times> ('w, 'f) connector) option" where
  "api_step env (WriteMessage ctx type b) c = substance_connector_write_message env ctx (BORROWED type) (BORROWED b) c"
| "api_step env (AddTrampoline f) c = substance_connector_add_trampoline env (Some f) c"
| "api_step env (RemoveTrampoline f) c = substance_connector_remove_trampoline (Some f) c"
| "api_step env (OpenTcp port) c = do { (r, _, c') \<leftarrow> substance_connector_open_tcp env port True c; Some (r, c') }"
| "api_step env OpenDefaultTcp c = do { (r, _, c') \<leftarrow> substance_connector_open_default_tcp env True c; Some (r, c') }"
| "api_step env (ConnectTcp port) c = do { (r, _, c') \<leftarrow> substance_connector_connect_tcp env port True c; Some (r, c') }"
| "api_step env (CloseContext ctx) c = substance_connector_close_context ctx c"

fun api_run ::
    "'w os \<Rightarrow> api_call list \<Rightarrow> ('w, 'f) connector \<Rightarrow> (substance_connector_error list \<times> ('w, 'f) connector) option" where
  "api_run env [] c = Some ([], c)"
| "api_run env (x # xs) c = do {
     (r, c1) \<leftarrow> api_step env x c;
     (rs, c2) \<leftarrow> api_run env xs c1;
     Some (r # rs, c2) }"

text \<open>The specification: the callbacks, newest first, and the outbound messages, oldest first.\<close>

type_synonym session_view = "nat list \<times> connector_message cptr list"

fun spec_step :: "api_call \<Rightarrow> session_view \<Rightarrow> session_view" where
  "spec_step (WriteMessage ctx type b) (fs, out) = (fs, out @ [outgoing ctx type b])"
| "spec_step (AddTrampoline f) (fs, out) = (f # fs, out)"
| "spec_step (RemoveTrampoline f) (fs, out) = (remove1 f fs, out)"
| "spec_step _ v = v"

text \<open>The return code, where it does not depend on the system or on the state of a context.\<close>

fun spec_result :: "api_call \<Rightarrow> session_view \<Rightarrow> substance_connector_error option" where
  "spec_result (WriteMessage ctx type b) v = Some SUBSTANCE_CONNECTOR_SUCCESS"
| "spec_result (AddTrampoline f) v = Some SUBSTANCE_CONNECTOR_SUCCESS"
| "spec_result (RemoveTrampoline f) v =
     Some (if f \<in> set (fst v) then SUBSTANCE_CONNECTOR_SUCCESS else SUBSTANCE_CONNECTOR_INVALID)"
| "spec_result _ v = None"

fun spec_results :: "api_call list \<Rightarrow> session_view \<Rightarrow> substance_connector_error option list" where
  "spec_results [] v = []"
| "spec_results (x # xs) v = spec_result x v # spec_results xs (spec_step x v)"

definition agrees :: "substance_connector_error option \<Rightarrow> substance_connector_error \<Rightarrow> bool" where
  "agrees e r \<longleftrightarrow> e = None \<or> e = Some r"

fun takes_context :: "api_call \<Rightarrow> bool" where
  "takes_context (OpenTcp port) = True"
| "takes_context OpenDefaultTcp = True"
| "takes_context (ConnectTcp port) = True"
| "takes_context _ = False"

text \<open>A text is terminated and fits the address space.\<close>

fun call_ok :: "api_call \<Rightarrow> bool" where
  "call_ok (WriteMessage ctx type b) \<longleftrightarrow> 0 \<in> set b \<and> length b < 2 ^ 64"
| "call_ok _ \<longleftrightarrow> True"

text \<open>A session whose modules are well formed, with the indices the read threads hold and its abstract state.\<close>

definition session_ok :: "u32 list \<Rightarrow> session_view \<Rightarrow> ('w, 'f) connector \<Rightarrow> bool" where
  "session_ok held v c \<longleftrightarrow> connector_module_state c = SUBSTANCE_CONNECTOR_STATE_INIT_FINISHED \<and> owned (sys_part c) held \<and>
     wf_queues (queues (sys_part c)) \<and> registered (trampolines (sys_part c)) (fst v) \<and>
     outbound_messages (queues (sys_part c)) = snd v"

text \<open>The announcement file of a port can be created.\<close>

definition announce_succeeds :: "'w os \<Rightarrow> bool" where
  "announce_succeeds env \<longleftrightarrow> (\<forall>f w. fst (os_fopen env f w))"

section \<open>Frames\<close>

text \<open>Operations on the table leave the queues and the callbacks alone.\<close>

definition same_modules :: "'w sys \<Rightarrow> 'w sys \<Rightarrow> bool" where
  "same_modules s s' \<longleftrightarrow> queues s' = queues s \<and> trampolines s' = trampolines s"

lemma same_modules_simps [simp]:
  "same_modules s (set_context i c s') = same_modules s s'" "same_modules s (s'\<lparr>world := w\<rparr>) = same_modules s s'"
  "same_modules s (s'\<lparr>free_contexts := q\<rparr>) = same_modules s s'" "same_modules s (s'\<lparr>connection_queue := q\<rparr>) = same_modules s s'"
  "same_modules s (signal k s') = same_modules s s'" "same_modules s s"
  by (simp_all add: same_modules_def set_context_def)

lemma table_moves_modules:
  "pop_free s = Some (r, v, s') \<Longrightarrow> same_modules s s'"
  "connector_return_context i s = Some (r, s') \<Longrightarrow> same_modules s s'"
  "append_available i s = Some (r, s') \<Longrightarrow> same_modules s s'"
  "context_op_generic i op s = Some (r, s') \<Longrightarrow> same_modules s s'"
  by (auto simp: pop_free_def connector_return_context_def append_available_def Let_def connector_flag_read_def
      connector_flag_read_impl_def context_op_generic_def Option.bind_eq_Some_conv split: if_splits option.splits)

lemma open_modules:
  assumes "connector_context_open env d want s = Some (r, v, s')"
  shows "same_modules s s'"
  using assms
  by (cases d) (auto simp: connector_context_open_def Let_def Option.bind_eq_Some_conv same_modules_def set_context_def
      split: if_splits dest!: table_moves_modules)

lemma connect_modules:
  assumes "connector_context_connect env d want s = Some (r, v, s')"
  shows "same_modules s s'"
  using assms
  by (cases d) (auto simp: connector_context_connect_def Let_def Option.bind_eq_Some_conv same_modules_def set_context_def
      split: if_splits dest!: table_moves_modules)

lemma close_modules: "connector_context_close i s = Some (r, s') \<Longrightarrow> same_modules s s'"
  by (auto simp: connector_context_close_def Let_def Option.bind_eq_Some_conv split: if_splits)

section \<open>Calls over TCP return\<close>

lemma tcp_index: "ctx_configuration c AND SUBSTANCE_CONNECTOR_COMM_MASK = SUBSTANCE_CONNECTOR_COMM_TCP \<Longrightarrow> table_index c = 1"
  by (simp add: table_index_def connection_type_def SUBSTANCE_CONNECTOR_COMM_TCP_def SUBSTANCE_CONNECTOR_COMM_MAX_def)

lemma fresh_tcp_index:
  "table_index (zero_context\<lparr>ctx_configuration := (SUBSTANCE_CONNECTOR_COMM_TCP AND SUBSTANCE_CONNECTOR_COMM_MASK) OR
     SUBSTANCE_CONNECTOR_CONN_OPEN, ctx_connection_data := p, ctx_port := n\<rparr>) = 1"
  by (rule tcp_index) (simp add: comm_defs conn_defs)

lemma bridge_tcp_returns:
  assumes "table_index c = 1"
  shows "\<exists>r d w'. connector_bridge_connection env (Some c) w = Some (r, Some d, w')"
  using assms
  by (auto simp: connector_bridge_connection_def context_operation_def connect_functions_def connector_connect_tcp_def
      connector_connect_tcp_impl_def Let_def split: prod.splits)

lemma ensure_directory_returns:
  fixes env :: "'w os"
  shows "\<exists>r w'. connector_ensure_default_tcp_directory env w = Some (r, w')"
  using directory_no_zero(1)
  by (auto simp: connector_ensure_default_tcp_directory_def connector_make_directory_def connector_is_directory_def
      test_file_type_def connector_get_default_tcp_directory_def split: prod.splits)

lemma commit_port_returns:
  assumes "allocator_succeeds env" "announce_succeeds env"
  shows "\<exists>w'. connector_commit_open_tcp_port env port w = Some (SUBSTANCE_CONNECTOR_SUCCESS, w')"
proof -
  obtain w1 where c: "create_tcp_filepath env port w = Some (OWNED (c_string (tcp_port_path port)), w1)"
    using create_tcp_filepath_result [OF assms(1)] by blast
  have "fst (os_fopen env (tcp_port_path port) w1)" using assms(2) by (simp add: announce_succeeds_def)
  moreover have "c_path (OWNED (c_string (tcp_port_path port))) = Some (tcp_port_path port)"
    using tcp_port_path_no_zero by simp
  ultimately show ?thesis using c
    by (auto simp: connector_commit_open_tcp_port_def split: prod.splits)
qed

lemma open_tcp_returns:
  assumes "table_index c = 1" "allocator_succeeds env" "announce_succeeds env"
  shows "\<exists>r d w'. connector_open_connection env (Some c) w = Some (r, Some d, w')"
proof -
  obtain r w1 where e: "connector_ensure_default_tcp_directory env w = Some (r, w1)" using ensure_directory_returns [of env w] by auto
  obtain f where f: "connector_commit_open_tcp_port env port u = Some (SUBSTANCE_CONNECTOR_SUCCESS, f port u)" for port u
    using commit_port_returns [OF assms(2,3)] by metis
  have "\<exists>r d w'. connector_open_tcp_impl env c w = Some (r, d, w')"
    by (auto simp: connector_open_tcp_impl_def e f Let_def split: prod.split)
  then show ?thesis using assms(1)
    by (auto simp: connector_open_connection_def context_operation_def open_functions_def connector_open_tcp_def)
qed

text \<open>The index taken from the pool can be put back or queued, whatever happened to its context.\<close>

lemma finish_returns:
  assumes "owned s (i # held)" "0 < pushes_left s" "keeps s s'"
  shows "\<exists>x u. connector_return_context i s' = Some (x, u)" "\<exists>x u. append_available i s' = Some (x, u)"
  using return_moves [of s' i held] append_moves [of s' i held] keepsD [OF assms(3)] assms(1,2) by auto

lemma context_op_returns:
  assumes "unat i < 32" "length (context_list s) = 32" "\<exists>r d w'. op (Some c) (world s) = Some (r, Some d, w')"
  shows "\<exists>r u. context_op_generic i op (set_context i c s) = Some (r, u) \<and> keeps s u \<and> get_context u i \<noteq> None"
proof -
  have "i < SUBSTANCE_CONNECTOR_CONTEXT_COUNT"
    using assms(1) by (simp add: SUBSTANCE_CONNECTOR_CONTEXT_COUNT_def word_less_nat_alt)
  moreover obtain r d w' where "op (Some c) (world s) = Some (r, Some d, w')" using assms(3) by blast
  ultimately have "context_op_generic i op (set_context i c s) = Some (r, set_context i d s\<lparr>world := w'\<rparr>)"
    using assms(1,2) by (simp add: context_op_generic_def set_context_def get_context_def)
  then show ?thesis using assms(1,2) by (auto simp: keeps_def get_set_context)
qed

text \<open>What a call that may take a context leaves behind.\<close>

definition table_call :: "u32 list \<Rightarrow> 'w sys \<Rightarrow> 'w sys \<Rightarrow> bool" where
  "table_call held s s' \<longleftrightarrow> owned s' held \<and> same_modules s s' \<and> pushes_left s \<le> Suc (pushes_left s') \<and>
     length (free_ids s) \<le> Suc (length (free_ids s'))"

lemma handed_out_free: "handed_out s r v s' \<Longrightarrow> length (free_ids s) \<le> Suc (length (free_ids s'))"
  by (auto simp: handed_out_def split: option.splits dest: mset_eq_length)

lemma connect_tcp_call:
  assumes o: "owned s held" and b: "0 < pushes_left s" and ne: "free_ids s \<noteq> []"
  shows "\<exists>r v s'. connector_context_connect_tcp env port True s = Some (r, v, s') \<and> table_call held s s'"
proof -
  let ?d = "\<lparr>desc_configuration = SUBSTANCE_CONNECTOR_COMM_TCP, desc_connection_data = NULL, desc_port = port\<rparr>"
  from ne obtain i rest where free: "free_ids s = i # rest" by (cases "free_ids s") auto
  obtain q where q: "pop_free s = Some (SUBSTANCE_CONNECTOR_SUCCESS, Some i, s\<lparr>free_contexts := q\<rparr>)"
    "owned (s\<lparr>free_contexts := q\<rparr>) (i # held)" "pushes_left (s\<lparr>free_contexts := q\<rparr>) = pushes_left s"
    using pop_free_moves [OF o free] by blast
  let ?s = "s\<lparr>free_contexts := q\<rparr>"
  have i: "unat i < 32" "length (context_list ?s) = 32" using held_in_table(1) [OF q(2)] ownedD(1) [OF q(2)] by simp_all
  let ?c = "zero_context\<lparr>ctx_configuration := (SUBSTANCE_CONNECTOR_COMM_TCP AND SUBSTANCE_CONNECTOR_COMM_MASK) OR
    SUBSTANCE_CONNECTOR_CONN_OPEN, ctx_connection_data := NULL, ctx_port := ucast port\<rparr>"
  obtain r u where u: "context_op_generic i (connector_bridge_connection env) (set_context i ?c ?s) = Some (r, u)" "keeps ?s u"
    "get_context u i \<noteq> None"
    using context_op_returns [OF i, of "connector_bridge_connection env" ?c, OF bridge_tcp_returns, OF fresh_tcp_index]
    by (elim exE conjE)
  have k: "keeps ?s (set_context i d u)" for d using u(2) by (simp add: keeps_def)
  have "\<exists>r v s'. connector_context_connect env (Some ?d) True s = Some (r, v, s')"
  proof -
    obtain y where y: "get_context u i = Some y" using u(3) by blast
    let ?y = "y\<lparr>ctx_configuration := (ctx_configuration y AND NOT SUBSTANCE_CONNECTOR_CONN_MASK) OR
      SUBSTANCE_CONNECTOR_CONN_CONNECTED, ctx_connection_data := NULL\<rparr>"
    have g: "get_context ?s i = Some (context_list s ! unat i)" using i by (simp add: get_context_def)
    obtain x1 u1 x2 u2 where "connector_return_context i u = Some (x1, u1)" "append_available i (set_context i ?y u) = Some (x2, u2)"
      using finish_returns(1) [OF q(2) _ u(2)] finish_returns(2) [OF q(2) _ k [of ?y]] b q(3) by auto
    with q(1) u(1) y g show ?thesis by (simp add: connector_context_connect_def Let_def)
  qed
  then obtain r v s' where c: "connector_context_connect env (Some ?d) True s = Some (r, v, s')" by blast
  from connect_owned [OF o b ne c] connect_modules [OF c] handed_out_free c show ?thesis
    by (auto simp: connector_context_connect_tcp_def table_call_def)
qed

lemma open_tcp_call:
  assumes o: "owned s held" and b: "0 < pushes_left s" and al: "allocator_succeeds env" "announce_succeeds env"
  shows "\<exists>r v s'. connector_context_open_tcp env port True s = Some (r, v, s') \<and> table_call held s s'"
proof -
  let ?d = "\<lparr>desc_configuration = SUBSTANCE_CONNECTOR_COMM_TCP, desc_connection_data = NULL, desc_port = port\<rparr>"
  have "\<exists>r v s'. connector_context_open env (Some ?d) True s = Some (r, v, s')"
  proof (cases "free_ids s")
    case Nil
    then show ?thesis using pop_free_empty [OF o] by (simp add: connector_context_open_def)
  next
    case (Cons i rest)
    obtain q where q: "pop_free s = Some (SUBSTANCE_CONNECTOR_SUCCESS, Some i, s\<lparr>free_contexts := q\<rparr>)"
      "owned (s\<lparr>free_contexts := q\<rparr>) (i # held)" "pushes_left (s\<lparr>free_contexts := q\<rparr>) = pushes_left s"
      using pop_free_moves [OF o Cons] by blast
    let ?s = "s\<lparr>free_contexts := q\<rparr>"
    have i: "unat i < 32" "length (context_list ?s) = 32" using held_in_table(1) [OF q(2)] ownedD(1) [OF q(2)] by simp_all
    let ?c = "zero_context\<lparr>ctx_configuration := (SUBSTANCE_CONNECTOR_COMM_TCP AND SUBSTANCE_CONNECTOR_COMM_MASK) OR
      SUBSTANCE_CONNECTOR_CONN_OPEN, ctx_connection_data := NULL, ctx_port := ucast port\<rparr>"
    obtain r u where u: "context_op_generic i (connector_open_connection env) (set_context i ?c ?s) = Some (r, u)" "keeps ?s u"
      using context_op_returns [OF i, of "connector_open_connection env" ?c, OF open_tcp_returns, OF fresh_tcp_index al]
      by (elim exE conjE)
    have k: "keeps ?s (set_context i zero_context u)" using u(2) by (simp add: keeps_def)
    have e: "set_context i ?c ?s\<lparr>world := world s\<rparr> = set_context i ?c ?s" by (simp add: set_context_def)
    have g: "get_context ?s i = Some (context_list s ! unat i)" using i by (simp add: get_context_def)
    obtain x1 u1 x2 u2 where "connector_return_context i (set_context i zero_context u) = Some (x1, u1)"
      "append_available i u = Some (x2, u2)"
      using finish_returns(2) [OF q(2) _ u(2)] finish_returns(1) [OF q(2) _ k] b q(3) by auto
    with q(1) u(1) g show ?thesis by (simp add: connector_context_open_def Let_def connector_strdup_def e)
  qed
  then obtain r v s' where c: "connector_context_open env (Some ?d) True s = Some (r, v, s')" by blast
  from open_owned [OF o b c] open_modules [OF c] handed_out_free c show ?thesis
    by (auto simp: connector_context_open_tcp_def table_call_def)
qed

lemma close_call:
  assumes "owned s held"
  shows "\<exists>r s'. connector_context_close i s = Some (r, s') \<and> owned s' held \<and> same_modules s s' \<and>
    pushes_left s' = pushes_left s \<and> free_ids s' = free_ids s"
proof -
  have "\<exists>r s'. connector_context_close i s = Some (r, s')"
    using ownedD(1) [OF assms]
    by (auto simp: connector_context_close_def Let_def get_context_def SUBSTANCE_CONNECTOR_CONTEXT_COUNT_def word_less_nat_alt)
  then obtain r s' where c: "connector_context_close i s = Some (r, s')" by blast
  with keepsD [OF session_keeps(1) [OF c]] close_modules [OF c] assms show ?thesis by auto
qed

section \<open>One call\<close>

lemma session_table_call:
  assumes "session_ok held v c" "table_call held (sys_part c) s'"
  shows "session_ok held v (c\<lparr>sys_part := s'\<rparr>)"
  using assms by (simp add: session_ok_def table_call_def same_modules_def)

lemma api_step_session:
  assumes al: "allocator_succeeds env" "announce_succeeds env" and ok: "session_ok held v c" "call_ok x"
    and room: "takes_context x \<Longrightarrow> free_ids (sys_part c) \<noteq> []" and b: "0 < pushes_left (sys_part c)"
  shows "\<exists>r c'. api_step env x c = Some (r, c') \<and> agrees (spec_result x v) r \<and> session_ok held (spec_step x v) c' \<and>
    pushes_left (sys_part c) \<le> Suc (pushes_left (sys_part c')) \<and>
    length (free_ids (sys_part c)) \<le> length (free_ids (sys_part c')) + (if takes_context x then 1 else 0)"
proof -
  note s = ok(1) [unfolded session_ok_def]
  obtain fs out where v: "v = (fs, out)" by fastforce
  show ?thesis
  proof (cases x)
    case (WriteMessage ctx type b)
    have m: "0 \<in> set b" "length b < 2 ^ 64" using ok(2) WriteMessage by simp_all
    obtain q w where "substance_connector_write_message env ctx (BORROWED type) (BORROWED b) c = Some (SUBSTANCE_CONNECTOR_SUCCESS,
        c\<lparr>sys_part := signal WakeWrite ((sys_part c)\<lparr>queues := q, world := w\<rparr>)\<rparr>)" "wf_queues q"
      "outbound_messages q = outbound_messages (queues (sys_part c)) @ [outgoing ctx type b]"
      using write_message_queues [OF _ al(1) _ _ m, of c "BORROWED b" ctx type] s by auto
    moreover have "owned (signal WakeWrite ((sys_part c)\<lparr>queues := q, world := w\<rparr>)) held"
      "pushes_left (signal WakeWrite ((sys_part c)\<lparr>queues := q, world := w\<rparr>)) = pushes_left (sys_part c)"
      "free_ids (signal WakeWrite ((sys_part c)\<lparr>queues := q, world := w\<rparr>)) = free_ids (sys_part c)"
      using s by (simp_all add: owned_def pushes_left_def free_ids_def waiting_ids_def)
    ultimately show ?thesis using s by (simp add: WriteMessage v session_ok_def agrees_def)
  next
    case (AddTrampoline f)
    obtain t w where "connector_add_trampoline env (Some f) (trampolines (sys_part c)) (world (sys_part c)) =
      Some (SUBSTANCE_CONNECTOR_SUCCESS, t, w)" "registered t (f # fs)"
      using registered_add [OF _ al(1)] s v by (metis fst_conv)
    with s show ?thesis
      by (simp add: AddTrampoline v session_ok_def agrees_def substance_connector_add_trampoline_def on_sys_def
          owned_def pushes_left_def free_ids_def waiting_ids_def)
  next
    case (RemoveTrampoline f)
    obtain t where "connector_remove_trampoline (Some f) (trampolines (sys_part c)) =
      Some (if f \<in> set fs then SUBSTANCE_CONNECTOR_SUCCESS else SUBSTANCE_CONNECTOR_INVALID, t)" "registered t (remove1 f fs)"
      using registered_remove [of "trampolines (sys_part c)" fs f] s v by auto
    with s show ?thesis
      by (simp add: RemoveTrampoline v session_ok_def agrees_def substance_connector_remove_trampoline_def on_sys_def
          owned_def pushes_left_def free_ids_def waiting_ids_def)
  next
    case (OpenTcp port)
    obtain r i s' where "connector_context_open_tcp env port True (sys_part c) = Some (r, i, s')" "table_call held (sys_part c) s'"
      using open_tcp_call [OF _ b al] s by blast
    with session_table_call [OF ok(1)] s show ?thesis
      by (simp add: OpenTcp v agrees_def substance_connector_open_tcp_def on_sys_out_def table_call_def)
  next
    case OpenDefaultTcp
    obtain r i s' where "connector_context_open_tcp env 0 True (sys_part c) = Some (r, i, s')" "table_call held (sys_part c) s'"
      using open_tcp_call [OF _ b al] s by blast
    with session_table_call [OF ok(1)] s show ?thesis
      by (simp add: OpenDefaultTcp v agrees_def substance_connector_open_default_tcp_def connector_open_default_tcp_def
          on_sys_out_def table_call_def)
  next
    case (ConnectTcp port)
    obtain r i s' where "connector_context_connect_tcp env port True (sys_part c) = Some (r, i, s')" "table_call held (sys_part c) s'"
      using connect_tcp_call [OF _ b room] s ConnectTcp by fastforce
    with session_table_call [OF ok(1)] s show ?thesis
      by (simp add: ConnectTcp v agrees_def substance_connector_connect_tcp_def on_sys_out_def table_call_def)
  next
    case (CloseContext i)
    obtain r s' where "connector_context_close i (sys_part c) = Some (r, s')" "owned s' held" "same_modules (sys_part c) s'"
      "pushes_left s' = pushes_left (sys_part c)" "free_ids s' = free_ids (sys_part c)"
      using close_call [of "sys_part c" held i] s by blast
    with s show ?thesis
      by (simp add: CloseContext v agrees_def session_ok_def same_modules_def substance_connector_close_context_def on_sys_def)
  qed
qed

section \<open>Properties\<close>



end
