(* ===== verification/Framework_Uuid.thy ===== *)
theory Framework_Uuid
  imports Uuid_Utils
begin

text \<open>
  Identifiers in the C++ framework (\<^verbatim>\<open>uuid.cpp\<close>): the operators by which they are keys of a
  \<^verbatim>\<open>std::map\<close>, and their conversion to and from text. The order is the order of the core
  library, and the text determines the identifier.
\<close>

section \<open>Operators\<close>

text \<open>Comparison of the four words as a \<^verbatim>\<open>std::tuple\<close>.\<close>

fun operator_less :: "substance_connector_uuid \<Rightarrow> substance_connector_uuid \<Rightarrow> bool" where
  "operator_less (UUID a b c d) (UUID a' b' c' d') \<longleftrightarrow>
     a < a' \<or> a = a' \<and> (b < b' \<or> b = b' \<and> (c < c' \<or> c = c' \<and> d < d'))"

fun operator_eq :: "substance_connector_uuid \<Rightarrow> substance_connector_uuid \<Rightarrow> bool" where
  "operator_eq (UUID a b c d) (UUID a' b' c' d') \<longleftrightarrow> a = a' \<and> b = b' \<and> c = c' \<and> d = d'"

lemma operator_eq_iff [simp]: "operator_eq u v \<longleftrightarrow> u = v"
  by (cases u; cases v) simp

lemma operator_less_iff: "operator_less u v \<longleftrightarrow> u < v"
  by (cases u; cases v) (auto simp: less_substance_connector_uuid_def connector_compare_uuid_def)

section \<open>Text\<close>

type_synonym std_string = "u8 list"

definition hex_char :: "nat \<Rightarrow> u8" where
  "hex_char n = of_nat (if n < 10 then 48 + n else 87 + n)"

fun hex_digits :: "nat \<Rightarrow> std_string" where
  "hex_digits n = (if n < 16 then [hex_char n] else hex_digits (n div 16) @ [hex_char (n mod 16)])"

declare hex_digits.simps [simp del]

text \<open>\<^verbatim>\<open>ss << std::hex << std::setw(w) << std::setfill('0') << n\<close>\<close>

definition put_hex :: "nat \<Rightarrow> u32 \<Rightarrow> std_string" where
  "put_hex w n = (let ds = hex_digits (unat n) in replicate (w - length ds) 48 @ ds)"

fun uuidToString :: "substance_connector_uuid \<Rightarrow> std_string" where
  "uuidToString (UUID a b c d) =
     put_hex 8 a @ 45 # put_hex 4 (drop_bit 16 b) @ 45 # put_hex 4 (b AND 0xFFFF) @
     45 # put_hex 4 (drop_bit 16 c) @ 45 # put_hex 4 (c AND 0xFFFF) @ put_hex 8 d"

definition is_hex :: "u8 \<Rightarrow> bool" where
  "is_hex c \<longleftrightarrow> 48 \<le> c \<and> c \<le> 57 \<or> 97 \<le> c \<and> c \<le> 102 \<or> 65 \<le> c \<and> c \<le> 70"

definition hex_val :: "u8 \<Rightarrow> nat" where
  "hex_val c = (if c \<le> 57 then unat c - 48 else if c \<le> 70 then unat c - 55 else unat c - 87)"

definition hex_value :: "std_string \<Rightarrow> nat" where
  "hex_value ds = foldl (\<lambda>n d. 16 * n + hex_val d) 0 ds"

text \<open>
  \<^verbatim>\<open>iss >> std::setbase(16) >> u\<close>: white space, a sign and a prefix \<open>0x\<close> are skipped, the hexadecimal
  digits that follow are the number; without digits it is 0, beyond the range the maximum. When
  there is nothing but white space, \<^verbatim>\<open>u\<close> is not assigned and its value is undefined.
\<close>

definition get_hex :: "std_string \<Rightarrow> u32 option" where
  "get_hex s =
     (let t = dropWhile (\<lambda>c. c = 32 \<or> 9 \<le> c \<and> c \<le> 13) s;
          negative = (t \<noteq> [] \<and> hd t = 45);
          u = (if t \<noteq> [] \<and> (hd t = 45 \<or> hd t = 43) then tl t else t);
          v = (if 2 \<le> length u \<and> u ! 0 = 48 \<and> (u ! 1 = 120 \<or> u ! 1 = 88) then drop 2 u else u);
          n = hex_value (takeWhile is_hex v)
      in if t = [] then None
         else Some (if 2 ^ 32 \<le> n then 0xFFFFFFFF else if negative then - of_nat n else of_nat n))"

text \<open>The loop over the characters with the array, the index and the current word.\<close>

fun from_string_loop :: "std_string \<Rightarrow> u32 list \<Rightarrow> nat \<Rightarrow> std_string \<Rightarrow> u32 list option" where
  "from_string_loop [] es i cur = Some es"
| "from_string_loop (c # cs) es i cur =
     (if c = 45 then from_string_loop cs es i cur
      else let cur1 = cur @ [c] in
        if length cur1 = 8 then
          (case get_hex cur1 of
             None \<Rightarrow> None
           | Some u \<Rightarrow> (let es1 = es[i := u] in if i + 1 \<ge> 4 then Some es1 else from_string_loop cs es1 (i + 1) []))
        else from_string_loop cs es i cur1)"

definition uuidFromString :: "std_string \<Rightarrow> substance_connector_uuid option" where
  "uuidFromString s = map_option (\<lambda>es. UUID (es ! 0) (es ! 1) (es ! 2) (es ! 3)) (from_string_loop s [0, 0, 0, 0] 0 [])"

section \<open>Hexadecimal digits\<close>

lemma hex_char_facts:
  assumes "n < 16"
  shows "is_hex (hex_char n)" "hex_val (hex_char n) = n" "hex_char n \<noteq> 45"
proof -
  have "\<forall>k \<in> set [0..<16]. is_hex (hex_char k) \<and> hex_val (hex_char k) = k \<and> hex_char k \<noteq> 45"
    by (simp add: upt_conv_Cons hex_char_def is_hex_def hex_val_def)
  with assms show "is_hex (hex_char n)" "hex_val (hex_char n) = n" "hex_char n \<noteq> 45" by auto
qed

lemma hex_value_append: "hex_value (xs @ ys) = hex_value xs * 16 ^ length ys + hex_value ys"
  by (induction ys rule: rev_induct) (simp_all add: hex_value_def algebra_simps)

lemma hex_value_zeros: "hex_value (replicate k 48) = 0"
  by (induction k) (simp_all add: hex_value_def hex_val_def)

lemma hex_digits_value: "hex_value (hex_digits n) = n"
proof (induction n rule: hex_digits.induct)
  case (1 n)
  show ?case
  proof (cases "n < 16")
    case True
    then show ?thesis by (subst hex_digits.simps) (simp add: hex_value_def hex_char_facts)
  next
    case False
    with 1 show ?thesis by (subst hex_digits.simps) (simp add: hex_value_append, simp add: hex_value_def hex_char_facts)
  qed
qed

lemma hex_digits_chars: "c \<in> set (hex_digits n) \<Longrightarrow> is_hex c \<and> c \<noteq> 45"
proof (induction n rule: hex_digits.induct)
  case (1 n)
  then show ?case using hex_char_facts [of n] hex_char_facts [of "n mod 16"]
    by (cases "n < 16") (auto simp: hex_digits.simps [of n])
qed

lemma hex_digits_length: "n < 16 ^ Suc k \<Longrightarrow> length (hex_digits n) \<le> Suc k"
proof (induction k arbitrary: n)
  case 0
  then show ?case by (simp add: hex_digits.simps)
next
  case (Suc k)
  then have "n div 16 < 16 ^ Suc k" by (simp add: less_mult_imp_div_less)
  from Suc.IH [OF this] show ?case by (subst hex_digits.simps) simp
qed

lemma put_hex_facts:
  assumes "unat n < 16 ^ w" "0 < w"
  shows "length (put_hex w n) = w" "hex_value (put_hex w n) = unat n" "\<forall>c \<in> set (put_hex w n). is_hex c \<and> c \<noteq> 45"
proof -
  obtain k where w: "w = Suc k" using assms(2) by (cases w) auto
  have "length (hex_digits (unat n)) \<le> w" using hex_digits_length [of "unat n" k] assms(1) w by simp
  then show "length (put_hex w n) = w" by (simp add: put_hex_def Let_def)
  show "hex_value (put_hex w n) = unat n"
    by (simp add: put_hex_def Let_def hex_value_append hex_value_zeros hex_digits_value)
  show "\<forall>c \<in> set (put_hex w n). is_hex c \<and> c \<noteq> 45"
    using hex_digits_chars by (auto simp: put_hex_def Let_def is_hex_def)
qed

section \<open>Reading\<close>

lemma is_hex_plain: "is_hex c \<Longrightarrow> c \<noteq> 32 \<and> \<not> (9 \<le> c \<and> c \<le> 13) \<and> c \<noteq> 45 \<and> c \<noteq> 43 \<and> c \<noteq> 120 \<and> c \<noteq> 88"
  by (auto simp: is_hex_def word_le_nat_alt)

lemma get_hex_digits:
  assumes "\<forall>c \<in> set ds. is_hex c" "hex_value ds < 2 ^ 32" "ds \<noteq> []"
  shows "get_hex ds = Some (of_nat (hex_value ds))"
proof -
  have p: "(2 \<le> length ds \<and> ds ! 0 = 48 \<and> (ds ! 1 = 120 \<or> ds ! 1 = 88)) = False"
    using assms(1) is_hex_plain [of "ds ! 1"] nth_mem [of 1 ds] by auto
  have d: "dropWhile (\<lambda>c. c = 32 \<or> 9 \<le> c \<and> c \<le> 13) ds = ds"
    using assms(1) is_hex_plain by (cases ds) auto
  have h: "(hd ds = 45) = False" "(hd ds = 43) = False"
    using assms(1,3) is_hex_plain [of "hd ds"] by simp_all
  have t: "takeWhile is_hex ds = ds" using assms(1) by (simp add: takeWhile_eq_all_conv)
  have "(2 ^ 32 \<le> hex_value ds) = False" "(ds = []) = False" using assms(2,3) by simp_all
  then show ?thesis by (simp only: get_hex_def Let_def d h p t if_False simp_thms)
qed

text \<open>Hyphens are skipped, and eight other characters make one word.\<close>

lemma from_string_loop_hyphens:
  "from_string_loop cs es i cur = from_string_loop (filter (\<lambda>c. c \<noteq> 45) cs) es i cur"
  by (induction cs es i cur rule: from_string_loop.induct) (auto simp: Let_def split: option.split)

lemma from_string_loop_word:
  assumes "length cur + length bs = 8" "bs \<noteq> []" "45 \<notin> set bs" "get_hex (cur @ bs) = Some u"
  shows "from_string_loop (bs @ cs) es i cur =
    (if i + 1 \<ge> 4 then Some (es[i := u]) else from_string_loop cs (es[i := u]) (i + 1) [])"
  using assms
proof (induction bs arbitrary: cur)
  case (Cons b bs)
  show ?case
  proof (cases bs)
    case Nil
    with Cons.prems show ?thesis by (auto simp: Let_def)
  next
    case (Cons c cs')
    with Cons.prems Cons.IH [of "cur @ [b]"] show ?thesis by (auto simp: Let_def)
  qed
qed simp

lemma uuidFromString_words:
  assumes "filter (\<lambda>c. c \<noteq> 45) s = w0 @ w1 @ w2 @ w3 @ rest" "length w0 = 8" "length w1 = 8" "length w2 = 8" "length w3 = 8"
    and g: "get_hex w0 = Some u0" "get_hex w1 = Some u1" "get_hex w2 = Some u2" "get_hex w3 = Some u3"
  shows "uuidFromString s = Some (UUID u0 u1 u2 u3)"
proof -
  have "45 \<notin> set (filter (\<lambda>c. c \<noteq> 45) s)" by simp
  then have h: "45 \<notin> set w0" "45 \<notin> set w1" "45 \<notin> set w2" "45 \<notin> set w3" unfolding assms(1) by auto
  have n: "w0 \<noteq> []" "w1 \<noteq> []" "w2 \<noteq> []" "w3 \<noteq> []" using assms(2-5) by auto
  have "from_string_loop s [0, 0, 0, 0] 0 [] = Some [u0, u1, u2, u3]"
    by (subst from_string_loop_hyphens)
      (simp add: assms(1-5) g h n from_string_loop_word [of "[]" w0] from_string_loop_word [of "[]" w1]
        from_string_loop_word [of "[]" w2] from_string_loop_word [of "[]" w3])
  then show ?thesis by (simp add: uuidFromString_def)
qed

lemma halves:
  fixes b :: u32
  shows "unat (drop_bit 16 b) < 16 ^ 4" "unat (b AND 0xFFFF) < 16 ^ 4"
    "unat (drop_bit 16 b) * 16 ^ 4 + unat (b AND 0xFFFF) = unat b"
proof -
  have m: "(0xFFFF :: u32) = mask 16" by (simp add: mask_eq_exp_minus_1)
  have h: "unat (drop_bit 16 b) = unat b div 65536" by (simp only: unat_drop_bit_eq) (simp add: drop_bit_eq_div)
  have l: "unat (b AND 0xFFFF) = unat b mod 65536"
    by (simp only: m take_bit_eq_mask [symmetric] unsigned_take_bit_eq) (simp add: take_bit_eq_mod)
  have "unat b < 2 ^ 32" using unsigned_less [of b] by simp
  then show "unat (drop_bit 16 b) < 16 ^ 4" by (simp add: h less_mult_imp_div_less)
  show "unat (b AND 0xFFFF) < 16 ^ 4" by (simp add: l)
  show "unat (drop_bit 16 b) * 16 ^ 4 + unat (b AND 0xFFFF) = unat b" by (simp add: h l)
qed

lemma get_put_hex: "get_hex (put_hex 8 a) = Some a"
proof -
  have "unat a < 16 ^ 8" using unsigned_less [of a] by simp
  note f = put_hex_facts [OF this]
  have "put_hex 8 a \<noteq> []" using f(1) by auto
  then show ?thesis using f unsigned_less [of a] by (subst get_hex_digits) auto
qed

lemma get_put_halves: "get_hex (put_hex 4 (drop_bit 16 b) @ put_hex 4 (b AND 0xFFFF)) = Some b"
proof -
  note f = put_hex_facts [OF halves(1) [of b]] and g = put_hex_facts [OF halves(2) [of b]]
  have v: "hex_value (put_hex 4 (drop_bit 16 b) @ put_hex 4 (b AND 0xFFFF)) = unat b"
    using f g halves(3) [of b] by (simp add: hex_value_append)
  have "put_hex 4 (drop_bit 16 b) \<noteq> []" using f(1) by auto
  with v show ?thesis using f(3) g(3) unsigned_less [of b] by (subst get_hex_digits) auto
qed

lemma filter_put_hex: "unat n < 16 ^ w \<Longrightarrow> 0 < w \<Longrightarrow> filter (\<lambda>c. c \<noteq> 45) (put_hex w n) = put_hex w n"
  using put_hex_facts(3) by (simp add: filter_id_conv)

text \<open>A text with the digits of an identifier is read as the identifier, wherever its hyphens are.\<close>

lemma uuid_read_digits:
  assumes "filter (\<lambda>x. x \<noteq> 45) s = filter (\<lambda>x. x \<noteq> 45) (uuidToString u) @ rest"
  shows "uuidFromString s = Some u"
proof -
  obtain a b c d where u: "u = UUID a b c d" by (cases u)
  have w: "unat n < 16 ^ 8" for n :: u32 using unsigned_less [of n] by simp
  let ?b = "put_hex 4 (drop_bit 16 b) @ put_hex 4 (b AND 0xFFFF)" and ?c = "put_hex 4 (drop_bit 16 c) @ put_hex 4 (c AND 0xFFFF)"
  have "filter (\<lambda>x. x \<noteq> 45) (uuidToString u) = put_hex 8 a @ ?b @ ?c @ put_hex 8 d"
    using filter_put_hex [OF w, of a] filter_put_hex [OF w, of d] filter_put_hex [OF halves(1), of b] filter_put_hex [OF halves(2), of b]
      filter_put_hex [OF halves(1), of c] filter_put_hex [OF halves(2), of c] by (simp add: u)
  with assms have s: "filter (\<lambda>x. x \<noteq> 45) s = put_hex 8 a @ ?b @ ?c @ put_hex 8 d @ rest" by simp
  show ?thesis unfolding u
    by (rule uuidFromString_words [OF s _ _ _ _ get_put_hex get_put_halves get_put_halves get_put_hex])
      (use put_hex_facts(1) [OF w] put_hex_facts(1) [OF halves(1)] put_hex_facts(1) [OF halves(2)] in simp_all)
qed

lemma uuid_text_inverse [simp]: "uuidFromString (uuidToString u) = Some u"
  by (rule uuid_read_digits [of _ _ "[]"]) simp

section \<open>Properties\<close>

text \<open>
  The text of an identifier is five groups of 8, 4, 4, 4 and 12 hexadecimal digits with
  hyphens between them, and reading it back gives the identifier, whatever follows the
  text; without the hyphens it is read as the same identifier.
\<close>

theorem uuid_string_round_trip:
  "uuidFromString (uuidToString u @ rest) = Some u \<and> uuidFromString (filter (\<lambda>c. c \<noteq> 45) (uuidToString u)) = Some u \<and>
   (\<exists>g0 g1 g2 g3 g4. uuidToString u = g0 @ 45 # g1 @ 45 # g2 @ 45 # g3 @ 45 # g4 \<and>
     map length [g0, g1, g2, g3, g4] = [8, 4, 4, 4, 12] \<and> list_all is_hex (g0 @ g1 @ g2 @ g3 @ g4))"
proof -
  obtain a b c d where u: "u = UUID a b c d" by (cases u)
  have w: "unat n < 16 ^ 8" for n :: u32 using unsigned_less [of n] by simp
  have "\<exists>g0 g1 g2 g3 g4. uuidToString u = g0 @ 45 # g1 @ 45 # g2 @ 45 # g3 @ 45 # g4 \<and>
     map length [g0, g1, g2, g3, g4] = [8, 4, 4, 4, 12] \<and> list_all is_hex (g0 @ g1 @ g2 @ g3 @ g4)"
    by (rule exI [of _ "put_hex 8 a"], rule exI [of _ "put_hex 4 (drop_bit 16 b)"], rule exI [of _ "put_hex 4 (b AND 0xFFFF)"],
        rule exI [of _ "put_hex 4 (drop_bit 16 c)"], rule exI [of _ "put_hex 4 (c AND 0xFFFF) @ put_hex 8 d"])
      (use put_hex_facts [OF w] put_hex_facts [OF halves(1)] put_hex_facts [OF halves(2)] in \<open>auto simp: u list_all_iff\<close>)
  moreover have "uuidFromString (uuidToString u @ rest) = Some u"
    by (rule uuid_read_digits [of _ _ "filter (\<lambda>x. x \<noteq> 45) rest"]) simp
  moreover have "uuidFromString (filter (\<lambda>c. c \<noteq> 45) (uuidToString u)) = Some u"
    by (rule uuid_read_digits [of _ _ "[]"]) simp
  ultimately show ?thesis by blast
qed

end
