(* ===== verification/Framework_Callbacks.thy ===== *)
theory Framework_Callbacks
  imports Framework_Uuid
begin

text \<open>
  The table of callbacks of the C++ framework (\<^verbatim>\<open>details/callbacks.cpp\<close>): a map from message types
  to the functions called for them. A type is bound once; the lemmas on sequences of bindings
  and of releases are proved for any table with the same laws.
\<close>

section \<open>The table\<close>

text \<open>
  A function pointer of type \<^verbatim>\<open>MessageCallback\<close>: \<^term>\<open>None\<close> is \<^verbatim>\<open>nullptr\<close>, and the one function of
  the framework itself that is bound is told apart from those of the application.
\<close>

datatype callback_function = System_connectionEstablished | Application_callback nat

type_synonym MessageCallback = "callback_function option"

type_synonym callback_map = "substance_connector_uuid \<rightharpoonup> MessageCallback list"

definition bindCallback :: "substance_connector_uuid \<Rightarrow> MessageCallback list \<Rightarrow> callback_map \<Rightarrow> bool \<times> callback_map" where
  "bindCallback messageType callbacks callbackMap =
     (case callbackMap messageType of
        None \<Rightarrow> (True, callbackMap(messageType \<mapsto> callbacks))
      | Some _ \<Rightarrow> (False, callbackMap))"

definition unbindCallback :: "substance_connector_uuid \<Rightarrow> callback_map \<Rightarrow> bool \<times> callback_map" where
  "unbindCallback messageType callbackMap =
     (case callbackMap messageType of
        None \<Rightarrow> (False, callbackMap)
      | Some _ \<Rightarrow> (True, callbackMap(messageType := None)))"

definition findCallbacks :: "substance_connector_uuid \<Rightarrow> callback_map \<Rightarrow> MessageCallback list" where
  "findCallbacks messageType callbackMap = (case callbackMap messageType of None \<Rightarrow> [] | Some callbacks \<Rightarrow> callbacks)"

section \<open>The contract of a table\<close>

locale callback_table =
  fixes bind :: "'k \<Rightarrow> 'v list \<Rightarrow> 'm \<Rightarrow> bool \<times> 'm"
    and unbind :: "'k \<Rightarrow> 'm \<Rightarrow> bool \<times> 'm"
    and callbacks :: "'k \<Rightarrow> 'm \<Rightarrow> 'v list"
    and bound :: "'k \<Rightarrow> 'm \<Rightarrow> bool"
  assumes bind_result: "fst (bind k v m) \<longleftrightarrow> \<not> bound k m"
    and bind_bound: "bound k' (snd (bind k v m)) \<longleftrightarrow> k' = k \<or> bound k' m"
    and bind_callbacks: "callbacks k' (snd (bind k v m)) = (if k' = k \<and> \<not> bound k m then v else callbacks k' m)"
    and unbind_result: "fst (unbind k m) \<longleftrightarrow> bound k m"
    and unbind_bound: "bound k' (snd (unbind k m)) \<longleftrightarrow> k' \<noteq> k \<and> bound k' m"
    and unbind_callbacks: "k' \<noteq> k \<Longrightarrow> callbacks k' (snd (unbind k m)) = callbacks k' m"
    and unbound_callbacks: "\<not> bound k m \<Longrightarrow> callbacks k m = []"
begin

definition bind_all :: "('k \<times> 'v list) list \<Rightarrow> 'm \<Rightarrow> 'm" where
  "bind_all ps m = fold (\<lambda>(k, v) m. snd (bind k v m)) ps m"

definition unbind_all :: "('k \<times> 'v list) list \<Rightarrow> 'm \<Rightarrow> 'm" where
  "unbind_all ps m = fold (\<lambda>(k, v) m. snd (unbind k m)) ps m"

lemma bind_all_bound: "bound k (bind_all ps m) \<longleftrightarrow> bound k m \<or> k \<in> fst ` set ps"
  by (induction ps arbitrary: m) (auto simp: bind_all_def bind_bound)

text \<open>The first binding of a type stays.\<close>

lemma bind_all_callbacks:
  "callbacks k (bind_all ps m) = (if bound k m then callbacks k m else case map_of ps k of None \<Rightarrow> [] | Some v \<Rightarrow> v)"
proof (induction ps arbitrary: m)
  case Nil
  then show ?case by (simp add: bind_all_def unbound_callbacks)
next
  case (Cons p ps)
  obtain k' v where p: "p = (k', v)" by fastforce
  have "bind_all (p # ps) m = bind_all ps (snd (bind k' v m))" by (simp add: bind_all_def p)
  then show ?case by (simp add: Cons.IH p bind_bound bind_callbacks)
qed

lemma unbind_all_bound: "bound k (unbind_all ps m) \<longleftrightarrow> bound k m \<and> k \<notin> fst ` set ps"
  by (induction ps arbitrary: m) (auto simp: unbind_all_def unbind_bound)

lemma unbind_all_callbacks: "k \<notin> fst ` set ps \<Longrightarrow> callbacks k (unbind_all ps m) = callbacks k m"
  by (induction ps arbitrary: m) (auto simp: unbind_all_def unbind_callbacks)

end

interpretation cb: callback_table bindCallback unbindCallback findCallbacks "\<lambda>k m. k \<in> dom m"
  by unfold_locales (auto simp: bindCallback_def unbindCallback_def findCallbacks_def split: option.split)

text \<open>For the map of the source a table is determined by its bound types and their callbacks.\<close>

lemma callback_map_eqI:
  assumes "\<And>k. k \<in> dom m \<longleftrightarrow> k \<in> dom m'" "\<And>k. findCallbacks k m = findCallbacks k m'"
  shows "m = m'"
proof
  fix k
  show "m k = m' k"
    using assms(1) [of k] assms(2) [of k] by (auto simp: findCallbacks_def split: option.splits)
qed

lemma bind_all_map: "cb.bind_all ps m = map_of ps ++ m"
proof (rule callback_map_eqI)
  fix k
  show "k \<in> dom (cb.bind_all ps m) \<longleftrightarrow> k \<in> dom (map_of ps ++ m)"
    unfolding cb.bind_all_bound by (auto simp: dom_map_of_conv_image_fst)
  show "findCallbacks k (cb.bind_all ps m) = findCallbacks k (map_of ps ++ m)"
    unfolding cb.bind_all_callbacks by (auto simp: findCallbacks_def map_add_def split: option.split)
qed

lemma unbind_all_map: "cb.unbind_all ps m = m |` (- fst ` set ps)"
proof (rule callback_map_eqI)
  fix k
  show "k \<in> dom (cb.unbind_all ps m) \<longleftrightarrow> k \<in> dom (m |` (- fst ` set ps))"
    unfolding cb.unbind_all_bound by auto
  show "findCallbacks k (cb.unbind_all ps m) = findCallbacks k (m |` (- fst ` set ps))"
  proof (cases "k \<in> fst ` set ps")
    case True
    then have "k \<notin> dom (cb.unbind_all ps m)" by (simp add: cb.unbind_all_bound)
    with True show ?thesis using cb.unbound_callbacks by (simp add: findCallbacks_def restrict_map_def)
  next
    case False
    then have "(m |` (- fst ` set ps)) k = m k" by (simp add: restrict_map_def)
    with cb.unbind_all_callbacks [OF False] show ?thesis by (simp add: findCallbacks_def)
  qed
qed

end
