(* ===== verification/Framework_Json.thy ===== *)
theory Framework_Json
  imports Framework_Uuid Connection_Directory
begin

text \<open>
  The part of the jsoncpp library the framework's message schemas use, as a parameter of the
  model: every field is one call on a \<^verbatim>\<open>Json::Value\<close>, and the laws are the documented
  behaviour of these calls. A call that throws or is undefined is \<^term>\<open>None\<close>.
\<close>

record 'j jsoncpp =
  j_null :: 'j
  j_string :: "std_string \<Rightarrow> 'j"
  j_bool :: "bool \<Rightarrow> 'j"
  j_isObject :: "'j \<Rightarrow> bool"
  j_isArray :: "'j \<Rightarrow> bool"
  j_set :: "std_string \<Rightarrow> 'j \<Rightarrow> 'j \<Rightarrow> 'j"
  j_isMember :: "std_string \<Rightarrow> 'j \<Rightarrow> bool"
  j_get :: "std_string \<Rightarrow> 'j \<Rightarrow> 'j \<Rightarrow> 'j"
  j_append :: "'j \<Rightarrow> 'j \<Rightarrow> 'j"
  j_elements :: "'j \<Rightarrow> 'j list"
  j_at :: "'j \<Rightarrow> nat \<Rightarrow> 'j"
  j_end_index :: "'j \<Rightarrow> u32 option"
  j_asString :: "'j \<Rightarrow> std_string option"
  j_asBool :: "'j \<Rightarrow> bool option"
  j_writeString :: "'j \<Rightarrow> std_string"
  j_parse :: "std_string \<Rightarrow> 'j option"

text \<open>
  An object (or null, which becomes one when a member is set) returns what was set under a
  key; an array (or null, which becomes one when an element is appended) lists its elements in
  order; strings and truth values are read back.
\<close>

definition json_objects :: "'j jsoncpp \<Rightarrow> bool" where
  "json_objects J \<longleftrightarrow> j_isObject J (j_null J) \<and> (\<forall>k. \<not> j_isMember J k (j_null J)) \<and> (\<forall>k d. j_get J k (j_null J) d = d) \<and>
     (\<forall>k v r. j_isObject J r \<longrightarrow> j_isObject J (j_set J k v r) \<and>
       (\<forall>k'. j_isMember J k' (j_set J k v r) \<longleftrightarrow> k' = k \<or> j_isMember J k' r) \<and>
       (\<forall>k' d. j_get J k' (j_set J k v r) d = (if k' = k then v else j_get J k' r d)))"

definition json_arrays :: "'j jsoncpp \<Rightarrow> bool" where
  "json_arrays J \<longleftrightarrow> j_isArray J (j_null J) \<and> j_elements J (j_null J) = [] \<and>
     (\<forall>a v. j_isArray J a \<longrightarrow> j_isArray J (j_append J a v) \<and> j_elements J (j_append J a v) = j_elements J a @ [v]) \<and>
     (\<forall>a i. j_isArray J a \<longrightarrow> i < length (j_elements J a) \<longrightarrow> j_at J a i = j_elements J a ! i)"

definition json_scalars :: "'j jsoncpp \<Rightarrow> bool" where
  "json_scalars J \<longleftrightarrow> (\<forall>s. j_asString J (j_string J s) = Some s) \<and> (\<forall>b. j_asBool J (j_bool J b) = Some b)"

definition json_laws :: "'j jsoncpp \<Rightarrow> bool" where
  "json_laws J \<longleftrightarrow> json_objects J \<and> json_arrays J \<and> json_scalars J"

lemma json_lawsD:
  assumes "json_laws J"
  shows "j_isObject J (j_null J)" "\<not> j_isMember J k (j_null J)" "j_get J k (j_null J) d = d"
    "j_isObject J r \<Longrightarrow> j_isObject J (j_set J k v r)"
    "j_isObject J r \<Longrightarrow> j_isMember J k' (j_set J k v r) \<longleftrightarrow> k' = k \<or> j_isMember J k' r"
    "j_isObject J r \<Longrightarrow> j_get J k' (j_set J k v r) d = (if k' = k then v else j_get J k' r d)"
    "j_isArray J (j_null J)" "j_elements J (j_null J) = []"
    "j_isArray J a \<Longrightarrow> j_isArray J (j_append J a v)"
    "j_isArray J a \<Longrightarrow> j_elements J (j_append J a v) = j_elements J a @ [v]"
    "j_isArray J a \<Longrightarrow> i < length (j_elements J a) \<Longrightarrow> j_at J a i = j_elements J a ! i"
    "j_asString J (j_string J s) = Some s" "j_asBool J (j_bool J b) = Some b"
  using assms by (simp_all add: json_laws_def json_objects_def json_arrays_def json_scalars_def)

text \<open>An array built by appending.\<close>

definition json_array :: "'j jsoncpp \<Rightarrow> 'j list \<Rightarrow> 'j \<Rightarrow> 'j" where
  "json_array J vs a = foldl (j_append J) a vs"

lemma json_array_elements:
  assumes "json_laws J" "j_isArray J a"
  shows "j_isArray J (json_array J vs a)" "j_elements J (json_array J vs a) = j_elements J a @ vs"
  using assms(2) by (induction vs arbitrary: a) (simp_all add: json_array_def json_lawsD [OF assms(1)])

section \<open>Strings and texts of values\<close>

text \<open>
  \<^verbatim>\<open>reader->parse(json.c_str(), json.c_str() + jsonLength, ...)\<close> with the length narrowed to \<open>int\<close>:
  a negative one would end the range before its start.
\<close>

definition json_read :: "'j jsoncpp \<Rightarrow> std_string \<Rightarrow> 'j option option" where
  "json_read J json = (let jsonLength = length json mod 2 ^ 32 in
     if jsonLength < 2 ^ 31 then Some (j_parse J (take jsonLength json)) else None)"

lemma json_read_short: "length json < 2 ^ 31 \<Longrightarrow> json_read J json = Some (j_parse J json)"
  by (simp add: json_read_def Let_def)

text \<open>The writer's text of a value is parsed to the value.\<close>

definition reads_back :: "'j jsoncpp \<Rightarrow> 'j \<Rightarrow> bool" where
  "reads_back J v \<longleftrightarrow> j_parse J (j_writeString J v) = Some v \<and> length (j_writeString J v) < 2 ^ 31"

section \<open>A concrete library\<close>

text \<open>Values as trees, for the witnesses; a text is not produced by it.\<close>

datatype json_tree = JNull | JString std_string | JBool bool | JObject "(std_string \<times> json_tree) list" | JArray "json_tree list"

fun tree_members :: "json_tree \<Rightarrow> (std_string \<times> json_tree) list" where
  "tree_members (JObject ms) = ms"
| "tree_members _ = []"

fun tree_elements :: "json_tree \<Rightarrow> json_tree list" where
  "tree_elements (JArray vs) = vs"
| "tree_elements _ = []"

fun tree_string :: "json_tree \<Rightarrow> std_string option" where
  "tree_string (JString s) = Some s"
| "tree_string JNull = Some []"
| "tree_string _ = None"

fun tree_bool :: "json_tree \<Rightarrow> bool option" where
  "tree_bool (JBool b) = Some b"
| "tree_bool JNull = Some False"
| "tree_bool _ = None"

definition json_trees :: "json_tree jsoncpp" where
  "json_trees = \<lparr>j_null = JNull, j_string = JString, j_bool = JBool,
     j_isObject = (\<lambda>v. case v of JNull \<Rightarrow> True | JObject _ \<Rightarrow> True | _ \<Rightarrow> False),
     j_isArray = (\<lambda>v. case v of JNull \<Rightarrow> True | JArray _ \<Rightarrow> True | _ \<Rightarrow> False),
     j_set = (\<lambda>k v r. JObject ((k, v) # tree_members r)),
     j_isMember = (\<lambda>k r. map_of (tree_members r) k \<noteq> None),
     j_get = (\<lambda>k r d. case map_of (tree_members r) k of None \<Rightarrow> d | Some v \<Rightarrow> v),
     j_append = (\<lambda>a v. JArray (tree_elements a @ [v])), j_elements = tree_elements,
     j_at = (\<lambda>a i. if i < length (tree_elements a) then tree_elements a ! i else JNull),
     j_end_index = (\<lambda>a. None), j_asString = tree_string, j_asBool = tree_bool,
     j_writeString = (\<lambda>v. []), j_parse = (\<lambda>s. None)\<rparr>"

lemma json_trees_laws: "json_laws json_trees"
  by (auto simp: json_laws_def json_objects_def json_arrays_def json_scalars_def json_trees_def
      split: json_tree.splits option.splits)

end
