(* ===== verification/Framework_Schemas.thy ===== *)
theory Framework_Schemas
  imports Framework_Json
begin

text \<open>
  The message schemas of the framework (\<^verbatim>\<open>connectionschema.cpp\<close>, \<^verbatim>\<open>sendtoschema.cpp\<close>,
  \<^verbatim>\<open>sendmeshschema.cpp\<close>): structures, their conversion to a JSON value and text, and back.
  Reading what was written is shown to give the structure back, up to the members a
  reader keeps when the text does not mention them.
\<close>

section \<open>Connection details\<close>

record connection_schema =
  display_name :: std_string
  id_name :: std_string
  connector_version :: std_string
  available_features :: "substance_connector_uuid list"

definition connection_schema_Serialize :: "'j jsoncpp \<Rightarrow> connection_schema \<Rightarrow> 'j \<Rightarrow> 'j" where
  "connection_schema_Serialize J x root =
     (let r1 = j_set J (bytes_of ''display_name'') (j_string J (display_name x)) root;
          r2 = j_set J (bytes_of ''id_name'') (j_string J (id_name x)) r1;
          r3 = j_set J (bytes_of ''connector_version'') (j_string J (connector_version x)) r2;
          featureValue = json_array J (map (\<lambda>f. j_string J (uuidToString f)) (available_features x)) (j_null J)
      in j_set J (bytes_of ''available_features'') featureValue r3)"

text \<open>\<^verbatim>\<open>root.get(key, "").asString()\<close> and its truth value variant; a value that is not an object throws.\<close>

definition member_string :: "'j jsoncpp \<Rightarrow> 'j \<Rightarrow> string \<Rightarrow> std_string option" where
  "member_string J root k = (if j_isObject J root then j_asString J (j_get J (bytes_of k) root (j_string J [])) else None)"

definition member_bool :: "'j jsoncpp \<Rightarrow> 'j \<Rightarrow> string \<Rightarrow> 'j \<Rightarrow> bool option" where
  "member_bool J root k d = (if j_isObject J root then j_asBool J (j_get J (bytes_of k) root d) else None)"

fun read_uuids :: "'j jsoncpp \<Rightarrow> 'j list \<Rightarrow> substance_connector_uuid list option" where
  "read_uuids J [] = Some []"
| "read_uuids J (v # vs) = do {
     s \<leftarrow> j_asString J v;
     u \<leftarrow> uuidFromString s;
     us \<leftarrow> read_uuids J vs;
     Some (u # us) }"

definition connection_schema_Deserialize :: "'j jsoncpp \<Rightarrow> 'j \<Rightarrow> connection_schema \<Rightarrow> connection_schema option" where
  "connection_schema_Deserialize J root x = do {
     d \<leftarrow> member_string J root ''display_name'';
     i \<leftarrow> member_string J root ''id_name'';
     v \<leftarrow> member_string J root ''connector_version'';
     fs \<leftarrow> read_uuids J (j_elements J (j_get J (bytes_of ''available_features'') root (j_null J)));
     Some (x\<lparr>display_name := d, id_name := i, connector_version := v, available_features := fs\<rparr>) }"

text \<open>The text forms of all schemas: a text that is not parsed leaves the structure as it is.\<close>

definition schema_text :: "'j jsoncpp \<Rightarrow> ('a \<Rightarrow> 'j \<Rightarrow> 'j) \<Rightarrow> 'a \<Rightarrow> std_string" where
  "schema_text J serialize x = j_writeString J (serialize x (j_null J))"

definition schema_read :: "'j jsoncpp \<Rightarrow> ('j \<Rightarrow> 'a \<Rightarrow> 'a option) \<Rightarrow> std_string \<Rightarrow> 'a \<Rightarrow> 'a option" where
  "schema_read J deserialize json x = do {
     parsed \<leftarrow> json_read J json;
     case parsed of None \<Rightarrow> Some x | Some root \<Rightarrow> deserialize root x }"

definition connection_schema_GetJsonString :: "'j jsoncpp \<Rightarrow> connection_schema \<Rightarrow> std_string" where
  "connection_schema_GetJsonString J x = schema_text J (connection_schema_Serialize J) x"

definition connection_schema_DeserializeText :: "'j jsoncpp \<Rightarrow> std_string \<Rightarrow> connection_schema \<Rightarrow> connection_schema option" where
  "connection_schema_DeserializeText J json x = schema_read J (connection_schema_Deserialize J) json x"

section \<open>Sending an asset\<close>

record send_to_schema =
  take_file_ownership :: bool
  st_path :: std_string
  st_name :: std_string
  st_uuid :: std_string
  st_type :: std_string

definition send_to_schema_Serialize :: "'j jsoncpp \<Rightarrow> send_to_schema \<Rightarrow> 'j \<Rightarrow> 'j" where
  "send_to_schema_Serialize J x root =
     (let r1 = j_set J (bytes_of ''path'') (j_string J (st_path x)) root;
          r2 = j_set J (bytes_of ''name'') (j_string J (st_name x)) r1;
          r3 = j_set J (bytes_of ''uuid'') (j_string J (st_uuid x)) r2;
          r4 = j_set J (bytes_of ''type'') (j_string J (st_type x)) r3
      in j_set J (bytes_of ''take_file_ownership'') (j_bool J (take_file_ownership x)) r4)"

definition send_to_schema_Deserialize :: "'j jsoncpp \<Rightarrow> 'j \<Rightarrow> send_to_schema \<Rightarrow> send_to_schema option" where
  "send_to_schema_Deserialize J root x = do {
     p \<leftarrow> member_string J root ''path'';
     n \<leftarrow> member_string J root ''name'';
     u \<leftarrow> member_string J root ''uuid'';
     t \<leftarrow> member_string J root ''type'';
     b \<leftarrow> member_bool J root ''take_file_ownership'' (j_bool J False);
     Some (x\<lparr>st_path := p, st_name := n, st_uuid := u, st_type := t, take_file_ownership := b\<rparr>) }"

definition send_to_schema_GetJsonString :: "'j jsoncpp \<Rightarrow> send_to_schema \<Rightarrow> std_string" where
  "send_to_schema_GetJsonString J x = schema_text J (send_to_schema_Serialize J) x"

definition send_to_schema_DeserializeText :: "'j jsoncpp \<Rightarrow> std_string \<Rightarrow> send_to_schema \<Rightarrow> send_to_schema option" where
  "send_to_schema_DeserializeText J json x = schema_read J (send_to_schema_Deserialize J) json x"

text \<open>
  \<^verbatim>\<open>path.substr(path.find_last_of(".") + 1)\<close>: without a dot the position is \<^verbatim>\<open>npos\<close>, which wraps to 0,
  and the whole path is returned.
\<close>

definition getPathExtension :: "send_to_schema \<Rightarrow> std_string" where
  "getPathExtension x = rev (takeWhile (\<lambda>c. c \<noteq> 46) (rev (st_path x)))"

definition isPathFileExtension :: "send_to_schema \<Rightarrow> std_string \<Rightarrow> bool" where
  "isPathFileExtension x extension \<longleftrightarrow> getPathExtension x = extension"

section \<open>Mesh export\<close>

datatype ColorEncoding = Linear | SRGB
datatype ColorFormat = ColorFormat_None | Vertex | Texture
datatype FileFormat = fbx | glb | gltf | igs | jt | obj | step | stl | stp | usd | usda | usdz | usdc
datatype AxisConvention = ForceYUp_XRight_mZForward | ForceZUp_XRight_YForward
datatype Unit = Millimeters | Centimeters | Meters | Kilometers | Inches | Feet | Yards | Miles
datatype ExportTopology = Triangles | Quads

text \<open>The maps of names, in the order of their keys.\<close>

definition ColorEncodingStrings :: "(ColorEncoding \<times> std_string) list" where
  "ColorEncodingStrings = [(Linear, bytes_of ''Linear''), (SRGB, bytes_of ''SRGB'')]"

definition ColorFormatStrings :: "(ColorFormat \<times> std_string) list" where
  "ColorFormatStrings = [(ColorFormat_None, bytes_of ''None''), (Vertex, bytes_of ''Vertex''), (Texture, bytes_of ''Texture'')]"

definition FileFormatStrings :: "(FileFormat \<times> std_string) list" where
  "FileFormatStrings = [(fbx, bytes_of ''fbx''), (glb, bytes_of ''glb''), (gltf, bytes_of ''gltf''), (igs, bytes_of ''igs''),
     (jt, bytes_of ''jt''), (obj, bytes_of ''obj''), (step, bytes_of ''step''), (stl, bytes_of ''stl''), (stp, bytes_of ''stp''),
     (usd, bytes_of ''usd''), (usda, bytes_of ''usda''), (usdz, bytes_of ''usdz''), (usdc, bytes_of ''usdc'')]"

definition AxisConventionStrings :: "(AxisConvention \<times> std_string) list" where
  "AxisConventionStrings = [(ForceYUp_XRight_mZForward, bytes_of ''ForceYUp_XRight_mZForward''),
     (ForceZUp_XRight_YForward, bytes_of ''ForceZUp_XRight_YForward'')]"

definition UnitStrings :: "(Unit \<times> std_string) list" where
  "UnitStrings = [(Millimeters, bytes_of ''Millimeters''), (Centimeters, bytes_of ''Centimeters''), (Meters, bytes_of ''Meters''),
     (Kilometers, bytes_of ''Kilometers''), (Inches, bytes_of ''Inches''), (Feet, bytes_of ''Feet''), (Yards, bytes_of ''Yards''),
     (Miles, bytes_of ''Miles'')]"

definition ExportTopologyStrings :: "(ExportTopology \<times> std_string) list" where
  "ExportTopologyStrings = [(Triangles, bytes_of ''Triangles''), (Quads, bytes_of ''Quads'')]"

text \<open>\<^verbatim>\<open>Strings[key]\<close>: a key that is missing would be inserted with an empty string.\<close>

definition string_of_key :: "('k \<times> std_string) list \<Rightarrow> 'k \<Rightarrow> std_string" where
  "string_of_key m k = (case map_of m k of None \<Rightarrow> [] | Some s \<Rightarrow> s)"

text \<open>The first key with the value; the end of the map is dereferenced when there is none.\<close>

definition getKeyFromValue :: "('k \<times> std_string) list \<Rightarrow> std_string \<Rightarrow> 'k option" where
  "getKeyFromValue m s = map_option fst (find (\<lambda>p. snd p = s) m)"

record mesh_export_schema =
  assetName :: std_string
  assetUuid :: "std_string option"
  supportedFormats :: "FileFormat list option"
  colorFormat :: "ColorFormat option"
  colorEncoding :: "ColorEncoding option"
  allowNegativeTransforms :: "bool option"
  allowInstances :: "bool option"
  flattenHierarchy :: "bool option"
  axisConvention :: "AxisConvention option"
  unit :: "Unit option"
  topology :: "ExportTopology option"
  requestUv :: "bool option"
  enableUdims :: "bool option"

text \<open>An optional member is written when it has a value.\<close>

definition put_optional :: "'j jsoncpp \<Rightarrow> string \<Rightarrow> ('a \<Rightarrow> 'j) \<Rightarrow> 'a option \<Rightarrow> 'j \<Rightarrow> 'j" where
  "put_optional J k f x root = (case x of None \<Rightarrow> root | Some a \<Rightarrow> j_set J (bytes_of k) (f a) root)"

text \<open>\<^verbatim>\<open>root["supportedFormats"].append(...)\<close>, once for every format.\<close>

definition append_format :: "'j jsoncpp \<Rightarrow> 'j \<Rightarrow> FileFormat \<Rightarrow> 'j" where
  "append_format J root f = j_set J (bytes_of ''supportedFormats'')
     (j_append J (j_get J (bytes_of ''supportedFormats'') root (j_null J)) (j_string J (string_of_key FileFormatStrings f))) root"

definition mesh_export_schema_Serialize :: "'j jsoncpp \<Rightarrow> mesh_export_schema \<Rightarrow> 'j \<Rightarrow> 'j" where
  "mesh_export_schema_Serialize J x root =
     (let r1 = j_set J (bytes_of ''assetName'') (j_string J (assetName x)) root;
          r2 = put_optional J ''assetUuid'' (j_string J) (assetUuid x) r1;
          r3 = (case supportedFormats x of None \<Rightarrow> r2 | Some fs \<Rightarrow> foldl (append_format J) r2 fs);
          r4 = put_optional J ''colorFormat'' (\<lambda>k. j_string J (string_of_key ColorFormatStrings k)) (colorFormat x) r3;
          r5 = put_optional J ''colorEncoding'' (\<lambda>k. j_string J (string_of_key ColorEncodingStrings k)) (colorEncoding x) r4;
          r6 = put_optional J ''allowNegativeTransforms'' (j_bool J) (allowNegativeTransforms x) r5;
          r7 = put_optional J ''allowInstances'' (j_bool J) (allowInstances x) r6;
          r8 = put_optional J ''flattenHierarchy'' (j_bool J) (flattenHierarchy x) r7;
          r9 = put_optional J ''axisConvention'' (\<lambda>k. j_string J (string_of_key AxisConventionStrings k)) (axisConvention x) r8;
          r10 = put_optional J ''unit'' (\<lambda>k. j_string J (string_of_key UnitStrings k)) (unit x) r9;
          r11 = put_optional J ''topology'' (\<lambda>k. j_string J (string_of_key ExportTopologyStrings k)) (topology x) r10;
          r12 = put_optional J ''enableUdims'' (j_bool J) (enableUdims x) r11
      in put_optional J ''requestUv'' (j_bool J) (requestUv x) r12)"

text \<open>The members read back: one that is absent keeps the value the structure had.\<close>

definition read_optional :: "'j jsoncpp \<Rightarrow> 'j \<Rightarrow> string \<Rightarrow> ('a option) \<Rightarrow> 'a option \<Rightarrow> 'a option option" where
  "read_optional J root k new old = (if j_isMember J (bytes_of k) root then map_option Some new else Some old)"

definition read_key :: "'j jsoncpp \<Rightarrow> 'j \<Rightarrow> string \<Rightarrow> ('k \<times> std_string) list \<Rightarrow> 'k option \<Rightarrow> 'k option option" where
  "read_key J root k m old = read_optional J root k (do { s \<leftarrow> member_string J root k; getKeyFromValue m s }) old"

definition read_bool :: "'j jsoncpp \<Rightarrow> 'j \<Rightarrow> string \<Rightarrow> bool option \<Rightarrow> bool option option" where
  "read_bool J root k old = read_optional J root k (member_bool J root k (j_string J [])) old"

text \<open>
  The loop over the array: every format is appended to \<^verbatim>\<open>supportedFormats.value()\<close>, which throws
  while the optional has no value.
\<close>

fun read_formats :: "'j jsoncpp \<Rightarrow> 'j \<Rightarrow> nat list \<Rightarrow> FileFormat list option \<Rightarrow> FileFormat list option option" where
  "read_formats J a [] supported = Some supported"
| "read_formats J a (i # is') supported = do {
     s \<leftarrow> j_asString J (j_at J a i);
     current_value \<leftarrow> getKeyFromValue FileFormatStrings s;
     fs \<leftarrow> supported;
     read_formats J a is' (Some (fs @ [current_value])) }"

text \<open>
  The array of formats: its first element is read before it is known to exist, the index of
  the past-the-end iterator is taken for that of the last element, and \<^verbatim>\<open>supportedFormats = {}\<close>
  leaves the optional without a value before the loop.
\<close>

definition read_supportedFormats :: "'j jsoncpp \<Rightarrow> 'j \<Rightarrow> FileFormat list option \<Rightarrow> FileFormat list option option" where
  "read_supportedFormats J root old =
     (if j_isMember J (bytes_of ''supportedFormats'') root then do {
        let formats_array = j_get J (bytes_of ''supportedFormats'') root (j_null J);
        first \<leftarrow> (case j_elements J formats_array of [] \<Rightarrow> None | v # vs \<Rightarrow> Some v);
        s \<leftarrow> j_asString J first;
        if s \<noteq> [] then do {
          last_index \<leftarrow> j_end_index J formats_array;
          read_formats J formats_array [0..<Suc (unat last_index)] None }
        else Some old }
      else Some old)"

definition mesh_export_schema_Deserialize :: "'j jsoncpp \<Rightarrow> 'j \<Rightarrow> mesh_export_schema \<Rightarrow> mesh_export_schema option" where
  "mesh_export_schema_Deserialize J root x = do {
     n \<leftarrow> member_string J root ''assetName'';
     u \<leftarrow> read_optional J root ''assetUuid'' (member_string J root ''assetUuid'') (assetUuid x);
     fs \<leftarrow> read_supportedFormats J root (supportedFormats x);
     cf \<leftarrow> read_key J root ''colorFormat'' ColorFormatStrings (colorFormat x);
     ce \<leftarrow> read_key J root ''colorEncoding'' ColorEncodingStrings (colorEncoding x);
     ai \<leftarrow> read_bool J root ''allowInstances'' (allowInstances x);
     fh \<leftarrow> read_bool J root ''flattenHierarchy'' (flattenHierarchy x);
     an \<leftarrow> read_bool J root ''allowNegativeTransforms'' (allowNegativeTransforms x);
     un \<leftarrow> read_key J root ''unit'' UnitStrings (unit x);
     ac \<leftarrow> read_key J root ''axisConvention'' AxisConventionStrings (axisConvention x);
     tp \<leftarrow> read_key J root ''topology'' ExportTopologyStrings (topology x);
     eu \<leftarrow> read_bool J root ''enableUdims'' (enableUdims x);
     ru \<leftarrow> read_bool J root ''requestUv'' (requestUv x);
     Some \<lparr>assetName = n, assetUuid = u, supportedFormats = fs, colorFormat = cf, colorEncoding = ce,
       allowNegativeTransforms = an, allowInstances = ai, flattenHierarchy = fh, axisConvention = ac, unit = un,
       topology = tp, requestUv = ru, enableUdims = eu\<rparr> }"

definition mesh_export_schema_GetJsonString :: "'j jsoncpp \<Rightarrow> mesh_export_schema \<Rightarrow> std_string" where
  "mesh_export_schema_GetJsonString J x = schema_text J (mesh_export_schema_Serialize J) x"

definition mesh_export_schema_DeserializeText :: "'j jsoncpp \<Rightarrow> std_string \<Rightarrow> mesh_export_schema \<Rightarrow> mesh_export_schema option" where
  "mesh_export_schema_DeserializeText J json x = schema_read J (mesh_export_schema_Deserialize J) json x"

section \<open>Request of a mesh configuration\<close>

record send_mesh_config_request_schema =
  rq_assetName :: std_string
  rq_assetUuid :: "std_string option"

definition send_mesh_config_request_schema_Serialize :: "'j jsoncpp \<Rightarrow> send_mesh_config_request_schema \<Rightarrow> 'j \<Rightarrow> 'j" where
  "send_mesh_config_request_schema_Serialize J x root =
     put_optional J ''assetUuid'' (j_string J) (rq_assetUuid x) (j_set J (bytes_of ''assetName'') (j_string J (rq_assetName x)) root)"

definition send_mesh_config_request_schema_Deserialize ::
    "'j jsoncpp \<Rightarrow> 'j \<Rightarrow> send_mesh_config_request_schema \<Rightarrow> send_mesh_config_request_schema option" where
  "send_mesh_config_request_schema_Deserialize J root x = do {
     n \<leftarrow> member_string J root ''assetName'';
     u \<leftarrow> read_optional J root ''assetUuid'' (member_string J root ''assetUuid'') (rq_assetUuid x);
     Some \<lparr>rq_assetName = n, rq_assetUuid = u\<rparr> }"

definition send_mesh_config_request_schema_GetJsonString :: "'j jsoncpp \<Rightarrow> send_mesh_config_request_schema \<Rightarrow> std_string" where
  "send_mesh_config_request_schema_GetJsonString J x = schema_text J (send_mesh_config_request_schema_Serialize J) x"

definition send_mesh_config_request_schema_DeserializeText ::
    "'j jsoncpp \<Rightarrow> std_string \<Rightarrow> send_mesh_config_request_schema \<Rightarrow> send_mesh_config_request_schema option" where
  "send_mesh_config_request_schema_DeserializeText J json x = schema_read J (send_mesh_config_request_schema_Deserialize J) json x"

section \<open>Reading what was written\<close>

lemma bytes_of_inject [simp]: "bytes_of s = bytes_of t \<longleftrightarrow> s = t"
proof -
  have u: "unat (of_nat (of_char c) :: u8) = of_char c" for c
    by (simp add: unat_of_nat)
  have "inj (\<lambda>c. of_nat (of_char c) :: u8)"
  proof (rule injI)
    fix c d
    assume "(of_nat (of_char c) :: u8) = of_nat (of_char d)"
    then have "unat (of_nat (of_char c) :: u8) = unat (of_nat (of_char d) :: u8)" by (rule arg_cong)
    then have "(of_char c :: nat) = of_char d" by (simp only: u)
    then show "c = d" by simp
  qed
  then show ?thesis by (simp add: bytes_of_def inj_map_eq_map)
qed

lemma put_optional_laws:
  assumes "json_laws J" "j_isObject J r"
  shows "j_isObject J (put_optional J k f x r)"
    "j_isMember J k' (put_optional J k f x r) \<longleftrightarrow> k' = bytes_of k \<and> x \<noteq> None \<or> j_isMember J k' r"
    "j_get J k' (put_optional J k f x r) d = (if k' = bytes_of k \<and> x \<noteq> None then f (the x) else j_get J k' r d)"
  using json_lawsD [OF assms(1)] assms(2) by (auto simp: put_optional_def split: option.splits)

lemma append_formats_laws:
  assumes "json_laws J" "j_isObject J r" "j_isArray J (j_get J (bytes_of ''supportedFormats'') r (j_null J))"
  shows "j_isObject J (foldl (append_format J) r fs) \<and>
    (\<forall>k. j_isMember J k (foldl (append_format J) r fs) \<longleftrightarrow> k = bytes_of ''supportedFormats'' \<and> fs \<noteq> [] \<or> j_isMember J k r) \<and>
    (\<forall>k d. k \<noteq> bytes_of ''supportedFormats'' \<longrightarrow> j_get J k (foldl (append_format J) r fs) d = j_get J k r d) \<and>
    j_get J (bytes_of ''supportedFormats'') (foldl (append_format J) r fs) (j_null J) =
      json_array J (map (\<lambda>f. j_string J (string_of_key FileFormatStrings f)) fs) (j_get J (bytes_of ''supportedFormats'') r (j_null J))"
  using assms(2,3)
proof (induction fs arbitrary: r)
  case Nil
  then show ?case by (simp add: json_array_def)
next
  case (Cons f fs)
  note J = json_lawsD [OF assms(1)]
  from Cons.prems have "j_isObject J (append_format J r f)"
    "j_isArray J (j_get J (bytes_of ''supportedFormats'') (append_format J r f) (j_null J))"
    by (simp_all add: append_format_def J)
  from Cons.IH [OF this] Cons.prems show ?case by (auto simp: append_format_def J json_array_def)
qed

lemma ColorFormat_inverse: "getKeyFromValue ColorFormatStrings (string_of_key ColorFormatStrings cf) = Some cf"
  by (cases cf) (simp_all add: getKeyFromValue_def string_of_key_def ColorFormatStrings_def)

lemma ColorEncoding_inverse: "getKeyFromValue ColorEncodingStrings (string_of_key ColorEncodingStrings ce) = Some ce"
  by (cases ce) (simp_all add: getKeyFromValue_def string_of_key_def ColorEncodingStrings_def)

lemma FileFormat_inverse: "getKeyFromValue FileFormatStrings (string_of_key FileFormatStrings ff) = Some ff"
  by (cases ff) (simp_all add: getKeyFromValue_def string_of_key_def FileFormatStrings_def)

lemma AxisConvention_inverse: "getKeyFromValue AxisConventionStrings (string_of_key AxisConventionStrings ac) = Some ac"
  by (cases ac) (simp_all add: getKeyFromValue_def string_of_key_def AxisConventionStrings_def)

lemma Unit_inverse: "getKeyFromValue UnitStrings (string_of_key UnitStrings un) = Some un"
  by (cases un) (simp_all add: getKeyFromValue_def string_of_key_def UnitStrings_def)

lemma ExportTopology_inverse: "getKeyFromValue ExportTopologyStrings (string_of_key ExportTopologyStrings tp) = Some tp"
  by (cases tp) (simp_all add: getKeyFromValue_def string_of_key_def ExportTopologyStrings_def)

lemmas string_key_inverse = ColorFormat_inverse ColorEncoding_inverse FileFormat_inverse AxisConvention_inverse Unit_inverse
  ExportTopology_inverse

lemma schema_text_read:
  assumes "reads_back J (serialize x (j_null J))"
  shows "schema_read J deserialize (schema_text J serialize x) y = deserialize (serialize x (j_null J)) y"
  using assms by (simp add: schema_read_def schema_text_def reads_back_def json_read_short)

lemma read_uuids_written:
  assumes "json_laws J"
  shows "read_uuids J (map (\<lambda>f. j_string J (uuidToString f)) us) = Some us"
  by (induction us) (simp_all add: json_lawsD [OF assms])

text \<open>The loop starts without a value, so its first step throws, whatever the array holds.\<close>

lemma read_formats_throws: "read_formats J a [0..<Suc n] None = None"
  by (simp add: upt_conv_Cons del: upt_Suc)

text \<open>The value of the first structure, else that of the second.\<close>

definition first_some :: "'a option \<Rightarrow> 'a option \<Rightarrow> 'a option" where
  "first_some x y = (case x of None \<Rightarrow> y | Some a \<Rightarrow> x)"

definition mesh_overlay :: "mesh_export_schema \<Rightarrow> mesh_export_schema \<Rightarrow> mesh_export_schema" where
  "mesh_overlay x y = \<lparr>assetName = assetName x, assetUuid = first_some (assetUuid x) (assetUuid y),
     supportedFormats = supportedFormats y, colorFormat = first_some (colorFormat x) (colorFormat y),
     colorEncoding = first_some (colorEncoding x) (colorEncoding y),
     allowNegativeTransforms = first_some (allowNegativeTransforms x) (allowNegativeTransforms y),
     allowInstances = first_some (allowInstances x) (allowInstances y), flattenHierarchy = first_some (flattenHierarchy x) (flattenHierarchy y),
     axisConvention = first_some (axisConvention x) (axisConvention y), unit = first_some (unit x) (unit y),
     topology = first_some (topology x) (topology y), requestUv = first_some (requestUv x) (requestUv y),
     enableUdims = first_some (enableUdims x) (enableUdims y)\<rparr>"

text \<open>The array of the formats a structure has, as it is written.\<close>

definition formats_value :: "'j jsoncpp \<Rightarrow> FileFormat list \<Rightarrow> 'j" where
  "formats_value J fs = json_array J (map (\<lambda>f. j_string J (string_of_key FileFormatStrings f)) fs) (j_null J)"

text \<open>The optional part of the value: what the reader finds under each key.\<close>

lemma mesh_written:
  fixes x :: mesh_export_schema
  assumes J: "json_laws J"
  defines "r \<equiv> mesh_export_schema_Serialize J x (j_null J)"
  shows "member_string J r ''assetName'' = Some (assetName x)"
    "read_optional J r ''assetUuid'' (member_string J r ''assetUuid'') y1 = Some (first_some (assetUuid x) y1)"
    "read_key J r ''colorFormat'' ColorFormatStrings y2 = Some (first_some (colorFormat x) y2)"
    "read_key J r ''colorEncoding'' ColorEncodingStrings y3 = Some (first_some (colorEncoding x) y3)"
    "read_bool J r ''allowInstances'' y4 = Some (first_some (allowInstances x) y4)"
    "read_bool J r ''flattenHierarchy'' y5 = Some (first_some (flattenHierarchy x) y5)"
    "read_bool J r ''allowNegativeTransforms'' y6 = Some (first_some (allowNegativeTransforms x) y6)"
    "read_key J r ''unit'' UnitStrings y7 = Some (first_some (unit x) y7)"
    "read_key J r ''axisConvention'' AxisConventionStrings y8 = Some (first_some (axisConvention x) y8)"
    "read_key J r ''topology'' ExportTopologyStrings y9 = Some (first_some (topology x) y9)"
    "read_bool J r ''enableUdims'' y10 = Some (first_some (enableUdims x) y10)"
    "read_bool J r ''requestUv'' y11 = Some (first_some (requestUv x) y11)"
    "j_isMember J (bytes_of ''supportedFormats'') r \<longleftrightarrow> (\<exists>f fs. supportedFormats x = Some (f # fs))"
    "supportedFormats x = Some fs \<Longrightarrow> j_get J (bytes_of ''supportedFormats'') r (j_null J) = formats_value J fs"
proof -
  note j = json_lawsD [OF J] put_optional_laws [OF J]
  let ?r2 = "put_optional J ''assetUuid'' (j_string J) (assetUuid x) (j_set J (bytes_of ''assetName'') (j_string J (assetName x)) (j_null J))"
  let ?r3 = "case supportedFormats x of None \<Rightarrow> ?r2 | Some fs \<Rightarrow> foldl (append_format J) ?r2 fs"
  have "j_isObject J ?r2" "j_isArray J (j_get J (bytes_of ''supportedFormats'') ?r2 (j_null J))" by (simp_all add: j)
  note f = append_formats_laws [OF J this]
  have r3: "j_isObject J ?r3"
    "\<And>k. j_isMember J k ?r3 \<longleftrightarrow> k = bytes_of ''supportedFormats'' \<and> (\<exists>f fs. supportedFormats x = Some (f # fs)) \<or> j_isMember J k ?r2"
    "\<And>k d. k \<noteq> bytes_of ''supportedFormats'' \<Longrightarrow> j_get J k ?r3 d = j_get J k ?r2 d"
    "\<And>fs. supportedFormats x = Some fs \<Longrightarrow> j_get J (bytes_of ''supportedFormats'') ?r3 (j_null J) = formats_value J fs"
    using f by (auto simp: j formats_value_def neq_Nil_conv split: option.splits)
  note w = r_def mesh_export_schema_Serialize_def Let_def member_string_def member_bool_def read_key_def read_bool_def
    read_optional_def first_some_def j r3 string_key_inverse
  show "member_string J r ''assetName'' = Some (assetName x)"
    "read_optional J r ''assetUuid'' (member_string J r ''assetUuid'') y1 = Some (first_some (assetUuid x) y1)"
    "read_key J r ''colorFormat'' ColorFormatStrings y2 = Some (first_some (colorFormat x) y2)"
    "read_key J r ''colorEncoding'' ColorEncodingStrings y3 = Some (first_some (colorEncoding x) y3)"
    by (auto simp: w split: option.split)
  show "read_bool J r ''allowInstances'' y4 = Some (first_some (allowInstances x) y4)"
    "read_bool J r ''flattenHierarchy'' y5 = Some (first_some (flattenHierarchy x) y5)"
    "read_bool J r ''allowNegativeTransforms'' y6 = Some (first_some (allowNegativeTransforms x) y6)"
    "read_bool J r ''enableUdims'' y10 = Some (first_some (enableUdims x) y10)"
    "read_bool J r ''requestUv'' y11 = Some (first_some (requestUv x) y11)"
    by (auto simp: w split: option.split)
  show "read_key J r ''unit'' UnitStrings y7 = Some (first_some (unit x) y7)"
    "read_key J r ''axisConvention'' AxisConventionStrings y8 = Some (first_some (axisConvention x) y8)"
    "read_key J r ''topology'' ExportTopologyStrings y9 = Some (first_some (topology x) y9)"
    by (auto simp: w split: option.split)
  show "j_isMember J (bytes_of ''supportedFormats'') r \<longleftrightarrow> (\<exists>f fs. supportedFormats x = Some (f # fs))"
    by (simp add: w)
  show "supportedFormats x = Some fs \<Longrightarrow> j_get J (bytes_of ''supportedFormats'') r (j_null J) = formats_value J fs"
    using f [of fs] by (simp add: w formats_value_def)
qed

lemma formats_value_facts:
  assumes "json_laws J"
  shows "j_isArray J (formats_value J fs)"
    "j_elements J (formats_value J fs) = map (\<lambda>f. j_string J (string_of_key FileFormatStrings f)) fs"
  using json_array_elements [OF assms json_lawsD(7) [OF assms]] by (simp_all add: formats_value_def json_lawsD [OF assms])

lemma format_string_not_empty: "string_of_key FileFormatStrings f \<noteq> []"
  by (cases f) (simp_all add: string_of_key_def FileFormatStrings_def bytes_of_def)

lemma read_supportedFormats_written:
  assumes J: "json_laws J"
  shows "read_supportedFormats J (mesh_export_schema_Serialize J x (j_null J)) old =
    (case supportedFormats x of Some (f # fs) \<Rightarrow> None | _ \<Rightarrow> Some old)"
proof (cases "\<exists>f fs. supportedFormats x = Some (f # fs)")
  case True
  then obtain f fs where x: "supportedFormats x = Some (f # fs)" by blast
  have "j_isMember J (bytes_of ''supportedFormats'') (mesh_export_schema_Serialize J x (j_null J))"
    using mesh_written(13) [OF J, of x] x by simp
  then show ?thesis
    using mesh_written(14) [OF J x] x formats_value_facts(2) [OF J, of "f # fs"] format_string_not_empty [of f]
    by (simp add: read_supportedFormats_def Let_def json_lawsD [OF J] read_formats_throws del: upt_Suc)
next
  case False
  then have "\<not> j_isMember J (bytes_of ''supportedFormats'') (mesh_export_schema_Serialize J x (j_null J))"
    using mesh_written(13) [OF J, of x] by simp
  then show ?thesis using False by (auto simp: read_supportedFormats_def split: option.split list.split)
qed

section \<open>Properties\<close>

text \<open>
  C20: what the text of a mesh configuration is read as. A configuration that lists no file
  formats survives its transmission: its text, read into any other one, gives it every member
  the first one has and leaves the others as they were. A configuration that lists formats is
  never read: the reader empties the optional list and then appends to the value it no
  longer has, which throws.
\<close>

theorem mesh_schema_round_trip:
  assumes "json_laws J" and "reads_back J (mesh_export_schema_Serialize J x (j_null J))"
  shows "mesh_export_schema_DeserializeText J (mesh_export_schema_GetJsonString J x) y =
    (case supportedFormats x of Some (f # fs) \<Rightarrow> None | _ \<Rightarrow> Some (mesh_overlay x y))"
  using schema_text_read [of J "mesh_export_schema_Serialize J" x "mesh_export_schema_Deserialize J" y] assms(2) mesh_written [OF assms(1), of x]
    read_supportedFormats_written [OF assms(1), of x "supportedFormats y"]
  by (auto simp: mesh_export_schema_DeserializeText_def mesh_export_schema_GetJsonString_def mesh_export_schema_Deserialize_def mesh_overlay_def
      split: option.split list.split)

text \<open>A library that knows one text, and takes the number of elements for the index of the end.\<close>

definition one_text :: "json_tree \<Rightarrow> json_tree jsoncpp" where
  "one_text v = json_trees\<lparr>j_writeString := (\<lambda>_. [91]), j_parse := (\<lambda>_. Some v),
     j_end_index := (\<lambda>a. Some (of_nat (length (tree_elements a))))\<rparr>"

lemma one_text_laws: "json_laws (one_text v)"
  using json_trees_laws
  by (simp add: one_text_def json_laws_def json_objects_def json_arrays_def json_scalars_def)

definition sample_mesh :: mesh_export_schema where
  "sample_mesh = \<lparr>assetName = [97], assetUuid = None, supportedFormats = None, colorFormat = None, colorEncoding = None,
     allowNegativeTransforms = None, allowInstances = Some True, flattenHierarchy = None, axisConvention = None, unit = Some Meters,
     topology = None, requestUv = None, enableUdims = None\<rparr>"

lemma one_text_calls:
  "j_set (one_text v) = j_set json_trees" "j_append (one_text v) = j_append json_trees" "j_get (one_text v) = j_get json_trees"
  "j_string (one_text v) = j_string json_trees" "j_bool (one_text v) = j_bool json_trees" "j_null (one_text v) = j_null json_trees"
  by (simp_all add: one_text_def)

lemma one_text_steps:
  "append_format (one_text v) = append_format json_trees" "json_array (one_text v) = json_array json_trees"
  "put_optional (one_text v) k f = put_optional json_trees k f"
  by (intro ext, simp only: append_format_def json_array_def put_optional_def one_text_calls)+

lemma one_text_serialize:
  "mesh_export_schema_Serialize (one_text v) x r = mesh_export_schema_Serialize json_trees x r"
  "connection_schema_Serialize (one_text v) y r = connection_schema_Serialize json_trees y r"
  "formats_value (one_text v) fs = formats_value json_trees fs" "j_null (one_text v) = JNull"
  by (simp_all only: mesh_export_schema_Serialize_def connection_schema_Serialize_def formats_value_def one_text_steps one_text_calls)
    (simp add: json_trees_def)

theorem mesh_schema_round_trip_witness:
  "\<exists>(J :: json_tree jsoncpp) (K :: json_tree jsoncpp).
     mesh_export_schema_DeserializeText J (mesh_export_schema_GetJsonString J sample_mesh) (sample_mesh\<lparr>unit := None, flattenHierarchy := Some True\<rparr>) =
       Some (sample_mesh\<lparr>flattenHierarchy := Some True\<rparr>) \<and>
     mesh_export_schema_DeserializeText K (mesh_export_schema_GetJsonString K (sample_mesh\<lparr>supportedFormats := Some [obj, usd]\<rparr>)) sample_mesh = None"
proof -
  let ?J = "\<lambda>x. one_text (mesh_export_schema_Serialize json_trees x JNull)"
  have b: "reads_back (?J x) (mesh_export_schema_Serialize (?J x) x (j_null (?J x)))" for x
    by (simp add: reads_back_def one_text_serialize) (simp add: one_text_def)
  have 1: "mesh_export_schema_DeserializeText (?J sample_mesh) (mesh_export_schema_GetJsonString (?J sample_mesh) sample_mesh)
      (sample_mesh\<lparr>unit := None, flattenHierarchy := Some True\<rparr>) = Some (sample_mesh\<lparr>flattenHierarchy := Some True\<rparr>)"
    by (subst mesh_schema_round_trip [OF one_text_laws b]) (simp add: sample_mesh_def mesh_overlay_def first_some_def)
  let ?x = "sample_mesh\<lparr>supportedFormats := Some [obj, usd]\<rparr>"
  have 2: "mesh_export_schema_DeserializeText (?J ?x) (mesh_export_schema_GetJsonString (?J ?x) ?x) sample_mesh = None"
    by (subst mesh_schema_round_trip [OF one_text_laws b]) simp
  show ?thesis by (rule exI [of _ "?J sample_mesh"], rule exI [of _ "?J ?x"], rule conjI [OF 1 2])
qed

text \<open>The text of the details of a connection is read back.\<close>

lemma connection_text_round_trip:
  assumes "json_laws J" and "reads_back J (connection_schema_Serialize J x (j_null J))"
  shows "connection_schema_DeserializeText J (connection_schema_GetJsonString J x) y = Some x"
proof -
  note j = json_lawsD [OF assms(1)]
  let ?a = "json_array J (map (\<lambda>f. j_string J (uuidToString f)) (available_features x)) (j_null J)"
  have "read_uuids J (j_elements J ?a) = Some (available_features x)"
    using json_array_elements(2) [OF assms(1) j(7)] read_uuids_written [OF assms(1)] by (simp add: j)
  then show ?thesis
    using schema_text_read [of J "connection_schema_Serialize J" x "connection_schema_Deserialize J" y] assms(2)
    by (simp add: connection_schema_DeserializeText_def connection_schema_GetJsonString_def connection_schema_Deserialize_def
        connection_schema_Serialize_def Let_def member_string_def j)
qed

text \<open>An asset message and a request are read back in the same way.\<close>

lemma send_to_schema_round_trip:
  assumes "json_laws J" and "reads_back J (send_to_schema_Serialize J x (j_null J))"
  shows "send_to_schema_DeserializeText J (send_to_schema_GetJsonString J x) y = Some x"
  using schema_text_read [of J "send_to_schema_Serialize J" x "send_to_schema_Deserialize J" y] assms(2)
  by (simp add: send_to_schema_DeserializeText_def send_to_schema_GetJsonString_def send_to_schema_Deserialize_def
      send_to_schema_Serialize_def Let_def member_string_def member_bool_def json_lawsD [OF assms(1)])

lemma config_request_round_trip:
  assumes "json_laws J" and "reads_back J (send_mesh_config_request_schema_Serialize J x (j_null J))"
  shows "send_mesh_config_request_schema_DeserializeText J (send_mesh_config_request_schema_GetJsonString J x) y =
    Some \<lparr>rq_assetName = rq_assetName x, rq_assetUuid = first_some (rq_assetUuid x) (rq_assetUuid y)\<rparr>"
  using schema_text_read [of J "send_mesh_config_request_schema_Serialize J" x "send_mesh_config_request_schema_Deserialize J" y] assms(2)
  by (auto simp: send_mesh_config_request_schema_DeserializeText_def send_mesh_config_request_schema_GetJsonString_def
      send_mesh_config_request_schema_Deserialize_def send_mesh_config_request_schema_Serialize_def member_string_def
      read_optional_def first_some_def json_lawsD [OF assms(1)] put_optional_laws [OF assms(1)] split: option.split)

text \<open>A name that is not in its map is undefined.\<close>

lemma unknown_name_undefined: "s \<notin> snd ` set m \<Longrightarrow> getKeyFromValue m s = None"
  by (force simp: getKeyFromValue_def find_None_iff)

end
