(* ===== verification/Framework_Application.thy ===== *)
theory Framework_Application
  imports Framework_Callbacks Framework_Schemas External_Api
begin

text \<open>
  The application classes of the C++ framework: the base class (\<^verbatim>\<open>application.cpp\<close>), the system class
  (\<^verbatim>\<open>system.cpp\<close>) and the features that send meshes and materials (\<^verbatim>\<open>features/sendmesh.cpp\<close>,
  \<^verbatim>\<open>features/sendsbsar.cpp\<close>, \<^verbatim>\<open>features/livelink.cpp\<close>), with the messages they send.
\<close>

section \<open>Message types\<close>

definition sConnectionEstablishedId :: substance_connector_uuid where
  "sConnectionEstablishedId = UUID 0x02572bc5 0x2d84450a 0x9e01d22c 0x66b1abb1"

definition sConnectionClosedId :: substance_connector_uuid where
  "sConnectionClosedId = UUID 0x04705ddf 0x16d44489 0xaf6c6e3a 0x93f1959d"

definition sConnectionUpdateContextId :: substance_connector_uuid where
  "sConnectionUpdateContextId = UUID 0x39b07a67 0x49964b62 0xa340908a 0x81f66562"

definition sLoadMeshId :: substance_connector_uuid where
  "sLoadMeshId = UUID 0xfad67b5b 0xe1414be7 0xb27ad6f6 0xa4f89424"

definition sUpdateMeshId :: substance_connector_uuid where
  "sUpdateMeshId = UUID 0x7c3e3c65 0x0c1641d5 0x808b9537 0x59930ffe"

definition sRequestMeshConfigId :: substance_connector_uuid where
  "sRequestMeshConfigId = UUID 0x685dd700 0x9d31455d 0x98a4431b 0xb039819a"

definition sRecMeshConfigId :: substance_connector_uuid where
  "sRecMeshConfigId = UUID 0x0b6d7b54 0xa90b4c05 0xb0f93592 0x71b2efbc"

definition sLoadSbsarId :: substance_connector_uuid where
  "sLoadSbsarId = UUID 0x91e3dfbc 0x80b84b1a 0x92d563ec 0x09ac641a"

definition sUpdateSbsarId :: substance_connector_uuid where
  "sUpdateSbsarId = UUID 0x1643e0bf 0x73444314 0x9cbf6107 0xe30e5ed7"

definition updateImageId :: substance_connector_uuid where
  "updateImageId = UUID 0xfc6491a3 0x5d594a59 0xaa0889f5 0x26958f17"

lemmas message_types = sConnectionEstablishedId_def sConnectionClosedId_def sConnectionUpdateContextId_def sLoadMeshId_def
  sUpdateMeshId_def sRequestMeshConfigId_def sRecMeshConfigId_def sLoadSbsarId_def sUpdateSbsarId_def updateImageId_def

text \<open>The framework's name for the types the core library announces connections with.\<close>

lemma system_types_are_internal:
  "sConnectionEstablishedId = connector_internal_handshake_uuid" "sConnectionClosedId = connector_internal_connection_closed_uuid"
  by (simp_all add: message_types connector_internal_handshake_uuid_def connector_internal_connection_closed_uuid_def)

section \<open>Objects\<close>

type_synonym CallbackPair = "substance_connector_uuid \<times> MessageCallback list"

text \<open>
  The class of an object with its callback members, in the order of the headers.
  \<^verbatim>\<open>Livelink\<close> leaves the list of its features to a class derived from it, so the list is part of
  the object here.
\<close>

datatype application_class =
    System (mRecvConnectionEstablished: MessageCallback) (mRecvConnectionClosed: MessageCallback) (mRecvConnectionContext: MessageCallback)
  | MeshApplication (mRecvLoadMesh: MessageCallback) (mRecvUpdateMesh: MessageCallback) (mRecvMeshConfig: MessageCallback)
      (mRecvMeshConfigRequest: MessageCallback)
  | SbsarApplication (mRecvLoadSbsar: MessageCallback) (mRecvUpdateSbsar: MessageCallback)
  | Livelink (mUpdateImage: MessageCallback) (livelink_features: "substance_connector_uuid list")

record application =
  app_class :: application_class
  mCallbacks :: "CallbackPair list"

text \<open>The constructors: no callback is set.\<close>

definition new_System :: application where
  "new_System = \<lparr>app_class = System None None None, mCallbacks = []\<rparr>"

definition new_MeshApplication :: application where
  "new_MeshApplication = \<lparr>app_class = MeshApplication None None None None, mCallbacks = []\<rparr>"

definition new_SbsarApplication :: application where
  "new_SbsarApplication = \<lparr>app_class = SbsarApplication None None, mCallbacks = []\<rparr>"

section \<open>Methods\<close>

definition registerCallbacks :: "application \<Rightarrow> callback_map \<Rightarrow> callback_map" where
  "registerCallbacks a m = fold (\<lambda>(messageType, callbacks) m. snd (bindCallback messageType callbacks m)) (mCallbacks a) m"

definition unregisterCallbacks :: "application \<Rightarrow> callback_map \<Rightarrow> callback_map" where
  "unregisterCallbacks a m = fold (\<lambda>(messageType, callbacks) m. snd (unbindCallback messageType m)) (mCallbacks a) m"

definition Application_preInit :: "application \<Rightarrow> callback_map \<Rightarrow> application \<times> callback_map" where
  "Application_preInit a m = (a, registerCallbacks a m)"

definition Application_preShutdown :: "application \<Rightarrow> callback_map \<Rightarrow> application \<times> callback_map" where
  "Application_preShutdown a m = (a\<lparr>mCallbacks := []\<rparr>, unregisterCallbacks a m)"

definition push_back :: "CallbackPair \<Rightarrow> application \<Rightarrow> application" where
  "push_back p a = a\<lparr>mCallbacks := mCallbacks a @ [p]\<rparr>"

definition System_preInit :: "application \<Rightarrow> callback_map \<Rightarrow> application \<times> callback_map" where
  "System_preInit a m =
     (let c = app_class a;
          a1 = push_back (sConnectionEstablishedId, [Some System_connectionEstablished, mRecvConnectionEstablished c]) a;
          a2 = push_back (sConnectionClosedId, [mRecvConnectionClosed c]) a1;
          a3 = push_back (sConnectionUpdateContextId, [mRecvConnectionContext c]) a2
      in Application_preInit a3 m)"

definition MeshApplication_preInit :: "application \<Rightarrow> callback_map \<Rightarrow> application \<times> callback_map" where
  "MeshApplication_preInit a m =
     (let c = app_class a;
          a1 = push_back (sLoadMeshId, [mRecvLoadMesh c]) a;
          a2 = push_back (sUpdateMeshId, [mRecvUpdateMesh c]) a1;
          a3 = push_back (sRecMeshConfigId, [mRecvMeshConfig c]) a2;
          a4 = push_back (sRequestMeshConfigId, [mRecvMeshConfigRequest c]) a3
      in Application_preInit a4 m)"

definition SbsarApplication_preInit :: "application \<Rightarrow> callback_map \<Rightarrow> application \<times> callback_map" where
  "SbsarApplication_preInit a m =
     (let c = app_class a;
          a1 = push_back (sLoadSbsarId, [mRecvLoadSbsar c]) a;
          a2 = push_back (sUpdateSbsarId, [mRecvUpdateSbsar c]) a1
      in Application_preInit a2 m)"

definition Livelink_preInit :: "application \<Rightarrow> callback_map \<Rightarrow> application \<times> callback_map" where
  "Livelink_preInit a m = Application_preInit (push_back (updateImageId, [mUpdateImage (app_class a)]) a) m"

definition System_getFeatureIds :: "substance_connector_uuid list" where
  "System_getFeatureIds = [sConnectionUpdateContextId, sConnectionEstablishedId, sConnectionClosedId]"

definition MeshApplication_getFeatureIds :: "substance_connector_uuid list" where
  "MeshApplication_getFeatureIds = [sLoadMeshId, sUpdateMeshId, sRecMeshConfigId, sRequestMeshConfigId]"

definition SbsarApplication_getFeatureIds :: "substance_connector_uuid list" where
  "SbsarApplication_getFeatureIds = [sLoadSbsarId, sUpdateSbsarId]"

text \<open>The virtual calls. \<^verbatim>\<open>postInit\<close> and \<^verbatim>\<open>postShutdown\<close> do nothing in every class.\<close>

fun application_preInit :: "application_class \<Rightarrow> application \<Rightarrow> callback_map \<Rightarrow> application \<times> callback_map" where
  "application_preInit (System _ _ _) = System_preInit"
| "application_preInit (MeshApplication _ _ _ _) = MeshApplication_preInit"
| "application_preInit (SbsarApplication _ _) = SbsarApplication_preInit"
| "application_preInit (Livelink _ _) = Livelink_preInit"

definition application_postInit :: "application \<Rightarrow> callback_map \<Rightarrow> application \<times> callback_map" where
  "application_postInit a m = (a, m)"

definition application_postShutdown :: "application \<Rightarrow> callback_map \<Rightarrow> application \<times> callback_map" where
  "application_postShutdown a m = (a, m)"

fun application_getFeatureIds :: "application_class \<Rightarrow> substance_connector_uuid list" where
  "application_getFeatureIds (System _ _ _) = System_getFeatureIds"
| "application_getFeatureIds (MeshApplication _ _ _ _) = MeshApplication_getFeatureIds"
| "application_getFeatureIds (SbsarApplication _ _) = SbsarApplication_getFeatureIds"
| "application_getFeatureIds (Livelink _ fs) = fs"

section \<open>Sending\<close>

text \<open>\<^verbatim>\<open>s.c_str()\<close>, and the calls of the core library whose result is dropped.\<close>

definition c_str :: "std_string \<Rightarrow> u8 list cptr" where
  "c_str s = BORROWED (s @ [0])"

definition send_message ::
    "'w os \<Rightarrow> u32 \<Rightarrow> substance_connector_uuid \<Rightarrow> u8 list cptr \<Rightarrow> ('w, 'f) connector \<Rightarrow> ('w, 'f) connector option" where
  "send_message env ctx type message c = do {
     (_, c') \<leftarrow> substance_connector_write_message env ctx (BORROWED type) message c;
     Some c' }"

definition sendRequestMeshConfig_text :: "'w os \<Rightarrow> u32 \<Rightarrow> u8 list cptr \<Rightarrow> ('w, 'f) connector \<Rightarrow> ('w, 'f) connector option" where
  "sendRequestMeshConfig_text env ctx message c = send_message env ctx sRequestMeshConfigId message c"

definition sendMeshExportConfig_text :: "'w os \<Rightarrow> u32 \<Rightarrow> u8 list cptr \<Rightarrow> ('w, 'f) connector \<Rightarrow> ('w, 'f) connector option" where
  "sendMeshExportConfig_text env ctx message c = send_message env ctx sRecMeshConfigId message c"

definition sendLoadMesh_text :: "'w os \<Rightarrow> u32 \<Rightarrow> u8 list cptr \<Rightarrow> ('w, 'f) connector \<Rightarrow> ('w, 'f) connector option" where
  "sendLoadMesh_text env ctx message c = send_message env ctx sLoadMeshId message c"

definition sendLoadSbsar_text :: "'w os \<Rightarrow> u32 \<Rightarrow> u8 list cptr \<Rightarrow> ('w, 'f) connector \<Rightarrow> ('w, 'f) connector option" where
  "sendLoadSbsar_text env ctx message c = send_message env ctx sLoadSbsarId message c"

definition sendRequestMeshConfig ::
    "'j jsoncpp \<Rightarrow> 'w os \<Rightarrow> u32 \<Rightarrow> send_mesh_config_request_schema \<Rightarrow> ('w, 'f) connector \<Rightarrow> ('w, 'f) connector option" where
  "sendRequestMeshConfig J env ctx schema c =
     (let json = send_mesh_config_request_schema_Serialize J schema (j_null J);
          output = j_writeString J json
      in sendRequestMeshConfig_text env ctx (c_str output) c)"

definition sendLoadMesh :: "'j jsoncpp \<Rightarrow> 'w os \<Rightarrow> u32 \<Rightarrow> send_to_schema \<Rightarrow> ('w, 'f) connector \<Rightarrow> ('w, 'f) connector option" where
  "sendLoadMesh J env ctx schema c =
     (let json = send_to_schema_Serialize J schema (j_null J);
          output = j_writeString J json
      in sendLoadMesh_text env ctx (c_str output) c)"

definition sendMeshExportConfig ::
    "'j jsoncpp \<Rightarrow> 'w os \<Rightarrow> u32 \<Rightarrow> mesh_export_schema \<Rightarrow> ('w, 'f) connector \<Rightarrow> ('w, 'f) connector option" where
  "sendMeshExportConfig J env ctx schema c =
     (let json = mesh_export_schema_Serialize J schema (j_null J);
          output = j_writeString J json
      in sendMeshExportConfig_text env ctx (c_str output) c)"

definition sendLoadSbsar :: "'j jsoncpp \<Rightarrow> 'w os \<Rightarrow> u32 \<Rightarrow> send_to_schema \<Rightarrow> ('w, 'f) connector \<Rightarrow> ('w, 'f) connector option" where
  "sendLoadSbsar J env ctx schema c =
     (let json = send_to_schema_Serialize J schema (j_null J);
          output = j_writeString J json
      in sendLoadSbsar_text env ctx (c_str output) c)"

section \<open>Facts\<close>

lemma registerCallbacks_map: "registerCallbacks a m = map_of (mCallbacks a) ++ m"
  using bind_all_map [of "mCallbacks a" m] by (simp add: registerCallbacks_def cb.bind_all_def)

lemma unregisterCallbacks_map: "unregisterCallbacks a m = m |` (- fst ` set (mCallbacks a))"
  using unbind_all_map [of "mCallbacks a" m] by (simp add: unregisterCallbacks_def cb.unbind_all_def)

text \<open>The callbacks an object of a class binds.\<close>

fun class_callbacks :: "application_class \<Rightarrow> CallbackPair list" where
  "class_callbacks (System e cl ct) = [(sConnectionEstablishedId, [Some System_connectionEstablished, e]), (sConnectionClosedId, [cl]),
     (sConnectionUpdateContextId, [ct])]"
| "class_callbacks (MeshApplication l u r q) = [(sLoadMeshId, [l]), (sUpdateMeshId, [u]), (sRecMeshConfigId, [r]), (sRequestMeshConfigId, [q])]"
| "class_callbacks (SbsarApplication l u) = [(sLoadSbsarId, [l]), (sUpdateSbsarId, [u])]"
| "class_callbacks (Livelink u fs) = [(updateImageId, [u])]"

lemma application_preInit_result:
  "application_preInit (app_class a) a m =
    (let a' = a\<lparr>mCallbacks := mCallbacks a @ class_callbacks (app_class a)\<rparr> in (a', map_of (mCallbacks a') ++ m))"
  by (cases "app_class a") (simp_all add: System_preInit_def MeshApplication_preInit_def SbsarApplication_preInit_def
      Livelink_preInit_def Application_preInit_def push_back_def registerCallbacks_map Let_def del: map_of_append)

lemma Application_preShutdown_result:
  "Application_preShutdown a m = (a\<lparr>mCallbacks := []\<rparr>, m |` (- fst ` set (mCallbacks a)))"
  by (simp add: Application_preShutdown_def unregisterCallbacks_map)

text \<open>Every feature of a class but Livelink is a type it has callbacks for, and the other way round.\<close>

lemma features_are_bound:
  "\<not> is_Livelink c \<Longrightarrow> set (application_getFeatureIds c) = fst ` set (class_callbacks c)"
  by (cases c) (auto simp: System_getFeatureIds_def MeshApplication_getFeatureIds_def SbsarApplication_getFeatureIds_def)

text \<open>A message sent in a session is queued with its type and text.\<close>

lemma send_message_queues:
  assumes "connector_module_state c = SUBSTANCE_CONNECTOR_STATE_INIT_FINISHED" "allocator_succeeds env" "wf_queues (queues (sys_part c))"
    and "length s < 2 ^ 64 - 1"
  shows "\<exists>q w. send_message env ctx type (c_str s) c = Some (c\<lparr>sys_part := signal WakeWrite ((sys_part c)\<lparr>queues := q, world := w\<rparr>)\<rparr>) \<and>
    wf_queues q \<and> outbound_messages q = outbound_messages (queues (sys_part c)) @ [outgoing ctx type (s @ [0])] \<and>
    inbound_messages q = inbound_messages (queues (sys_part c)) \<and>
    (\<forall>pending. socket_link env pending \<longrightarrow> pending w = pending (world (sys_part c)))"
proof -
  have "deref (c_str s) = Some (s @ [0])" "0 \<in> set (s @ [0])" "length (s @ [0]) < 2 ^ 64"
    using assms(4) by (simp_all add: c_str_def)
  from write_message_queues [OF assms(1-3) this, of ctx type] obtain q w where
    "substance_connector_write_message env ctx (BORROWED type) (c_str s) c =
      Some (SUBSTANCE_CONNECTOR_SUCCESS, c\<lparr>sys_part := signal WakeWrite ((sys_part c)\<lparr>queues := q, world := w\<rparr>)\<rparr>)"
    and q: "wf_queues q" "outbound_messages q = outbound_messages (queues (sys_part c)) @ [outgoing ctx type (s @ [0])]"
      "inbound_messages q = inbound_messages (queues (sys_part c))"
      "\<forall>pending. socket_link env pending \<longrightarrow> pending w = pending (world (sys_part c))"
    by blast
  then have "send_message env ctx type (c_str s) c = Some (c\<lparr>sys_part := signal WakeWrite ((sys_part c)\<lparr>queues := q, world := w\<rparr>)\<rparr>)"
    by (simp add: send_message_def)
  with q show ?thesis by blast
qed

end
