(* ===== verification/Framework_Core.thy ===== *)
theory Framework_Core
  imports Framework_Application
begin

text \<open>
  The entry points of the C++ framework (\<^verbatim>\<open>core.cpp\<close>) on top of the core library: registration
  of applications, initialisation and shutdown, the callback the framework registers with
  the library, and the calls that open connections. The framework is built without dynamic
  loading, so that its calls are those of the exported interface.
\<close>

section \<open>State\<close>

datatype StartupState =
    CONNECTOR_SHUTDOWN
  | CONNECTOR_INIT_STARTED
  | CONNECTOR_INITIALIZED
  | CONNECTOR_SHUTDOWN_STARTED
  | CONNECTOR_ADDING_APPLICATION

text \<open>
  The static variables of the framework and the library below it. Objects are found by their
  address; \<open>callback_calls\<close> records the calls of application callbacks, oldest first.
\<close>

record ('w, 'f) framework =
  applications :: "nat set"
  app_store :: "nat \<rightharpoonup> application"
  startupState :: StartupState
  featureLevel :: "substance_connector_uuid list"
  connectionDisplayName :: std_string
  connectionId :: std_string
  callbackMap :: callback_map
  callback_calls :: "trampoline_call list"
  core :: "('w, 'f) connector"

text \<open>\<^verbatim>\<open>for (auto& application : applications)\<close>, in the order of the addresses; a pointer to no object is a fault.\<close>

fun for_applications ::
    "(application \<Rightarrow> callback_map \<Rightarrow> application \<times> callback_map) \<Rightarrow> nat list \<Rightarrow> ('w, 'f) framework \<Rightarrow> ('w, 'f) framework option" where
  "for_applications method [] fw = Some fw"
| "for_applications method (p # ps) fw = do {
     a \<leftarrow> app_store fw p;
     let (a', m) = method a (callbackMap fw);
     for_applications method ps (fw\<lparr>app_store := (app_store fw)(p \<mapsto> a'), callbackMap := m\<rparr>) }"

definition framework_preInit :: "('w, 'f) framework \<Rightarrow> ('w, 'f) framework option" where
  "framework_preInit fw = for_applications (\<lambda>a. application_preInit (app_class a) a) (sorted_list_of_set (applications fw)) fw"

definition framework_postInit :: "('w, 'f) framework \<Rightarrow> ('w, 'f) framework option" where
  "framework_postInit fw = for_applications application_postInit (sorted_list_of_set (applications fw)) fw"

definition framework_preShutdown :: "('w, 'f) framework \<Rightarrow> ('w, 'f) framework option" where
  "framework_preShutdown fw = for_applications Application_preShutdown (sorted_list_of_set (applications fw)) fw"

definition framework_postShutdown :: "('w, 'f) framework \<Rightarrow> ('w, 'f) framework option" where
  "framework_postShutdown fw = for_applications application_postShutdown (sorted_list_of_set (applications fw)) fw"

text \<open>\<^verbatim>\<open>startupState.compare_exchange_strong(expected, desired)\<close>\<close>

definition swap_startup :: "StartupState \<Rightarrow> StartupState \<Rightarrow> ('w, 'f) framework \<Rightarrow> bool \<times> ('w, 'f) framework" where
  "swap_startup expected desired fw =
     (if startupState fw = expected then (True, fw\<lparr>startupState := desired\<rparr>) else (False, fw))"

section \<open>Entry points\<close>

definition registerApplication :: "nat option \<Rightarrow> ('w, 'f) framework \<Rightarrow> (bool \<times> ('w, 'f) framework) option" where
  "registerApplication application fw =
     (case swap_startup CONNECTOR_SHUTDOWN CONNECTOR_ADDING_APPLICATION fw of (swapped, fw1) \<Rightarrow>
        if swapped then do {
          (result, fw2) \<leftarrow>
            (case application of
               None \<Rightarrow> Some (False, fw1)
             | Some p \<Rightarrow>
                 if p \<notin> applications fw1 then do {
                   let fw2 = fw1\<lparr>applications := insert p (applications fw1)\<rparr>;
                   a \<leftarrow> app_store fw2 p;
                   Some (True, fw2\<lparr>featureLevel := featureLevel fw2 @ application_getFeatureIds (app_class a)\<rparr>) }
                 else Some (False, fw1));
          Some (result, fw2\<lparr>startupState := CONNECTOR_SHUTDOWN\<rparr>) }
        else Some (False, fw1))"

text \<open>The number under which the library knows the callback of the framework.\<close>

definition cpp_trampoline :: nat where
  "cpp_trampoline = 5"

definition framework_init ::
    "'w os \<Rightarrow> std_string \<Rightarrow> std_string \<Rightarrow> connector_thread list \<Rightarrow> connector_thread list \<Rightarrow> ('w, 'f) framework \<Rightarrow>
      (bool \<times> ('w, 'f) framework) option" where
  "framework_init env name ident dsched csched fw =
     (let fw0 = fw\<lparr>connectionDisplayName := name, connectionId := ident\<rparr> in
      case swap_startup CONNECTOR_SHUTDOWN CONNECTOR_INIT_STARTED fw0 of (swapped, fw1) \<Rightarrow>
        if swapped then do {
          fw2 \<leftarrow> framework_preInit fw1;
          (r, c) \<leftarrow> substance_connector_init env (c_str (connectionId fw2)) dsched csched (core fw2);
          let fw3 = fw2\<lparr>core := c\<rparr>;
          if r = SUBSTANCE_CONNECTOR_SUCCESS then do {
            (_, c') \<leftarrow> substance_connector_add_trampoline env (Some cpp_trampoline) (core fw3);
            fw4 \<leftarrow> framework_postInit (fw3\<lparr>core := c'\<rparr>);
            Some (True, fw4\<lparr>startupState := CONNECTOR_INITIALIZED\<rparr>) }
          else Some (False, fw3) }
        else Some (False, fw1))"

definition framework_init_same_name where
  "framework_init_same_name env name dsched csched fw = framework_init env name name dsched csched fw"

text \<open>The version is a constant of the build.\<close>

definition getConnectionContext :: "'j jsoncpp \<Rightarrow> std_string \<Rightarrow> ('w, 'f) framework \<Rightarrow> std_string" where
  "getConnectionContext J version fw =
     connection_schema_GetJsonString J \<lparr>display_name = connectionDisplayName fw, id_name = connectionId fw,
       connector_version = version, available_features = featureLevel fw\<rparr>"

definition framework_shutdown ::
    "'w os \<Rightarrow> 'f \<Rightarrow> 'f \<Rightarrow> connector_thread list \<Rightarrow> connector_thread list \<Rightarrow> connector_thread list \<Rightarrow> ('w, 'f) framework \<Rightarrow>
      (bool \<times> ('w, 'f) framework) option" where
  "framework_shutdown env malloc free wsched rsched dsched fw =
     (case swap_startup CONNECTOR_INITIALIZED CONNECTOR_SHUTDOWN_STARTED fw of (swapped, fw1) \<Rightarrow>
        if swapped then do {
          fw2 \<leftarrow> framework_preShutdown fw1;
          (r, c) \<leftarrow> substance_connector_shutdown env malloc free wsched rsched dsched (core fw2);
          let fw3 = fw2\<lparr>core := c\<rparr>;
          if r = SUBSTANCE_CONNECTOR_SUCCESS then do {
            fw4 \<leftarrow> framework_postShutdown fw3;
            Some (True, fw4\<lparr>startupState := CONNECTOR_SHUTDOWN, applications := {}, featureLevel := []\<rparr>) }
          else Some (False, fw3) }
        else Some (False, fw1))"

section \<open>Incoming messages\<close>

definition connectionEstablished ::
    "'j jsoncpp \<Rightarrow> std_string \<Rightarrow> 'w os \<Rightarrow> u32 \<Rightarrow> ('w, 'f) framework \<Rightarrow> ('w, 'f) framework option" where
  "connectionEstablished J version env incoming_connection_context fw = do {
     let context_message = getConnectionContext J version fw;
     c \<leftarrow> send_message env incoming_connection_context sConnectionUpdateContextId (c_str context_message) (core fw);
     Some (fw\<lparr>core := c\<rparr>) }"

fun call_callback ::
    "'j jsoncpp \<Rightarrow> std_string \<Rightarrow> 'w os \<Rightarrow> u32 \<Rightarrow> substance_connector_uuid \<Rightarrow> u8 list cptr \<Rightarrow> callback_function \<Rightarrow>
      ('w, 'f) framework \<Rightarrow> ('w, 'f) framework option" where
  "call_callback J version env context messageType message System_connectionEstablished fw =
     connectionEstablished J version env context fw"
| "call_callback J version env context messageType message (Application_callback f) fw =
     Some (fw\<lparr>callback_calls := callback_calls fw @
       [\<lparr>call_target = f, call_context = context, call_type = messageType, call_message = message\<rparr>]\<rparr>)"

fun call_callbacks ::
    "'j jsoncpp \<Rightarrow> std_string \<Rightarrow> 'w os \<Rightarrow> u32 \<Rightarrow> substance_connector_uuid \<Rightarrow> u8 list cptr \<Rightarrow> MessageCallback list \<Rightarrow>
      ('w, 'f) framework \<Rightarrow> ('w, 'f) framework option" where
  "call_callbacks J version env context messageType message [] fw = Some fw"
| "call_callbacks J version env context messageType message (cb # cbs) fw = do {
     fw1 \<leftarrow> (case cb of None \<Rightarrow> Some fw | Some f \<Rightarrow> call_callback J version env context messageType message f fw);
     call_callbacks J version env context messageType message cbs fw1 }"

definition connector_cpp_trampoline ::
    "'j jsoncpp \<Rightarrow> std_string \<Rightarrow> 'w os \<Rightarrow> u32 \<Rightarrow> substance_connector_uuid \<Rightarrow> u8 list cptr \<Rightarrow>
      ('w, 'f) framework \<Rightarrow> ('w, 'f) framework option" where
  "connector_cpp_trampoline J version env context messageType message fw =
     (let callbacks = findCallbacks messageType (callbackMap fw) in
      if length callbacks > 0 then call_callbacks J version env context messageType message callbacks fw else Some fw)"

section \<open>Connections\<close>

definition on_core ::
    "(('w, 'f) connector \<Rightarrow> (substance_connector_error \<times> ('w, 'f) connector) option) \<Rightarrow> ('w, 'f) framework \<Rightarrow>
      (bool \<times> ('w, 'f) framework) option" where
  "on_core f fw = do { (r, c) \<leftarrow> f (core fw); Some (r = SUBSTANCE_CONNECTOR_SUCCESS, fw\<lparr>core := c\<rparr>) }"

definition on_core_out ::
    "(('w, 'f) connector \<Rightarrow> (substance_connector_error \<times> u32 option \<times> ('w, 'f) connector) option) \<Rightarrow> ('w, 'f) framework \<Rightarrow>
      (bool \<times> u32 option \<times> ('w, 'f) framework) option" where
  "on_core_out f fw = do { (r, v, c) \<leftarrow> f (core fw); Some (r = SUBSTANCE_CONNECTOR_SUCCESS, v, fw\<lparr>core := c\<rparr>) }"

definition openTcpConnection where
  "openTcpConnection env port want fw = on_core_out (substance_connector_open_tcp env port want) fw"

definition establishTcpConnection where
  "establishTcpConnection env port want fw = on_core_out (substance_connector_connect_tcp env port want) fw"

definition openDefaultTcp where
  "openDefaultTcp env want fw = on_core_out (substance_connector_open_default_tcp env want) fw"

definition broadcastTcp where
  "broadcastTcp env fw = on_core (substance_connector_broadcast_tcp env) fw"

definition openDefaultUnix where
  "openDefaultUnix env want fw = on_core_out (substance_connector_open_default_unix env want) fw"

definition broadcastUnix where
  "broadcastUnix env fw = on_core (substance_connector_broadcast_unix env) fw"

definition openDefault where
  "openDefault env want fw = on_core_out (substance_connector_open_default env want) fw"

definition broadcastDefault where
  "broadcastDefault env fw = on_core (substance_connector_broadcast_default env) fw"

section \<open>The loops over the applications\<close>

lemma for_applications_result:
  assumes "\<And>a m. method a m = (g a, h a m)" "distinct ps" "set ps \<subseteq> dom (app_store fw)"
  shows "for_applications method ps fw = Some (fw\<lparr>
    app_store := (\<lambda>p. if p \<in> set ps then map_option g (app_store fw p) else app_store fw p),
    callbackMap := fold (\<lambda>p. h (the (app_store fw p))) ps (callbackMap fw)\<rparr>)"
  using assms(2,3)
proof (induction ps arbitrary: fw)
  case (Cons p ps)
  obtain a where a: "app_store fw p = Some a" using Cons.prems(2) by auto
  let ?fw = "fw\<lparr>app_store := (app_store fw)(p \<mapsto> g a), callbackMap := h a (callbackMap fw)\<rparr>"
  have "for_applications method ps ?fw = Some (?fw\<lparr>
    app_store := (\<lambda>p. if p \<in> set ps then map_option g (app_store ?fw p) else app_store ?fw p),
    callbackMap := fold (\<lambda>p. h (the (app_store ?fw p))) ps (callbackMap ?fw)\<rparr>)"
    using Cons.prems by (intro Cons.IH) auto
  moreover have "(\<lambda>q. if q \<in> set ps then map_option g (app_store ?fw q) else app_store ?fw q) =
    (\<lambda>q. if q \<in> set (p # ps) then map_option g (app_store fw q) else app_store fw q)"
    using Cons.prems(1) a by (auto simp: fun_eq_iff)
  moreover have "fold (\<lambda>q. h (the (app_store ?fw q))) ps (callbackMap ?fw) = fold (\<lambda>q. h (the (app_store fw q))) (p # ps) (callbackMap fw)"
    using Cons.prems(1) a by (auto intro!: fold_cong)
  ultimately show ?case using a assms(1) [of a "callbackMap fw"] by simp
qed simp

definition bound_object :: "application \<Rightarrow> application" where
  "bound_object a = a\<lparr>mCallbacks := mCallbacks a @ class_callbacks (app_class a)\<rparr>"

definition released_object :: "application \<Rightarrow> application" where
  "released_object a = a\<lparr>mCallbacks := []\<rparr>"

definition map_objects :: "(application \<Rightarrow> application) \<Rightarrow> ('w, 'f) framework \<Rightarrow> nat \<rightharpoonup> application" where
  "map_objects g fw = (\<lambda>p. if p \<in> applications fw then map_option g (app_store fw p) else app_store fw p)"

text \<open>The pairs the registered objects have in their lists, in the order of their addresses.\<close>

definition object_callbacks :: "('w, 'f) framework \<Rightarrow> CallbackPair list" where
  "object_callbacks fw = concat (map (\<lambda>p. mCallbacks (the (app_store fw p))) (sorted_list_of_set (applications fw)))"

lemma fold_map_add: "fold (\<lambda>p m. map_of (f p) ++ m) ps m = map_of (concat (map f ps)) ++ m"
  by (induction ps arbitrary: m) simp_all

lemma fold_restrict: "fold (\<lambda>p m. m |` (- fst ` set (f p))) ps m = m |` (- fst ` set (concat (map f ps)))"
proof (induction ps arbitrary: m)
  case (Cons p ps)
  have "- fst ` set (f p) \<inter> - fst ` set (concat (map f ps)) = - fst ` set (concat (map f (p # ps)))" by auto
  with Cons.IH [of "m |` (- fst ` set (f p))"] show ?case by simp
qed (simp add: restrict_map_def)

text \<open>Every registered address is that of an object.\<close>

definition objects_ok :: "('w, 'f) framework \<Rightarrow> bool" where
  "objects_ok fw \<longleftrightarrow> finite (applications fw) \<and> applications fw \<subseteq> dom (app_store fw)"

lemma framework_loops:
  assumes "objects_ok fw"
  shows "framework_preInit fw = Some (fw\<lparr>app_store := map_objects bound_object fw,
      callbackMap := map_of (concat (map (\<lambda>p. mCallbacks (bound_object (the (app_store fw p)))) (sorted_list_of_set (applications fw))))
        ++ callbackMap fw\<rparr>)"
    "framework_postInit fw = Some fw" "framework_postShutdown fw = Some fw"
    "framework_preShutdown fw = Some (fw\<lparr>app_store := map_objects released_object fw,
      callbackMap := callbackMap fw |` (- fst ` set (object_callbacks fw))\<rparr>)"
proof -
  let ?ps = "sorted_list_of_set (applications fw)"
  have ps: "distinct ?ps" "set ?ps \<subseteq> dom (app_store fw)" "set ?ps = applications fw"
    using assms by (simp_all add: objects_ok_def)
  note loop = for_applications_result [OF _ ps(1,2), unfolded ps(3)]
  have pre: "application_preInit (app_class a) a m = (bound_object a, map_of (mCallbacks (bound_object a)) ++ m)" for a m
    by (simp add: application_preInit_result bound_object_def Let_def)
  show "framework_preInit fw = Some (fw\<lparr>app_store := map_objects bound_object fw,
      callbackMap := map_of (concat (map (\<lambda>p. mCallbacks (bound_object (the (app_store fw p)))) ?ps)) ++ callbackMap fw\<rparr>)"
    unfolding framework_preInit_def by (subst loop [OF pre]) (simp add: fold_map_add map_objects_def)
  have shut: "Application_preShutdown a m = (released_object a, m |` (- fst ` set (mCallbacks a)))" for a m
    by (simp add: Application_preShutdown_result released_object_def)
  show "framework_preShutdown fw = Some (fw\<lparr>app_store := map_objects released_object fw,
      callbackMap := callbackMap fw |` (- fst ` set (object_callbacks fw))\<rparr>)"
    unfolding framework_preShutdown_def by (subst loop [OF shut]) (simp add: fold_restrict map_objects_def object_callbacks_def)
  have id: "(\<lambda>p. if p \<in> A then map_option (\<lambda>a. a) (app_store fw p) else app_store fw p) = app_store fw" for A
    by (simp add: fun_eq_iff option.map_ident)
  have f: "fold (\<lambda>p m. m) qs m = m" for qs :: "nat list" and m :: callback_map by (induction qs) simp_all
  show "framework_postInit fw = Some fw"
    unfolding framework_postInit_def by (subst loop [of _ "\<lambda>a. a" "\<lambda>a m. m"]) (simp_all add: application_postInit_def id f)
  show "framework_postShutdown fw = Some fw"
    unfolding framework_postShutdown_def by (subst loop [of _ "\<lambda>a. a" "\<lambda>a m. m"]) (simp_all add: application_postShutdown_def id f)
qed

section \<open>Life cycle\<close>

text \<open>A framework before its initialisation: nothing is bound and the library is clean.\<close>

definition framework_idle :: "('w, 'f) framework \<Rightarrow> bool" where
  "framework_idle fw \<longleftrightarrow> startupState fw = CONNECTOR_SHUTDOWN \<and> objects_ok fw \<and>
     (\<forall>p \<in> applications fw. mCallbacks (the (app_store fw p)) = []) \<and> callbackMap fw = Map.empty \<and> clean (core fw)"

text \<open>What the registered objects bind, first come first served in the order of their addresses.\<close>

definition bound_callbacks :: "('w, 'f) framework \<Rightarrow> CallbackPair list" where
  "bound_callbacks fw = concat (map (\<lambda>p. class_callbacks (app_class (the (app_store fw p)))) (sorted_list_of_set (applications fw)))"

text \<open>The state after a successful initialisation.\<close>

definition framework_running :: "('w, 'f) framework \<Rightarrow> ('w, 'f) framework \<Rightarrow> bool" where
  "framework_running fw fw' \<longleftrightarrow> startupState fw' = CONNECTOR_INITIALIZED \<and> applications fw' = applications fw \<and>
     featureLevel fw' = featureLevel fw \<and> app_store fw' = map_objects bound_object fw \<and> callbackMap fw' = map_of (bound_callbacks fw) \<and>
     connector_module_state (core fw') = SUBSTANCE_CONNECTOR_STATE_INIT_FINISHED \<and> settled [cpp_trampoline] (core fw')"

lemma framework_init_runs:
  assumes al: "allocator_succeeds env" and idle: "framework_idle fw" and len: "length ident < 2 ^ 64 - 1"
  shows "\<exists>fw'. framework_init env name ident start_dispatch start_readers fw = Some (True, fw') \<and> framework_running fw fw' \<and>
    connectionDisplayName fw' = name \<and> connectionId fw' = ident \<and> callback_calls fw' = callback_calls fw"
proof -
  let ?fw1 = "fw\<lparr>connectionDisplayName := name, connectionId := ident, startupState := CONNECTOR_INIT_STARTED\<rparr>"
  have ok: "objects_ok ?fw1" using idle by (simp add: framework_idle_def objects_ok_def)
  have "mCallbacks (bound_object (the (app_store fw p))) = class_callbacks (app_class (the (app_store fw p)))"
    if "p \<in> set (sorted_list_of_set (applications fw))" for p
    using idle that by (simp add: framework_idle_def objects_ok_def bound_object_def)
  then have "concat (map (\<lambda>p. mCallbacks (bound_object (the (app_store fw p)))) (sorted_list_of_set (applications fw))) = bound_callbacks fw"
    unfolding bound_callbacks_def by (intro arg_cong [of _ _ concat] map_cong [OF refl])
  moreover have "map_objects bound_object ?fw1 = map_objects bound_object fw" by (auto simp: map_objects_def fun_eq_iff)
  ultimately have pre: "framework_preInit ?fw1 =
      Some (?fw1\<lparr>app_store := map_objects bound_object fw, callbackMap := map_of (bound_callbacks fw)\<rparr>)" (is "_ = Some ?fw2")
    using framework_loops(1) [OF ok] idle by (simp add: framework_idle_def)
  have ci: "deref (c_str ident) = Some (ident @ [0])" "0 \<in> set (ident @ [0])" "length (ident @ [0]) < 2 ^ 64"
    using len by (simp_all add: c_str_def)
  obtain c where c: "substance_connector_init env (c_str ident) start_dispatch start_readers (core fw) = Some (SUBSTANCE_CONNECTOR_SUCCESS, c)"
    "connector_module_state c = SUBSTANCE_CONNECTOR_STATE_INIT_FINISHED" "settled [] c"
    using init_settles [OF al _ ci] idle by (auto simp: framework_idle_def)
  obtain c' where c': "substance_connector_add_trampoline env (Some cpp_trampoline) c = Some (SUBSTANCE_CONNECTOR_SUCCESS, c')"
    "connector_module_state c' = SUBSTANCE_CONNECTOR_STATE_INIT_FINISHED" "settled [cpp_trampoline] c'"
    using add_trampoline_settles [OF al c(2,3)] by blast
  have "objects_ok (?fw2\<lparr>core := c'\<rparr>)" using ok by (auto simp: objects_ok_def map_objects_def)
  note post = framework_loops(2) [OF this]
  let ?fw4 = "?fw2\<lparr>core := c', startupState := CONNECTOR_INITIALIZED\<rparr>"
  have "framework_init env name ident start_dispatch start_readers fw = Some (True, ?fw4)"
    using idle pre c(1) c'(1) post by (simp add: framework_init_def swap_startup_def framework_idle_def)
  moreover have "framework_running fw ?fw4" using c'(2,3) by (simp add: framework_running_def)
  ultimately show ?thesis by (intro exI [of _ ?fw4]) simp
qed

lemma framework_shutdown_ends:
  assumes idle: "framework_idle fw" and run: "framework_running fw fw'"
  shows "\<exists>fw2. framework_shutdown env malloc free stop_writers stop_readers stop_dispatch fw' = Some (True, fw2) \<and>
    framework_idle fw2 \<and> applications fw2 = {} \<and> featureLevel fw2 = [] \<and> app_store fw2 = app_store fw"
proof -
  note r = run [unfolded framework_running_def]
  let ?fw1 = "fw'\<lparr>startupState := CONNECTOR_SHUTDOWN_STARTED\<rparr>"
  have ok: "objects_ok ?fw1" using idle r by (auto simp: framework_idle_def objects_ok_def map_objects_def)
  have e: "mCallbacks (the (app_store fw' p)) = class_callbacks (app_class (the (app_store fw p)))"
    if p: "p \<in> set (sorted_list_of_set (applications fw))" for p
  proof -
    have "p \<in> applications fw" using idle p by (simp add: framework_idle_def objects_ok_def)
    moreover from this obtain a where "app_store fw p = Some a" "mCallbacks a = []"
      using idle by (fastforce simp: framework_idle_def objects_ok_def)
    ultimately show ?thesis using r by (simp add: map_objects_def bound_object_def)
  qed
  then have "concat (map (\<lambda>p. mCallbacks (the (app_store fw' p))) (sorted_list_of_set (applications fw))) = bound_callbacks fw"
    unfolding bound_callbacks_def by (intro arg_cong [of _ _ concat] map_cong [OF refl])
  with r have "object_callbacks ?fw1 = bound_callbacks fw" by (simp add: object_callbacks_def)
  moreover have "map_of ps |` (- fst ` set ps) = Map.empty" for ps :: "CallbackPair list"
    by (auto simp: restrict_map_def fun_eq_iff map_of_eq_None_iff)
  moreover have "map_objects released_object ?fw1 = app_store fw"
  proof
    fix p
    show "map_objects released_object ?fw1 p = app_store fw p"
      using r idle by (cases "app_store fw p") (auto simp: map_objects_def released_object_def bound_object_def framework_idle_def)
  qed
  ultimately have pre: "framework_preShutdown ?fw1 = Some (?fw1\<lparr>app_store := app_store fw, callbackMap := Map.empty\<rparr>)" (is "_ = Some ?fw2")
    using framework_loops(4) [OF ok] r by simp
  obtain c where c: "substance_connector_shutdown env malloc free stop_writers stop_readers stop_dispatch (core fw') =
      Some (SUBSTANCE_CONNECTOR_SUCCESS, c)" "clean c"
    using shutdown_cleans [of "core fw'" "[cpp_trampoline]" env malloc free] r by blast
  have "objects_ok (?fw2\<lparr>core := c\<rparr>)" using idle r by (simp add: framework_idle_def objects_ok_def)
  note post = framework_loops(3) [OF this]
  let ?fw4 = "?fw2\<lparr>core := c, startupState := CONNECTOR_SHUTDOWN, applications := {}, featureLevel := []\<rparr>"
  have "framework_shutdown env malloc free stop_writers stop_readers stop_dispatch fw' = Some (True, ?fw4)"
    using r pre c(1) post by (simp add: framework_shutdown_def swap_startup_def)
  moreover have "framework_idle ?fw4" using c(2) by (simp add: framework_idle_def objects_ok_def)
  ultimately show ?thesis by (intro exI [of _ ?fw4]) simp
qed

section \<open>Calls of the callback\<close>

text \<open>The callbacks of the application among those of a type, and how often the one of the framework is there.\<close>

definition application_callbacks :: "MessageCallback list \<Rightarrow> nat list" where
  "application_callbacks cbs = concat (map (\<lambda>cb. case cb of Some (Application_callback f) \<Rightarrow> [f] | _ \<Rightarrow> []) cbs)"

definition framework_callbacks :: "MessageCallback list \<Rightarrow> nat" where
  "framework_callbacks cbs = length (filter (\<lambda>cb. cb = Some System_connectionEstablished) cbs)"

lemma connectionEstablished_sends:
  assumes "connector_module_state (core fw) = SUBSTANCE_CONNECTOR_STATE_INIT_FINISHED" "allocator_succeeds env"
    and "wf_queues (queues (sys_part (core fw)))" "length (getConnectionContext J version fw) < 2 ^ 64 - 1"
  shows "\<exists>q w. connectionEstablished J version env ctx fw =
      Some (fw\<lparr>core := (core fw)\<lparr>sys_part := signal WakeWrite ((sys_part (core fw))\<lparr>queues := q, world := w\<rparr>)\<rparr>\<rparr>) \<and> wf_queues q \<and>
    outbound_messages q = outbound_messages (queues (sys_part (core fw))) @
      [outgoing ctx sConnectionUpdateContextId (getConnectionContext J version fw @ [0])] \<and>
    (\<forall>pending. socket_link env pending \<longrightarrow> pending w = pending (world (sys_part (core fw))))"
proof -
  from send_message_queues [OF assms, of ctx sConnectionUpdateContextId] obtain q w where
    s: "send_message env ctx sConnectionUpdateContextId (c_str (getConnectionContext J version fw)) (core fw) =
      Some ((core fw)\<lparr>sys_part := signal WakeWrite ((sys_part (core fw))\<lparr>queues := q, world := w\<rparr>)\<rparr>)"
    and q: "wf_queues q" "outbound_messages q = outbound_messages (queues (sys_part (core fw))) @
      [outgoing ctx sConnectionUpdateContextId (getConnectionContext J version fw @ [0])]"
      "\<forall>pending. socket_link env pending \<longrightarrow> pending w = pending (world (sys_part (core fw)))" by blast
  have "connectionEstablished J version env ctx fw =
      Some (fw\<lparr>core := (core fw)\<lparr>sys_part := signal WakeWrite ((sys_part (core fw))\<lparr>queues := q, world := w\<rparr>)\<rparr>\<rparr>)"
    using s by (simp add: connectionEstablished_def)
  with q show ?thesis by blast
qed

text \<open>What the callbacks leave alone.\<close>

definition same_statics :: "('w, 'f) framework \<Rightarrow> ('w, 'f) framework \<Rightarrow> bool" where
  "same_statics fw fw' \<longleftrightarrow> fw'\<lparr>callback_calls := callback_calls fw, core := core fw\<rparr> = fw \<and>
     connector_module_state (core fw') = connector_module_state (core fw) \<and>
     context_list (sys_part (core fw')) = context_list (sys_part (core fw))"

lemma same_statics_context: "same_statics fw fw' \<Longrightarrow> getConnectionContext J version fw' = getConnectionContext J version fw"
  by (cases fw; cases fw') (auto simp: same_statics_def getConnectionContext_def)

lemma same_statics_trans: "same_statics fw1 fw2 \<Longrightarrow> same_statics fw2 fw3 \<Longrightarrow> same_statics fw1 fw3"
  by (cases fw1; cases fw2; cases fw3) (auto simp: same_statics_def)

text \<open>What running a list of callbacks does.\<close>

definition callbacks_ran ::
    "'j jsoncpp \<Rightarrow> std_string \<Rightarrow> 'w os \<Rightarrow> u32 \<Rightarrow> substance_connector_uuid \<Rightarrow> u8 list cptr \<Rightarrow> MessageCallback list \<Rightarrow>
      ('w, 'f) framework \<Rightarrow> ('w, 'f) framework \<Rightarrow> bool" where
  "callbacks_ran J version env ctx type message cbs fw fw' \<longleftrightarrow> same_statics fw fw' \<and>
     callback_calls fw' = callback_calls fw @
       map (\<lambda>f. \<lparr>call_target = f, call_context = ctx, call_type = type, call_message = message\<rparr>) (application_callbacks cbs) \<and>
     wf_queues (queues (sys_part (core fw'))) \<and>
     outbound_messages (queues (sys_part (core fw'))) = outbound_messages (queues (sys_part (core fw))) @
       replicate (framework_callbacks cbs) (outgoing ctx sConnectionUpdateContextId (getConnectionContext J version fw @ [0])) \<and>
     (\<forall>pending. socket_link env pending \<longrightarrow> pending (world (sys_part (core fw'))) = pending (world (sys_part (core fw))))"

lemma callbacks_ran_Cons:
  assumes "callbacks_ran J version env ctx type message [cb] fw fw1" "callbacks_ran J version env ctx type message cbs fw1 fw2"
  shows "callbacks_ran J version env ctx type message (cb # cbs) fw fw2"
proof -
  have "application_callbacks (cb # cbs) = application_callbacks [cb] @ application_callbacks cbs"
    "framework_callbacks (cb # cbs) = framework_callbacks [cb] + framework_callbacks cbs"
    by (simp_all add: application_callbacks_def framework_callbacks_def)
  moreover have "same_statics fw fw2" "getConnectionContext J version fw1 = getConnectionContext J version fw"
    using assms same_statics_trans same_statics_context unfolding callbacks_ran_def by blast+
  ultimately show ?thesis using assms by (auto simp: callbacks_ran_def replicate_add)
qed

text \<open>The framework can run callbacks: its library is in session, and the text about it fits the address space.\<close>

definition can_answer :: "'j jsoncpp \<Rightarrow> std_string \<Rightarrow> ('w, 'f) framework \<Rightarrow> bool" where
  "can_answer J version fw \<longleftrightarrow> connector_module_state (core fw) = SUBSTANCE_CONNECTOR_STATE_INIT_FINISHED \<and>
     wf_queues (queues (sys_part (core fw))) \<and> length (getConnectionContext J version fw) < 2 ^ 64 - 1"

lemma can_answer_after:
  "callbacks_ran J version env ctx type message cbs fw fw' \<Longrightarrow> can_answer J version fw \<Longrightarrow> can_answer J version fw'"
  using same_statics_context [of fw fw' J version] by (auto simp: callbacks_ran_def can_answer_def same_statics_def)

lemma one_callback_runs:
  assumes "allocator_succeeds env" "can_answer J version fw"
  shows "\<exists>fw1. (case cb of None \<Rightarrow> Some fw | Some f \<Rightarrow> call_callback J version env ctx type message f fw) = Some fw1 \<and>
    callbacks_ran J version env ctx type message [cb] fw fw1"
proof (cases "cb = Some System_connectionEstablished")
  case True
  from connectionEstablished_sends [of fw env J version ctx] assms obtain q w where
    e: "connectionEstablished J version env ctx fw =
        Some (fw\<lparr>core := (core fw)\<lparr>sys_part := signal WakeWrite ((sys_part (core fw))\<lparr>queues := q, world := w\<rparr>)\<rparr>\<rparr>)" (is "_ = Some ?fw1")
    and q: "wf_queues q" "outbound_messages q = outbound_messages (queues (sys_part (core fw))) @
        [outgoing ctx sConnectionUpdateContextId (getConnectionContext J version fw @ [0])]"
      "\<forall>pending. socket_link env pending \<longrightarrow> pending w = pending (world (sys_part (core fw)))"
    unfolding can_answer_def by blast
  have "callbacks_ran J version env ctx type message [cb] fw ?fw1"
    using True q by (simp add: callbacks_ran_def same_statics_def application_callbacks_def framework_callbacks_def)
  with True e show ?thesis by simp
next
  case False
  with assms(2) show ?thesis
    by (auto simp: callbacks_ran_def can_answer_def same_statics_def application_callbacks_def framework_callbacks_def
        split: option.split callback_function.split elim!: call_callback.elims)
qed

lemma call_callbacks_result:
  assumes "allocator_succeeds env" "can_answer J version fw"
  shows "\<exists>fw'. call_callbacks J version env ctx type message cbs fw = Some fw' \<and> callbacks_ran J version env ctx type message cbs fw fw'"
  using assms(2)
proof (induction cbs arbitrary: fw)
  case Nil
  then show ?case
    by (simp add: callbacks_ran_def can_answer_def same_statics_def application_callbacks_def framework_callbacks_def)
next
  case (Cons cb cbs)
  obtain fw1 where fw1: "(case cb of None \<Rightarrow> Some fw | Some f \<Rightarrow> call_callback J version env ctx type message f fw) = Some fw1"
    "callbacks_ran J version env ctx type message [cb] fw fw1"
    using one_callback_runs [OF assms(1) Cons.prems] by blast
  from Cons.IH [OF can_answer_after [OF fw1(2) Cons.prems]] obtain fw2 where
    "call_callbacks J version env ctx type message cbs fw1 = Some fw2" "callbacks_ran J version env ctx type message cbs fw1 fw2" by blast
  with fw1 callbacks_ran_Cons [OF fw1(2)] show ?case by simp
qed

lemma trampoline_runs:
  assumes "allocator_succeeds env" "can_answer J version fw"
  shows "\<exists>fw'. connector_cpp_trampoline J version env ctx type message fw = Some fw' \<and>
    callbacks_ran J version env ctx type message (findCallbacks type (callbackMap fw)) fw fw'"
  using call_callbacks_result [OF assms, of ctx type message "findCallbacks type (callbackMap fw)"]
  by (auto simp: connector_cpp_trampoline_def Let_def)

end
