(* ===== verification/End_To_End.thy ===== *)
theory End_To_End
  imports External_Api
begin

text \<open>
  Lemmas that compose the components along the way of a message: the interface of one
  instance, its outbound queue and write thread, the link, and the read thread, inbound
  queue and dispatch thread of another instance.
\<close>

section \<open>The sender\<close>

text \<open>An application that sends a sequence of typed texts on one context.\<close>

fun write_texts ::
    "'w os \<Rightarrow> u32 \<Rightarrow> (substance_connector_uuid \<times> u8 list) list \<Rightarrow> ('w, 'f) connector \<Rightarrow>
      (substance_connector_error list \<times> ('w, 'f) connector) option" where
  "write_texts env ctx [] c = Some ([], c)"
| "write_texts env ctx ((type, b) # ts) c = do {
     (r, c1) \<leftarrow> substance_connector_write_message env ctx (BORROWED type) (BORROWED b) c;
     (rs, c2) \<leftarrow> write_texts env ctx ts c1;
     Some (r # rs, c2) }"

text \<open>A terminated text whose length the 32-bit field of the header can carry.\<close>

definition text_ok :: "u8 list \<Rightarrow> bool" where
  "text_ok b \<longleftrightarrow> 0 \<in> set b \<and> length b < 2 ^ 32 - 1"

abbreviation outgoing_all :: "u32 \<Rightarrow> (substance_connector_uuid \<times> u8 list) list \<Rightarrow> connector_message cptr list" where
  "outgoing_all ctx ts \<equiv> map (\<lambda>(type, b). outgoing ctx type b) ts"

lemma write_texts_queue:
  assumes "connector_module_state c = SUBSTANCE_CONNECTOR_STATE_INIT_FINISHED" "allocator_succeeds env" "socket_link env pending"
    and "wf_queues (queues (sys_part c))" "list_all (\<lambda>(type, b). text_ok b) ts"
  shows "\<exists>c'. write_texts env ctx ts c = Some (map (\<lambda>_. SUBSTANCE_CONNECTOR_SUCCESS) ts, c') \<and> wf_queues (queues (sys_part c')) \<and>
    outbound_messages (queues (sys_part c')) = outbound_messages (queues (sys_part c)) @ outgoing_all ctx ts \<and>
    context_list (sys_part c') = context_list (sys_part c) \<and> pending (world (sys_part c')) = pending (world (sys_part c))"
  using assms(1,4,5)
proof (induction ts arbitrary: c)
  case (Cons t ts)
  obtain type b where t: "t = (type, b)" by fastforce
  have b: "0 \<in> set b" "length b < 2 ^ 64" using Cons.prems(3) by (auto simp: t text_ok_def)
  obtain q w where w: "substance_connector_write_message env ctx (BORROWED type) (BORROWED b) c = Some (SUBSTANCE_CONNECTOR_SUCCESS,
      c\<lparr>sys_part := signal WakeWrite ((sys_part c)\<lparr>queues := q, world := w\<rparr>)\<rparr>)" "wf_queues q"
    "outbound_messages q = outbound_messages (queues (sys_part c)) @ [outgoing ctx type b]"
    "pending w = pending (world (sys_part c))"
    using write_message_queues [OF Cons.prems(1) assms(2) Cons.prems(2) _ b, of "BORROWED b" ctx type] assms(3) by auto
  let ?c = "c\<lparr>sys_part := signal WakeWrite ((sys_part c)\<lparr>queues := q, world := w\<rparr>)\<rparr>"
  from Cons.IH [of ?c] Cons.prems w(2) obtain c' where
    "write_texts env ctx ts ?c = Some (map (\<lambda>_. SUBSTANCE_CONNECTOR_SUCCESS) ts, c')" "wf_queues (queues (sys_part c'))"
    "outbound_messages (queues (sys_part c')) = outbound_messages q @ outgoing_all ctx ts"
    "context_list (sys_part c') = context_list (sys_part c)" "pending (world (sys_part c')) = pending w" by auto
  with w t show ?case by simp
qed simp

lemma text_length:
  assumes "text_ok b"
  shows "unat (of_nat (length (cstr b)) :: u32) = length (cstr b)" "(of_nat (length (cstr b)) :: u32) \<noteq> 0xffffffff"
proof -
  have l: "length (cstr b) < 2 ^ 32 - 1" using assms cstr_less [of b] by (auto simp: text_ok_def)
  then show u: "unat (of_nat (length (cstr b)) :: u32) = length (cstr b)" by (simp add: unat_of_nat)
  show "(of_nat (length (cstr b)) :: u32) \<noteq> 0xffffffff"
  proof
    assume "(of_nat (length (cstr b)) :: u32) = 0xffffffff"
    then have "unat (of_nat (length (cstr b)) :: u32) = unat (0xffffffff :: u32)" by simp
    with u l show False by simp
  qed
qed

lemma outgoing_writable:
  assumes "text_ok b" "established s ctx"
  shows "writable s (outgoing ctx type b)"
  using assms text_length [OF assms(1)]
  by (simp add: writable_def outgoing_def sendable_def c_string_def CONNECTOR_IDENTIFY_MESSAGE_def CONNECTOR_MESSAGE_IDENTIFIER_def)

text \<open>A woken write thread empties the queue.\<close>

lemma woken_writer_sends:
  assumes link: "socket_link env pending" and al: "allocator_succeeds env" and q: "wf_queues (queues s)"
    and out: "outbound_messages (queues s) = m # ms" "list_all (writable s) (m # ms)"
  shows "\<exists>s' frs. write_steps (length ms + 3) env WWoken 0 s = Some (WSend NULL, s') \<and> outbound_messages (queues s') = [] \<and>
    list_all2 frame_of (m # ms) frs \<and> pending (world s') = pending (world s) @ concat frs"
proof -
  obtain q1 where a: "acquire_outbound s = Some (m, s\<lparr>queues := q1\<rparr>)" "wf_queues q1" "outbound_messages q1 = ms"
    using acquire_outbound_wf [OF q] out(1) by auto
  let ?s = "s\<lparr>queues := q1\<rparr>"
  have w: "writable ?s m" "list_all (writable ?s) (outbound_messages (queues ?s))"
    using out(2) a(3) writable_cong [of ?s s] by (simp_all add: list_all_iff)
  obtain q2 w2 frs where d: "write_steps (Suc (length ms)) env (WSend m) 0 ?s = Some (WSend NULL, ?s\<lparr>queues := q2, world := w2\<rparr>)"
    "outbound_messages q2 = []" "list_all2 frame_of (m # ms) frs" "pending w2 = pending (world s) @ concat frs"
    using send_drains [OF link al _ w, of 0] a(2,3) by auto
  have "write_steps 2 env WWoken 0 s = Some (WSend m, ?s)"
    using a(1) writable_not_NULL [OF w(1)] by (simp add: numeral_eq_Suc write_thread_routine_def)
  from write_steps_add [OF this, of "Suc (length ms)"] d(1)
  have "write_steps (length ms + 3) env WWoken 0 s = Some (WSend NULL, ?s\<lparr>queues := q2, world := w2\<rparr>)"
    by (simp add: numeral_eq_Suc)
  with d(2-4) show ?thesis by auto
qed

section \<open>The receiver\<close>

text \<open>What a read thread does when it is polled readable several times on one context.\<close>

fun handle_times :: "nat \<Rightarrow> 'w os \<Rightarrow> u32 \<Rightarrow> 'w sys \<Rightarrow> (substance_connector_error list \<times> 'w sys) option" where
  "handle_times 0 env ctx s = Some ([], s)"
| "handle_times (Suc n) env ctx s = do {
     (r, s1) \<leftarrow> connector_read_thread_handle_context env ctx s;
     (rs, s2) \<leftarrow> handle_times n env ctx s1;
     Some (r # rs, s2) }"

text \<open>The message as it arrives on context \<open>ctx\<close>.\<close>

definition arrived :: "u32 \<Rightarrow> substance_connector_uuid \<times> u8 list \<Rightarrow> connector_message cptr" where
  "arrived ctx t = (case t of (type, b) \<Rightarrow> outgoing ctx type b)"

lemma frame_of_outgoing:
  assumes "frame_of (outgoing a type b) fr" "text_ok b"
  shows "\<exists>f. fr = f @ cstr b \<and> length f = 24 \<and> connector_ntohheader (load_header f) =
    \<lparr>description = CONNECTOR_MESSAGE_IDENTIFIER, message_length = of_nat (length (cstr b)), message_id = type\<rparr>"
  using assms(1) text_length(1) [OF assms(2)]
  by (auto simp: frame_of_def outgoing_def wire_header_def wire_body_def c_string_def)

lemma connected_handler:
  assumes "established s i"
  shows "connector_read_thread_handle_context env i s = connector_read_thread_handle_connected env i s"
proof -
  have "connector_context_state i s = Some (ucast SUBSTANCE_CONNECTOR_CONN_CONNECTED)"
    using assms by (auto simp: established_def connector_context_state_def context_configuration_def)
  then show ?thesis by (simp add: connector_read_thread_handle_context_def conn_defs)
qed

lemma handle_times_receives:
  assumes link: "socket_link env pending" and al: "allocator_succeeds env"
    and "list_all (\<lambda>(type, b). text_ok b) ts" "list_all2 frame_of (outgoing_all a ts) frs"
    and "pending (world s) = concat frs @ rest" "established s i" "ready fs s"
  shows "\<exists>s'. handle_times (length ts) env i s = Some (map (\<lambda>_. SUBSTANCE_CONNECTOR_SUCCESS) ts, s') \<and> ready fs s' \<and>
    inbound_messages (queues s') = inbound_messages (queues s) @ map (arrived i) ts \<and> calls s' = calls s \<and>
    pending (world s') = rest"
  using assms(3-)
proof (induction ts arbitrary: frs s)
  case (Cons t ts)
  obtain type b where t: "t = (type, b)" by fastforce
  obtain fr frs' where fr: "frs = fr # frs'" "frame_of (outgoing a type b) fr" "list_all2 frame_of (outgoing_all a ts) frs'"
    using Cons.prems(2) t by (auto simp: list_all2_Cons1)
  have b: "text_ok b" using Cons.prems(1) by (simp add: t)
  let ?h = "\<lparr>description = CONNECTOR_MESSAGE_IDENTIFIER, message_length = of_nat (length (cstr b)), message_id = type\<rparr>"
  obtain f where f: "fr = f @ cstr b" "length f = 24" "connector_ntohheader (load_header f) = ?h"
    using frame_of_outgoing [OF fr(2) b] by blast
  have p: "pending (world s) = f @ cstr b @ (concat frs' @ rest)" using Cons.prems(3) fr(1) f(1) by simp
  have q: "wf_queues (queues s)" using Cons.prems(5) by (simp add: ready_def)
  have h: "CONNECTOR_IDENTIFY_MESSAGE (description ?h)" "message_length ?h \<noteq> 0xffffffff" "length (cstr b) = unat (message_length ?h)"
    using text_length [OF b] by (simp_all add: CONNECTOR_IDENTIFY_MESSAGE_def CONNECTOR_MESSAGE_IDENTIFIER_def)
  obtain q' w' where r: "connector_read_thread_handle_connected env i s =
      Some (SUBSTANCE_CONNECTOR_SUCCESS, signal WakeDispatch (s\<lparr>queues := q', world := w'\<rparr>))" "wf_queues q'"
    "inbound_messages q' = inbound_messages (queues s) @ [arrived i t]" "pending w' = concat frs' @ rest"
    using handle_connected_reads [OF link al Cons.prems(4) q p f(2,3) h] by (auto simp: arrived_def outgoing_def t)
  let ?s = "signal WakeDispatch (s\<lparr>queues := q', world := w'\<rparr>)"
  have "ready fs ?s" using Cons.prems(5) r(2) by (simp add: ready_def)
  moreover have "established ?s i" using Cons.prems(4) established_cong [of ?s i s] by (simp add: get_context_def)
  ultimately obtain s' where "handle_times (length ts) env i ?s = Some (map (\<lambda>_. SUBSTANCE_CONNECTOR_SUCCESS) ts, s')" "ready fs s'"
    "inbound_messages (queues s') = inbound_messages q' @ map (arrived i) ts" "calls s' = calls s" "pending (world s') = rest"
    using Cons.IH [OF _ fr(3), of ?s] Cons.prems(1) r(4) by auto
  with r connected_handler [OF Cons.prems(4), of env] show ?case by simp
qed simp

lemma arrived_deliverable: "deliverable (arrived i t)"
  by (cases t) (simp add: deliverable_def arrived_def outgoing_def CONNECTOR_IDENTIFY_INTERNAL_def
      CONNECTOR_MESSAGE_IDENTIFIER_def CONNECTOR_INTERNAL_IDENTIFIER_def)

lemma arrived_delivery:
  "delivery fs (arrived i (type, b)) = map (\<lambda>f. \<lparr>call_target = f, call_context = i, call_type = type,
    call_message = OWNED (c_string (cstr b))\<rparr>) fs"
  by (simp add: delivery_def arrived_def outgoing_def CONNECTOR_IDENTIFY_INTERNAL_def
      CONNECTOR_MESSAGE_IDENTIFIER_def CONNECTOR_INTERNAL_IDENTIFIER_def)

lemma dispatch_steps_add:
  "dispatch_steps k env i pc d s = Some (pc', d', s') \<Longrightarrow> dispatch_steps (k + l) env i pc d s = dispatch_steps l env i pc' d' s'"
  by (induction k arbitrary: pc d s) (auto simp: Option.bind_eq_Some_conv)

text \<open>A woken dispatch thread delivers the whole queue.\<close>

lemma woken_dispatcher_delivers:
  assumes al: "allocator_succeeds env" and rd: "ready fs s" and code: "dispatch_shutdown_code d = 0"
    and inb: "inbound_messages (queues s) = m # ms" "list_all deliverable (m # ms)"
  shows "\<exists>s'. dispatch_steps (length ms + 3) env i DWoken d s = Some (DProcess NULL, d, s') \<and>
    inbound_messages (queues s') = [] \<and> calls s' = calls s @ concat (map (delivery fs) (m # ms))"
proof -
  obtain s1 where a: "acquire_inbound s = Some (m, s1)" "ready fs s1" "inbound_messages (queues s1) = ms" "calls s1 = calls s"
    using acquire_inbound_ready [OF rd] inb(1) by auto
  have nn: "m \<noteq> NULL" using inb(2) by (auto simp: deliverable_def)
  have "dispatch_steps 2 env i DWoken d s = Some (DProcess m, d, s1)"
    using a(1) code nn by (simp add: numeral_eq_Suc dispatch_routine_def)
  note add = dispatch_steps_add [OF this, of "Suc (length ms)"]
  obtain s' where "dispatch_steps (Suc (length ms)) env i (DProcess m) d s1 = Some (DProcess NULL, d, s')"
    "inbound_messages (queues s') = []" "calls s' = calls s @ concat (map (delivery fs) (m # ms))"
    using process_drains [OF al a(2) code, of m i] inb(2) a(3,4) by auto
  with add show ?thesis by (simp add: numeral_eq_Suc)
qed

section \<open>From one to the other\<close>

text \<open>
  The texts in the outbound queue of a sender reach the callbacks \<open>fs\<close> of a receiver: the woken
  write thread sends them, the read thread of the receiver handles as many readable events,
  and its woken dispatch thread calls every callback for each of them.
\<close>

definition text_calls :: "nat list \<Rightarrow> u32 \<Rightarrow> (substance_connector_uuid \<times> u8 list) list \<Rightarrow> trampoline_call list" where
  "text_calls fs ctx ts = concat (map (\<lambda>(type, b). map (\<lambda>f. \<lparr>call_target = f, call_context = ctx, call_type = type,
     call_message = OWNED (c_string (cstr b))\<rparr>) fs) ts)"

lemma queued_texts_arrive:
  assumes link: "socket_link env pending" and al: "allocator_succeeds env"
    and q: "wf_queues (queues sx)" "outbound_messages (queues sx) = outgoing_all ctx ts"
    and est: "established sx ctx" and p: "pending (world sx) = []" and ts: "ts \<noteq> []" "list_all (\<lambda>(type, b). text_ok b) ts"
    and rcv: "established s ctx'" "ready fs s" "inbound_messages (queues s) = []" "dispatch_shutdown_code d = 0"
  shows "\<exists>sa s1 s2. write_steps (length ts + 2) env WWoken 0 sx = Some (WSend NULL, sa) \<and>
    handle_times (length ts) env ctx' (s\<lparr>world := world sa\<rparr>) = Some (map (\<lambda>_. SUBSTANCE_CONNECTOR_SUCCESS) ts, s1) \<and>
    dispatch_steps (length ts + 2) env i DWoken d s1 = Some (DProcess NULL, d, s2) \<and> calls s2 = calls s @ text_calls fs ctx' ts"
proof -
  obtain t us where t: "ts = t # us" using ts(1) by (cases ts) auto
  have "list_all (writable sx) (outgoing_all ctx ts)"
    using ts(2) est outgoing_writable by (fastforce simp: list_all_iff)
  with woken_writer_sends [OF link al q(1)] q(2) p t obtain sa frs where
    sa: "write_steps (length ts + 2) env WWoken 0 sx = Some (WSend NULL, sa)"
      "list_all2 frame_of (outgoing_all ctx ts) frs" "pending (world sa) = concat frs"
    by (fastforce simp: numeral_eq_Suc)
  have "established (s\<lparr>world := world sa\<rparr>) ctx'" "ready fs (s\<lparr>world := world sa\<rparr>)"
    using rcv(1,2) established_cong [of "s\<lparr>world := world sa\<rparr>" ctx' s] by (simp_all add: ready_def get_context_def)
  with handle_times_receives [OF link al ts(2) sa(2), of "s\<lparr>world := world sa\<rparr>" "[]" ctx' fs] sa(3) rcv(3) obtain s1 where
    s1: "handle_times (length ts) env ctx' (s\<lparr>world := world sa\<rparr>) = Some (map (\<lambda>_. SUBSTANCE_CONNECTOR_SUCCESS) ts, s1)"
      "ready fs s1" "inbound_messages (queues s1) = map (arrived ctx') ts" "calls s1 = calls s" by auto
  have "list_all deliverable (map (arrived ctx') ts)" using arrived_deliverable by (auto simp: list_all_iff)
  with woken_dispatcher_delivers [OF al s1(2) rcv(4)] s1(3) t obtain s2 where
    s2: "dispatch_steps (length ts + 2) env i DWoken d s1 = Some (DProcess NULL, d, s2)"
      "calls s2 = calls s1 @ concat (map (delivery fs) (map (arrived ctx') ts))"
    by (fastforce simp: numeral_eq_Suc)
  have "concat (map (delivery fs) (map (arrived ctx') ts)) = text_calls fs ctx' ts"
    by (simp add: text_calls_def comp_def case_prod_unfold flip: arrived_delivery)
  with s1(4) s2(2) have "calls s2 = calls s @ text_calls fs ctx' ts" by (simp only:)
  with sa(1) s1(1) s2(1) show ?thesis by (intro exI conjI)
qed

lemma written_texts_arrive:
  assumes "socket_link env pending" and "allocator_succeeds env"
    and "connector_module_state a = SUBSTANCE_CONNECTOR_STATE_INIT_FINISHED" and "wf_queues (queues (sys_part a))"
    and "outbound_messages (queues (sys_part a)) = []" and "established (sys_part a) ctx" and "pending (world (sys_part a)) = []"
    and "ts \<noteq> []" and "list_all (\<lambda>(type, b). text_ok b) ts"
    and "established s ctx'" and "ready fs s" and "inbound_messages (queues s) = []" and "dispatch_shutdown_code d = 0"
  shows "\<exists>a' sa s1 s2. write_texts env ctx ts a = Some (map (\<lambda>_. SUBSTANCE_CONNECTOR_SUCCESS) ts, a') \<and>
    write_steps (length ts + 2) env WWoken 0 (sys_part a') = Some (WSend NULL, sa) \<and>
    handle_times (length ts) env ctx' (s\<lparr>world := world sa\<rparr>) = Some (map (\<lambda>_. SUBSTANCE_CONNECTOR_SUCCESS) ts, s1) \<and>
    dispatch_steps (length ts + 2) env i DWoken d s1 = Some (DProcess NULL, d, s2) \<and>
    calls s2 = calls s @ text_calls fs ctx' ts"
proof -
  obtain a' where a': "write_texts env ctx ts a = Some (map (\<lambda>_. SUBSTANCE_CONNECTOR_SUCCESS) ts, a')"
    "wf_queues (queues (sys_part a'))" "outbound_messages (queues (sys_part a')) = outgoing_all ctx ts"
    "context_list (sys_part a') = context_list (sys_part a)" "pending (world (sys_part a')) = []"
    using write_texts_queue [OF assms(3,2,1,4,9), of ctx] assms(5,7) by auto
  have "established (sys_part a') ctx"
    using assms(6) a'(4) established_cong [of "sys_part a'" ctx "sys_part a"] by (simp add: get_context_def)
  from queued_texts_arrive [OF assms(1,2) a'(2,3) this a'(5) assms(8-13), of i] a'(1) show ?thesis by blast
qed

end
