(* ===== verification/Framework_Session.thy ===== *)
theory Framework_Session
  imports Framework_Core End_To_End
begin

text \<open>
  The C++ framework in use: its life cycle, what its callback does with a message, the
  applications and features it keeps while it is used in any order, and messages between
  two applications that use the framework.
\<close>

section \<open>Life cycle\<close>

text \<open>
  C10: the framework can be started and stopped. With idle applications registered and a
  clean library, \<open>init\<close> succeeds: every message type is bound to the callbacks of the
  application with the lowest address that handles it, and the callback of the framework is
  the one the library calls. \<open>shutdown\<close> then succeeds as well: all types are released, the
  objects are as they were before, nothing is registered any more, and the framework and the
  library are ready to be started again.
\<close>

theorem framework_life_cycle:
  assumes "allocator_succeeds env" and "framework_idle fw" and "length ident < 2 ^ 64 - 1"
  shows "\<exists>fw1 fw2. framework_init env name ident start_dispatch start_readers fw = Some (True, fw1) \<and>
    startupState fw1 = CONNECTOR_INITIALIZED \<and> registered (trampolines (sys_part (core fw1))) [cpp_trampoline] \<and>
    (\<forall>type. findCallbacks type (callbackMap fw1) = (case map_of (bound_callbacks fw) type of None \<Rightarrow> [] | Some cbs \<Rightarrow> cbs)) \<and>
    framework_shutdown env malloc free stop_writers stop_readers stop_dispatch fw1 = Some (True, fw2) \<and>
    framework_idle fw2 \<and> applications fw2 = {} \<and> featureLevel fw2 = [] \<and> app_store fw2 = app_store fw"
proof -
  obtain fw1 where i: "framework_init env name ident start_dispatch start_readers fw = Some (True, fw1)" "framework_running fw fw1"
    using framework_init_runs [OF assms] by blast
  have "startupState fw1 = CONNECTOR_INITIALIZED" "registered (trampolines (sys_part (core fw1))) [cpp_trampoline]"
    "\<forall>type. findCallbacks type (callbackMap fw1) = (case map_of (bound_callbacks fw) type of None \<Rightarrow> [] | Some cbs \<Rightarrow> cbs)"
    using i(2) by (simp_all add: framework_running_def settled_def Let_def findCallbacks_def)
  with i(1) framework_shutdown_ends [OF assms(2) i(2), of env malloc free] show ?thesis by blast
qed

text \<open>A framework with a system object and two objects that send meshes, on a fresh library.\<close>

definition sample_system :: application where
  "sample_system = new_System\<lparr>app_class := System None None (Some (Application_callback 7))\<rparr>"

definition sample_framework :: "(u8 list, nat) framework" where
  "sample_framework = \<lparr>applications = {10, 20, 30},
     app_store = [10 \<mapsto> sample_system, 20 \<mapsto> new_MeshApplication\<lparr>app_class := MeshApplication (Some (Application_callback 8)) None None None\<rparr>,
       30 \<mapsto> new_MeshApplication], startupState = CONNECTOR_SHUTDOWN, featureLevel = [sConnectionUpdateContextId],
     connectionDisplayName = [], connectionId = [], callbackMap = Map.empty, callback_calls = [],
     core = fresh_connector [] \<lparr>connector_memory_allocate = 0, connector_memory_free = 0\<rparr>\<rparr>"

lemma sample_framework_idle: "framework_idle sample_framework"
  using fresh_connector_clean
  by (auto simp: framework_idle_def sample_framework_def objects_ok_def sample_system_def new_System_def new_MeshApplication_def)

lemma sample_bound:
  "bound_callbacks sample_framework = class_callbacks (System None None (Some (Application_callback 7))) @
     class_callbacks (MeshApplication (Some (Application_callback 8)) None None None) @ class_callbacks (MeshApplication None None None None)"
  by (simp add: bound_callbacks_def sample_framework_def sample_system_def new_System_def new_MeshApplication_def)

theorem framework_life_cycle_witness:
  "\<exists>fw1 fw2. framework_init sample_os [97] [98] start_dispatch start_readers sample_framework = Some (True, fw1) \<and>
     findCallbacks sLoadMeshId (callbackMap fw1) = [Some (Application_callback 8)] \<and> findCallbacks sLoadSbsarId (callbackMap fw1) = [] \<and>
     framework_shutdown sample_os 0 0 stop_writers stop_readers stop_dispatch fw1 = Some (True, fw2) \<and> applications fw2 = {}"
proof -
  have "map_of (bound_callbacks sample_framework) sLoadMeshId = Some [Some (Application_callback 8)]"
    "map_of (bound_callbacks sample_framework) sLoadSbsarId = None"
    by (simp_all add: sample_bound message_types)
  moreover from framework_life_cycle [OF sample_os_allocator sample_framework_idle, of "[98]" "[97]" 0 0] obtain fw1 fw2 where
    "framework_init sample_os [97] [98] start_dispatch start_readers sample_framework = Some (True, fw1)"
    "\<forall>type. findCallbacks type (callbackMap fw1) = (case map_of (bound_callbacks sample_framework) type of None \<Rightarrow> [] | Some cbs \<Rightarrow> cbs)"
    "framework_shutdown sample_os 0 0 stop_writers stop_readers stop_dispatch fw1 = Some (True, fw2)" "applications fw2 = {}"
    by auto
  ultimately show ?thesis by auto
qed

section \<open>A failed initialisation\<close>

datatype 'f framework_call =
    Register "nat option"
  | Init std_string std_string "connector_thread list" "connector_thread list"
  | Shutdown 'f 'f "connector_thread list" "connector_thread list" "connector_thread list"

fun framework_step :: "'w os \<Rightarrow> 'f framework_call \<Rightarrow> ('w, 'f) framework \<Rightarrow> (bool \<times> ('w, 'f) framework) option" where
  "framework_step env (Register p) fw = registerApplication p fw"
| "framework_step env (Init name ident ds cs) fw = framework_init env name ident ds cs fw"
| "framework_step env (Shutdown malloc free ws rs ds) fw = framework_shutdown env malloc free ws rs ds fw"

fun framework_run :: "'w os \<Rightarrow> 'f framework_call list \<Rightarrow> ('w, 'f) framework \<Rightarrow> (bool list \<times> ('w, 'f) framework) option" where
  "framework_run env [] fw = Some ([], fw)"
| "framework_run env (x # xs) fw = do {
     (r, fw1) \<leftarrow> framework_step env x fw;
     (rs, fw2) \<leftarrow> framework_run env xs fw1;
     Some (r # rs, fw2) }"

lemma stuck_step:
  assumes "startupState fw = CONNECTOR_INIT_STARTED"
  shows "\<exists>fw'. framework_step env x fw = Some (False, fw') \<and> startupState fw' = CONNECTOR_INIT_STARTED"
  using assms
  by (cases x) (simp_all add: registerApplication_def framework_init_def framework_shutdown_def swap_startup_def)

lemma stuck_run:
  assumes "startupState fw = CONNECTOR_INIT_STARTED"
  shows "\<exists>fw'. framework_run env xs fw = Some (replicate (length xs) False, fw') \<and> startupState fw' = CONNECTOR_INIT_STARTED"
  using assms
proof (induction xs arbitrary: fw)
  case (Cons x xs)
  obtain fw1 where "framework_step env x fw = Some (False, fw1)" "startupState fw1 = CONNECTOR_INIT_STARTED"
    using stuck_step [OF Cons.prems] by blast
  with Cons.IH [of fw1] show ?case by auto
qed simp

text \<open>
  C39: an initialisation that fails locks the framework for good. When \<open>init\<close> is called on a
  framework that is shut down and the library refuses, \<open>init\<close> returns false and leaves its
  own state at \<open>INIT_STARTED\<close>: whatever is called afterwards, \<open>registerApplication\<close>, \<open>init\<close> and
  \<open>shutdown\<close> all return false, although the framework is not initialised.
\<close>

theorem failed_init_locks_framework:
  assumes "framework_init env name ident ds cs fw = Some (False, fw1)" and "startupState fw = CONNECTOR_SHUTDOWN"
    and "objects_ok fw"
  shows "\<exists>fw2. framework_run env xs fw1 = Some (replicate (length xs) False, fw2) \<and> startupState fw2 = CONNECTOR_INIT_STARTED"
proof -
  let ?fw0 = "fw\<lparr>connectionDisplayName := name, connectionId := ident, startupState := CONNECTOR_INIT_STARTED\<rparr>"
  have "objects_ok ?fw0" using assms(3) by (simp add: objects_ok_def)
  from framework_loops(1) [OF this] obtain fw2 where fw2: "framework_preInit ?fw0 = Some fw2" "startupState fw2 = CONNECTOR_INIT_STARTED"
    by auto
  have "startupState fw1 = CONNECTOR_INIT_STARTED"
    using assms(1,2) fw2 by (auto simp: framework_init_def swap_startup_def Option.bind_eq_Some_conv Let_def split: if_splits)
  then show ?thesis by (rule stuck_run)
qed

text \<open>The library is in session already when the framework is initialised.\<close>

theorem failed_init_locks_framework_witness:
  "\<exists>fw1 fw2. framework_init sample_os [97] [98] start_dispatch start_readers (sample_framework\<lparr>core :=
       (core sample_framework)\<lparr>connector_module_state := SUBSTANCE_CONNECTOR_STATE_INIT_FINISHED\<rparr>\<rparr>) = Some (False, fw1) \<and>
     framework_run sample_os [Register (Some 30), Shutdown 0 0 [] [] [], Init [97] [98] start_dispatch start_readers] fw1 =
       Some ([False, False, False], fw2)"
proof -
  let ?fw = "sample_framework\<lparr>core := (core sample_framework)\<lparr>connector_module_state := SUBSTANCE_CONNECTOR_STATE_INIT_FINISHED\<rparr>\<rparr>"
  have ok: "objects_ok ?fw" "startupState ?fw = CONNECTOR_SHUTDOWN"
    using sample_framework_idle by (simp_all add: framework_idle_def objects_ok_def)
  let ?fw1 = "?fw\<lparr>connectionDisplayName := [97], connectionId := [98], startupState := CONNECTOR_INIT_STARTED\<rparr>"
  have "objects_ok ?fw1" using ok by (simp add: objects_ok_def)
  from framework_loops(1) [OF this] obtain fw1 where i: "framework_init sample_os [97] [98] start_dispatch start_readers ?fw = Some (False, fw1)"
    using ok(2) by (auto simp: framework_init_def swap_startup_def substance_connector_init_def exchange_state_def
        CONNECTOR_ATOMIC_COMPARE_EXCHANGE_def)
  from failed_init_locks_framework [OF i ok(2,1), of "[Register (Some 30), Shutdown 0 0 [] [] [], Init [97] [98] start_dispatch start_readers]"]
  show ?thesis using i by (auto simp: numeral_eq_Suc)
qed

section \<open>Applications and features\<close>

text \<open>
  The framework used in any order: its calls, messages that arrive, and the application, which
  creates objects and sets the callbacks of those it has. An object that was created stays.
\<close>

inductive framework_reachable :: "'j jsoncpp \<Rightarrow> std_string \<Rightarrow> 'w os \<Rightarrow> ('w, 'f) framework \<Rightarrow> bool" for J version env where
  fresh: "framework_reachable J version env \<lparr>applications = {}, app_store = Map.empty, startupState = CONNECTOR_SHUTDOWN, featureLevel = [],
    connectionDisplayName = [], connectionId = [], callbackMap = Map.empty, callback_calls = [], core = c\<rparr>"
| entry: "framework_reachable J version env fw \<Longrightarrow> framework_step env x fw = Some (r, fw') \<Longrightarrow> framework_reachable J version env fw'"
| incoming: "framework_reachable J version env fw \<Longrightarrow> connector_cpp_trampoline J version env ctx type message fw = Some fw' \<Longrightarrow>
    framework_reachable J version env fw'"
| created: "framework_reachable J version env fw \<Longrightarrow> app_store fw p = None \<Longrightarrow>
    framework_reachable J version env (fw\<lparr>app_store := (app_store fw)(p \<mapsto> a)\<rparr>)"
| assigned: "framework_reachable J version env fw \<Longrightarrow> app_store fw p = Some a \<Longrightarrow>
    application_getFeatureIds cl = application_getFeatureIds (app_class a) \<Longrightarrow>
    framework_reachable J version env (fw\<lparr>app_store := (app_store fw)(p \<mapsto> a\<lparr>app_class := cl\<rparr>)\<rparr>)"
| library: "framework_reachable J version env fw \<Longrightarrow> framework_reachable J version env (fw\<lparr>core := c\<rparr>)"

definition object_features :: "('w, 'f) framework \<Rightarrow> nat \<Rightarrow> substance_connector_uuid list option" where
  "object_features fw p = map_option (\<lambda>a. application_getFeatureIds (app_class a)) (app_store fw p)"

definition features_listed :: "nat list \<Rightarrow> ('w, 'f) framework \<Rightarrow> bool" where
  "features_listed qs fw \<longleftrightarrow> distinct qs \<and> set qs = applications fw \<and>
     (\<forall>p \<in> set qs. object_features fw p \<noteq> None) \<and> featureLevel fw = concat (map (\<lambda>p. the (object_features fw p)) qs)"

lemma features_listed_cong:
  assumes "features_listed qs fw" "applications fw' = applications fw" "featureLevel fw' = featureLevel fw"
    and "\<And>p. p \<in> applications fw \<Longrightarrow> object_features fw' p = object_features fw p"
  shows "features_listed qs fw'"
proof -
  have "map (\<lambda>p. the (object_features fw' p)) qs = map (\<lambda>p. the (object_features fw p)) qs"
    using assms(1,4) by (intro map_cong) (auto simp: features_listed_def)
  with assms show ?thesis by (auto simp: features_listed_def simp del: map_eq_conv)
qed

lemma features_listed_objects: "features_listed qs fw \<Longrightarrow> objects_ok fw"
  using finite_set [of qs] by (fastforce simp: features_listed_def objects_ok_def object_features_def)

lemma object_features_mapped:
  "(\<And>a. app_class (g a) = app_class a) \<Longrightarrow> app_store fw' = map_objects g fw \<Longrightarrow> object_features fw' p = object_features fw p"
  by (cases "app_store fw p") (auto simp: object_features_def map_objects_def)

lemma register_features:
  assumes "features_listed qs fw" "registerApplication q fw = Some (r, fw')"
  shows "\<exists>qs'. features_listed qs' fw'"
proof (cases "\<exists>p. q = Some p \<and> p \<notin> applications fw \<and> startupState fw = CONNECTOR_SHUTDOWN")
  case True
  then obtain p where p: "q = Some p" "p \<notin> applications fw" "startupState fw = CONNECTOR_SHUTDOWN" by blast
  from assms(2) p obtain a where a: "app_store fw p = Some a"
    and fw': "fw' = fw\<lparr>applications := insert p (applications fw), featureLevel := featureLevel fw @ application_getFeatureIds (app_class a),
      startupState := CONNECTOR_SHUTDOWN\<rparr>"
    by (auto simp: registerApplication_def swap_startup_def Option.bind_eq_Some_conv)
  have "object_features fw' = object_features fw" by (simp add: fw' object_features_def fun_eq_iff)
  then have "features_listed (qs @ [p]) fw'"
    using assms(1) p(2) a by (auto simp: features_listed_def fw' object_features_def)
  then show ?thesis ..
next
  case False
  have "applications fw' = applications fw" "featureLevel fw' = featureLevel fw" "app_store fw' = app_store fw"
    using False assms(2) by (auto simp: registerApplication_def swap_startup_def split: option.splits if_splits)
  then have "features_listed qs fw'" by (intro features_listed_cong [OF assms(1)]) (simp_all add: object_features_def)
  then show ?thesis ..
qed

lemma init_features:
  assumes "features_listed qs fw" "framework_init env name ident ds cs fw = Some (r, fw')"
  shows "features_listed qs fw'"
proof -
  let ?fw1 = "fw\<lparr>connectionDisplayName := name, connectionId := ident, startupState := CONNECTOR_INIT_STARTED\<rparr>"
  have ok: "objects_ok ?fw1" using features_listed_objects [OF assms(1)] by (simp add: objects_ok_def)
  obtain m where m: "framework_preInit ?fw1 = Some (?fw1\<lparr>app_store := map_objects bound_object ?fw1, callbackMap := m\<rparr>)"
    using framework_loops(1) [OF ok] by blast
  have ok2: "objects_ok (?fw1\<lparr>app_store := map_objects bound_object ?fw1, callbackMap := m, core := c\<rparr>)" for c
    using ok by (auto simp: objects_ok_def map_objects_def)
  have "applications fw' = applications fw" "featureLevel fw' = featureLevel fw"
    "startupState fw = CONNECTOR_SHUTDOWN \<Longrightarrow> app_store fw' = map_objects bound_object ?fw1"
    "startupState fw \<noteq> CONNECTOR_SHUTDOWN \<Longrightarrow> app_store fw' = app_store fw"
    using assms(2) m framework_loops(2) [OF ok2]
    by (auto simp: framework_init_def swap_startup_def Option.bind_eq_Some_conv Let_def split: if_splits)
  moreover have "object_features ?fw1 = object_features fw" by (simp add: object_features_def fun_eq_iff)
  ultimately have "object_features fw' p = object_features fw p" for p
    using object_features_mapped [of bound_object fw' ?fw1 p]
    by (cases "startupState fw = CONNECTOR_SHUTDOWN") (simp_all add: bound_object_def object_features_def)
  with features_listed_cong [OF assms(1)] \<open>applications fw' = applications fw\<close> \<open>featureLevel fw' = featureLevel fw\<close> show ?thesis by blast
qed

lemma shutdown_features:
  assumes "features_listed qs fw" "framework_shutdown env malloc free ws rs ds fw = Some (r, fw')"
  shows "\<exists>qs'. features_listed qs' fw'"
proof (cases "startupState fw = CONNECTOR_INITIALIZED \<and> r")
  case True
  then have "applications fw' = {}" "featureLevel fw' = []"
    using assms(2) by (auto simp: framework_shutdown_def swap_startup_def Option.bind_eq_Some_conv Let_def split: if_splits)
  then show ?thesis by (intro exI [of _ "[]"]) (simp add: features_listed_def)
next
  case False
  let ?fw1 = "fw\<lparr>startupState := CONNECTOR_SHUTDOWN_STARTED\<rparr>"
  have "objects_ok ?fw1" using features_listed_objects [OF assms(1)] by (simp add: objects_ok_def)
  from framework_loops(4) [OF this] obtain m where
    m: "framework_preShutdown ?fw1 = Some (?fw1\<lparr>app_store := map_objects released_object ?fw1, callbackMap := m\<rparr>)" by blast
  have "applications fw' = applications fw \<and> featureLevel fw' = featureLevel fw \<and>
    (app_store fw' = map_objects released_object ?fw1 \<or> app_store fw' = app_store fw)"
    using assms(2) m False by (auto simp: framework_shutdown_def swap_startup_def Option.bind_eq_Some_conv Let_def split: if_splits)
  moreover from this have "object_features fw' p = object_features fw p" for p
    using object_features_mapped [of released_object fw' ?fw1 p] by (auto simp: released_object_def object_features_def)
  ultimately have "features_listed qs fw'" by (intro features_listed_cong [OF assms(1)]) simp_all
  then show ?thesis ..
qed

lemma callbacks_keep_objects:
  "call_callbacks J version env ctx type message cbs fw = Some fw' \<Longrightarrow>
    applications fw' = applications fw \<and> featureLevel fw' = featureLevel fw \<and> app_store fw' = app_store fw"
proof (induction cbs arbitrary: fw)
  case (Cons cb cbs)
  have "applications fw1 = applications fw \<and> featureLevel fw1 = featureLevel fw \<and> app_store fw1 = app_store fw"
    if "call_callback J version env ctx type message f fw = Some fw1" for f fw1
    using that by (cases f) (auto simp: connectionEstablished_def Option.bind_eq_Some_conv)
  with Cons show ?case by (auto simp: Option.bind_eq_Some_conv split: option.splits)
qed simp

lemma trampoline_keeps_objects:
  assumes "connector_cpp_trampoline J version env ctx type message fw = Some fw'"
  shows "applications fw' = applications fw \<and> featureLevel fw' = featureLevel fw \<and> app_store fw' = app_store fw"
proof (cases "findCallbacks type (callbackMap fw) = []")
  case True
  with assms show ?thesis by (simp add: connector_cpp_trampoline_def)
next
  case False
  with assms have "call_callbacks J version env ctx type message (findCallbacks type (callbackMap fw)) fw = Some fw'"
    by (simp add: connector_cpp_trampoline_def)
  then show ?thesis by (rule callbacks_keep_objects)
qed

lemma reachable_features: "framework_reachable J version env fw \<Longrightarrow> \<exists>qs. features_listed qs fw"
proof (induction rule: framework_reachable.induct)
  case (fresh c)
  show ?case by (intro exI [of _ "[]"]) (simp add: features_listed_def)
next
  case (entry fw x r fw')
  then obtain qs where qs: "features_listed qs fw" by blast
  with entry.hyps(2) show ?case
    by (cases x) (auto dest: register_features [OF qs] init_features [OF qs] shutdown_features [OF qs])
next
  case (incoming fw ctx type message fw')
  then obtain qs where qs: "features_listed qs fw" by blast
  have "features_listed qs fw'"
    using trampoline_keeps_objects [OF incoming.hyps(2)] by (intro features_listed_cong [OF qs]) (simp_all add: object_features_def)
  then show ?case ..
next
  case (created fw p a)
  then obtain qs where qs: "features_listed qs fw" by blast
  then have "p \<notin> applications fw" using created.hyps(2) by (fastforce simp: features_listed_def object_features_def)
  with qs have "features_listed qs (fw\<lparr>app_store := (app_store fw)(p \<mapsto> a)\<rparr>)"
    by (intro features_listed_cong [OF qs]) (auto simp: object_features_def)
  then show ?case ..
next
  case (assigned fw p a cl)
  then obtain qs where qs: "features_listed qs fw" by blast
  then have "features_listed qs (fw\<lparr>app_store := (app_store fw)(p \<mapsto> a\<lparr>app_class := cl\<rparr>)\<rparr>)"
    using assigned.hyps(2,3) by (intro features_listed_cong [OF qs]) (auto simp: object_features_def)
  then show ?case ..
next
  case (library fw c)
  then obtain qs where qs: "features_listed qs fw" by blast
  then have "features_listed qs (fw\<lparr>core := c\<rparr>)" by (intro features_listed_cong [OF qs]) (auto simp: object_features_def)
  then show ?case ..
qed



section \<open>Messages\<close>

text \<open>
  C15: a message is handed to exactly the callbacks bound to its type. In session the callback
  of the framework returns; the callbacks of the application that are bound to the type and
  set have each been called once, in their order, with the context, the type and the text of
  the message, and no other has; for each time the framework's own function is bound, one message
  with the context of this connection is queued for the sender, and nothing else is.
\<close>

theorem trampoline_calls_bound_callbacks:
  assumes "allocator_succeeds env" and "connector_module_state (core fw) = SUBSTANCE_CONNECTOR_STATE_INIT_FINISHED"
    and "wf_queues (queues (sys_part (core fw)))" and "length (getConnectionContext J version fw) < 2 ^ 64 - 1"
  shows "\<exists>fw'. connector_cpp_trampoline J version env ctx type message fw = Some fw' \<and>
    callback_calls fw' = callback_calls fw @ map (\<lambda>f. \<lparr>call_target = f, call_context = ctx, call_type = type, call_message = message\<rparr>)
      (application_callbacks (findCallbacks type (callbackMap fw))) \<and>
    outbound_messages (queues (sys_part (core fw'))) = outbound_messages (queues (sys_part (core fw))) @
      replicate (framework_callbacks (findCallbacks type (callbackMap fw)))
        (outgoing ctx sConnectionUpdateContextId (getConnectionContext J version fw @ [0])) \<and>
    callbackMap fw' = callbackMap fw \<and> applications fw' = applications fw \<and> startupState fw' = startupState fw"
proof -
  obtain fw' where t: "connector_cpp_trampoline J version env ctx type message fw = Some fw'"
    "callbacks_ran J version env ctx type message (findCallbacks type (callbackMap fw)) fw fw'"
    using trampoline_runs [OF assms(1), of J version fw ctx type message] assms(2-4) by (auto simp: can_answer_def)
  moreover have "callbackMap fw' = callbackMap fw" "applications fw' = applications fw" "startupState fw' = startupState fw"
    using t(2) by (cases fw; cases fw'; auto simp: callbacks_ran_def same_statics_def)+
  ultimately show ?thesis unfolding callbacks_ran_def by blast
qed

text \<open>The sample framework in session, with the callback of the framework registered.\<close>

definition sample_session :: "(u8 list, nat) framework" where
  "sample_session = sample_framework\<lparr>callbackMap := map_of (bound_callbacks sample_framework),
     core := (core sample_framework)\<lparr>connector_module_state := SUBSTANCE_CONNECTOR_STATE_INIT_FINISHED, sys_part := sample_dispatch_sys\<rparr>\<rparr>"

lemma sample_session_facts:
  "connector_module_state (core sample_session) = SUBSTANCE_CONNECTOR_STATE_INIT_FINISHED"
  "sys_part (core sample_session) = sample_dispatch_sys" "callback_calls sample_session = []"
  "findCallbacks sConnectionEstablishedId (callbackMap sample_session) = [Some System_connectionEstablished, None]"
  "findCallbacks sConnectionUpdateContextId (callbackMap sample_session) = [Some (Application_callback 7)]"
  "findCallbacks sLoadMeshId (callbackMap sample_session) = [Some (Application_callback 8)]"
  by (simp_all add: sample_session_def findCallbacks_def sample_bound message_types) (simp add: sample_framework_def)

lemma sample_dispatch_facts:
  "wf_queues (queues sample_dispatch_sys)" "outbound_messages (queues sample_dispatch_sys) = []"
  "established sample_dispatch_sys 0" "world sample_dispatch_sys = []" "calls sample_dispatch_sys = []"
proof -
  show "wf_queues (queues sample_dispatch_sys)" "outbound_messages (queues sample_dispatch_sys) = []"
    using sample_write_queues by (simp_all add: sample_dispatch_sys_def sample_write_sys_def)
  show "established sample_dispatch_sys 0" "world sample_dispatch_sys = []" "calls sample_dispatch_sys = []"
    by (simp_all add: established_def get_context_def sample_dispatch_sys_def connected_sys_def sample_context_def conn_defs comm_defs
        connection_type_def SUBSTANCE_CONNECTOR_CONTEXT_COUNT_def initial_sys_def)
qed

theorem trampoline_calls_bound_callbacks_witness:
  "\<exists>fw'. connector_cpp_trampoline (one_text JNull) [49] sample_os 0 sConnectionEstablishedId (OWNED [0]) sample_session = Some fw' \<and>
     callback_calls fw' = [] \<and>
     outbound_messages (queues (sys_part (core fw'))) = [outgoing 0 sConnectionUpdateContextId [91, 0]]"
proof -
  have t: "getConnectionContext (one_text JNull) [49] sample_session = [91]"
    by (simp add: getConnectionContext_def connection_schema_GetJsonString_def schema_text_def) (simp add: one_text_def)
  have a: "application_callbacks [Some System_connectionEstablished, None] = []" "framework_callbacks [Some System_connectionEstablished, None] = 1"
    by (simp_all add: application_callbacks_def framework_callbacks_def)
  from trampoline_calls_bound_callbacks [OF sample_os_allocator, of sample_session "one_text JNull" "[49]" 0 sConnectionEstablishedId "OWNED [0]"]
  show ?thesis by (auto simp: sample_session_facts sample_dispatch_facts t a)
qed

section \<open>From framework to framework\<close>

text \<open>
  A message in the outbound queue of one side is handed to the application callback of the other:
  by its write thread, the link, the read and the dispatch thread of the receiver, and the
  callback of the framework, which is called with what the dispatch thread passes on.
\<close>

definition callback_receives ::
    "'j jsoncpp \<Rightarrow> std_string \<Rightarrow> 'w os \<Rightarrow> 'w sys \<Rightarrow> u32 \<Rightarrow> dispatch_module \<Rightarrow> nat \<Rightarrow> ('w, 'f) framework \<Rightarrow> trampoline_call \<Rightarrow> bool" where
  "callback_receives J version env sx ctx d i fb call \<longleftrightarrow> (\<exists>sa s1 s2 fb' c.
     write_steps 3 env WWoken 0 sx = Some (WSend NULL, sa) \<and>
     handle_times 1 env ctx ((sys_part (core fb))\<lparr>world := world sa\<rparr>) = Some ([SUBSTANCE_CONNECTOR_SUCCESS], s1) \<and>
     dispatch_steps 3 env i DWoken d s1 = Some (DProcess NULL, d, s2) \<and>
     calls s2 = calls (sys_part (core fb)) @ [c] \<and> call_target c = cpp_trampoline \<and>
     connector_cpp_trampoline J version env (call_context c) (call_type c) (call_message c)
       (fb\<lparr>core := (core fb)\<lparr>sys_part := s2\<rparr>\<rparr>) = Some fb' \<and>
     callback_calls fb' = callback_calls fb @ [call])"

lemma queued_message_received:
  assumes link: "socket_link env pending" "allocator_succeeds env"
    and snd: "wf_queues (queues sx)" "outbound_messages (queues sx) = [outgoing ctx type b]" "established sx ctx" "pending (world sx) = []"
      "text_ok b"
    and rcv: "established (sys_part (core fb)) ctx'" "ready [cpp_trampoline] (sys_part (core fb))"
      "inbound_messages (queues (sys_part (core fb))) = []" "dispatch_shutdown_code d = 0"
      "findCallbacks type (callbackMap fb) = [Some (Application_callback f)]"
  shows "callback_receives J version env sx ctx' d i fb
    \<lparr>call_target = f, call_context = ctx', call_type = type, call_message = OWNED (c_string (cstr b))\<rparr>"
proof -
  have out: "outbound_messages (queues sx) = outgoing_all ctx [(type, b)]" "[(type, b)] \<noteq> []" "list_all (\<lambda>(type, b). text_ok b) [(type, b)]"
    using snd(2,5) by simp_all
  obtain sa s1 s2 where s: "write_steps 3 env WWoken 0 sx = Some (WSend NULL, sa)"
    "handle_times 1 env ctx' ((sys_part (core fb))\<lparr>world := world sa\<rparr>) = Some ([SUBSTANCE_CONNECTOR_SUCCESS], s1)"
    "dispatch_steps 3 env i DWoken d s1 = Some (DProcess NULL, d, s2)"
    "calls s2 = calls (sys_part (core fb)) @ text_calls [cpp_trampoline] ctx' [(type, b)]"
    using queued_texts_arrive [OF link snd(1) out(1) snd(3,4) out(2,3) rcv(1-4), of i] by (auto simp: numeral_eq_Suc)
  let ?c = "\<lparr>call_target = cpp_trampoline, call_context = ctx', call_type = type, call_message = OWNED (c_string (cstr b))\<rparr>"
  let ?call = "\<lparr>call_target = f, call_context = ctx', call_type = type, call_message = OWNED (c_string (cstr b))\<rparr>"
  let ?fb = "fb\<lparr>core := (core fb)\<lparr>sys_part := s2\<rparr>\<rparr>"
  have "connector_cpp_trampoline J version env ctx' type (OWNED (c_string (cstr b))) ?fb =
      Some (?fb\<lparr>callback_calls := callback_calls fb @ [?call]\<rparr>)"
    using rcv(5) by (simp add: connector_cpp_trampoline_def)
  moreover have "calls s2 = calls (sys_part (core fb)) @ [?c]" using s(4) by (simp add: text_calls_def)
  ultimately show ?thesis unfolding callback_receives_def
    by (intro exI [of _ sa] exI [of _ s1] exI [of _ s2] exI [of _ "?fb\<lparr>callback_calls := callback_calls fb @ [?call]\<rparr>"] exI [of _ ?c])
      (use s(1-3) in simp)
qed

lemma cstr_of_text: "0 \<notin> set s \<Longrightarrow> cstr (s @ [0]) = s"
  unfolding cstr_def by (subst takeWhile_append2) auto

lemma text_ok_of_text: "length s < 2 ^ 31 \<Longrightarrow> text_ok (s @ [0])"
  by (simp add: text_ok_def)

text \<open>
  C4: applications learn of each other. When the library tells the framework on one side that
  a connection was established, and the other side has a callback for the context of a
  connection, that callback is called on the established context with a text from which the
  schema reads exactly the display name, the identifier, the version and the features of the
  first side.
\<close>

theorem connection_context_received:
  assumes "socket_link env pending" and "allocator_succeeds env" and "json_laws J"
    and "connector_module_state (core fa) = SUBSTANCE_CONNECTOR_STATE_INIT_FINISHED" and "wf_queues (queues (sys_part (core fa)))"
    and "outbound_messages (queues (sys_part (core fa))) = []" and "established (sys_part (core fa)) ctx"
    and "pending (world (sys_part (core fa))) = []"
    and "findCallbacks sConnectionEstablishedId (callbackMap fa) = [Some System_connectionEstablished, user]"
    and "user \<noteq> Some System_connectionEstablished"
    and "reads_back J (connection_schema_Serialize J \<lparr>display_name = connectionDisplayName fa, id_name = connectionId fa,
      connector_version = version, available_features = featureLevel fa\<rparr> (j_null J))" and "0 \<notin> set (getConnectionContext J version fa)"
    and "established (sys_part (core fb)) ctx'" and "ready [cpp_trampoline] (sys_part (core fb))"
    and "inbound_messages (queues (sys_part (core fb))) = []" and "dispatch_shutdown_code d = 0"
    and "findCallbacks sConnectionUpdateContextId (callbackMap fb) = [Some (Application_callback f)]"
  shows "\<exists>fa' text. connector_cpp_trampoline J version env ctx sConnectionEstablishedId message fa = Some fa' \<and>
    callback_receives J version' env (sys_part (core fa')) ctx' d i fb
      \<lparr>call_target = f, call_context = ctx', call_type = sConnectionUpdateContextId, call_message = OWNED (c_string text)\<rparr> \<and>
    connection_schema_DeserializeText J text y = Some \<lparr>display_name = connectionDisplayName fa, id_name = connectionId fa,
      connector_version = version, available_features = featureLevel fa\<rparr>"
proof -
  let ?x = "\<lparr>display_name = connectionDisplayName fa, id_name = connectionId fa, connector_version = version,
    available_features = featureLevel fa\<rparr>" and ?t = "getConnectionContext J version fa"
  have t: "?t = connection_schema_GetJsonString J ?x" by (simp add: getConnectionContext_def)
  then have len: "length ?t < 2 ^ 31"
    using assms(11) by (simp add: connection_schema_GetJsonString_def schema_text_def reads_back_def)
  then have "can_answer J version fa" using assms(4,5) by (simp add: can_answer_def)
  from trampoline_runs [OF assms(2) this, of ctx sConnectionEstablishedId message] obtain fa' where
    fa': "connector_cpp_trampoline J version env ctx sConnectionEstablishedId message fa = Some fa'"
      "callbacks_ran J version env ctx sConnectionEstablishedId message [Some System_connectionEstablished, user] fa fa'"
    unfolding assms(9) by blast
  have "framework_callbacks [Some System_connectionEstablished, user] = 1" using assms(10) by (simp add: framework_callbacks_def)
  with fa'(2) assms(1,6,8) have q: "wf_queues (queues (sys_part (core fa')))" "pending (world (sys_part (core fa'))) = []"
    "outbound_messages (queues (sys_part (core fa'))) = [outgoing ctx sConnectionUpdateContextId (?t @ [0])]"
    "context_list (sys_part (core fa')) = context_list (sys_part (core fa))"
    unfolding callbacks_ran_def same_statics_def by auto
  have est: "established (sys_part (core fa')) ctx"
    using assms(7) q(4) established_cong [of "sys_part (core fa')" ctx "sys_part (core fa)"] by (simp add: get_context_def)
  have "callback_receives J version' env (sys_part (core fa')) ctx' d i fb
      \<lparr>call_target = f, call_context = ctx', call_type = sConnectionUpdateContextId, call_message = OWNED (c_string ?t)\<rparr>"
    using queued_message_received [OF assms(1,2) q(1,3) est q(2) text_ok_of_text [OF len] assms(13-17)] cstr_of_text [OF assms(12)] by simp
  with fa'(1) connection_text_round_trip [OF assms(3,11), of y] t show ?thesis by auto
qed

theorem connection_context_received_witness:
  "\<exists>(J :: json_tree jsoncpp) fa' text. connector_cpp_trampoline J [49] sample_os 0 sConnectionEstablishedId (OWNED [0]) sample_session = Some fa' \<and>
     callback_receives J [50] sample_os (sys_part (core fa')) 0 sample_dispatch 0 sample_session
       \<lparr>call_target = 7, call_context = 0, call_type = sConnectionUpdateContextId, call_message = OWNED (c_string text)\<rparr> \<and>
     connection_schema_DeserializeText J text \<lparr>display_name = [1], id_name = [2], connector_version = [], available_features = []\<rparr> =
       Some \<lparr>display_name = [], id_name = [], connector_version = [49], available_features = [sConnectionUpdateContextId]\<rparr>"
proof -
  let ?x = "\<lparr>display_name = [], id_name = [], connector_version = [49], available_features = [sConnectionUpdateContextId]\<rparr>"
  let ?J = "one_text (connection_schema_Serialize json_trees ?x JNull)"
  have x: "\<lparr>display_name = connectionDisplayName sample_session, id_name = connectionId sample_session, connector_version = [49],
    available_features = featureLevel sample_session\<rparr> = ?x" by (simp add: sample_session_def sample_framework_def)
  have r: "reads_back ?J (connection_schema_Serialize ?J ?x (j_null ?J))"
    by (simp add: reads_back_def one_text_serialize) (simp add: one_text_def)
  have z: "0 \<notin> set (getConnectionContext ?J [49] sample_session)"
    by (simp add: getConnectionContext_def connection_schema_GetJsonString_def schema_text_def) (simp add: one_text_def)
  have d: "dispatch_shutdown_code sample_dispatch = 0" "ready [cpp_trampoline] sample_dispatch_sys"
    "world (sys_part (core sample_session)) = []"
    using sample_ready by (simp_all add: sample_dispatch_def cpp_trampoline_def sample_session_facts sample_dispatch_facts)
  show ?thesis
    using connection_context_received [OF sample_socket_link sample_os_allocator one_text_laws, where fa = sample_session and ctx = 0 and user = None and version = "[49]" and
        fb = sample_session and ctx' = 0 and d = sample_dispatch and f = 7 and message = "OWNED [0]" and version' = "[50]" and i = 0] r z d sample_ready(2)
    by (simp add: sample_session_facts sample_dispatch_facts x) blast
qed

text \<open>
  C16: an asset reaches the other application. When one side sends it with \<open>sendLoadMesh\<close> and
  the other has set a callback for meshes, that callback is called with a text from which the
  schema reads exactly the path, the name, the identifier, the type and the ownership that
  were sent.
\<close>

theorem asset_received:
  assumes "socket_link env pending" and "allocator_succeeds env" and "json_laws J"
    and "connector_module_state a = SUBSTANCE_CONNECTOR_STATE_INIT_FINISHED" and "wf_queues (queues (sys_part a))"
    and "outbound_messages (queues (sys_part a)) = []" and "established (sys_part a) ctx" and "pending (world (sys_part a)) = []"
    and "reads_back J (send_to_schema_Serialize J x (j_null J))" and "0 \<notin> set (send_to_schema_GetJsonString J x)"
    and "established (sys_part (core fb)) ctx'" and "ready [cpp_trampoline] (sys_part (core fb))"
    and "inbound_messages (queues (sys_part (core fb))) = []" and "dispatch_shutdown_code d = 0"
    and "findCallbacks sLoadMeshId (callbackMap fb) = [Some (Application_callback f)]"
  shows "\<exists>a' text. sendLoadMesh J env ctx x a = Some a' \<and>
    callback_receives J version env (sys_part a') ctx' d i fb
      \<lparr>call_target = f, call_context = ctx', call_type = sLoadMeshId, call_message = OWNED (c_string text)\<rparr> \<and>
    send_to_schema_DeserializeText J text y = Some x"
proof -
  let ?t = "send_to_schema_GetJsonString J x"
  have len: "length ?t < 2 ^ 31" using assms(9) by (simp add: send_to_schema_GetJsonString_def schema_text_def reads_back_def)
  then have l: "length ?t < 2 ^ 64 - 1" by simp
  from send_message_queues [OF assms(4,2,5) l, of ctx sLoadMeshId] obtain q w where
    s: "send_message env ctx sLoadMeshId (c_str ?t) a = Some (a\<lparr>sys_part := signal WakeWrite ((sys_part a)\<lparr>queues := q, world := w\<rparr>)\<rparr>)"
    and q: "wf_queues q" "outbound_messages q = outbound_messages (queues (sys_part a)) @ [outgoing ctx sLoadMeshId (?t @ [0])]"
      "\<forall>pending. socket_link env pending \<longrightarrow> pending w = pending (world (sys_part a))" by blast
  let ?s = "signal WakeWrite ((sys_part a)\<lparr>queues := q, world := w\<rparr>)"
  have e: "sendLoadMesh J env ctx x a = Some (a\<lparr>sys_part := ?s\<rparr>)"
    using s by (simp add: sendLoadMesh_def sendLoadMesh_text_def send_to_schema_GetJsonString_def schema_text_def)
  have sx: "wf_queues (queues ?s)" "outbound_messages (queues ?s) = [outgoing ctx sLoadMeshId (?t @ [0])]" "established ?s ctx"
    "pending (world ?s) = []"
    using q(1,2) q(3) [rule_format, OF assms(1)] assms(6-8) established_cong [of ?s ctx "sys_part a"] by (simp_all add: get_context_def)
  have "callback_receives J version env ?s ctx' d i fb
      \<lparr>call_target = f, call_context = ctx', call_type = sLoadMeshId, call_message = OWNED (c_string ?t)\<rparr>"
    using queued_message_received [OF assms(1,2) sx text_ok_of_text [OF len] assms(11-15)] cstr_of_text [OF assms(10)] by simp
  with e send_to_schema_round_trip [OF assms(3,9), of y] show ?thesis by auto
qed

theorem asset_received_witness:
  "\<exists>(J :: json_tree jsoncpp) a' text. sendLoadMesh J sample_os 0
       \<lparr>take_file_ownership = True, st_path = [47, 97], st_name = [97], st_uuid = [], st_type = [109]\<rparr> (core sample_session) = Some a' \<and>
     callback_receives J [50] sample_os (sys_part a') 0 sample_dispatch 0 sample_session
       \<lparr>call_target = 8, call_context = 0, call_type = sLoadMeshId, call_message = OWNED (c_string text)\<rparr> \<and>
     send_to_schema_DeserializeText J text \<lparr>take_file_ownership = False, st_path = [], st_name = [], st_uuid = [1], st_type = []\<rparr> =
       Some \<lparr>take_file_ownership = True, st_path = [47, 97], st_name = [97], st_uuid = [], st_type = [109]\<rparr>"
proof -
  let ?x = "\<lparr>take_file_ownership = True, st_path = [47, 97], st_name = [97], st_uuid = [], st_type = [109]\<rparr>"
  let ?J = "one_text (send_to_schema_Serialize json_trees ?x JNull)"
  have s: "send_to_schema_Serialize (one_text v) x r = send_to_schema_Serialize json_trees x r" for v x r
    by (simp only: send_to_schema_Serialize_def one_text_calls)
  have b: "reads_back ?J (send_to_schema_Serialize ?J ?x (j_null ?J))"
    by (simp add: reads_back_def s one_text_serialize) (simp add: one_text_def)
  have z: "0 \<notin> set (send_to_schema_GetJsonString ?J ?x)"
    by (simp add: send_to_schema_GetJsonString_def schema_text_def) (simp add: one_text_def)
  have d: "dispatch_shutdown_code sample_dispatch = 0" "ready [cpp_trampoline] sample_dispatch_sys" "inbound_messages (queues sample_dispatch_sys) = []"
    using sample_ready by (simp_all add: sample_dispatch_def cpp_trampoline_def)
  note facts = sample_session_facts sample_dispatch_facts d
  show ?thesis
    by (rule exI [of _ ?J], rule asset_received [OF sample_socket_link sample_os_allocator one_text_laws _ _ _ _ _ b z])
      (simp_all add: facts)
qed

end
