(* ===== verification/Qt_Module.thy ===== *)
theory Qt_Module
  imports Framework_Session "HOL-Library.Multiset"
begin

text \<open>
  The Qt module (\<^verbatim>\<open>src/module-qt\<close>): objects that own an application of the framework, of which one
  per class is active, the static functions that turn messages into signals of the active
  object, and the module object that passes its calls on. Strings of Qt are a parameter: the
  conversions from and to UTF-8.
\<close>

section \<open>State\<close>

record 's qt_text =
  fromUtf8 :: "u8 list \<Rightarrow> 's"
  toUtf8 :: "'s \<Rightarrow> u8 list"

text \<open>The static functions of the module, and the number under which the framework knows each.\<close>

datatype qt_callback =
    recvConnectionEstablishedCallback
  | recvConnectionClosedCallback
  | updateConnectionContextCallback
  | recvLoadMeshCallback
  | recvRequestMeshConfigCallback
  | recvMeshConfigCallback
  | recvLoadSbsarCallback
  | recvUpdateSbsarCallback

definition qt_callbacks :: "qt_callback list" where
  "qt_callbacks = [recvConnectionEstablishedCallback, recvConnectionClosedCallback, updateConnectionContextCallback, recvLoadMeshCallback,
     recvRequestMeshConfigCallback, recvMeshConfigCallback, recvLoadSbsarCallback, recvUpdateSbsarCallback]"

definition callback_at :: "nat \<Rightarrow> qt_callback option" where
  "callback_at n = (if n < length qt_callbacks then Some (qt_callbacks ! n) else None)"

definition pointer_to :: "qt_callback \<Rightarrow> MessageCallback" where
  "pointer_to cb = Some (Application_callback (length (takeWhile (\<lambda>c. c \<noteq> cb) qt_callbacks)))"

datatype qt_signal =
    recvConnectionEstablished
  | recvConnectionClosed
  | updateConnectionContext
  | recvLoadMesh
  | requestMeshConfigReceived
  | recvMeshExportConfig
  | recvLoadSbsar
  | recvUpdateSbsar

record 's emission =
  em_object :: nat
  em_signal :: qt_signal
  em_context :: u32
  em_message :: 's

text \<open>
  The active object of each class, the framework application an object owns, and the signals
  that were emitted, oldest first.
\<close>

record ('w, 'f, 's) qt_module =
  system_instance :: "nat option"
  mesh_instance :: "nat option"
  sbsar_instance :: "nat option"
  mApplication :: "nat \<rightharpoonup> nat"
  emitted :: "'s emission list"
  qt_framework :: "('w, 'f) framework"

section \<open>Signals\<close>

text \<open>\<^verbatim>\<open>QString(message)\<close>: the bytes up to the terminator; a null pointer gives an empty string.\<close>

definition QString :: "'s qt_text \<Rightarrow> u8 list cptr \<Rightarrow> 's" where
  "QString T message = fromUtf8 T (case deref message of None \<Rightarrow> [] | Some b \<Rightarrow> cstr b)"

definition emit :: "'s qt_text \<Rightarrow> nat option \<Rightarrow> qt_signal \<Rightarrow> u32 \<Rightarrow> u8 list cptr \<Rightarrow> ('w, 'f, 's) qt_module \<Rightarrow> ('w, 'f, 's) qt_module" where
  "emit T inst sig context message q =
     (case inst of
        None \<Rightarrow> q
      | Some this \<Rightarrow> q\<lparr>emitted := emitted q @ [\<lparr>em_object = this, em_signal = sig, em_context = context, em_message = QString T message\<rparr>]\<rparr>)"

definition qt_recvConnectionEstablishedCallback where
  "qt_recvConnectionEstablishedCallback T context message q = emit T (system_instance q) recvConnectionEstablished context message q"

definition qt_recvConnectionClosedCallback where
  "qt_recvConnectionClosedCallback T context message q = emit T (system_instance q) recvConnectionClosed context message q"

definition qt_updateConnectionContextCallback where
  "qt_updateConnectionContextCallback T context message q = emit T (system_instance q) updateConnectionContext context message q"

definition qt_recvLoadMeshCallback where
  "qt_recvLoadMeshCallback T context message q = emit T (mesh_instance q) recvLoadMesh context message q"

definition qt_recvRequestMeshConfigCallback where
  "qt_recvRequestMeshConfigCallback T context message q = emit T (mesh_instance q) requestMeshConfigReceived context message q"

definition qt_recvMeshConfigCallback where
  "qt_recvMeshConfigCallback T context message q = emit T (mesh_instance q) recvMeshExportConfig context message q"

definition qt_recvLoadSbsarCallback where
  "qt_recvLoadSbsarCallback T context message q = emit T (sbsar_instance q) recvLoadSbsar context message q"

definition qt_recvUpdateSbsarCallback where
  "qt_recvUpdateSbsarCallback T context message q = emit T (sbsar_instance q) recvUpdateSbsar context message q"

lemmas qt_callback_defs = qt_recvConnectionEstablishedCallback_def qt_recvConnectionClosedCallback_def qt_updateConnectionContextCallback_def qt_recvLoadMeshCallback_def
  qt_recvRequestMeshConfigCallback_def qt_recvMeshConfigCallback_def qt_recvLoadSbsarCallback_def qt_recvUpdateSbsarCallback_def

text \<open>A call through a pointer to one of them.\<close>

fun run_qt_callback ::
    "'s qt_text \<Rightarrow> qt_callback \<Rightarrow> u32 \<Rightarrow> u8 list cptr \<Rightarrow> ('w, 'f, 's) qt_module \<Rightarrow> ('w, 'f, 's) qt_module" where
  "run_qt_callback T recvConnectionEstablishedCallback = qt_recvConnectionEstablishedCallback T"
| "run_qt_callback T recvConnectionClosedCallback = qt_recvConnectionClosedCallback T"
| "run_qt_callback T updateConnectionContextCallback = qt_updateConnectionContextCallback T"
| "run_qt_callback T recvLoadMeshCallback = qt_recvLoadMeshCallback T"
| "run_qt_callback T recvRequestMeshConfigCallback = qt_recvRequestMeshConfigCallback T"
| "run_qt_callback T recvMeshConfigCallback = qt_recvMeshConfigCallback T"
| "run_qt_callback T recvLoadSbsarCallback = qt_recvLoadSbsarCallback T"
| "run_qt_callback T recvUpdateSbsarCallback = qt_recvUpdateSbsarCallback T"

text \<open>
  A message that arrives: the framework calls its callbacks, and each call of a function of this
  module emits its signal. The functions only touch the state of the module, the
  framework only its own, so that the signals may be taken after the calls.
\<close>

definition run_call :: "'s qt_text \<Rightarrow> trampoline_call \<Rightarrow> ('w, 'f, 's) qt_module \<Rightarrow> ('w, 'f, 's) qt_module" where
  "run_call T call q = (case callback_at (call_target call) of
     None \<Rightarrow> q | Some cb \<Rightarrow> run_qt_callback T cb (call_context call) (call_message call) q)"

definition qt_message ::
    "'s qt_text \<Rightarrow> 'j jsoncpp \<Rightarrow> std_string \<Rightarrow> 'w os \<Rightarrow> u32 \<Rightarrow> substance_connector_uuid \<Rightarrow> u8 list cptr \<Rightarrow>
      ('w, 'f, 's) qt_module \<Rightarrow> ('w, 'f, 's) qt_module option" where
  "qt_message T J version env context type message q = do {
     fw \<leftarrow> connector_cpp_trampoline J version env context type message (qt_framework q);
     Some (fold (run_call T) (drop (length (callback_calls (qt_framework q))) (callback_calls fw)) (q\<lparr>qt_framework := fw\<rparr>)) }"

section \<open>Objects\<close>

text \<open>Assignment to the \<^verbatim>\<open>std::unique_ptr\<close> of an object: the application it owned is destroyed.\<close>

definition assign_application :: "nat \<Rightarrow> (nat \<times> application) option \<Rightarrow> ('w, 'f, 's) qt_module \<Rightarrow> ('w, 'f, 's) qt_module" where
  "assign_application this new q =
     (let fw = qt_framework q;
          store = (case mApplication q this of None \<Rightarrow> app_store fw | Some p \<Rightarrow> (app_store fw)(p := None))
      in case new of
           None \<Rightarrow> q\<lparr>mApplication := (mApplication q)(this := None), qt_framework := fw\<lparr>app_store := store\<rparr>\<rparr>
         | Some (p, a) \<Rightarrow> q\<lparr>mApplication := (mApplication q)(this \<mapsto> p), qt_framework := fw\<lparr>app_store := store(p \<mapsto> a)\<rparr>\<rparr>)"

text \<open>The address \<open>p\<close> is the one \<^verbatim>\<open>std::make_unique\<close> returns.\<close>

definition ConnectorSystem_initialize :: "nat \<Rightarrow> nat \<Rightarrow> ('w, 'f, 's) qt_module \<Rightarrow> ('w, 'f, 's) qt_module" where
  "ConnectorSystem_initialize this p q =
     (if system_instance q = None then
        assign_application this (Some (p, new_System\<lparr>app_class := System (pointer_to recvConnectionEstablishedCallback)
          (pointer_to recvConnectionClosedCallback) (pointer_to updateConnectionContextCallback)\<rparr>)) (q\<lparr>system_instance := Some this\<rparr>)
      else q)"

definition ConnectorSystem_shutdown :: "nat \<Rightarrow> ('w, 'f, 's) qt_module \<Rightarrow> ('w, 'f, 's) qt_module" where
  "ConnectorSystem_shutdown this q =
     (if system_instance q = Some this then (assign_application this None q)\<lparr>system_instance := None\<rparr> else q)"

text \<open>The callback for updates of a mesh is left unset.\<close>

definition Mesh_initialize :: "nat \<Rightarrow> nat \<Rightarrow> ('w, 'f, 's) qt_module \<Rightarrow> ('w, 'f, 's) qt_module" where
  "Mesh_initialize this p q =
     (if mesh_instance q = None then
        assign_application this (Some (p, new_MeshApplication\<lparr>app_class := MeshApplication (pointer_to recvLoadMeshCallback) None
          (pointer_to recvMeshConfigCallback) (pointer_to recvRequestMeshConfigCallback)\<rparr>)) (q\<lparr>mesh_instance := Some this\<rparr>)
      else q)"

definition Mesh_shutdown :: "nat \<Rightarrow> ('w, 'f, 's) qt_module \<Rightarrow> ('w, 'f, 's) qt_module" where
  "Mesh_shutdown this q =
     (if mesh_instance q = Some this then (assign_application this None q)\<lparr>mesh_instance := None\<rparr> else q)"

definition Sbsar_initialize :: "nat \<Rightarrow> nat \<Rightarrow> ('w, 'f, 's) qt_module \<Rightarrow> ('w, 'f, 's) qt_module" where
  "Sbsar_initialize this p q =
     (if sbsar_instance q = None then
        assign_application this (Some (p, new_SbsarApplication\<lparr>app_class := SbsarApplication (pointer_to recvLoadSbsarCallback)
          (pointer_to recvUpdateSbsarCallback)\<rparr>)) (q\<lparr>sbsar_instance := Some this\<rparr>)
      else q)"

definition Sbsar_shutdown :: "nat \<Rightarrow> ('w, 'f, 's) qt_module \<Rightarrow> ('w, 'f, 's) qt_module" where
  "Sbsar_shutdown this q =
     (if sbsar_instance q = Some this then (assign_application this None q)\<lparr>sbsar_instance := None\<rparr> else q)"

section \<open>Sending\<close>

text \<open>An object without an application sends nothing.\<close>

definition with_application ::
    "nat \<Rightarrow> (('w, 'f) connector \<Rightarrow> ('w, 'f) connector option) \<Rightarrow> ('w, 'f, 's) qt_module \<Rightarrow> ('w, 'f, 's) qt_module option" where
  "with_application this f q =
     (case mApplication q this of
        None \<Rightarrow> Some q
      | Some p \<Rightarrow> do { c \<leftarrow> f (core (qt_framework q)); Some (q\<lparr>qt_framework := (qt_framework q)\<lparr>core := c\<rparr>\<rparr>) })"

definition constData :: "'s qt_text \<Rightarrow> 's \<Rightarrow> u8 list cptr" where
  "constData T s = BORROWED (toUtf8 T s @ [0])"

definition qt_sendLoadMesh_text where
  "qt_sendLoadMesh_text T env this context message q =
     with_application this (sendLoadMesh_text env context (constData T message)) q"

definition qt_sendLoadMesh where
  "qt_sendLoadMesh J env this context schema q = with_application this (sendLoadMesh J env context schema) q"

definition qt_sendRequestMeshConfig_text where
  "qt_sendRequestMeshConfig_text T env this context message q =
     with_application this (sendRequestMeshConfig_text env context (constData T message)) q"

definition qt_sendRequestMeshConfig where
  "qt_sendRequestMeshConfig J env this context schema q = with_application this (sendRequestMeshConfig J env context schema) q"

definition qt_sendMeshExportConfig_text where
  "qt_sendMeshExportConfig_text T env this context message q =
     with_application this (sendMeshExportConfig_text env context (constData T message)) q"

definition qt_sendMeshExportConfig where
  "qt_sendMeshExportConfig J env this context schema q = with_application this (sendMeshExportConfig J env context schema) q"

definition qt_sendLoadSbsar where
  "qt_sendLoadSbsar J env this context schema q = with_application this (sendLoadSbsar J env context schema) q"

definition qt_sendLoadSbsar_text where
  "qt_sendLoadSbsar_text T env this context message q =
     with_application this (sendLoadSbsar_text env context (constData T message)) q"

section \<open>The module object\<close>

definition on_framework ::
    "(('w, 'f) framework \<Rightarrow> (bool \<times> ('w, 'f) framework) option) \<Rightarrow> ('w, 'f, 's) qt_module \<Rightarrow> (bool \<times> ('w, 'f, 's) qt_module) option" where
  "on_framework f q = do { (r, fw) \<leftarrow> f (qt_framework q); Some (r, q\<lparr>qt_framework := fw\<rparr>) }"

definition on_framework_out ::
    "(('w, 'f) framework \<Rightarrow> (bool \<times> u32 option \<times> ('w, 'f) framework) option) \<Rightarrow> ('w, 'f, 's) qt_module \<Rightarrow>
      (bool \<times> u32 option \<times> ('w, 'f, 's) qt_module) option" where
  "on_framework_out f q = do { (r, v, fw) \<leftarrow> f (qt_framework q); Some (r, v, q\<lparr>qt_framework := fw\<rparr>) }"

definition ConnectorModule_init where
  "ConnectorModule_init env applicationName dsched csched q =
     on_framework (framework_init_same_name env applicationName dsched csched) q"

definition ConnectorModule_shutdown where
  "ConnectorModule_shutdown env malloc free wsched rsched dsched q =
     on_framework (framework_shutdown env malloc free wsched rsched dsched) q"

definition ConnectorModule_registerApplication :: "nat \<Rightarrow> ('w, 'f, 's) qt_module \<Rightarrow> (bool \<times> ('w, 'f, 's) qt_module) option" where
  "ConnectorModule_registerApplication this q = on_framework (registerApplication (mApplication q this)) q"

definition ConnectorModule_openTcpConnection where
  "ConnectorModule_openTcpConnection env port want q = on_framework_out (openTcpConnection env port want) q"

definition ConnectorModule_openDefaultTcp where
  "ConnectorModule_openDefaultTcp env want q = on_framework_out (openDefaultTcp env want) q"

definition ConnectorModule_broadcastTcp where
  "ConnectorModule_broadcastTcp env q = on_framework (broadcastTcp env) q"

section \<open>An application that uses all objects\<close>

text \<open>Three objects are initialised and registered, then the module is initialised; the last three arguments are the addresses of their applications.\<close>

definition qt_start ::
    "'w os \<Rightarrow> std_string \<Rightarrow> nat \<Rightarrow> nat \<Rightarrow> nat \<Rightarrow> nat \<Rightarrow> nat \<Rightarrow> nat \<Rightarrow> ('w, 'f, 's) qt_module \<Rightarrow> (bool \<times> ('w, 'f, 's) qt_module) option" where
  "qt_start env name sy me sb psy pme psb q = do {
     let q1 = Sbsar_initialize sb psb (Mesh_initialize me pme (ConnectorSystem_initialize sy psy q));
     (r1, q2) \<leftarrow> ConnectorModule_registerApplication sy q1;
     (r2, q3) \<leftarrow> ConnectorModule_registerApplication me q2;
     (r3, q4) \<leftarrow> ConnectorModule_registerApplication sb q3;
     (r4, q5) \<leftarrow> ConnectorModule_init env name start_dispatch start_readers q4;
     Some (r1 \<and> r2 \<and> r3 \<and> r4, q5) }"

text \<open>A module in which nothing is active yet, on an idle framework.\<close>

definition qt_idle :: "nat list \<Rightarrow> nat list \<Rightarrow> ('w, 'f, 's) qt_module \<Rightarrow> bool" where
  "qt_idle os ps q \<longleftrightarrow> distinct os \<and> distinct ps \<and> system_instance q = None \<and> mesh_instance q = None \<and> sbsar_instance q = None \<and>
     mApplication q = Map.empty \<and> framework_idle (qt_framework q) \<and> applications (qt_framework q) = {} \<and>
     set ps \<inter> dom (app_store (qt_framework q)) = {}"

definition qt_classes :: "application_class list" where
  "qt_classes = [System (pointer_to recvConnectionEstablishedCallback) (pointer_to recvConnectionClosedCallback)
       (pointer_to updateConnectionContextCallback),
     MeshApplication (pointer_to recvLoadMeshCallback) None (pointer_to recvMeshConfigCallback) (pointer_to recvRequestMeshConfigCallback),
     SbsarApplication (pointer_to recvLoadSbsarCallback) (pointer_to recvUpdateSbsarCallback)]"

text \<open>The framework once the three applications are registered.\<close>

definition qt_registered :: "nat \<Rightarrow> nat \<Rightarrow> nat \<Rightarrow> ('w, 'f) framework \<Rightarrow> ('w, 'f) framework" where
  "qt_registered psy pme psb fw = fw\<lparr>app_store := (app_store fw)(psy \<mapsto> \<lparr>app_class = qt_classes ! 0, mCallbacks = []\<rparr>,
       pme \<mapsto> \<lparr>app_class = qt_classes ! 1, mCallbacks = []\<rparr>, psb \<mapsto> \<lparr>app_class = qt_classes ! 2, mCallbacks = []\<rparr>),
     applications := {psb, pme, psy},
     featureLevel := featureLevel fw @ System_getFeatureIds @ MeshApplication_getFeatureIds @ SbsarApplication_getFeatureIds,
     startupState := CONNECTOR_SHUTDOWN\<rparr>"

lemma qt_registered_idle:
  assumes "qt_idle [sy, me, sb] [psy, pme, psb] q"
  shows "framework_idle (qt_registered psy pme psb (qt_framework q))"
  using assms by (auto simp: qt_idle_def framework_idle_def qt_registered_def objects_ok_def)

lemma concat_map_set:
  assumes "distinct xs" "distinct ys" "set xs = set ys" "distinct (map fst (concat (map f ys)))"
  shows "map_of (concat (map f xs)) = map_of (concat (map f ys))"
proof -
  have "mset xs = mset ys" using assms(1-3) set_eq_iff_mset_eq_distinct by blast
  then have m: "mset (concat (map f xs)) = mset (concat (map f ys))" by (simp add: mset_concat flip: sum_mset_sum_list)
  then have "distinct (map fst (concat (map f xs)))"
    using assms(4) mset_eq_imp_distinct_iff [of "map fst (concat (map f xs))"] by (metis mset_map)
  with assms(4) m show ?thesis using map_of_inject_set mset_eq_setD by blast
qed

text \<open>The types of the three classes differ, so that the addresses do not matter.\<close>

lemma qt_bound:
  assumes "qt_idle [sy, me, sb] [psy, pme, psb] q"
  shows "map_of (bound_callbacks (qt_registered psy pme psb (qt_framework q))) = map_of (concat (map class_callbacks qt_classes))"
proof -
  let ?fw = "qt_registered psy pme psb (qt_framework q)"
  let ?f = "\<lambda>p. class_callbacks (app_class (the (app_store ?fw p)))"
  have d: "distinct [psy, pme, psb]" using assms by (simp add: qt_idle_def)
  then have c: "concat (map ?f [psy, pme, psb]) = concat (map class_callbacks qt_classes)"
    by (simp add: qt_registered_def qt_classes_def)
  moreover have "distinct (map fst (concat (map class_callbacks qt_classes)))" by (simp add: qt_classes_def message_types)
  moreover have "set (sorted_list_of_set (applications ?fw)) = set [psy, pme, psb]"
    by (subst set_sorted_list_of_set) (auto simp: qt_registered_def)
  ultimately show ?thesis
    using concat_map_set [of "sorted_list_of_set (applications ?fw)" "[psy, pme, psb]" ?f] d by (simp add: bound_callbacks_def)
qed

lemma qt_start_runs:
  assumes "allocator_succeeds env" "qt_idle [sy, me, sb] [psy, pme, psb] q" "length name < 2 ^ 64 - 1"
  shows "\<exists>fw. qt_start env name sy me sb psy pme psb q = Some (True, q\<lparr>system_instance := Some sy, mesh_instance := Some me,
      sbsar_instance := Some sb, mApplication := [sy \<mapsto> psy, me \<mapsto> pme, sb \<mapsto> psb], qt_framework := fw\<rparr>) \<and>
    framework_running (qt_registered psy pme psb (qt_framework q)) fw"
proof -
  note i = assms(2) [unfolded qt_idle_def framework_idle_def]
  let ?r = "qt_registered psy pme psb (qt_framework q)"
  obtain fw where fw: "framework_init env name name start_dispatch start_readers ?r = Some (True, fw)" "framework_running ?r fw"
    using framework_init_runs [OF assms(1) qt_registered_idle [OF assms(2)] assms(3)] by blast
  have "qt_start env name sy me sb psy pme psb q = Some (True, q\<lparr>system_instance := Some sy, mesh_instance := Some me,
      sbsar_instance := Some sb, mApplication := [sy \<mapsto> psy, me \<mapsto> pme, sb \<mapsto> psb], qt_framework := fw\<rparr>)"
    using i fw(1)
    by (simp add: qt_start_def Sbsar_initialize_def Mesh_initialize_def ConnectorSystem_initialize_def assign_application_def Let_def
        ConnectorModule_registerApplication_def on_framework_def registerApplication_def swap_startup_def ConnectorModule_init_def
        framework_init_same_name_def qt_registered_def qt_classes_def new_System_def new_MeshApplication_def new_SbsarApplication_def)
  with fw(2) show ?thesis by blast
qed

text \<open>The object and the signal for a message type.\<close>

definition signals_for :: "nat \<Rightarrow> nat \<Rightarrow> nat \<Rightarrow> substance_connector_uuid \<Rightarrow> (nat \<times> qt_signal) list" where
  "signals_for sy me sb type = (case map_of [(sConnectionEstablishedId, (sy, recvConnectionEstablished)),
       (sConnectionClosedId, (sy, recvConnectionClosed)), (sConnectionUpdateContextId, (sy, updateConnectionContext)),
       (sLoadMeshId, (me, recvLoadMesh)), (sRecMeshConfigId, (me, recvMeshExportConfig)), (sRequestMeshConfigId, (me, requestMeshConfigReceived)),
       (sLoadSbsarId, (sb, recvLoadSbsar)), (sUpdateSbsarId, (sb, recvUpdateSbsar))] type of None \<Rightarrow> [] | Some x \<Rightarrow> [x])"

text \<open>The signals a list of callbacks of this module makes.\<close>

lemma signals_of_callbacks:
  assumes "system_instance q = Some sy" "mesh_instance q = Some me" "sbsar_instance q = Some sb"
  shows "emitted (fold (run_call T) (map (\<lambda>f. \<lparr>call_target = f, call_context = ctx, call_type = type, call_message = message\<rparr>)
      (application_callbacks (findCallbacks type (map_of (concat (map class_callbacks qt_classes)))))) q) =
    emitted q @ map (\<lambda>(ob, sig). \<lparr>em_object = ob, em_signal = sig, em_context = ctx, em_message = QString T message\<rparr>) (signals_for sy me sb type)"
  using assms
  by (simp add: findCallbacks_def qt_classes_def signals_for_def application_callbacks_def pointer_to_def qt_callbacks_def message_types
      run_call_def callback_at_def qt_callback_defs emit_def)

section \<open>Properties\<close>

text \<open>
  C17: messages become signals. Once an application has initialised and registered the system,
  the mesh and the material object and initialised the module, which all succeeds,
  a message of any type makes the module emit exactly the signal of that type, once, from the
  object of its class, with the context and the text of the message; a type without a signal
  (an update of a mesh among them) emits none.
\<close>

theorem qt_messages_become_signals:
  assumes "allocator_succeeds env" and "qt_idle [sy, me, sb] [psy, pme, psb] q" and "length name < 2 ^ 64 - 1"
    and "\<forall>v. length (j_writeString J v) < 2 ^ 64 - 1"
  shows "\<exists>q1. qt_start env name sy me sb psy pme psb q = Some (True, q1) \<and>
    (\<forall>ctx type message. \<exists>q2. qt_message T J version env ctx type message q1 = Some q2 \<and>
      emitted q2 = emitted q @ map (\<lambda>(ob, sig). \<lparr>em_object = ob, em_signal = sig, em_context = ctx, em_message = QString T message\<rparr>)
        (signals_for sy me sb type))"
proof -
  let ?q = "\<lambda>fw. q\<lparr>system_instance := Some sy, mesh_instance := Some me, sbsar_instance := Some sb,
    mApplication := [sy \<mapsto> psy, me \<mapsto> pme, sb \<mapsto> psb], qt_framework := fw\<rparr>"
  obtain fw where st: "qt_start env name sy me sb psy pme psb q = Some (True, ?q fw)"
    and run: "framework_running (qt_registered psy pme psb (qt_framework q)) fw"
    using qt_start_runs [OF assms(1-3)] by blast
  have ans: "can_answer J version fw"
    using run assms(4) by (simp add: framework_running_def settled_def Let_def can_answer_def getConnectionContext_def
        connection_schema_GetJsonString_def schema_text_def)
  have cb: "callbackMap fw = map_of (concat (map class_callbacks qt_classes))"
    using run qt_bound [OF assms(2)] by (simp add: framework_running_def)
  have "\<exists>q2. qt_message T J version env ctx type message (?q fw) = Some q2 \<and>
      emitted q2 = emitted q @ map (\<lambda>(ob, sig). \<lparr>em_object = ob, em_signal = sig, em_context = ctx, em_message = QString T message\<rparr>)
        (signals_for sy me sb type)" for ctx type message
  proof -
    obtain fw' where t: "connector_cpp_trampoline J version env ctx type message fw = Some fw'"
      "callback_calls fw' = callback_calls fw @ map (\<lambda>f. \<lparr>call_target = f, call_context = ctx, call_type = type, call_message = message\<rparr>)
        (application_callbacks (findCallbacks type (callbackMap fw)))"
      using trampoline_runs [OF assms(1) ans, of ctx type message] by (auto simp: callbacks_ran_def)
    then show ?thesis using signals_of_callbacks [of "?q fw'" sy me sb T ctx type message] by (simp add: qt_message_def cb)
  qed
  with st show ?thesis by blast
qed

text \<open>A module on the sample library.\<close>

definition sample_qt :: "(u8 list, nat, u8 list) qt_module" where
  "sample_qt = \<lparr>system_instance = None, mesh_instance = None, sbsar_instance = None, mApplication = Map.empty, emitted = [],
     qt_framework = sample_framework\<lparr>applications := {}, app_store := Map.empty, featureLevel := []\<rparr>\<rparr>"

lemma sample_qt_idle: "qt_idle [4, 2, 3] [30, 10, 20] sample_qt"
  using fresh_connector_clean by (simp add: qt_idle_def sample_qt_def framework_idle_def sample_framework_def objects_ok_def)

theorem qt_messages_become_signals_witness:
  "\<exists>q1 q2 q3. qt_start sample_os [97] 4 2 3 30 10 20 sample_qt = Some (True, q1) \<and>
     qt_message \<lparr>fromUtf8 = (\<lambda>b. b), toUtf8 = (\<lambda>s. s)\<rparr> (one_text JNull) [49] sample_os 4 sLoadMeshId (OWNED [104, 0]) q1 = Some q2 \<and>
     emitted q2 = [\<lparr>em_object = 2, em_signal = recvLoadMesh, em_context = 4, em_message = [104]\<rparr>] \<and>
     qt_message \<lparr>fromUtf8 = (\<lambda>b. b), toUtf8 = (\<lambda>s. s)\<rparr> (one_text JNull) [49] sample_os 4 sUpdateMeshId (OWNED [104, 0]) q1 = Some q3 \<and>
     emitted q3 = []"
proof -
  let ?T = "\<lparr>fromUtf8 = (\<lambda>b. b), toUtf8 = (\<lambda>s. s)\<rparr> :: u8 list qt_text" and ?J = "one_text JNull"
  have w: "\<forall>v. length (j_writeString ?J v) < 2 ^ 64 - 1" by (simp add: one_text_def)
  have s: "signals_for 4 2 3 sLoadMeshId = [(2, recvLoadMesh)]" "signals_for 4 2 3 sUpdateMeshId = []"
    by (simp_all add: signals_for_def message_types)
  have t: "QString ?T (OWNED [104, 0]) = [104]" by (simp add: QString_def cstr_def)
  have e: "emitted sample_qt = []" by (simp add: sample_qt_def)
  from qt_messages_become_signals [OF sample_os_allocator sample_qt_idle _ w, of "[97]" ?T "[49]"] obtain q1 where
    q1: "qt_start sample_os [97] 4 2 3 30 10 20 sample_qt = Some (True, q1)"
      "\<And>ctx type message. \<exists>q2. qt_message ?T ?J [49] sample_os ctx type message q1 = Some q2 \<and>
        emitted q2 = map (\<lambda>(ob, sig). \<lparr>em_object = ob, em_signal = sig, em_context = ctx, em_message = QString ?T message\<rparr>)
          (signals_for 4 2 3 type)" by (auto simp: e)
  from q1(2) [of 4 sLoadMeshId "OWNED [104, 0]"] q1(2) [of 4 sUpdateMeshId "OWNED [104, 0]"] q1(1) show ?thesis
    by (auto simp: s t)
qed

text \<open>An address that is registered and has no object faults every loop over the applications.\<close>

lemma for_applications_dangling:
  "p \<in> set ps \<Longrightarrow> app_store fw p = None \<Longrightarrow> for_applications method ps fw = None"
proof (induction ps arbitrary: fw)
  case (Cons r ps)
  show ?case
  proof (cases "app_store fw r")
    case (Some a)
    with Cons have "p \<in> set ps" "p \<noteq> r" by auto
    with Cons Some show ?thesis by (simp add: case_prod_unfold)
  qed simp
qed simp

text \<open>
  C40: the order of the shutdown matters. When the module is shut down first, it succeeds
  and leaves no application registered. When an object is shut down first, its application is destroyed while
  the framework still holds a pointer to it, and the shutdown of the module follows that
  pointer: it faults, whatever the threads do.
\<close>

theorem qt_shutdown_order:
  assumes "allocator_succeeds env" and "qt_idle [sy, me, sb] [psy, pme, psb] q" and "length name < 2 ^ 64 - 1"
  shows "\<exists>q1 q2. qt_start env name sy me sb psy pme psb q = Some (True, q1) \<and>
    ConnectorModule_shutdown env malloc free stop_writers stop_readers stop_dispatch q1 = Some (True, q2) \<and>
    applications (qt_framework q2) = {} \<and>
    (\<forall>ws rs ds. ConnectorModule_shutdown env malloc free ws rs ds (Mesh_shutdown me q1) = None)"
proof -
  let ?r = "qt_registered psy pme psb (qt_framework q)"
  obtain fw where st: "qt_start env name sy me sb psy pme psb q = Some (True, q\<lparr>system_instance := Some sy, mesh_instance := Some me,
      sbsar_instance := Some sb, mApplication := [sy \<mapsto> psy, me \<mapsto> pme, sb \<mapsto> psb], qt_framework := fw\<rparr>)" (is "_ = Some (True, ?q1)")
    and run: "framework_running ?r fw" using qt_start_runs [OF assms] by blast
  obtain fw2 where "framework_shutdown env malloc free stop_writers stop_readers stop_dispatch fw = Some (True, fw2)" "applications fw2 = {}"
    using framework_shutdown_ends [OF qt_registered_idle [OF assms(2)] run] by blast
  then have "ConnectorModule_shutdown env malloc free stop_writers stop_readers stop_dispatch ?q1 = Some (True, ?q1\<lparr>qt_framework := fw2\<rparr>)"
    "applications (qt_framework (?q1\<lparr>qt_framework := fw2\<rparr>)) = {}"
    by (simp_all add: ConnectorModule_shutdown_def on_framework_def)
  moreover have "ConnectorModule_shutdown env malloc free ws rs ds (Mesh_shutdown me ?q1) = None" for ws rs ds
  proof -
    have f: "qt_framework (Mesh_shutdown me ?q1) = fw\<lparr>app_store := (app_store fw)(pme := None)\<rparr>"
      using assms(2) by (simp add: Mesh_shutdown_def assign_application_def qt_idle_def)
    have a: "applications fw = {psb, pme, psy}" "startupState fw = CONNECTOR_INITIALIZED"
      using run by (simp_all add: framework_running_def qt_registered_def)
    then have "pme \<in> set (sorted_list_of_set (applications fw))" by (subst set_sorted_list_of_set) auto
    then have "framework_preShutdown (fw\<lparr>app_store := (app_store fw)(pme := None), startupState := CONNECTOR_SHUTDOWN_STARTED\<rparr>) = None"
      unfolding framework_preShutdown_def by (intro for_applications_dangling [of pme]) simp_all
    with a(2) show ?thesis
      by (simp add: ConnectorModule_shutdown_def on_framework_def f framework_shutdown_def swap_startup_def)
  qed
  ultimately show ?thesis using st by blast
qed

theorem qt_shutdown_order_witness:
  "\<exists>q1 q2. qt_start sample_os [97] 4 2 3 30 10 20 sample_qt = Some (True, q1) \<and>
     ConnectorModule_shutdown sample_os 0 0 stop_writers stop_readers stop_dispatch q1 = Some (True, q2) \<and>
     ConnectorModule_shutdown sample_os 0 0 stop_writers stop_readers stop_dispatch (Mesh_shutdown 2 q1) = None"
proof -
  have "length [97 :: u8] < 2 ^ 64 - 1" by simp
  from qt_shutdown_order [OF sample_os_allocator sample_qt_idle this, of 0 0] show ?thesis by blast
qed

end
