(* ===== verification/Platform_Variants.thy ===== *)
theory Platform_Variants
  imports Connection
begin

text \<open>
  What other builds of the library compile: the sockets of Windows (\<^verbatim>\<open>connection_windows.c\<close> and
  \<^verbatim>\<open>openconnectionimpl.c\<close> with the types of that platform) and the polling with \<^verbatim>\<open>select\<close>
  (\<^verbatim>\<open>connection_utils.c\<close>). The rest of the development is about the POSIX build with \<^verbatim>\<open>poll\<close>.

  On Windows a socket is an unsigned 64-bit handle and the lengths and results of the socket
  calls are 32-bit integers. The calls of Winsock and the announcement of ports in the
  directory of that platform are parameters.
\<close>

section \<open>Winsock\<close>

record 'w winsock =
  ws_socket :: "'w \<Rightarrow> u64 \<times> 'w"
  ws_bind :: "u64 \<Rightarrow> sockaddr \<Rightarrow> 'w \<Rightarrow> c_int \<times> 'w"
  ws_getsockname :: "u64 \<Rightarrow> sockaddr \<Rightarrow> 'w \<Rightarrow> c_int \<times> sockaddr \<times> 'w"
  ws_listen :: "u64 \<Rightarrow> c_int \<Rightarrow> 'w \<Rightarrow> c_int \<times> 'w"
  ws_connect :: "u64 \<Rightarrow> sockaddr \<Rightarrow> 'w \<Rightarrow> c_int \<times> 'w"
  ws_accept :: "u64 \<Rightarrow> 'w \<Rightarrow> u64 \<times> 'w"
  ws_closesocket :: "u64 \<Rightarrow> 'w \<Rightarrow> c_int \<times> 'w"
  ws_recv :: "u64 \<Rightarrow> c_int \<Rightarrow> 'w \<Rightarrow> c_int \<times> u8 list \<times> 'w"
  ws_send :: "u64 \<Rightarrow> u8 list \<Rightarrow> c_int \<Rightarrow> 'w \<Rightarrow> c_int \<times> 'w"
  ws_ensure_directory :: "'w \<Rightarrow> (substance_connector_error \<times> 'w) option"
  ws_commit_port :: "u32 \<Rightarrow> 'w \<Rightarrow> (substance_connector_error \<times> 'w) option"
  ws_remove_port :: "u32 \<Rightarrow> 'w \<Rightarrow> (substance_connector_error \<times> 'w) option"

text \<open>
  The descriptor reaches the calls as an \<^verbatim>\<open>int\<close>, which is widened to the handle; the length is
  cut to 32 bits and the result widened.
\<close>

definition read_socket_windows :: "'w winsock \<Rightarrow> 'w recv_fp" where
  "read_socket_windows ws fd len w =
     (case ws_recv ws (scast fd) (ucast len) w of (r, bytes, w') \<Rightarrow> (scast r, bytes, w'))"

definition send_socket_windows :: "'w winsock \<Rightarrow> 'w send_fp" where
  "send_socket_windows ws fd buffer w =
     (case ws_send ws (scast fd) buffer (of_nat (length buffer)) w of (r, w') \<Rightarrow> (scast r, w'))"

text \<open>The test \<^verbatim>\<open>sock < 0\<close> of the shared code, on the unsigned type of a handle.\<close>

definition handle_negative :: "u64 \<Rightarrow> bool" where
  "handle_negative sock \<longleftrightarrow> sock < 0"

definition connector_open_tcp_windows :: "'w winsock \<Rightarrow> 'w context_op" where
  "connector_open_tcp_windows ws c w = do {
     (library_result, w1) \<leftarrow> ws_ensure_directory ws w;
     if library_result \<noteq> SUBSTANCE_CONNECTOR_SUCCESS then Some (SUBSTANCE_CONNECTOR_ERROR, c, w1)
     else
       let port = (ucast (ctx_port c) :: u16);
           (sock, w2) = ws_socket ws w1;
           address = SOCKADDR_IN (htons port)
       in if handle_negative sock then Some (SUBSTANCE_CONNECTOR_OPEN_FAIL, c, w2)
          else (case ws_bind ws sock address w2 of (r, w3) \<Rightarrow>
            if c_negative r then
              (case ws_closesocket ws sock w3 of (_, w4) \<Rightarrow> Some (SUBSTANCE_CONNECTOR_OPEN_FAIL, c, w4))
            else (case ws_getsockname ws sock address w3 of (_, address', w4) \<Rightarrow>
              let c1 = c\<lparr>ctx_port := ucast (htons (sin_port address'))\<rparr> in
              (case ws_listen ws sock SUBSTANCE_CONNECTOR_SOCK_BACKLOG w4 of (r2, w5) \<Rightarrow>
                if c_negative r2 then
                  (case ws_closesocket ws sock w5 of (_, w6) \<Rightarrow> Some (SUBSTANCE_CONNECTOR_OPEN_FAIL, c1, w6))
                else do {
                  (_, w6) \<leftarrow> ws_commit_port ws (ucast (ctx_port c1)) w5;
                  Some (SUBSTANCE_CONNECTOR_SUCCESS, c1\<lparr>ctx_fd := sock\<rparr>, w6) }))) }"

definition connector_connect_tcp_windows :: "'w winsock \<Rightarrow> 'w context_op" where
  "connector_connect_tcp_windows ws c w =
     (let port = (ucast (ctx_port c) :: u16);
          address = SOCKADDR_IN (htons port);
          (sock, w1) = ws_socket ws w
      in if handle_negative sock then Some (SUBSTANCE_CONNECTOR_OPEN_FAIL, c, w1)
         else (case ws_connect ws sock address w1 of (r, w2) \<Rightarrow>
           if c_negative r then
             (case ws_closesocket ws sock w2 of (_, w3) \<Rightarrow> Some (SUBSTANCE_CONNECTOR_OPEN_FAIL, c, w3))
           else Some (SUBSTANCE_CONNECTOR_SUCCESS, c\<lparr>ctx_fd := sock\<rparr>, w2)))"

definition connector_read_tcp_windows where
  "connector_read_tcp_windows env ws c m w = connector_read_message_generic env (Some c) m (read_socket_windows ws) w"

definition connector_write_tcp_windows where
  "connector_write_tcp_windows env ws c m w = connector_send_message_generic env (Some c) m (send_socket_windows ws) w"

text \<open>The variable \<^verbatim>\<open>local_retcode\<close> is success throughout.\<close>

definition connector_close_tcp_windows :: "'w winsock \<Rightarrow> 'w context_op" where
  "connector_close_tcp_windows ws c w = do {
     w1 \<leftarrow> (if ctx_configuration c AND SUBSTANCE_CONNECTOR_CONN_OPEN \<noteq> 0
           then map_option snd (ws_remove_port ws (ucast (ctx_port c)) w)
           else Some w);
     case ws_closesocket ws (ctx_fd c) w1 of (retval, w2) \<Rightarrow>
       Some (if retval = 0 then SUBSTANCE_CONNECTOR_SUCCESS else SUBSTANCE_CONNECTOR_ERROR, c, w2) }"

definition connector_accept_tcp_windows :: "'w winsock \<Rightarrow> connector_context \<Rightarrow> 'w \<Rightarrow> c_int \<times> 'w" where
  "connector_accept_tcp_windows ws c w = (case ws_accept ws (ctx_fd c) w of (s, w') \<Rightarrow> (ucast s, w'))"

text \<open>Local sockets are not supported.\<close>

definition connector_open_unix_windows :: "'w context_op" where
  "connector_open_unix_windows c w = Some (SUBSTANCE_CONNECTOR_UNSUPPORTED, c, w)"

definition connector_connect_unix_windows :: "'w context_op" where
  "connector_connect_unix_windows c w = Some (SUBSTANCE_CONNECTOR_UNSUPPORTED, c, w)"

definition connector_accept_unix_windows :: "connector_context \<Rightarrow> 'w \<Rightarrow> c_int \<times> 'w" where
  "connector_accept_unix_windows c w = (- 1, w)"

definition connector_read_unix_windows ::
    "connector_context \<Rightarrow> connector_message cptr \<Rightarrow> 'w \<Rightarrow> (substance_connector_error \<times> connector_message cptr \<times> 'w) option" where
  "connector_read_unix_windows c m w = Some (SUBSTANCE_CONNECTOR_UNSUPPORTED, m, w)"

definition connector_write_unix_windows ::
    "connector_context \<Rightarrow> connector_message cptr \<Rightarrow> 'w \<Rightarrow> (substance_connector_error \<times> 'w) option" where
  "connector_write_unix_windows c m w = Some (SUBSTANCE_CONNECTOR_UNSUPPORTED, w)"

definition connector_close_unix_windows :: "'w context_op" where
  "connector_close_unix_windows c w = Some (SUBSTANCE_CONNECTOR_UNSUPPORTED, c, w)"

text \<open>The operations of this platform keep the contract of the dispatch tables.\<close>

interpretation windows_tcp: context_protocol "connector_open_tcp_windows ws" "connector_connect_tcp_windows ws" "connector_close_tcp_windows ws"
  for ws :: "'w winsock"
proof unfold_locales
  show "same_identity c c'" if "connector_open_tcp_windows ws c w = Some (r, c', w')" for c w r c' w'
    using that by (auto simp: connector_open_tcp_windows_def same_identity_def Let_def split: option_bind_splits if_splits prod.splits)
  show "if r = SUBSTANCE_CONNECTOR_SUCCESS then \<exists>fd. c' = c\<lparr>ctx_fd := fd\<rparr> else c' = c"
    if "connector_connect_tcp_windows ws c w = Some (r, c', w')" for c w r c' w'
    using that by (auto simp: connector_connect_tcp_windows_def Let_def split: if_splits prod.splits)
  show "c' = c" if "connector_close_tcp_windows ws c w = Some (r, c', w')" for c w r c' w'
    using that by (auto simp: connector_close_tcp_windows_def split: option_bind_splits prod.splits)
qed

interpretation windows_unix: context_protocol connector_open_unix_windows connector_connect_unix_windows connector_close_unix_windows
  by unfold_locales (auto simp: connector_open_unix_windows_def connector_connect_unix_windows_def connector_close_unix_windows_def same_identity_def)

section \<open>The frame on both platforms\<close>

text \<open>
  Winsock agrees with the POSIX calls on lengths an \<^verbatim>\<open>int\<close> can carry: it does the same to the
  outside world, stores the same bytes and returns the same result.
\<close>

definition same_stream :: "'w winsock \<Rightarrow> 'w os \<Rightarrow> bool" where
  "same_stream ws env \<longleftrightarrow>
     (\<forall>fd len w. unat len < 2 ^ 31 \<longrightarrow> read_socket_windows ws fd len w = os_recv env fd len w) \<and>
     (\<forall>fd buffer w. length buffer < 2 ^ 31 \<longrightarrow> send_socket_windows ws fd buffer w = os_send env fd buffer w)"

lemma recv_into_same:
  assumes "same_stream ws env" "unat len < 2 ^ 31"
  shows "recv_into (read_socket_windows ws) fd blk len w = recv_into (read_socket env) fd blk len w"
  using assms by (simp add: recv_into_def read_socket_def same_stream_def)

lemma read_data_same:
  assumes "same_stream ws env" "\<forall>m h. deref message = Some m \<longrightarrow> deref (msg_header m) = Some h \<longrightarrow> unat (message_length h) < 2 ^ 31"
  shows "read_message_data env c message (read_socket_windows ws) w = read_message_data env c message (read_socket env) w"
proof (cases "deref message")
  case (Some m)
  show ?thesis
  proof (cases "deref (msg_header m)")
    case h: (Some h)
    have l: "unat (message_length h) < 2 ^ 31" using assms(2) Some h by blast
    then have "message_length h \<noteq> 0xffffffff" by auto
    from unat_data_length(2) [OF this] l have n: "unat ((ucast (message_length h + 1) :: u64) - 1) < 2 ^ 31"
      by (simp add: unat_ucast_widen)
    show ?thesis using Some h recv_into_same [OF assms(1) n] by (simp add: read_message_data_def Let_def split: prod.splits option.splits)
  qed (simp add: Some read_message_data_def)
qed (simp add: read_message_data_def)

lemma deref_repoint_header:
  assumes "deref message = Some m"
  shows "deref (repoint message (m\<lparr>msg_header := OWNED h\<rparr>)) = Some (m\<lparr>msg_header := OWNED h\<rparr>)"
  using assms by (cases message) simp_all

lemma memcpy_length: "memcpy dst src n = Some r \<Longrightarrow> length r = length dst"
  by (auto simp: memcpy_def split: if_splits)

lemma write_same:
  assumes "same_stream ws env" "wire_header m = Some h" "unat (message_length h) + 24 < 2 ^ 31"
  shows "connector_write_tcp_windows env ws c m w = connector_write_tcp env c m w"
proof -
  obtain x where x: "deref m = Some x" "deref (msg_header x) = Some h"
    using assms(2) by (auto simp: wire_header_def Option.bind_eq_Some_conv)
  obtain r w1 where r: "connector_allocate env (SIZEOF_HEADER + ucast (message_length h)) w = (r, w1)" by fastforce
  show ?thesis
  proof (cases r)
    case None
    with x r show ?thesis
      by (simp add: connector_write_tcp_windows_def connector_write_tcp_def connector_send_message_generic_def Let_def)
  next
    case (Some blk)
    let ?s = "store_header (connector_htonheader h) blk"
    have len: "length ?s = 24 + unat (message_length h)"
      using connector_allocate_length r Some unat_buffersize [of "message_length h"] by (fastforce simp: length_store_header)
    have "send_socket_windows ws fd (take 24 ?s @ p) w1 = send_socket env fd (take 24 ?s @ p) w1"
      if "memcpy (drop 24 ?s) b n = Some p" for fd p b n
    proof -
      have "length (take 24 ?s @ p) < 2 ^ 31" using memcpy_length [OF that] len assms(3) by simp
      then show ?thesis using assms(1) unfolding same_stream_def send_socket_def by blast
    qed
    then show ?thesis using x r Some
      by (auto simp: connector_write_tcp_windows_def connector_write_tcp_def connector_send_message_generic_def Let_def
          split: option_bind_splits)
  qed
qed

lemma read_same:
  assumes "same_stream ws env"
    and "\<forall>bytes w'. os_recv env (context_socket c) SIZEOF_HEADER w = (SIZEOF_HEADER, bytes, w') \<longrightarrow> length bytes \<le> 24 \<longrightarrow>
      unat (message_length (connector_ntohheader (load_header (bytes @ drop (length bytes) (replicate 24 0))))) < 2 ^ 31"
  shows "connector_read_tcp_windows env ws c m w = connector_read_tcp env c m w"
proof -
  obtain r bytes w1 where b: "os_recv env (context_socket c) SIZEOF_HEADER w = (r, bytes, w1)" by (metis surj_pair)
  have h: "recv_into (read_socket_windows ws) (context_socket c) (replicate 24 0) SIZEOF_HEADER w =
      recv_into (read_socket env) (context_socket c) (replicate 24 0) SIZEOF_HEADER w"
    by (rule recv_into_same [OF assms(1)]) (simp add: SIZEOF_HEADER_def)
  have d: "read_message_data env c (repoint m (x\<lparr>msg_header := OWNED h'\<rparr>)) (read_socket_windows ws) w1 =
      read_message_data env c (repoint m (x\<lparr>msg_header := OWNED h'\<rparr>)) (read_socket env) w1"
    if "deref m = Some x" "unat (message_length h') < 2 ^ 31" for x h'
    using that deref_repoint_header [OF that(1), of h'] by (intro read_data_same [OF assms(1)]) simp
  have e: "recv_into (read_socket env) (context_socket c) (replicate 24 0) SIZEOF_HEADER w =
      (if length bytes \<le> 24 then Some (r, bytes @ drop (length bytes) (replicate 24 0), w1) else None)"
    using b by (simp add: recv_into_def read_socket_def)
  note defs = connector_read_tcp_windows_def connector_read_tcp_def connector_read_message_generic_def
  show ?thesis
  proof (cases "length bytes \<le> 24 \<and> r = SIZEOF_HEADER")
    case True
    then have "unat (message_length (connector_ntohheader (load_header (bytes @ drop (length bytes) (replicate 24 0))))) < 2 ^ 31"
      using assms(2) b by blast
    from d [OF _ this] show ?thesis using True h e
      by (cases "deref m") (simp_all add: defs Let_def del: drop_replicate)
  next
    case False
    then show ?thesis using h e by (auto simp: defs Let_def)
  qed
qed

section \<open>Polling with select\<close>

text \<open>
  The calls the code makes on a set of descriptors: \<^verbatim>\<open>FD_SET\<close> with a descriptor outside the set
  of 1024 writes out of bounds. \<open>select\<close> is a parameter that returns its result, the error
  number and what is left of the three sets.
\<close>

definition FD_SETSIZE :: nat where "FD_SETSIZE = 1024"

type_synonym 'w select_fp =
  "c_int \<Rightarrow> c_int set \<Rightarrow> c_int set \<Rightarrow> c_int set \<Rightarrow> nat \<Rightarrow> 'w \<Rightarrow> c_int \<times> c_int \<times> c_int set \<times> c_int set \<times> c_int set \<times> 'w"

definition FD_SET :: "c_int \<Rightarrow> c_int set \<Rightarrow> c_int set option" where
  "FD_SET fd s = (if unat fd < FD_SETSIZE then Some (insert fd s) else None)"

fun set_fds :: "pollfd list \<Rightarrow> c_int set \<Rightarrow> c_int set \<Rightarrow> (c_int set \<times> c_int set) option" where
  "set_fds [] readfds exceptfds = Some (readfds, exceptfds)"
| "set_fds (x # xs) readfds exceptfds = do {
     r \<leftarrow> FD_SET (pfd_fd x) readfds;
     e \<leftarrow> FD_SET (pfd_fd x) exceptfds;
     set_fds xs r e }"

definition SUBSTANCE_CONNECTOR_SELECT_S :: nat where "SUBSTANCE_CONNECTOR_SELECT_S = 5"

definition append_flags :: "c_int set \<Rightarrow> c_int set \<Rightarrow> pollfd \<Rightarrow> pollfd" where
  "append_flags readfds exceptfds x =
     (let x1 = (if pfd_fd x \<in> readfds then x\<lparr>pfd_revents := pfd_revents x OR 1\<rparr> else x)
      in if pfd_fd x1 \<in> exceptfds then x1\<lparr>pfd_revents := pfd_revents x1 OR 8\<rparr> else x1)"

text \<open>\<^verbatim>\<open>connector_poll_contexts\<close> of a build that defines \<^verbatim>\<open>SUBSTANCE_CONNECTOR_FORCE_SELECT\<close>.\<close>

definition connector_poll_contexts_select ::
    "'w select_fp \<Rightarrow> pollfd list \<Rightarrow> u32 \<Rightarrow> 'w \<Rightarrow> (SubstanceConnectorPollError \<times> pollfd list \<times> 'w) option" where
  "connector_poll_contexts_select select contexts count w =
     (if count > 0 then do {
        guard_ok (unat count \<le> length contexts);
        let xs = take (unat count) contexts;
        (readfds, exceptfds) \<leftarrow> set_fds xs {} {};
        case select count readfds {} exceptfds SUBSTANCE_CONNECTOR_SELECT_S w of (retval, errno, r, _, e, w1) \<Rightarrow>
          Some (if retval = - 1 then (convert_network_error errno, contexts, w1)
                else if retval = 0 then (SUBSTANCE_CONNECTOR_POLL_TIMEOUT, contexts, w1)
                else (SUBSTANCE_CONNECTOR_POLL_EUNKNOWN, map (append_flags r e) xs @ drop (unat count) contexts, w1)) }
      else Some (SUBSTANCE_CONNECTOR_POLL_EUNKNOWN, contexts, w))"

text \<open>
  This variant never reports an event: its result is a timeout or unknown, also when a
  descriptor is ready. As the number of contexts is passed where \<open>select\<close> expects the highest
  descriptor plus one, a descriptor that is not below that number gets no event either.
\<close>

definition select_examines :: "'w select_fp \<Rightarrow> bool" where
  "select_examines select \<longleftrightarrow> (\<forall>n r v e t w retval errno r' v' e' w'.
     select n r v e t w = (retval, errno, r', v', e', w') \<longrightarrow> r' \<subseteq> {x \<in> r. x < n} \<and> e' \<subseteq> {x \<in> e. x < n})"

theorem select_never_succeeds:
  assumes "connector_poll_contexts_select select contexts count w = Some (retcode, contexts', w')"
  shows "retcode \<in> {SUBSTANCE_CONNECTOR_POLL_EUNKNOWN, SUBSTANCE_CONNECTOR_POLL_TIMEOUT} \<and> length contexts' = length contexts \<and>
    (select_examines select \<longrightarrow> (\<forall>i < length contexts. count \<le> pfd_fd (contexts ! i) \<longrightarrow> contexts' ! i = contexts ! i))"
proof (cases "count > 0")
  case False
  with assms show ?thesis by (auto simp: connector_poll_contexts_select_def)
next
  case True
  let ?n = "unat count"
  obtain r0 e0 where s: "?n \<le> length contexts" "set_fds (take ?n contexts) {} {} = Some (r0, e0)"
    using assms True by (auto simp: connector_poll_contexts_select_def Let_def Option.bind_eq_Some_conv)
  obtain retval errno r v e w1 where
    sel: "select count r0 {} e0 SUBSTANCE_CONNECTOR_SELECT_S w = (retval, errno, r, v, e, w1)" by (metis surj_pair)
  have c: "retcode \<in> {SUBSTANCE_CONNECTOR_POLL_EUNKNOWN, SUBSTANCE_CONNECTOR_POLL_TIMEOUT}"
    "contexts' = contexts \<or> contexts' = map (append_flags r e) (take ?n contexts) @ drop ?n contexts"
    using assms True s sel
    by (auto simp: connector_poll_contexts_select_def convert_network_error_def Let_def split: if_splits)
  have "contexts' ! i = contexts ! i" if i: "select_examines select" "i < length contexts" "count \<le> pfd_fd (contexts ! i)" for i
  proof -
    have "r \<subseteq> {x \<in> r0. x < count} \<and> e \<subseteq> {x \<in> e0. x < count}" using i(1) sel unfolding select_examines_def by blast
    with i(3) have "pfd_fd (contexts ! i) \<notin> r" "pfd_fd (contexts ! i) \<notin> e" by (auto simp: not_less)
    then have "append_flags r e (contexts ! i) = contexts ! i" by (simp add: append_flags_def)
    with s(1) c(2) i(2) show ?thesis by (auto simp: nth_append)
  qed
  with s(1) c show ?thesis by auto
qed

theorem select_never_succeeds_witness:
  "\<exists>contexts' w'. connector_poll_contexts_select (\<lambda>n r v e t w. (1, 0, {x \<in> r. x < n}, {}, {}, w))
      [\<lparr>pfd_fd = 5, pfd_events = 1, pfd_revents = 0\<rparr>] 1 () = Some (SUBSTANCE_CONNECTOR_POLL_EUNKNOWN, contexts', w') \<and>
    contexts' ! 0 = \<lparr>pfd_fd = 5, pfd_events = 1, pfd_revents = 0\<rparr>"
proof -
  let ?s = "\<lambda>n r v e t w. (1, 0, {x \<in> r. x < n}, {}, {}, w) :: c_int \<times> c_int \<times> c_int set \<times> c_int set \<times> c_int set \<times> unit"
  let ?x = "[\<lparr>pfd_fd = 5, pfd_events = 1, pfd_revents = 0\<rparr>]"
  obtain cs where r: "connector_poll_contexts_select ?s ?x 1 () = Some (SUBSTANCE_CONNECTOR_POLL_EUNKNOWN, cs, ())"
    by (simp add: connector_poll_contexts_select_def FD_SET_def FD_SETSIZE_def)
  have "select_examines ?s" by (auto simp: select_examines_def)
  with select_never_succeeds [OF r] r show ?thesis by simp
qed

section \<open>Properties\<close>


text \<open>Winsock as the calls of the sample system, with lengths and results as an \<open>int\<close>.\<close>

definition sample_winsock :: "u8 list winsock" where
  "sample_winsock = \<lparr>ws_socket = (\<lambda>w. (7, w)), ws_bind = (\<lambda>s a w. (0, w)), ws_getsockname = (\<lambda>s a w. (0, a, w)),
     ws_listen = (\<lambda>s n w. (0, w)), ws_connect = (\<lambda>s a w. (0, w)), ws_accept = (\<lambda>s w. (8, w)), ws_closesocket = (\<lambda>s w. (0, w)),
     ws_recv = (\<lambda>s n w. if c_negative n then (- 1, [], w)
       else (case os_recv sample_os 0 (ucast n) w of (r, b, w') \<Rightarrow> (ucast r, b, w'))),
     ws_send = (\<lambda>s bs n w. (of_nat (length bs), w @ bs)), ws_ensure_directory = (\<lambda>w. Some (SUBSTANCE_CONNECTOR_SUCCESS, w)),
     ws_commit_port = (\<lambda>p w. Some (SUBSTANCE_CONNECTOR_SUCCESS, w)), ws_remove_port = (\<lambda>p w. Some (SUBSTANCE_CONNECTOR_SUCCESS, w))\<rparr>"

lemma sample_same_stream: "same_stream sample_winsock sample_os"
  unfolding same_stream_def
proof (intro conjI allI impI)
  fix fd :: c_int and len :: u64 and w :: "u8 list"
  assume l: "unat len < 2 ^ 31"
  have u: "unat (ucast len :: c_int) = unat len" using l by (simp add: unsigned_ucast_eq take_bit_nat_eq_self_iff)
  have n: "\<not> c_negative (ucast len :: c_int)" using u l by (simp add: c_negative_int)
  have "ucast (ucast len :: c_int) = len" by (rule unat_inject [THEN iffD1]) (simp add: unat_ucast_widen u)
  moreover have "unat (of_nat (min (unat len) (length w)) :: u64) < 2 ^ 31"
    using l by (simp add: unat_of_nat min_def)
  ultimately show "read_socket_windows sample_winsock fd len w = os_recv sample_os fd len w"
    using n narrow_back by (simp add: read_socket_windows_def sample_winsock_def sample_os_def)
next
  fix fd :: c_int and bs w :: "u8 list"
  assume l: "length bs < 2 ^ 31"
  have "unat (of_nat (length bs) :: u64) < 2 ^ 31" using l by (simp add: unat_of_nat)
  from narrow_back [OF this] have "scast (of_nat (length bs) :: c_int) = (of_nat (length bs) :: u64)"
    by (simp add: narrow_of_nat)
  with l show "send_socket_windows sample_winsock fd bs w = os_send sample_os fd bs w"
    by (simp add: send_socket_windows_def sample_winsock_def sample_os_def)
qed

definition sized_message :: "u32 \<Rightarrow> connector_message cptr" where
  "sized_message n = OWNED \<lparr>msg_header = OWNED \<lparr>description = CONNECTOR_MESSAGE_IDENTIFIER, message_length = n, message_id = UUID 1 2 3 4\<rparr>,
     msg_message = OWNED [104, 105, 0], msg_context = 0\<rparr>"


text \<open>
  The test for a failed socket never fires on the unsigned handle of Windows: the connection
  is then attempted on the invalid handle, and fails there.
\<close>

theorem invalid_handle_not_noticed:
  assumes "ws_socket ws w = (- 1, w1)" and "ws_connect ws (- 1) (SOCKADDR_IN (htons (ucast (ctx_port c)))) w1 = (- 1, w2)"
    and "ws_closesocket ws (- 1) w2 = (r, w3)"
  shows "connector_connect_tcp_windows ws c w = Some (SUBSTANCE_CONNECTOR_OPEN_FAIL, c, w3)"
  using assms by (simp add: connector_connect_tcp_windows_def handle_negative_def c_negative_def)

end
