(* ===== verification/Framework_Dynamic.thy ===== *)
theory Framework_Dynamic
  imports Framework_Session
begin

text \<open>
  The build of the C++ framework that loads the library at run time (\<^verbatim>\<open>dynamicload.cpp\<close>): the
  table of the exported functions (\<^verbatim>\<open>connector.h\<close>, \<^verbatim>\<open>external_api.c\<close>) is looked up in a module,
  and every call of the library goes through it. The lookup in a module is a parameter, and
  a call through a table that is not there is a fault.
\<close>

section \<open>The table\<close>

type_synonym ('w, 'f) core_call = "('w, 'f) connector \<Rightarrow> (substance_connector_error \<times> ('w, 'f) connector) option"

type_synonym ('w, 'f) core_call_out = "('w, 'f) connector \<Rightarrow> (substance_connector_error \<times> u32 option \<times> ('w, 'f) connector) option"

text \<open>\<^verbatim>\<open>struct substance_connector_function_table\<close>; the schedules are those of the threads a call starts or stops.\<close>

record ('w, 'f) substance_connector_function_table =
  table_version :: "u8 list"
  table_init :: "u8 list cptr \<Rightarrow> connector_thread list \<Rightarrow> connector_thread list \<Rightarrow> ('w, 'f) core_call"
  table_shutdown :: "'f \<Rightarrow> 'f \<Rightarrow> connector_thread list \<Rightarrow> connector_thread list \<Rightarrow> connector_thread list \<Rightarrow> ('w, 'f) core_call"
  table_set_allocators :: "'f option \<Rightarrow> 'f option \<Rightarrow> ('w, 'f) connector \<Rightarrow> substance_connector_error \<times> ('w, 'f) connector"
  table_write_message :: "u32 \<Rightarrow> substance_connector_uuid cptr \<Rightarrow> u8 list cptr \<Rightarrow> ('w, 'f) core_call"
  table_add_trampoline :: "nat option \<Rightarrow> ('w, 'f) core_call"
  table_remove_trampoline :: "nat option \<Rightarrow> ('w, 'f) core_call"
  table_open_tcp :: "u32 \<Rightarrow> bool \<Rightarrow> ('w, 'f) core_call_out"
  table_open_unix :: "u8 list cptr \<Rightarrow> bool \<Rightarrow> ('w, 'f) core_call_out"
  table_close_context :: "u32 \<Rightarrow> ('w, 'f) core_call"
  table_connect_tcp :: "u32 \<Rightarrow> bool \<Rightarrow> ('w, 'f) core_call_out"
  table_connect_unix :: "u8 list cptr \<Rightarrow> bool \<Rightarrow> ('w, 'f) core_call_out"
  table_broadcast_tcp :: "('w, 'f) core_call"
  table_broadcast_unix :: "('w, 'f) core_call"
  table_broadcast_default :: "('w, 'f) core_call"
  table_open_default_tcp :: "bool \<Rightarrow> ('w, 'f) core_call_out"
  table_open_default_unix :: "bool \<Rightarrow> ('w, 'f) core_call_out"
  table_open_default :: "bool \<Rightarrow> ('w, 'f) core_call_out"

definition substance_connector_module_table :: "'w os \<Rightarrow> u8 list \<Rightarrow> ('w, 'f) substance_connector_function_table" where
  "substance_connector_module_table env version = \<lparr>table_version = version, table_init = substance_connector_init env,
     table_shutdown = substance_connector_shutdown env, table_set_allocators = substance_connector_set_allocators,
     table_write_message = substance_connector_write_message env, table_add_trampoline = substance_connector_add_trampoline env,
     table_remove_trampoline = substance_connector_remove_trampoline, table_open_tcp = substance_connector_open_tcp env,
     table_open_unix = substance_connector_open_unix env, table_close_context = substance_connector_close_context,
     table_connect_tcp = substance_connector_connect_tcp env, table_connect_unix = substance_connector_connect_unix env,
     table_broadcast_tcp = substance_connector_broadcast_tcp env, table_broadcast_unix = substance_connector_broadcast_unix env,
     table_broadcast_default = substance_connector_broadcast_default env, table_open_default_tcp = substance_connector_open_default_tcp env,
     table_open_default_unix = substance_connector_open_default_unix env, table_open_default = substance_connector_open_default env\<rparr>"

section \<open>Loading\<close>

record ('w, 'f) dynamic_framework =
  connectorFunctionTable :: "('w, 'f) substance_connector_function_table option"
  static_part :: "('w, 'f) framework"

text \<open>\<open>symbol\<close> is \<^verbatim>\<open>dlsym\<close> or \<^verbatim>\<open>GetProcAddress\<close>; \<^term>\<open>None\<close> is its NULL result, and the null module.\<close>

type_synonym ('m, 't) symbol_lookup = "'m \<Rightarrow> string \<Rightarrow> 't option"

definition connectorDynamicLoadAcquireSymbol :: "('m, 't) symbol_lookup \<Rightarrow> 'm \<Rightarrow> string \<Rightarrow> 't option" where
  "connectorDynamicLoadAcquireSymbol symbol module_handle name = symbol module_handle name"

definition initDynamicLoad ::
    "('m, ('w, 'f) substance_connector_function_table) symbol_lookup \<Rightarrow> 'm option \<Rightarrow> ('w, 'f) dynamic_framework \<Rightarrow>
      bool \<times> ('w, 'f) dynamic_framework" where
  "initDynamicLoad symbol module_handle d =
     (case module_handle of
        None \<Rightarrow> (False, d)
      | Some m \<Rightarrow>
          (case connectorDynamicLoadAcquireSymbol symbol m ''substance_connector_module_table'' of
             None \<Rightarrow> (False, d)
           | Some t \<Rightarrow> (True, d\<lparr>connectorFunctionTable := Some t\<rparr>)))"

definition shutdownDynamicLoad :: "('w, 'f) dynamic_framework \<Rightarrow> bool \<times> ('w, 'f) dynamic_framework" where
  "shutdownDynamicLoad d = (True, d\<lparr>connectorFunctionTable := None\<rparr>)"

text \<open>\<^verbatim>\<open>CONNECTOR_FRAMEWORK_CALL\<close>: a member of the table the pointer refers to.\<close>

definition CONNECTOR_FRAMEWORK_CALL ::
    "('w, 'f) dynamic_framework \<Rightarrow> (('w, 'f) substance_connector_function_table \<Rightarrow> 'a) \<Rightarrow> 'a option" where
  "CONNECTOR_FRAMEWORK_CALL d fn = map_option fn (connectorFunctionTable d)"

section \<open>The framework over the table\<close>

definition on_framework where
  "on_framework f d = do { (r, fw) \<leftarrow> f (static_part d); Some (r, d\<lparr>static_part := fw\<rparr>) }"

text \<open>The result of the loading is not looked at.\<close>

definition dynamic_init where
  "dynamic_init symbol module_handle name ident dsched csched d =
     (let fw0 = (static_part d)\<lparr>connectionDisplayName := name, connectionId := ident\<rparr> in
      case swap_startup CONNECTOR_SHUTDOWN CONNECTOR_INIT_STARTED fw0 of (swapped, fw1) \<Rightarrow>
        if swapped then do {
          let d1 = snd (initDynamicLoad symbol module_handle (d\<lparr>static_part := fw1\<rparr>));
          fw2 \<leftarrow> framework_preInit (static_part d1);
          init \<leftarrow> CONNECTOR_FRAMEWORK_CALL d1 table_init;
          (r, c) \<leftarrow> init (c_str (connectionId fw2)) dsched csched (core fw2);
          let fw3 = fw2\<lparr>core := c\<rparr>;
          if r = SUBSTANCE_CONNECTOR_SUCCESS then do {
            add_trampoline \<leftarrow> CONNECTOR_FRAMEWORK_CALL d1 table_add_trampoline;
            (_, c') \<leftarrow> add_trampoline (Some cpp_trampoline) (core fw3);
            fw4 \<leftarrow> framework_postInit (fw3\<lparr>core := c'\<rparr>);
            Some (True, d1\<lparr>static_part := fw4\<lparr>startupState := CONNECTOR_INITIALIZED\<rparr>\<rparr>) }
          else Some (False, d1\<lparr>static_part := fw3\<rparr>) }
        else Some (False, d\<lparr>static_part := fw1\<rparr>))"

definition dynamic_shutdown where
  "dynamic_shutdown malloc free wsched rsched dsched d =
     (case swap_startup CONNECTOR_INITIALIZED CONNECTOR_SHUTDOWN_STARTED (static_part d) of (swapped, fw1) \<Rightarrow>
        if swapped then do {
          fw2 \<leftarrow> framework_preShutdown fw1;
          shutdown \<leftarrow> CONNECTOR_FRAMEWORK_CALL d table_shutdown;
          (r, c) \<leftarrow> shutdown malloc free wsched rsched dsched (core fw2);
          let fw3 = fw2\<lparr>core := c\<rparr>;
          if r = SUBSTANCE_CONNECTOR_SUCCESS then do {
            fw4 \<leftarrow> framework_postShutdown fw3;
            Some (True, d\<lparr>static_part := fw4\<lparr>startupState := CONNECTOR_SHUTDOWN, applications := {}, featureLevel := []\<rparr>\<rparr>) }
          else Some (False, d\<lparr>static_part := fw3\<rparr>) }
        else Some (False, d\<lparr>static_part := fw1\<rparr>))"

text \<open>The calls that open and announce connections, one member of the table each.\<close>

datatype connection_call =
    OpenTcp u32 bool
  | EstablishTcp u32 bool
  | OpenDefaultTcp bool
  | OpenDefaultUnix bool
  | OpenDefault bool
  | BroadcastTcp
  | BroadcastUnix
  | BroadcastDefault

fun table_member ::
    "connection_call \<Rightarrow> ('w, 'f) substance_connector_function_table \<Rightarrow> ('w, 'f) core_call_out" where
  "table_member (OpenTcp port want) t = table_open_tcp t port want"
| "table_member (EstablishTcp port want) t = table_connect_tcp t port want"
| "table_member (OpenDefaultTcp want) t = table_open_default_tcp t want"
| "table_member (OpenDefaultUnix want) t = table_open_default_unix t want"
| "table_member (OpenDefault want) t = table_open_default t want"
| "table_member BroadcastTcp t = (\<lambda>c. do { (r, c') \<leftarrow> table_broadcast_tcp t c; Some (r, None, c') })"
| "table_member BroadcastUnix t = (\<lambda>c. do { (r, c') \<leftarrow> table_broadcast_unix t c; Some (r, None, c') })"
| "table_member BroadcastDefault t = (\<lambda>c. do { (r, c') \<leftarrow> table_broadcast_default t c; Some (r, None, c') })"

definition dynamic_connection where
  "dynamic_connection x d = do {
     f \<leftarrow> CONNECTOR_FRAMEWORK_CALL d (table_member x);
     (r, v, fw) \<leftarrow> on_core_out f (static_part d);
     Some (r, v, d\<lparr>static_part := fw\<rparr>) }"

text \<open>The same call of the build that is linked to the library.\<close>

fun static_connection ::
    "'w os \<Rightarrow> connection_call \<Rightarrow> ('w, 'f) framework \<Rightarrow> (bool \<times> u32 option \<times> ('w, 'f) framework) option" where
  "static_connection env (OpenTcp port want) fw = openTcpConnection env port want fw"
| "static_connection env (EstablishTcp port want) fw = establishTcpConnection env port want fw"
| "static_connection env (OpenDefaultTcp want) fw = openDefaultTcp env want fw"
| "static_connection env (OpenDefaultUnix want) fw = openDefaultUnix env want fw"
| "static_connection env (OpenDefault want) fw = openDefault env want fw"
| "static_connection env BroadcastTcp fw = do { (r, fw') \<leftarrow> broadcastTcp env fw; Some (r, None, fw') }"
| "static_connection env BroadcastUnix fw = do { (r, fw') \<leftarrow> broadcastUnix env fw; Some (r, None, fw') }"
| "static_connection env BroadcastDefault fw = do { (r, fw') \<leftarrow> broadcastDefault env fw; Some (r, None, fw') }"

section \<open>Properties\<close>

lemma load_result:
  assumes "symbol m ''substance_connector_module_table'' = Some t"
  shows "initDynamicLoad symbol (Some m) d = (True, d\<lparr>connectorFunctionTable := Some t\<rparr>)"
  using assms by (simp add: initDynamicLoad_def connectorDynamicLoadAcquireSymbol_def)

text \<open>
  C29: the framework behaves the same whether it is linked to the library or loads it. When the
  module exports the table of the library, initialisation, shutdown and every call that
  opens or announces connections give the result and the state of the linked build.
\<close>

theorem dynamic_build_agrees:
  assumes "symbol m ''substance_connector_module_table'' = Some (substance_connector_module_table env version)"
  shows "dynamic_init symbol (Some m) name ident ds cs d = do {
      (r, fw) \<leftarrow> framework_init env name ident ds cs (static_part d);
      Some (r, d\<lparr>connectorFunctionTable := (if startupState (static_part d) = CONNECTOR_SHUTDOWN
          then Some (substance_connector_module_table env version) else connectorFunctionTable d), static_part := fw\<rparr>) } \<and>
    (connectorFunctionTable d = Some (substance_connector_module_table env version) \<longrightarrow>
      dynamic_shutdown malloc free ws rs ds' d = on_framework (framework_shutdown env malloc free ws rs ds') d \<and>
      dynamic_connection x d = do { (r, v, fw) \<leftarrow> static_connection env x (static_part d); Some (r, v, d\<lparr>static_part := fw\<rparr>) })"
proof (intro conjI impI)
  show "dynamic_init symbol (Some m) name ident ds cs d = do {
      (r, fw) \<leftarrow> framework_init env name ident ds cs (static_part d);
      Some (r, d\<lparr>connectorFunctionTable := (if startupState (static_part d) = CONNECTOR_SHUTDOWN
          then Some (substance_connector_module_table env version) else connectorFunctionTable d), static_part := fw\<rparr>) }"
    using load_result [of symbol m, OF assms]
    by (cases "startupState (static_part d) = CONNECTOR_SHUTDOWN")
      (simp_all add: dynamic_init_def framework_init_def swap_startup_def Let_def CONNECTOR_FRAMEWORK_CALL_def substance_connector_module_table_def
        split: option_bind_splits)
next
  assume t: "connectorFunctionTable d = Some (substance_connector_module_table env version)"
  show "dynamic_shutdown malloc free ws rs ds' d = on_framework (framework_shutdown env malloc free ws rs ds') d"
    using t by (simp add: dynamic_shutdown_def on_framework_def framework_shutdown_def swap_startup_def Let_def CONNECTOR_FRAMEWORK_CALL_def
        substance_connector_module_table_def split: option_bind_splits)
  show "dynamic_connection x d = do { (r, v, fw) \<leftarrow> static_connection env x (static_part d); Some (r, v, d\<lparr>static_part := fw\<rparr>) }"
    using t by (cases x) (auto simp: dynamic_connection_def CONNECTOR_FRAMEWORK_CALL_def substance_connector_module_table_def on_core_out_def on_core_def
        openTcpConnection_def establishTcpConnection_def openDefaultTcp_def openDefaultUnix_def openDefault_def broadcastTcp_def
        broadcastUnix_def broadcastDefault_def split: option_bind_splits)
qed

theorem dynamic_build_agrees_witness:
  "\<exists>d1 d2. dynamic_init (\<lambda>m name. Some (substance_connector_module_table sample_os [49])) (Some ()) [97] [98] start_dispatch start_readers
       \<lparr>connectorFunctionTable = None, static_part = sample_framework\<rparr> = Some (True, d1) \<and>
     startupState (static_part d1) = CONNECTOR_INITIALIZED \<and>
     dynamic_shutdown 0 0 stop_writers stop_readers stop_dispatch d1 = Some (True, d2) \<and> applications (static_part d2) = {}"
proof -
  let ?t = "substance_connector_module_table sample_os [49] :: (u8 list, nat) substance_connector_function_table"
  let ?symbol = "\<lambda>(m :: unit) (name :: string). Some ?t"
  let ?d = "\<lparr>connectorFunctionTable = None, static_part = sample_framework\<rparr>"
  obtain fw where i: "framework_init sample_os [97] [98] start_dispatch start_readers sample_framework = Some (True, fw)"
    "framework_running sample_framework fw"
    using framework_init_runs [OF sample_os_allocator sample_framework_idle, of "[98]" "[97]"] by auto
  obtain fw' where s: "framework_shutdown sample_os 0 0 stop_writers stop_readers stop_dispatch fw = Some (True, fw')" "applications fw' = {}"
    using framework_shutdown_ends [OF sample_framework_idle i(2), of sample_os 0 0] by auto
  let ?d1 = "\<lparr>connectorFunctionTable = Some ?t, static_part = fw\<rparr>"
  have st: "startupState sample_framework = CONNECTOR_SHUTDOWN" by (simp add: sample_framework_def)
  have a: "dynamic_init ?symbol (Some ()) [97] [98] start_dispatch start_readers ?d = Some (True, ?d1)"
    using dynamic_build_agrees [where symbol = ?symbol and m = "()" and env = sample_os and version = "[49]" and d = ?d and name = "[97]"
        and ident = "[98]" and ds = start_dispatch and cs = start_readers] i(1) st by simp
  moreover have "startupState (static_part ?d1) = CONNECTOR_INITIALIZED" using i(2) by (simp add: framework_running_def)
  moreover have "dynamic_shutdown 0 0 stop_writers stop_readers stop_dispatch ?d1 = Some (True, ?d1\<lparr>static_part := fw'\<rparr>)"
    using dynamic_build_agrees [where symbol = ?symbol and m = "()" and env = sample_os and version = "[49]" and d = ?d1 and malloc = 0 and free = 0
        and ws = stop_writers and rs = stop_readers and ds' = stop_dispatch] s(1) by (simp add: on_framework_def)
  moreover have "applications (static_part (?d1\<lparr>static_part := fw'\<rparr>)) = {}" using s(2) by simp
  ultimately show ?thesis by (intro exI conjI)
qed

text \<open>
  A module that cannot be loaded is not noticed: \<open>init\<close> ignores that the table was not found
  and calls the library through the null pointer.
\<close>

theorem dynamic_init_without_table_faults:
  assumes "\<forall>m. module_handle = Some m \<longrightarrow> symbol m ''substance_connector_module_table'' = None" and "connectorFunctionTable d = None"
    and "startupState (static_part d) = CONNECTOR_SHUTDOWN"
  shows "dynamic_init symbol module_handle name ident ds cs d = None"
proof -
  have "initDynamicLoad symbol module_handle d' = (False, d')" for d'
    using assms(1) by (cases module_handle) (simp_all add: initDynamicLoad_def connectorDynamicLoadAcquireSymbol_def)
  with assms(2,3) show ?thesis
    by (simp add: dynamic_init_def swap_startup_def CONNECTOR_FRAMEWORK_CALL_def Let_def split: option_bind_splits)
qed

end
