(* ===== verification/Python_Module.thy ===== *)
theory Python_Module
  imports End_To_End "HOL-Library.Multiset"
begin

text \<open>
  The Python extension module (\<^verbatim>\<open>src/module-python\<close>) on top of the core library: the callback
  that hands messages to a Python function, its registration, and the methods of the module.

  The interpreter is a parameter: a record of the calls of the CPython interface that the
  module makes, each on the state \<open>'p\<close> of the interpreter, with \<open>'o\<close> the addresses of its
  objects and \<^term>\<open>None\<close> the NULL pointer. A use of NULL where the interface or its macros
  dereference it is a fault, the value \<^term>\<open>None\<close> of the operation. The Python function that is
  called acts on the interpreter only; calls it makes into the module are further operations.
\<close>

section \<open>The interpreter\<close>

datatype PyGILState_STATE = PyGILState_LOCKED | PyGILState_UNLOCKED

datatype py_exception = PyExc_ConnectionError | PyExc_TypeError

text \<open>
  \<open>PyArg_ParseTuple\<close> is one field per format the module uses; \<^term>\<open>None\<close> is the result 0, and an
  optional argument that is not there leaves NULL. \<open>sizeof_unsigned_long\<close> is that of the
  platform, 8 on 64-bit Unix systems and 4 on Windows; values of that type have 64 bits here.
\<close>

record ('o, 'p) cpython =
  sizeof_unsigned_long :: nat
  PyLong_FromUnsignedLong :: "u64 \<Rightarrow> 'p \<Rightarrow> 'o option \<times> 'p"
  PyLong_AsUnsignedLong :: "'o \<Rightarrow> 'p \<Rightarrow> u64 \<times> 'p"
  PyUnicode_FromString :: "u8 list \<Rightarrow> 'p \<Rightarrow> 'o option \<times> 'p"
  PyList_New :: "nat \<Rightarrow> 'p \<Rightarrow> 'o option \<times> 'p"
  PyList_Append :: "'o \<Rightarrow> 'o option \<Rightarrow> 'p \<Rightarrow> c_int \<times> 'p"
  PyList_GetItem :: "'o \<Rightarrow> nat \<Rightarrow> 'p \<Rightarrow> 'o option \<times> 'p"
  PyObject_CallFunctionObjArgs :: "'o \<Rightarrow> 'o list \<Rightarrow> 'p \<Rightarrow> 'o option \<times> 'p"
  PyArg_ParseTuple_O :: "'o \<Rightarrow> 'p \<Rightarrow> 'o option \<times> 'p"
  PyArg_ParseTuple_s :: "'o \<Rightarrow> 'p \<Rightarrow> u8 list option \<times> 'p"
  PyArg_ParseTuple_k :: "'o \<Rightarrow> 'p \<Rightarrow> u64 option \<times> 'p"
  PyArg_ParseTuple_kOs :: "'o \<Rightarrow> 'p \<Rightarrow> (u64 \<times> 'o option \<times> u8 list option) option \<times> 'p"
  PyErr_SetString :: "py_exception \<Rightarrow> string \<Rightarrow> 'p \<Rightarrow> 'p"
  Py_INCREF_object :: "'o \<Rightarrow> 'p \<Rightarrow> 'p"
  Py_DECREF_object :: "'o \<Rightarrow> 'p \<Rightarrow> 'p"
  Py_None :: 'o
  PyGILState_Ensure :: "'p \<Rightarrow> PyGILState_STATE \<times> 'p"
  PyGILState_Release :: "PyGILState_STATE \<Rightarrow> 'p \<Rightarrow> 'p"

text \<open>The macros: all but \<^verbatim>\<open>Py_XDECREF\<close> dereference their argument.\<close>

definition Py_DECREF :: "('o, 'p) cpython \<Rightarrow> 'o option \<Rightarrow> 'p \<Rightarrow> 'p option" where
  "Py_DECREF P object p = map_option (\<lambda>x. Py_DECREF_object P x p) object"

definition Py_XDECREF :: "('o, 'p) cpython \<Rightarrow> 'o option \<Rightarrow> 'p \<Rightarrow> 'p" where
  "Py_XDECREF P object p = (case object of None \<Rightarrow> p | Some x \<Rightarrow> Py_DECREF_object P x p)"

definition Py_INCREF :: "('o, 'p) cpython \<Rightarrow> 'o option \<Rightarrow> 'p \<Rightarrow> 'p option" where
  "Py_INCREF P object p = map_option (\<lambda>x. Py_INCREF_object P x p) object"

text \<open>A variable argument list ends at the first NULL.\<close>

fun va_objects :: "'o option list \<Rightarrow> 'o list" where
  "va_objects (Some x # xs) = x # va_objects xs"
| "va_objects _ = []"

section \<open>The module\<close>

record ('o, 'p, 'w, 'f) py_module =
  py_trampoline :: "'o option"
  py_interp :: 'p
  py_core :: "('w, 'f) connector"

text \<open>The codes of \<^verbatim>\<open>errorcodes.h\<close> as numbers.\<close>

fun error_number :: "substance_connector_error \<Rightarrow> u64" where
  "error_number SUBSTANCE_CONNECTOR_SUCCESS = 0"
| "error_number SUBSTANCE_CONNECTOR_ERROR = 1"
| "error_number SUBSTANCE_CONNECTOR_BADALLOC = 2"
| "error_number SUBSTANCE_CONNECTOR_NOTLOADED = 3"
| "error_number SUBSTANCE_CONNECTOR_CONN_FAIL = 4"
| "error_number SUBSTANCE_CONNECTOR_SEND_FAIL = 5"
| "error_number SUBSTANCE_CONNECTOR_UNSUPPORTED = 6"
| "error_number SUBSTANCE_CONNECTOR_INVALID = 7"
| "error_number SUBSTANCE_CONNECTOR_READ_FAIL = 8"
| "error_number SUBSTANCE_CONNECTOR_OPEN_FAIL = 9"

definition py_return ::
    "('o, 'p) cpython \<Rightarrow> u64 \<Rightarrow> ('o, 'p, 'w, 'f) py_module \<Rightarrow> 'o option \<times> ('o, 'p, 'w, 'f) py_module" where
  "py_return P n st = (case PyLong_FromUnsignedLong P n (py_interp st) of (r, p) \<Rightarrow> (r, st\<lparr>py_interp := p\<rparr>))"

subsection \<open>Identifiers\<close>

text \<open>\<^verbatim>\<open>uuid->elements[i] = v\<close>\<close>

definition store_element :: "nat \<Rightarrow> u32 \<Rightarrow> substance_connector_uuid \<Rightarrow> substance_connector_uuid" where
  "store_element i v u = (case (elements u)[i := v] of [a, b, c, d] \<Rightarrow> UUID a b c d | _ \<Rightarrow> u)"

fun assemble_loop ::
    "('o, 'p) cpython \<Rightarrow> 'o option \<Rightarrow> nat list \<Rightarrow> substance_connector_uuid \<Rightarrow> 'p \<Rightarrow> (substance_connector_uuid \<times> 'p) option" where
  "assemble_loop P l [] u p = Some (u, p)"
| "assemble_loop P l (i # is) u p = do {
     x \<leftarrow> l;
     case PyList_GetItem P x i p of (element, p1) \<Rightarrow>
       (case element of
          None \<Rightarrow> Some (u, p1)
        | Some e \<Rightarrow> (case PyLong_AsUnsignedLong P e p1 of (v, p2) \<Rightarrow> assemble_loop P l is (store_element i (ucast v) u) p2)) }"

definition connector_python_assemble_uuid ::
    "('o, 'p) cpython \<Rightarrow> 'o option \<Rightarrow> substance_connector_uuid \<Rightarrow> 'p \<Rightarrow> (substance_connector_uuid \<times> 'p) option" where
  "connector_python_assemble_uuid P list uuid p = assemble_loop P list [0, 1, 2, 3] uuid p"

fun split_loop :: "('o, 'p) cpython \<Rightarrow> 'o option \<Rightarrow> u32 list \<Rightarrow> 'p \<Rightarrow> 'p option" where
  "split_loop P l [] p = Some p"
| "split_loop P l (e # es) p = do {
     x \<leftarrow> l;
     case PyLong_FromUnsignedLong P (ucast e) p of (object, p1) \<Rightarrow>
       (case PyList_Append P x object p1 of (_, p2) \<Rightarrow> do {
          p3 \<leftarrow> Py_DECREF P object p2;
          split_loop P l es p3 }) }"

definition connector_python_split_uuid ::
    "('o, 'p) cpython \<Rightarrow> substance_connector_uuid \<Rightarrow> 'o option \<Rightarrow> 'p \<Rightarrow> 'p option" where
  "connector_python_split_uuid P uuid list p = split_loop P list (elements uuid) p"

subsection \<open>The callback\<close>

text \<open>The body under the lock, once a Python function is registered.\<close>

definition call_python ::
    "('o, 'p) cpython \<Rightarrow> 'o \<Rightarrow> u32 \<Rightarrow> substance_connector_uuid \<Rightarrow> u8 list cptr \<Rightarrow> 'p \<Rightarrow> 'p option" where
  "call_python P target context message_type message p =
     (case PyLong_FromUnsignedLong P (ucast context) p of (context_obj, p1) \<Rightarrow> do {
        text \<leftarrow> deref message;
        guard_ok (0 \<in> set text);
        case PyUnicode_FromString P (cstr text) p1 of (message_obj, p2) \<Rightarrow>
          (case PyList_New P 0 p2 of (uuid_obj, p3) \<Rightarrow> do {
             p4 \<leftarrow> connector_python_split_uuid P message_type uuid_obj p3;
             case PyObject_CallFunctionObjArgs P target (va_objects [context_obj, uuid_obj, message_obj]) p4 of (result, p5) \<Rightarrow> do {
               let p6 = Py_XDECREF P result p5;
               p7 \<leftarrow> Py_DECREF P context_obj p6;
               p8 \<leftarrow> Py_DECREF P message_obj p7;
               Py_DECREF P uuid_obj p8 } }) })"

definition connector_python_trampoline ::
    "('o, 'p) cpython \<Rightarrow> u32 \<Rightarrow> substance_connector_uuid \<Rightarrow> u8 list cptr \<Rightarrow> ('o, 'p, 'w, 'f) py_module \<Rightarrow>
      ('o, 'p, 'w, 'f) py_module option" where
  "connector_python_trampoline P context message_type message st =
     (case PyGILState_Ensure P (py_interp st) of (gil_state, p) \<Rightarrow> do {
        p1 \<leftarrow> (case py_trampoline st of
                 None \<Rightarrow> Some p
               | Some target \<Rightarrow> call_python P target context message_type message p);
        Some (st\<lparr>py_interp := PyGILState_Release P gil_state p1\<rparr>) })"

definition connector_python_register_trampoline ::
    "('o, 'p) cpython \<Rightarrow> 'o \<Rightarrow> ('o, 'p, 'w, 'f) py_module \<Rightarrow> ('o option \<times> ('o, 'p, 'w, 'f) py_module) option" where
  "connector_python_register_trampoline P args st =
     (case PyArg_ParseTuple_O P args (py_interp st) of (parsed, p) \<Rightarrow> do {
        st1 \<leftarrow> (case parsed of
                  None \<Rightarrow> Some (st\<lparr>py_interp := p\<rparr>)
                | Some callback \<Rightarrow> do {
                    let p1 = Py_XDECREF P (py_trampoline st) p;
                    p2 \<leftarrow> Py_INCREF P (Some callback) p1;
                    Some (st\<lparr>py_trampoline := Some callback, py_interp := p2\<rparr>) });
        p3 \<leftarrow> Py_INCREF P (Some (Py_None P)) (py_interp st1);
        Some (Some (Py_None P), st1\<lparr>py_interp := p3\<rparr>) })"

definition connector_python_shutdown_trampoline ::
    "('o, 'p) cpython \<Rightarrow> ('o, 'p, 'w, 'f) py_module \<Rightarrow> ('o, 'p, 'w, 'f) py_module" where
  "connector_python_shutdown_trampoline P st =
     st\<lparr>py_interp := Py_XDECREF P (py_trampoline st) (py_interp st), py_trampoline := None\<rparr>"

subsection \<open>Initialisation and shutdown\<close>

text \<open>The number under which the library knows the callback of the module.\<close>

definition python_trampoline :: nat where
  "python_trampoline = 5"

definition connector_python_init ::
    "('o, 'p) cpython \<Rightarrow> 'w os \<Rightarrow> connector_thread list \<Rightarrow> connector_thread list \<Rightarrow> 'o \<Rightarrow> ('o, 'p, 'w, 'f) py_module \<Rightarrow>
      ('o option \<times> ('o, 'p, 'w, 'f) py_module) option" where
  "connector_python_init P env dsched csched args st =
     (case PyArg_ParseTuple_s P args (py_interp st) of (parsed, p) \<Rightarrow> do {
        let st0 = st\<lparr>py_interp := p\<rparr>;
        (errorcode, st1) \<leftarrow> (case parsed of
            None \<Rightarrow> Some (0, st0)
          | Some name \<Rightarrow> do {
              (r, c) \<leftarrow> substance_connector_init env (BORROWED name) dsched csched (py_core st0);
              (_, c') \<leftarrow> substance_connector_add_trampoline env (Some python_trampoline) c;
              Some (error_number r, st0\<lparr>py_core := c'\<rparr>) });
        Some (py_return P errorcode st1) })"

definition connector_python_shutdown ::
    "('o, 'p) cpython \<Rightarrow> 'w os \<Rightarrow> 'f \<Rightarrow> 'f \<Rightarrow> connector_thread list \<Rightarrow> connector_thread list \<Rightarrow> connector_thread list \<Rightarrow>
      ('o, 'p, 'w, 'f) py_module \<Rightarrow> ('o option \<times> ('o, 'p, 'w, 'f) py_module) option" where
  "connector_python_shutdown P env malloc free wsched rsched dsched st = do {
     (_, c) \<leftarrow> substance_connector_remove_trampoline (Some python_trampoline) (py_core st);
     let st1 = connector_python_shutdown_trampoline P (st\<lparr>py_core := c\<rparr>);
     (r, c') \<leftarrow> substance_connector_shutdown env malloc free wsched rsched dsched (py_core st1);
     Some (py_return P (error_number r) (st1\<lparr>py_core := c'\<rparr>)) }"

subsection \<open>Connections and messages\<close>

definition py_raise ::
    "('o, 'p) cpython \<Rightarrow> py_exception \<Rightarrow> string \<Rightarrow> ('o, 'p, 'w, 'f) py_module \<Rightarrow> 'o option \<times> ('o, 'p, 'w, 'f) py_module" where
  "py_raise P e text st = (None, st\<lparr>py_interp := PyErr_SetString P e text (py_interp st)\<rparr>)"

text \<open>A context that the call did not store keeps its initial value 0. Python 3 raises \<open>ConnectionError\<close>.\<close>

definition return_context ::
    "('o, 'p) cpython \<Rightarrow> substance_connector_error \<Rightarrow> u32 option \<Rightarrow> ('o, 'p, 'w, 'f) py_module \<Rightarrow>
      'o option \<times> ('o, 'p, 'w, 'f) py_module" where
  "return_context P r v st =
     (if r = SUBSTANCE_CONNECTOR_SUCCESS then py_return P (ucast (case v of None \<Rightarrow> 0 | Some i \<Rightarrow> i)) st
      else py_raise P PyExc_ConnectionError ''Failed to open TCP connection.'' st)"

definition connector_python_open_tcp ::
    "('o, 'p) cpython \<Rightarrow> 'w os \<Rightarrow> 'o \<Rightarrow> ('o, 'p, 'w, 'f) py_module \<Rightarrow> ('o option \<times> ('o, 'p, 'w, 'f) py_module) option" where
  "connector_python_open_tcp P env args st =
     (case PyArg_ParseTuple_k P args (py_interp st) of (parsed, p) \<Rightarrow>
        let st0 = st\<lparr>py_interp := p\<rparr> in
        (case parsed of
           None \<Rightarrow> Some (py_raise P PyExc_TypeError ''A port number must be passed in'' st0)
         | Some port \<Rightarrow> do {
             (r, v, c) \<leftarrow> substance_connector_open_tcp env (ucast port) True (py_core st0);
             Some (return_context P r v (st0\<lparr>py_core := c\<rparr>)) }))"

text \<open>
  The format \<open>k\<close> stores an \<^verbatim>\<open>unsigned long\<close> through a pointer to an \<^verbatim>\<open>unsigned int\<close>, which is out of
  bounds where the former has more than 4 bytes. \<open>initial\<close> is the content of the uninitialised
  \<^verbatim>\<open>message_type\<close>.
\<close>

definition connector_python_write_message ::
    "('o, 'p) cpython \<Rightarrow> 'w os \<Rightarrow> substance_connector_uuid \<Rightarrow> 'o \<Rightarrow> ('o, 'p, 'w, 'f) py_module \<Rightarrow>
      ('o option \<times> ('o, 'p, 'w, 'f) py_module) option" where
  "connector_python_write_message P env initial args st =
     (case PyArg_ParseTuple_kOs P args (py_interp st) of (parsed, p) \<Rightarrow>
        (case parsed of
           None \<Rightarrow> Some (None, st\<lparr>py_interp := p\<rparr>)
         | Some (context, uuid, message) \<Rightarrow> do {
             guard_ok (sizeof_unsigned_long P \<le> 4);
             (message_type, p1) \<leftarrow> connector_python_assemble_uuid P uuid initial p;
             (r, c) \<leftarrow> substance_connector_write_message env (ucast context) (BORROWED message_type)
               (case message of None \<Rightarrow> NULL | Some b \<Rightarrow> BORROWED b) (py_core st);
             Some (py_return P (error_number r) (st\<lparr>py_interp := p1, py_core := c\<rparr>)) }))"

definition connector_python_open_default_tcp ::
    "('o, 'p) cpython \<Rightarrow> 'w os \<Rightarrow> ('o, 'p, 'w, 'f) py_module \<Rightarrow> ('o option \<times> ('o, 'p, 'w, 'f) py_module) option" where
  "connector_python_open_default_tcp P env st = do {
     (r, v, c) \<leftarrow> substance_connector_open_default_tcp env True (py_core st);
     Some (return_context P r v (st\<lparr>py_core := c\<rparr>)) }"

definition connector_python_broadcast_tcp ::
    "('o, 'p) cpython \<Rightarrow> 'w os \<Rightarrow> ('o, 'p, 'w, 'f) py_module \<Rightarrow> ('o option \<times> ('o, 'p, 'w, 'f) py_module) option" where
  "connector_python_broadcast_tcp P env st = do {
     (r, c) \<leftarrow> substance_connector_broadcast_tcp env (py_core st);
     Some (py_return P (error_number r) (st\<lparr>py_core := c\<rparr>)) }"

text \<open>The version is a constant of the build.\<close>

definition connector_python_version ::
    "('o, 'p) cpython \<Rightarrow> u8 list \<Rightarrow> ('o, 'p, 'w, 'f) py_module \<Rightarrow> 'o option \<times> ('o, 'p, 'w, 'f) py_module" where
  "connector_python_version P version st =
     (case PyUnicode_FromString P version (py_interp st) of (r, p) \<Rightarrow> (r, st\<lparr>py_interp := p\<rparr>))"

section \<open>References\<close>

abbreviation opt_mset :: "'a option \<Rightarrow> 'a multiset" where
  "opt_mset x \<equiv> (case x of None \<Rightarrow> {#} | Some a \<Rightarrow> {#a#})"

text \<open>
  The documented ownership rules of the interface. \<open>refs\<close> are the references the module owns,
  with multiplicity, and \<open>gil\<close> counts the nested acquisitions of the interpreter lock: the
  functions that create objects and the call of a function return a new reference, the
  arguments of all calls are borrowed, and a reference may be given up only when it is owned.
\<close>

definition new_reference :: "('p \<Rightarrow> 'o multiset) \<Rightarrow> ('p \<Rightarrow> nat) \<Rightarrow> ('p \<Rightarrow> 'o option \<times> 'p) \<Rightarrow> bool" where
  "new_reference refs gil f \<longleftrightarrow> (\<forall>p r p'. f p = (r, p') \<longrightarrow> refs p' = refs p + opt_mset r \<and> gil p' = gil p)"

definition borrows :: "('p \<Rightarrow> 'o multiset) \<Rightarrow> ('p \<Rightarrow> nat) \<Rightarrow> ('p \<Rightarrow> 'a \<times> 'p) \<Rightarrow> bool" where
  "borrows refs gil f \<longleftrightarrow> (\<forall>p r p'. f p = (r, p') \<longrightarrow> refs p' = refs p \<and> gil p' = gil p)"

definition reference_counting :: "('o, 'p) cpython \<Rightarrow> ('p \<Rightarrow> 'o multiset) \<Rightarrow> ('p \<Rightarrow> nat) \<Rightarrow> bool" where
  "reference_counting P refs gil \<longleftrightarrow>
     (\<forall>n. new_reference refs gil (PyLong_FromUnsignedLong P n)) \<and> (\<forall>b. new_reference refs gil (PyUnicode_FromString P b)) \<and>
     (\<forall>n. new_reference refs gil (PyList_New P n)) \<and> (\<forall>f xs. new_reference refs gil (PyObject_CallFunctionObjArgs P f xs)) \<and>
     (\<forall>x. borrows refs gil (PyLong_AsUnsignedLong P x)) \<and> (\<forall>l x. borrows refs gil (PyList_Append P l x)) \<and>
     (\<forall>l i. borrows refs gil (PyList_GetItem P l i)) \<and> (\<forall>x. borrows refs gil (PyArg_ParseTuple_O P x)) \<and>
     (\<forall>x. borrows refs gil (PyArg_ParseTuple_s P x)) \<and> (\<forall>x. borrows refs gil (PyArg_ParseTuple_k P x)) \<and>
     (\<forall>x. borrows refs gil (PyArg_ParseTuple_kOs P x)) \<and>
     (\<forall>e t p. refs (PyErr_SetString P e t p) = refs p \<and> gil (PyErr_SetString P e t p) = gil p) \<and>
     (\<forall>x p. refs (Py_INCREF_object P x p) = add_mset x (refs p) \<and> gil (Py_INCREF_object P x p) = gil p) \<and>
     (\<forall>x p. x \<in># refs p \<longrightarrow> refs (Py_DECREF_object P x p) = refs p - {#x#} \<and> gil (Py_DECREF_object P x p) = gil p) \<and>
     (\<forall>p g p'. PyGILState_Ensure P p = (g, p') \<longrightarrow> refs p' = refs p \<and> gil p' = Suc (gil p)) \<and>
     (\<forall>g p. refs (PyGILState_Release P g p) = refs p \<and> gil (PyGILState_Release P g p) = gil p - 1)"

text \<open>What the module holds in a state of the interpreter, in the form the laws are used.\<close>

abbreviation holds where
  "holds refs gil p R n \<equiv> refs p = R \<and> gil p = n"

lemma counting_new:
  assumes "reference_counting P refs gil"
  shows "PyLong_FromUnsignedLong P n p = (r, p') \<Longrightarrow> holds refs gil p' (refs p + opt_mset r) (gil p)"
    "PyUnicode_FromString P b p = (r, p') \<Longrightarrow> holds refs gil p' (refs p + opt_mset r) (gil p)"
    "PyList_New P k p = (r, p') \<Longrightarrow> holds refs gil p' (refs p + opt_mset r) (gil p)"
    "PyObject_CallFunctionObjArgs P f xs p = (r, p') \<Longrightarrow> holds refs gil p' (refs p + opt_mset r) (gil p)"
  using assms by (simp_all add: reference_counting_def new_reference_def)

lemma counting_borrow:
  assumes "reference_counting P refs gil"
  shows "PyLong_AsUnsignedLong P x p = (v, p') \<Longrightarrow> holds refs gil p' (refs p) (gil p)"
    "PyList_Append P l y p = (c, p') \<Longrightarrow> holds refs gil p' (refs p) (gil p)"
    "PyList_GetItem P l i p = (e, p') \<Longrightarrow> holds refs gil p' (refs p) (gil p)"
    "PyArg_ParseTuple_O P x p = (o', p') \<Longrightarrow> holds refs gil p' (refs p) (gil p)"
    "PyArg_ParseTuple_s P x p = (s, p') \<Longrightarrow> holds refs gil p' (refs p) (gil p)"
    "PyArg_ParseTuple_k P x p = (k, p') \<Longrightarrow> holds refs gil p' (refs p) (gil p)"
    "PyArg_ParseTuple_kOs P x p = (a, p') \<Longrightarrow> holds refs gil p' (refs p) (gil p)"
  using assms by (simp_all add: reference_counting_def borrows_def)

lemma counting_update:
  assumes "reference_counting P refs gil"
  shows "holds refs gil (PyErr_SetString P e t p) (refs p) (gil p)"
    "Py_INCREF P x p = Some p' \<Longrightarrow> holds refs gil p' (refs p + opt_mset x) (gil p)"
    "opt_mset x \<subseteq># refs p \<Longrightarrow> holds refs gil (Py_XDECREF P x p) (refs p - opt_mset x) (gil p)"
    "opt_mset x \<subseteq># refs p \<Longrightarrow> Py_DECREF P x p = Some p' \<Longrightarrow> holds refs gil p' (refs p - opt_mset x) (gil p)"
  using assms unfolding reference_counting_def
  by (auto simp: Py_INCREF_def Py_XDECREF_def Py_DECREF_def split: option.splits)

lemma counting_gil:
  assumes "reference_counting P refs gil" "PyGILState_Ensure P p = (g, p')"
  shows "holds refs gil p' (refs p) (Suc (gil p))" "holds refs gil (PyGILState_Release P h q) (refs q) (gil q - 1)"
  using assms by (simp_all add: reference_counting_def)

lemma split_loop_counts:
  assumes "reference_counting P refs gil" "split_loop P l es p = Some p'"
  shows "holds refs gil p' (refs p) (gil p)"
  using assms(2)
proof (induction es arbitrary: p)
  case (Cons e es)
  obtain x r p1 c p2 where c: "l = Some x" "PyLong_FromUnsignedLong P (ucast e) p = (r, p1)" "PyList_Append P x r p1 = (c, p2)"
    using Cons.prems by (cases l; cases "PyLong_FromUnsignedLong P (ucast e) p") (auto split: prod.splits)
  with Cons.prems obtain p3 where p3: "Py_DECREF P r p2 = Some p3" "split_loop P l es p3 = Some p'"
    by (auto simp: Option.bind_eq_Some_conv)
  from counting_new(1) [OF assms(1) c(2)] counting_borrow(2) [OF assms(1) c(3)] counting_update(4) [OF assms(1) _ p3(1)] Cons.IH [OF p3(2)]
  show ?case by simp
qed simp

lemma assemble_loop_counts:
  assumes "reference_counting P refs gil" "assemble_loop P l is u p = Some (u', p')"
  shows "holds refs gil p' (refs p) (gil p)"
  using assms(2)
proof (induction "is" arbitrary: u p)
  case (Cons i "is")
  obtain x e p1 where c: "l = Some x" "PyList_GetItem P x i p = (e, p1)"
    using Cons.prems by (cases l) (auto split: prod.splits)
  note b = counting_borrow(3) [OF assms(1) c(2)]
  show ?case
  proof (cases e)
    case (Some y)
    obtain v p2 where v: "PyLong_AsUnsignedLong P y p1 = (v, p2)" by fastforce
    with Cons.prems c Some have "assemble_loop P l is (store_element i (ucast v) u) p2 = Some (u', p')" by simp
    from Cons.IH [OF this] counting_borrow(1) [OF assms(1) v] b show ?thesis by simp
  qed (use Cons.prems c b in simp)
qed simp

text \<open>A call of the Python function leaves the module with the references it had.\<close>

lemma call_python_counts:
  assumes L: "reference_counting P refs gil" and "call_python P t ctx type m p = Some p'"
  shows "holds refs gil p' (refs p) (gil p)"
proof -
  obtain c p1 where p1: "PyLong_FromUnsignedLong P (ucast ctx) p = (c, p1)" by fastforce
  note call = assms(2) [unfolded call_python_def Let_def]
  obtain b where b: "deref m = Some b" "0 \<in> set b" using call p1 by (auto simp: Option.bind_eq_Some_conv)
  obtain s p2 u p3 where s: "PyUnicode_FromString P (cstr b) p1 = (s, p2)" "PyList_New P 0 p2 = (u, p3)"
    by (metis surj_pair)
  with call p1 b obtain p4 where s4: "connector_python_split_uuid P type u p3 = Some p4"
    by (auto simp: Option.bind_eq_Some_conv)
  obtain r p5 where r: "PyObject_CallFunctionObjArgs P t (va_objects [c, u, s]) p4 = (r, p5)" by fastforce
  with call p1 b s s4 obtain p7 p8 where
    d: "Py_DECREF P c (Py_XDECREF P r p5) = Some p7" "Py_DECREF P s p7 = Some p8" "Py_DECREF P u p8 = Some p'"
    by (auto simp: Option.bind_eq_Some_conv)
  note n = counting_new(1) [OF L p1] counting_new(2) [OF L s(1)] counting_new(3) [OF L s(2)] counting_new(4) [OF L r]
  have 4: "holds refs gil p4 (refs p + opt_mset c + opt_mset s + opt_mset u) (gil p)"
    using split_loop_counts [OF L] s4 n(1-3) by (simp add: connector_python_split_uuid_def)
  have 6: "holds refs gil (Py_XDECREF P r p5) (refs p + opt_mset c + opt_mset s + opt_mset u) (gil p)"
    using counting_update(3) [OF L, of r p5] n(4) 4 by simp
  have 7: "holds refs gil p7 (refs p + opt_mset s + opt_mset u) (gil p)"
    using counting_update(4) [OF L _ d(1)] 6 by (simp add: add_ac)
  have 8: "holds refs gil p8 (refs p + opt_mset u) (gil p)"
    using counting_update(4) [OF L _ d(2)] 7 by (simp add: add_ac)
  show ?thesis using counting_update(4) [OF L _ d(3)] 8 by simp
qed

section \<open>Sequences of calls\<close>

text \<open>
  What happens to the module: a method is called from Python, with the argument tuple and the
  schedules of the threads the call starts or stops, or the library calls the callback.
\<close>

datatype ('o, 'f) py_event =
    Py_version "u8 list"
  | Py_init 'o "connector_thread list" "connector_thread list"
  | Py_shutdown 'f 'f "connector_thread list" "connector_thread list" "connector_thread list"
  | Py_register_trampoline 'o
  | Py_write_message substance_connector_uuid 'o
  | Py_open_tcp 'o
  | Py_open_default_tcp
  | Py_broadcast_tcp
  | Py_message trampoline_call

fun py_step ::
    "('o, 'p) cpython \<Rightarrow> 'w os \<Rightarrow> ('o, 'f) py_event \<Rightarrow> ('o, 'p, 'w, 'f) py_module \<Rightarrow>
      ('o option \<times> ('o, 'p, 'w, 'f) py_module) option" where
  "py_step P env (Py_version v) st = Some (connector_python_version P v st)"
| "py_step P env (Py_init args ds cs) st = connector_python_init P env ds cs args st"
| "py_step P env (Py_shutdown malloc free ws rs ds) st = connector_python_shutdown P env malloc free ws rs ds st"
| "py_step P env (Py_register_trampoline args) st = connector_python_register_trampoline P args st"
| "py_step P env (Py_write_message initial args) st = connector_python_write_message P env initial args st"
| "py_step P env (Py_open_tcp args) st = connector_python_open_tcp P env args st"
| "py_step P env Py_open_default_tcp st = connector_python_open_default_tcp P env st"
| "py_step P env Py_broadcast_tcp st = connector_python_broadcast_tcp P env st"
| "py_step P env (Py_message c) st = do {
     st' \<leftarrow> connector_python_trampoline P (call_context c) (call_type c) (call_message c) st;
     Some (None, st') }"

fun py_run ::
    "('o, 'p) cpython \<Rightarrow> 'w os \<Rightarrow> ('o, 'f) py_event list \<Rightarrow> ('o, 'p, 'w, 'f) py_module \<Rightarrow>
      ('o option list \<times> ('o, 'p, 'w, 'f) py_module) option" where
  "py_run P env [] st = Some ([], st)"
| "py_run P env (e # es) st = do {
     (r, st1) \<leftarrow> py_step P env e st;
     (rs, st2) \<leftarrow> py_run P env es st1;
     Some (r # rs, st2) }"

text \<open>
  The module owns what it has handed out to its callers and the registered function, nothing
  else, and the lock is held as often as before.
\<close>

definition py_owns where
  "py_owns refs gil R n st \<longleftrightarrow> holds refs gil (py_interp st) (R + opt_mset (py_trampoline st)) n"

lemma return_owns:
  assumes "reference_counting P refs gil" "py_owns refs gil R n st" "py_return P k st = (r, st')"
  shows "py_owns refs gil (R + opt_mset r) n st'"
  using assms(2,3) counting_new(1) [OF assms(1), of k "py_interp st"]
  by (auto simp: py_owns_def py_return_def add_ac split: prod.splits)

lemma raise_owns:
  assumes "reference_counting P refs gil" "py_owns refs gil R n st" "py_raise P e t st = (r, st')"
  shows "py_owns refs gil (R + opt_mset r) n st'"
  using assms(2,3) counting_update(1) [OF assms(1), of e t "py_interp st"] by (auto simp: py_owns_def py_raise_def)

lemma return_context_owns:
  assumes "reference_counting P refs gil" "py_owns refs gil R n st" "return_context P c v st = (r, st')"
  shows "py_owns refs gil (R + opt_mset r) n st'"
  using assms(3) return_owns [OF assms(1,2)] raise_owns [OF assms(1,2)] unfolding return_context_def by (metis (lifting))

lemma register_owns:
  assumes L: "reference_counting P refs gil" and own: "py_owns refs gil R n st"
    and "connector_python_register_trampoline P args st = Some (r, st')"
  shows "py_owns refs gil (R + opt_mset r) n st'"
proof -
  obtain a p where a: "PyArg_ParseTuple_O P args (py_interp st) = (a, p)" by fastforce
  have p: "holds refs gil p (R + opt_mset (py_trampoline st)) n"
    using counting_borrow(4) [OF L a] own by (simp add: py_owns_def)
  have none: "Py_INCREF P (Some (Py_None P)) q = Some q' \<Longrightarrow> holds refs gil q' (add_mset (Py_None P) (refs q)) (gil q)" for q q'
    using counting_update(2) [OF L] by simp
  show ?thesis
  proof (cases a)
    case None
    with assms(3) a p none show ?thesis
      by (auto simp: connector_python_register_trampoline_def py_owns_def Option.bind_eq_Some_conv add_ac)
  next
    case (Some f)
    have x: "holds refs gil (Py_XDECREF P (py_trampoline st) p) R n" using counting_update(3) [OF L, of "py_trampoline st" p] p by simp
    obtain p2 where p2: "Py_INCREF P (Some f) (Py_XDECREF P (py_trampoline st) p) = Some p2" by (simp add: Py_INCREF_def)
    from counting_update(2) [OF L this] x have "holds refs gil p2 (add_mset f R) n" by simp
    with assms(3) a Some p2 none [of p2] show ?thesis
      by (auto simp: connector_python_register_trampoline_def py_owns_def Option.bind_eq_Some_conv add_ac)
  qed
qed

lemma trampoline_owns:
  assumes L: "reference_counting P refs gil" and own: "py_owns refs gil R n st"
    and "connector_python_trampoline P ctx type m st = Some st'"
  shows "py_owns refs gil R n st'"
proof -
  obtain g p where g: "PyGILState_Ensure P (py_interp st) = (g, p)" by fastforce
  note gil = counting_gil [OF L g]
  from assms(3) g obtain p1 where p1: "(case py_trampoline st of None \<Rightarrow> Some p | Some t \<Rightarrow> call_python P t ctx type m p) = Some p1"
    "st' = st\<lparr>py_interp := PyGILState_Release P g p1\<rparr>"
    by (auto simp: connector_python_trampoline_def Option.bind_eq_Some_conv)
  have "holds refs gil p1 (refs p) (gil p)"
    using p1(1) call_python_counts [OF L] by (cases "py_trampoline st") auto
  with own gil(1) gil(2) [of g p1] p1(2) show ?thesis by (simp add: py_owns_def)
qed

lemma shutdown_trampoline_owns:
  assumes "reference_counting P refs gil" "py_owns refs gil R n st"
  shows "py_owns refs gil R n (connector_python_shutdown_trampoline P st)"
  using assms(2) counting_update(3) [OF assms(1), of "py_trampoline st" "py_interp st"]
  by (simp add: py_owns_def connector_python_shutdown_trampoline_def)

text \<open>Only the references and the registered function matter to \<^const>\<open>py_owns\<close>.\<close>

lemma owns_cong:
  assumes "py_owns refs gil R n st" "refs (py_interp st') = refs (py_interp st)" "gil (py_interp st') = gil (py_interp st)"
    "py_trampoline st' = py_trampoline st"
  shows "py_owns refs gil R n st'"
  using assms by (simp add: py_owns_def)

lemma init_owns:
  assumes L: "reference_counting P refs gil" and own: "py_owns refs gil R n st"
    and "connector_python_init P env ds cs args st = Some (r, st')"
  shows "py_owns refs gil (R + opt_mset r) n st'"
proof -
  obtain a p where a: "PyArg_ParseTuple_s P args (py_interp st) = (a, p)" by fastforce
  from assms(3) a obtain k st1 where k: "py_return P k st1 = (r, st')" "py_interp st1 = p" "py_trampoline st1 = py_trampoline st"
    by (auto simp: connector_python_init_def Option.bind_eq_Some_conv Let_def split: option.splits prod.splits)
  from return_owns [OF L owns_cong [OF own] k(1)] counting_borrow(5) [OF L a] k(2,3) show ?thesis by simp
qed

lemma shutdown_owns:
  assumes L: "reference_counting P refs gil" and own: "py_owns refs gil R n st"
    and "connector_python_shutdown P env malloc free ws rs ds st = Some (r, st')"
  shows "py_owns refs gil (R + opt_mset r) n st'"
proof -
  from assms(3) obtain k c c' where k: "py_return P k ((connector_python_shutdown_trampoline P (st\<lparr>py_core := c\<rparr>))\<lparr>py_core := c'\<rparr>) = (r, st')"
    by (auto simp: connector_python_shutdown_def Option.bind_eq_Some_conv Let_def)
  have "py_owns refs gil R n (st\<lparr>py_core := c\<rparr>)" using own by (simp add: py_owns_def)
  from shutdown_trampoline_owns [OF L this] have "py_owns refs gil R n ((connector_python_shutdown_trampoline P (st\<lparr>py_core := c\<rparr>))\<lparr>py_core := c'\<rparr>)"
    by (simp add: py_owns_def)
  from return_owns [OF L this k] show ?thesis .
qed

lemma write_message_owns:
  assumes L: "reference_counting P refs gil" and own: "py_owns refs gil R n st"
    and "connector_python_write_message P env initial args st = Some (r, st')"
  shows "py_owns refs gil (R + opt_mset r) n st'"
proof -
  obtain a p where a: "PyArg_ParseTuple_kOs P args (py_interp st) = (a, p)" by fastforce
  note b = counting_borrow(7) [OF L a]
  show ?thesis
  proof (cases a)
    case None
    with assms(3) a own b show ?thesis by (auto simp: connector_python_write_message_def py_owns_def)
  next
    case (Some x)
    with assms(3) a obtain u p1 k c where
      k: "connector_python_assemble_uuid P (fst (snd x)) initial p = Some (u, p1)" "py_return P k (st\<lparr>py_interp := p1, py_core := c\<rparr>) = (r, st')"
      by (auto simp: connector_python_write_message_def Option.bind_eq_Some_conv split: prod.splits)
    have "holds refs gil p1 (refs p) (gil p)"
      by (rule assemble_loop_counts [OF L k(1) [unfolded connector_python_assemble_uuid_def]])
    with own b have "py_owns refs gil R n (st\<lparr>py_interp := p1, py_core := c\<rparr>)" by (simp add: py_owns_def)
    from return_owns [OF L this k(2)] show ?thesis .
  qed
qed

lemma open_tcp_owns:
  assumes L: "reference_counting P refs gil" and own: "py_owns refs gil R n st"
    and "connector_python_open_tcp P env args st = Some (r, st')"
  shows "py_owns refs gil (R + opt_mset r) n st'"
proof -
  obtain a p where a: "PyArg_ParseTuple_k P args (py_interp st) = (a, p)" by fastforce
  have own': "py_owns refs gil R n (st\<lparr>py_interp := p\<rparr>)" "py_owns refs gil R n (st\<lparr>py_interp := p, py_core := c\<rparr>)" for c
    using own counting_borrow(6) [OF L a] by (simp_all add: py_owns_def)
  show ?thesis
  proof (cases a)
    case None
    with assms(3) a raise_owns [OF L own'(1)] show ?thesis by (simp add: connector_python_open_tcp_def)
  next
    case (Some port)
    with assms(3) a obtain e v c where "return_context P e v (st\<lparr>py_interp := p, py_core := c\<rparr>) = (r, st')"
      by (auto simp: connector_python_open_tcp_def Let_def Option.bind_eq_Some_conv)
    from return_context_owns [OF L own'(2) this] show ?thesis .
  qed
qed

lemma core_calls_own:
  assumes L: "reference_counting P refs gil" and own: "py_owns refs gil R n st"
  shows "connector_python_open_default_tcp P env st = Some (r, st') \<Longrightarrow> py_owns refs gil (R + opt_mset r) n st'"
    "connector_python_broadcast_tcp P env st = Some (r, st') \<Longrightarrow> py_owns refs gil (R + opt_mset r) n st'"
    "connector_python_version P b st = (r, st') \<Longrightarrow> py_owns refs gil (R + opt_mset r) n st'"
proof -
  have own': "py_owns refs gil R n (st\<lparr>py_core := c\<rparr>)" for c using own by (simp add: py_owns_def)
  show "py_owns refs gil (R + opt_mset r) n st'" if "connector_python_open_default_tcp P env st = Some (r, st')"
    using that return_context_owns [OF L own'] by (fastforce simp: connector_python_open_default_tcp_def Option.bind_eq_Some_conv)
  show "py_owns refs gil (R + opt_mset r) n st'" if "connector_python_broadcast_tcp P env st = Some (r, st')"
    using that return_owns [OF L own'] by (fastforce simp: connector_python_broadcast_tcp_def Option.bind_eq_Some_conv)
  show "py_owns refs gil (R + opt_mset r) n st'" if "connector_python_version P b st = (r, st')"
    using that own counting_new(2) [OF L, of b "py_interp st"]
    by (auto simp: connector_python_version_def py_owns_def add_ac split: prod.splits)
qed

lemma step_owns:
  assumes L: "reference_counting P refs gil" and own: "py_owns refs gil R n st" and step: "py_step P env e st = Some (r, st')"
  shows "py_owns refs gil (R + opt_mset r) n st'"
proof (cases e)
  case (Py_message c)
  with step trampoline_owns [OF L own] show ?thesis by (auto simp: Option.bind_eq_Some_conv)
qed (use step init_owns [OF L own] shutdown_owns [OF L own] register_owns [OF L own] write_message_owns [OF L own]
  open_tcp_owns [OF L own] core_calls_own [OF L own] in auto)

lemma run_owns:
  assumes "reference_counting P refs gil" "py_owns refs gil R n st" "py_run P env es st = Some (rs, st')"
  shows "py_owns refs gil (R + mset (List.map_filter id rs)) n st'"
  using assms(2,3)
proof (induction es arbitrary: R st rs)
  case (Cons e es)
  obtain r st1 rs' where s: "py_step P env e st = Some (r, st1)" "py_run P env es st1 = Some (rs', st')" "rs = r # rs'"
    using Cons.prems(2) by (auto simp: Option.bind_eq_Some_conv)
  from Cons.IH [OF step_owns [OF assms(1) Cons.prems(1) s(1)] s(2)] s(3) show ?case
    by (cases r) (simp_all add: List.map_filter_simps)
qed (simp add: List.map_filter_simps)

end
