(* ===== verification/Python_Session.thy ===== *)
theory Python_Session
  imports Python_Module
begin

text \<open>
  The Python module in use: the values its callback hands to the registered function, the
  conversion of identifiers, the references it holds over any sequence of calls, and its life
  cycle with the library.
\<close>

section \<open>Values\<close>

text \<open>What Python code sees of the objects the module works with.\<close>

datatype py_data = Py_int nat | Py_str "u8 list" | Py_list "py_data list"

text \<open>
  The documented meaning of the calls. \<open>data\<close> gives the value of an object that is alive and
  \<open>log\<close> the calls of Python functions the module has made, with the values of the arguments.
  An object keeps its value as long as the module owns a reference to it and does not change it.
\<close>

definition values_kept where
  "values_kept refs data log p p' \<longleftrightarrow> (\<forall>x \<in># refs p. data p' x = data p x) \<and> log p' = log p"

definition python_values ::
    "('o, 'p) cpython \<Rightarrow> ('p \<Rightarrow> 'o multiset) \<Rightarrow> ('p \<Rightarrow> 'o \<Rightarrow> py_data option) \<Rightarrow> ('p \<Rightarrow> ('o \<times> py_data option list) list) \<Rightarrow> bool" where
  "python_values P refs data log \<longleftrightarrow>
     (\<forall>n p x p'. PyLong_FromUnsignedLong P n p = (Some x, p') \<longrightarrow>
        values_kept refs data log p p' \<and> data p' x = Some (Py_int (unat n))) \<and>
     (\<forall>b p x p'. PyUnicode_FromString P b p = (Some x, p') \<longrightarrow> values_kept refs data log p p' \<and> data p' x = Some (Py_str b)) \<and>
     (\<forall>p x p'. PyList_New P 0 p = (Some x, p') \<longrightarrow> values_kept refs data log p p' \<and> data p' x = Some (Py_list [])) \<and>
     (\<forall>l vs x v p p'. PyList_Append P l (Some x) p = (0, p') \<longrightarrow> data p l = Some (Py_list vs) \<longrightarrow> data p x = Some v \<longrightarrow>
        data p' l = Some (Py_list (vs @ [v])) \<and> (\<forall>y \<in># refs p. y \<noteq> l \<longrightarrow> data p' y = data p y) \<and> log p' = log p) \<and>
     (\<forall>l vs i p. data p l = Some (Py_list vs) \<longrightarrow> (\<exists>r p'. PyList_GetItem P l i p = (r, p') \<and> data p \<subseteq>\<^sub>m data p' \<and>
        (if i < length vs then \<exists>x. r = Some x \<and> data p' x = Some (vs ! i) else r = None))) \<and>
     (\<forall>x n p. data p x = Some (Py_int n) \<longrightarrow> n < 2 ^ (8 * sizeof_unsigned_long P) \<longrightarrow>
        (\<exists>p'. PyLong_AsUnsignedLong P x p = (of_nat n, p') \<and> data p \<subseteq>\<^sub>m data p')) \<and>
     (\<forall>f xs p r p'. PyObject_CallFunctionObjArgs P f xs p = (r, p') \<longrightarrow> log p' = log p @ [(f, map (data p) xs)]) \<and>
     (\<forall>x p. x \<in># refs p \<longrightarrow> (\<forall>y \<in># refs p - {#x#}. data (Py_DECREF_object P x p) y = data p y) \<and>
        log (Py_DECREF_object P x p) = log p) \<and>
     (\<forall>p g p'. PyGILState_Ensure P p = (g, p') \<longrightarrow> log p' = log p) \<and> (\<forall>g p. log (PyGILState_Release P g p) = log p)"

text \<open>Memory is available: integers and lists are made, and an integer can be appended to a list.\<close>

definition python_memory :: "('o, 'p) cpython \<Rightarrow> ('p \<Rightarrow> 'o \<Rightarrow> py_data option) \<Rightarrow> bool" where
  "python_memory P data \<longleftrightarrow> (\<forall>n p. fst (PyLong_FromUnsignedLong P n p) \<noteq> None) \<and> (\<forall>p. fst (PyList_New P 0 p) \<noteq> None) \<and>
     (\<forall>l vs x p. data p l = Some (Py_list vs) \<longrightarrow> fst (PyList_Append P l (Some x) p) = 0)"

text \<open>\<open>PyUnicode_FromString\<close> decodes UTF-8 and returns NULL for a text that is not.\<close>

definition decodes :: "('o, 'p) cpython \<Rightarrow> u8 list \<Rightarrow> bool" where
  "decodes P b \<longleftrightarrow> (\<forall>p. fst (PyUnicode_FromString P b p) \<noteq> None)"

definition refuses :: "('o, 'p) cpython \<Rightarrow> u8 list \<Rightarrow> bool" where
  "refuses P b \<longleftrightarrow> (\<forall>p. fst (PyUnicode_FromString P b p) = None)"

section \<open>Identifiers\<close>

definition py_uuid :: "substance_connector_uuid \<Rightarrow> py_data" where
  "py_uuid u = Py_list (map (\<lambda>e. Py_int (unat e)) (elements u))"

text \<open>The laws one by one, as the proofs apply them.\<close>

lemma values_new:
  assumes "python_values P refs data log"
  shows "PyLong_FromUnsignedLong P n p = (Some x, p') \<Longrightarrow> values_kept refs data log p p' \<and> data p' x = Some (Py_int (unat n))"
    "PyUnicode_FromString P b p = (Some x, p') \<Longrightarrow> values_kept refs data log p p' \<and> data p' x = Some (Py_str b)"
    "PyList_New P 0 p = (Some x, p') \<Longrightarrow> values_kept refs data log p p' \<and> data p' x = Some (Py_list [])"
  using assms by (simp_all add: python_values_def)

lemma values_append:
  assumes "python_values P refs data log" "PyList_Append P l (Some x) p = (0, p')" "data p l = Some (Py_list vs)" "data p x = Some v"
  shows "data p' l = Some (Py_list (vs @ [v]))" "\<forall>y \<in># refs p. y \<noteq> l \<longrightarrow> data p' y = data p y" "log p' = log p"
  using assms by (simp_all add: python_values_def)

lemma values_read:
  assumes "python_values P refs data log"
  shows "data p l = Some (Py_list vs) \<Longrightarrow> \<exists>r p'. PyList_GetItem P l i p = (r, p') \<and> data p \<subseteq>\<^sub>m data p' \<and>
      (if i < length vs then \<exists>x. r = Some x \<and> data p' x = Some (vs ! i) else r = None)"
    "data p x = Some (Py_int n) \<Longrightarrow> n < 2 ^ (8 * sizeof_unsigned_long P) \<Longrightarrow>
      \<exists>p'. PyLong_AsUnsignedLong P x p = (of_nat n, p') \<and> data p \<subseteq>\<^sub>m data p'"
  using assms unfolding python_values_def by presburger+

lemma values_log:
  assumes "python_values P refs data log"
  shows "PyObject_CallFunctionObjArgs P f xs p = (r, p') \<Longrightarrow> log p' = log p @ [(f, map (data p) xs)]"
    "PyGILState_Ensure P p = (g, p') \<Longrightarrow> log p' = log p" "log (PyGILState_Release P h p) = log p"
  using assms by (simp_all add: python_values_def)

lemma values_decref:
  assumes "python_values P refs data log" "x \<in># refs p"
  shows "\<forall>y \<in># refs p - {#x#}. data (Py_DECREF_object P x p) y = data p y" "log (Py_DECREF_object P x p) = log p"
  using assms by (simp_all add: python_values_def)

lemma memory_long:
  assumes "python_memory P data"
  obtains x p' where "PyLong_FromUnsignedLong P n p = (Some x, p')"
  using assms unfolding python_memory_def by (metis option.collapse prod.collapse)

lemma split_loop_values:
  assumes L: "reference_counting P refs gil" and V: "python_values P refs data log" and M: "python_memory P data"
    and "l \<in># refs p" "data p l = Some (Py_list vs)"
  shows "\<exists>p'. split_loop P (Some l) es p = Some p' \<and> data p' l = Some (Py_list (vs @ map (\<lambda>e. Py_int (unat e)) es)) \<and>
    (\<forall>y \<in># refs p. y \<noteq> l \<longrightarrow> data p' y = data p y) \<and> log p' = log p"
  using assms(4,5)
proof (induction es arbitrary: p vs)
  case (Cons e es)
  obtain x p1 where x: "PyLong_FromUnsignedLong P (ucast e) p = (Some x, p1)" using memory_long [OF M] by blast
  have x1: "values_kept refs data log p p1" "data p1 x = Some (Py_int (unat e))"
    using values_new(1) [OF V x] by (simp_all add: unat_ucast_widen)
  have r1: "refs p1 = add_mset x (refs p)" using counting_new(1) [OF L x] by simp
  have l1: "data p1 l = Some (Py_list vs)" using Cons.prems x1(1) by (simp add: values_kept_def)
  obtain p2 where p2: "PyList_Append P l (Some x) p1 = (0, p2)"
    using M l1 unfolding python_memory_def by (metis prod.collapse)
  note x2 = values_append [OF V p2 l1 x1(2)]
  have r2: "refs p2 = add_mset x (refs p)" using counting_borrow(2) [OF L p2] r1 by simp
  let ?p = "Py_DECREF_object P x p2"
  have d: "Py_DECREF P (Some x) p2 = Some ?p" by (simp add: Py_DECREF_def)
  have r3: "refs ?p = refs p" using counting_update(4) [OF L _ d] r2 by simp
  have x3: "\<forall>y \<in># refs p. data ?p y = data p2 y" "log ?p = log p2"
    using values_decref [OF V, of x p2] r2 by simp_all
  have "data ?p l = Some (Py_list (vs @ [Py_int (unat e)]))" using x3(1) x2(1) Cons.prems(1) by simp
  with Cons.IH [of ?p] Cons.prems(1) r3 obtain p' where p': "split_loop P (Some l) es ?p = Some p'"
    "data p' l = Some (Py_list (vs @ Py_int (unat e) # map (\<lambda>e. Py_int (unat e)) es))"
    "\<forall>y \<in># refs p. y \<noteq> l \<longrightarrow> data p' y = data ?p y" "log p' = log ?p" by auto
  then show ?case using x p2 d x1(1) x2(2,3) x3 r1 by (auto simp: values_kept_def)
qed simp

lemma split_uuid_values:
  assumes "reference_counting P refs gil" "python_values P refs data log" "python_memory P data"
    and "l \<in># refs p" "data p l = Some (Py_list [])"
  shows "\<exists>p'. connector_python_split_uuid P u (Some l) p = Some p' \<and> data p' l = Some (py_uuid u) \<and>
    (\<forall>y \<in># refs p. y \<noteq> l \<longrightarrow> data p' y = data p y) \<and> log p' = log p"
  using split_loop_values [OF assms, of "elements u"] by (simp add: connector_python_split_uuid_def py_uuid_def)

text \<open>One element is read from the list, or the list ends.\<close>

lemma assemble_item:
  assumes V: "python_values P refs data log" and l: "data p l = Some (Py_list (map Py_int ns))"
    and ns: "\<forall>n \<in> set ns. n < 2 ^ (8 * sizeof_unsigned_long P)"
  shows "i < length ns \<Longrightarrow> \<exists>p'. data p' l = Some (Py_list (map Py_int ns)) \<and>
      assemble_loop P (Some l) (i # is) u p = assemble_loop P (Some l) is (store_element i (ucast (of_nat (ns ! i) :: u64)) u) p'"
    "length ns \<le> i \<Longrightarrow> \<exists>p'. assemble_loop P (Some l) (i # is) u p = Some (u, p')"
proof -
  obtain r p1 where g: "PyList_GetItem P l i p = (r, p1)" "data p \<subseteq>\<^sub>m data p1"
    "if i < length ns then \<exists>x. r = Some x \<and> data p1 x = Some (map Py_int ns ! i) else r = None"
    using values_read(1) [OF V l, of i] by auto
  { assume i: "i < length ns"
    then obtain x where x: "r = Some x" "data p1 x = Some (Py_int (ns ! i))" using g(3) by auto
    then obtain p2 where p2: "PyLong_AsUnsignedLong P x p1 = (of_nat (ns ! i), p2)" "data p1 \<subseteq>\<^sub>m data p2"
      using values_read(2) [OF V x(2)] ns i by auto
    have "data p2 l = Some (Py_list (map Py_int ns))" using l g(2) p2(2) by (metis domI map_le_def)
    then show "\<exists>p'. data p' l = Some (Py_list (map Py_int ns)) \<and>
        assemble_loop P (Some l) (i # is) u p = assemble_loop P (Some l) is (store_element i (ucast (of_nat (ns ! i) :: u64)) u) p'"
      using g(1) x(1) p2(1) by auto }
  show "\<exists>p'. assemble_loop P (Some l) (i # is) u p = Some (u, p')" if "length ns \<le> i"
    using g that by auto
qed

lemma elements_store:
  assumes "i < 4"
  shows "elements (store_element i v u) = (elements u)[i := v]"
proof -
  consider "i = 0" | "i = 1" | "i = 2" | "i = 3" using assms by fastforce
  then show ?thesis by cases (cases u; simp add: store_element_def numeral_eq_Suc)+
qed

abbreviation list_words :: "nat list \<Rightarrow> u32 list" where
  "list_words ns \<equiv> map (\<lambda>n. ucast (of_nat n :: u64)) ns"

lemma assemble_loop_values:
  assumes V: "python_values P refs data log" and l: "data p l = Some (Py_list (map Py_int ns))"
    and ns: "\<forall>n \<in> set ns. n < 2 ^ (8 * sizeof_unsigned_long P)" and k: "k \<le> 4" "k \<le> length ns"
  shows "\<exists>u' p'. assemble_loop P (Some l) [k..<4] u p = Some (u', p') \<and>
    elements u' = take k (elements u) @ drop k (take 4 (list_words ns)) @ drop (length ns) (elements u)"
  using l k
proof (induction "4 - k" arbitrary: k u p)
  case 0
  then show ?case by simp
next
  case (Suc d)
  then have k4: "k < 4" by simp
  show ?case
  proof (cases "k = length ns")
    case True
    with assemble_item(2) [OF V Suc.prems(1) ns, of k "[Suc k..<4]" u] k4 show ?thesis by (auto simp: upt_conv_Cons)
  next
    case False
    then have kl: "k < length ns" using Suc.prems(3) by simp
    let ?u = "store_element k (ucast (of_nat (ns ! k) :: u64)) u"
    obtain p1 where p1: "data p1 l = Some (Py_list (map Py_int ns))"
      "assemble_loop P (Some l) [k..<4] u p = assemble_loop P (Some l) [Suc k..<4] ?u p1"
      using assemble_item(1) [OF V Suc.prems(1) ns kl, of "[Suc k..<4]" u] k4 by (auto simp: upt_conv_Cons)
    have e: "elements ?u = (elements u)[k := list_words ns ! k]" using elements_store [OF k4] kl by simp
    have "drop k (take 4 (list_words ns)) = list_words ns ! k # drop (Suc k) (take 4 (list_words ns))"
      using k4 kl by (subst Cons_nth_drop_Suc [symmetric]) simp_all
    moreover have "take (Suc k) (elements ?u) = take k (elements u) @ [list_words ns ! k]"
      using e k4 by (simp add: take_Suc_conv_app_nth)
    moreover have "drop (length ns) (elements ?u) = drop (length ns) (elements u)" using e kl by simp
    ultimately show ?thesis using Suc.hyps(1) [of "Suc k" p1 ?u] Suc.hyps(2) p1 k4 kl by auto
  qed
qed

lemma assemble_uuid_values:
  assumes "python_values P refs data log" "data p l = Some (Py_list (map Py_int ns))"
    and "\<forall>n \<in> set ns. n < 2 ^ (8 * sizeof_unsigned_long P)"
  shows "\<exists>u' p'. connector_python_assemble_uuid P (Some l) u p = Some (u', p') \<and>
    elements u' = take 4 (list_words ns) @ drop (length ns) (elements u)"
proof -
  have "[0, 1, 2, 3] = [0..<4 :: nat]" by (simp add: upt_conv_Cons)
  with assemble_loop_values [OF assms, of 0 u] show ?thesis
    by (simp add: connector_python_assemble_uuid_def del: assemble_loop.simps)
qed

lemma words_fit: "4 \<le> sizeof_unsigned_long P \<Longrightarrow> n < 2 ^ 32 \<Longrightarrow> n < (2 :: nat) ^ (8 * sizeof_unsigned_long P)"
  using power_increasing [of 32 "8 * sizeof_unsigned_long P" "2 :: nat"] by simp

lemma assemble_of_uuid:
  assumes "python_values P refs data log" "data p l = Some (py_uuid u)" "4 \<le> sizeof_unsigned_long P"
  shows "\<exists>p'. connector_python_assemble_uuid P (Some l) v p = Some (u, p')"
proof -
  have l: "data p l = Some (Py_list (map Py_int (map unat (elements u))))" using assms(2) by (simp add: py_uuid_def comp_def)
  have "\<forall>n \<in> set (map unat (elements u)). n < 2 ^ (8 * sizeof_unsigned_long P)"
    using words_fit [OF assms(3)] unat_bound [where 'a = 32] by auto
  from assemble_uuid_values [OF assms(1) l this, of v] show ?thesis by (auto simp: comp_def narrow_of_nat elements_inject)
qed

section \<open>The call of the Python function\<close>

definition py_arguments :: "u32 \<Rightarrow> substance_connector_uuid \<Rightarrow> u8 list \<Rightarrow> py_data option list" where
  "py_arguments ctx type b = [Some (Py_int (unat ctx)), Some (py_uuid type), Some (Py_str b)]"

lemma decref_log:
  assumes "reference_counting P refs gil" "python_values P refs data log" "x \<in># refs p"
  shows "Py_DECREF P (Some x) p = Some (Py_DECREF_object P x p)" "log (Py_DECREF_object P x p) = log p"
    "refs (Py_DECREF_object P x p) = refs p - {#x#}"
  using values_decref(2) [OF assms(2,3)] counting_update(4) [OF assms(1), of "Some x" p] assms(3) by (simp_all add: Py_DECREF_def)

lemma call_python_values:
  assumes L: "reference_counting P refs gil" and V: "python_values P refs data log" and M: "python_memory P data"
    and m: "deref m = Some b" "0 \<in> set b" "decodes P (cstr b)"
  shows "\<exists>p'. call_python P t ctx type m p = Some p' \<and> log p' = log p @ [(t, py_arguments ctx type (cstr b))]"
proof -
  obtain c p1 where c: "PyLong_FromUnsignedLong P (ucast ctx) p = (Some c, p1)" using memory_long [OF M] by blast
  obtain s p2 where s: "PyUnicode_FromString P (cstr b) p1 = (Some s, p2)"
    using m(3) unfolding decodes_def by (metis option.collapse prod.collapse)
  obtain u p3 where u: "PyList_New P 0 p2 = (Some u, p3)"
    using M unfolding python_memory_def by (metis option.collapse prod.collapse)
  have r: "refs p1 = add_mset c (refs p)" "refs p2 = add_mset s (refs p1)" "refs p3 = add_mset u (refs p2)"
    using counting_new(1) [OF L c] counting_new(2) [OF L s] counting_new(3) [OF L u] by simp_all
  note v = values_new(1) [OF V c] values_new(2) [OF V s] values_new(3) [OF V u]
  have d: "data p3 c = Some (Py_int (unat ctx))" "data p3 s = Some (Py_str (cstr b))" "data p3 u = Some (Py_list [])" "log p3 = log p"
    using v r by (simp_all add: values_kept_def unat_ucast_widen)
  have ne: "c \<noteq> u" "s \<noteq> u" using d by auto
  obtain p4 where p4: "connector_python_split_uuid P type (Some u) p3 = Some p4" "data p4 u = Some (py_uuid type)"
    "\<forall>y \<in># refs p3. y \<noteq> u \<longrightarrow> data p4 y = data p3 y" "log p4 = log p3"
    using split_uuid_values [OF L V M _ d(3), of type] r(3) by auto
  have r4: "refs p4 = refs p3" using split_loop_counts [OF L p4(1) [unfolded connector_python_split_uuid_def]] by simp
  obtain x p5 where x: "PyObject_CallFunctionObjArgs P t (va_objects [Some c, Some u, Some s]) p4 = (x, p5)" by fastforce
  have l5: "log p5 = log p @ [(t, py_arguments ctx type (cstr b))]"
    using values_log(1) [OF V x] d p4(2-4) ne r by (simp add: py_arguments_def)
  have r5: "refs p5 = refs p3 + opt_mset x" using counting_new(4) [OF L x] r4 by simp
  let ?p6 = "Py_XDECREF P x p5"
  have 6: "refs ?p6 = refs p3" "log ?p6 = log p5"
    using counting_update(3) [OF L, of x p5] r5 values_decref(2) [OF V, of _ p5]
    by (auto simp: Py_XDECREF_def split: option.splits)
  note 7 = decref_log [OF L V, of c ?p6]
  note 8 = decref_log [OF L V, of s "Py_DECREF_object P c ?p6"]
  note 9 = decref_log [OF L V, of u "Py_DECREF_object P s (Py_DECREF_object P c ?p6)"]
  have "call_python P t ctx type m p = Some (Py_DECREF_object P u (Py_DECREF_object P s (Py_DECREF_object P c ?p6)))"
    using c m(1,2) s u p4(1) x 6 7 8 9 r by (simp add: call_python_def del: va_objects.simps)
  moreover have "log (Py_DECREF_object P u (Py_DECREF_object P s (Py_DECREF_object P c ?p6))) = log p5"
    using 6 7 8 9 r by simp
  ultimately show ?thesis using l5 by simp
qed

text \<open>The calls the library makes for a sequence of texts, one after the other.\<close>

abbreviation python_texts :: "u32 \<Rightarrow> (substance_connector_uuid \<times> u8 list) list \<Rightarrow> ('o, 'f) py_event list" where
  "python_texts ctx ts \<equiv> map Py_message (text_calls [python_trampoline] ctx ts)"

lemma text_calls_Cons:
  "python_texts ctx ((type, b) # ts) = Py_message \<lparr>call_target = python_trampoline, call_context = ctx, call_type = type,
     call_message = OWNED (c_string (cstr b))\<rparr> # python_texts ctx ts"
  by (simp add: text_calls_def)

lemma deref_text: "deref (OWNED (c_string (cstr b))) = Some (c_string (cstr b))" "0 \<in> set (c_string (cstr b))"
  "cstr (c_string (cstr b)) = cstr b"
  by (simp_all add: cstr_no_zero) (simp add: c_string_def)

lemma python_texts_logged:
  assumes L: "reference_counting P refs gil" and V: "python_values P refs data log" and M: "python_memory P data"
    and "py_trampoline st = Some t" "\<forall>(type, b) \<in> set ts. decodes P (cstr b)"
  shows "\<exists>st'. py_run P env (python_texts ctx ts) st = Some (map (\<lambda>_. None) ts, st') \<and> py_trampoline st' = Some t \<and>
    py_core st' = py_core st \<and> log (py_interp st') = log (py_interp st) @ map (\<lambda>(type, b). (t, py_arguments ctx type (cstr b))) ts"
  using assms(4,5)
proof (induction ts arbitrary: st)
  case (Cons x ts)
  obtain type b where x: "x = (type, b)" by fastforce
  have b: "decodes P (cstr (c_string (cstr b)))" using Cons.prems(2) deref_text(3) by (simp add: x)
  obtain g p where g: "PyGILState_Ensure P (py_interp st) = (g, p)" by fastforce
  obtain p1 where p1: "call_python P t ctx type (OWNED (c_string (cstr b))) p = Some p1"
    "log p1 = log p @ [(t, py_arguments ctx type (cstr b))]"
    using call_python_values [OF L V M deref_text(1,2) b] deref_text(3) by metis
  let ?st = "st\<lparr>py_interp := PyGILState_Release P g p1\<rparr>"
  have s: "connector_python_trampoline P ctx type (OWNED (c_string (cstr b))) st = Some ?st"
    using g p1(1) Cons.prems(1) by (simp add: connector_python_trampoline_def)
  have l: "log (py_interp ?st) = log (py_interp st) @ [(t, py_arguments ctx type (cstr b))]"
    using values_log(2) [OF V g] values_log(3) [OF V, of g p1] p1(2) by simp
  from Cons.IH [of ?st] Cons.prems obtain st' where
    "py_run P env (python_texts ctx ts) ?st = Some (map (\<lambda>_. None) ts, st')" "py_trampoline st' = Some t" "py_core st' = py_core st"
    "log (py_interp st') = log (py_interp ?st) @ map (\<lambda>(type, b). (t, py_arguments ctx type (cstr b))) ts" by auto
  with s l show ?case by (simp add: x text_calls_Cons)
qed (simp add: text_calls_def)

lemma bind_None: "Option.bind x (\<lambda>_. None) = None"
  by (cases x) simp_all

lemma refused_text_faults:
  assumes "py_trampoline st = Some t" "deref m = Some b" "refuses P (cstr b)"
  shows "connector_python_trampoline P ctx type m st = None"
proof -
  have "call_python P t ctx type m p = None" for p
  proof -
    obtain c p1 where c: "PyLong_FromUnsignedLong P (ucast ctx) p = (c, p1)" by fastforce
    obtain p2 where s: "PyUnicode_FromString P (cstr b) p1 = (None, p2)"
      using assms(3) unfolding refuses_def by (metis prod.collapse)
    obtain u p3 where u: "PyList_New P 0 p2 = (u, p3)" by fastforce
    show ?thesis
      using c s u assms(2) by (simp add: call_python_def Py_DECREF_def Let_def bind_None case_prod_unfold)
  qed
  then show ?thesis using assms(1) by (simp add: connector_python_trampoline_def case_prod_unfold)
qed

lemma refused_among_texts:
  assumes "py_trampoline st = Some t" "(type, b) \<in> set ts" "refuses P (cstr b)"
  shows "py_run P env (python_texts ctx ts) st = None"
  using assms(1,2)
proof (induction ts arbitrary: st)
  case (Cons x ts)
  obtain type' b' where x: "x = (type', b')" by fastforce
  let ?m = "OWNED (c_string (cstr b'))"
  show ?case
  proof (cases "connector_python_trampoline P ctx type' ?m st")
    case None
    then show ?thesis by (simp add: x text_calls_Cons)
  next
    case (Some st1)
    have "py_trampoline st1 = Some t"
      using Some Cons.prems(1) by (auto simp: connector_python_trampoline_def Option.bind_eq_Some_conv split: prod.splits)
    moreover have "(type, b) \<in> set ts"
    proof (rule ccontr)
      assume "(type, b) \<notin> set ts"
      then have "b' = b" using Cons.prems(2) x by simp
      with refused_text_faults [OF Cons.prems(1) deref_text(1)] assms(3) Some show False
        by (metis deref_text(3) option.distinct(1))
    qed
    ultimately show ?thesis using Cons.IH [of st1] Some by (simp add: x text_calls_Cons)
  qed
qed simp

section \<open>Sessions\<close>

text \<open>The argument tuple of \<open>init\<close> holds a terminated name.\<close>

definition parses_name :: "('o, 'p) cpython \<Rightarrow> 'o \<Rightarrow> bool" where
  "parses_name P args \<longleftrightarrow> (\<forall>p. \<exists>b. fst (PyArg_ParseTuple_s P args p) = Some b \<and> 0 \<in> set b \<and> length b < 2 ^ 64)"

lemma parsed_name:
  assumes "parses_name P args"
  obtains b p' where "PyArg_ParseTuple_s P args p = (Some b, p')" "0 \<in> set b" "length b < 2 ^ 64"
  using assms unfolding parses_name_def by (metis prod.collapse)

abbreviation python_running where
  "python_running fs st \<equiv> connector_module_state (py_core st) = SUBSTANCE_CONNECTOR_STATE_INIT_FINISHED \<and> settled fs (py_core st)"

lemma python_init_runs:
  assumes al: "allocator_succeeds env" and cl: "clean (py_core st)" and nm: "parses_name P args"
  shows "\<exists>p st'. connector_python_init P env start_dispatch start_readers args st = Some (fst (PyLong_FromUnsignedLong P 0 p), st') \<and>
    python_running [python_trampoline] st' \<and> py_trampoline st' = py_trampoline st"
proof -
  obtain b p where b: "PyArg_ParseTuple_s P args (py_interp st) = (Some b, p)" "0 \<in> set b" "length b < 2 ^ 64"
    using parsed_name [OF nm] by blast
  from init_settles [OF al cl _ b(2,3), of "BORROWED b"] obtain c where
    c: "substance_connector_init env (BORROWED b) start_dispatch start_readers (py_core st) = Some (SUBSTANCE_CONNECTOR_SUCCESS, c)"
      "connector_module_state c = SUBSTANCE_CONNECTOR_STATE_INIT_FINISHED" "settled [] c" by auto
  from add_trampoline_settles [OF al c(2,3)] obtain c' where
    c': "substance_connector_add_trampoline env (Some python_trampoline) c = Some (SUBSTANCE_CONNECTOR_SUCCESS, c')"
      "connector_module_state c' = SUBSTANCE_CONNECTOR_STATE_INIT_FINISHED" "settled [python_trampoline] c'" by blast
  from b(1) c(1) c' show ?thesis
    by (intro exI [of _ p]) (simp add: connector_python_init_def py_return_def Let_def split: prod.splits)
qed

lemma python_init_again:
  assumes al: "allocator_succeeds env" and run: "python_running fs st" and nm: "parses_name P args"
  shows "\<exists>p st'. connector_python_init P env ds cs args st = Some (fst (PyLong_FromUnsignedLong P 1 p), st') \<and>
    python_running (python_trampoline # fs) st' \<and> py_trampoline st' = py_trampoline st"
proof -
  obtain b p where b: "PyArg_ParseTuple_s P args (py_interp st) = (Some b, p)" using parsed_name [OF nm] by blast
  have i: "substance_connector_init env (BORROWED b) ds cs (py_core st) = Some (SUBSTANCE_CONNECTOR_ERROR, py_core st)"
    using run by (simp add: substance_connector_init_def exchange_state_def CONNECTOR_ATOMIC_COMPARE_EXCHANGE_def)
  from add_trampoline_settles [OF al, of "py_core st" fs python_trampoline] run obtain c' where
    c': "substance_connector_add_trampoline env (Some python_trampoline) (py_core st) = Some (SUBSTANCE_CONNECTOR_SUCCESS, c')"
      "connector_module_state c' = SUBSTANCE_CONNECTOR_STATE_INIT_FINISHED" "settled (python_trampoline # fs) c'" by blast
  from b i c' show ?thesis
    by (intro exI [of _ p]) (simp add: connector_python_init_def py_return_def Let_def split: prod.splits)
qed

lemma python_shutdown_ends:
  assumes run: "python_running fs st"
  shows "\<exists>p st'. connector_python_shutdown P env malloc free stop_writers stop_readers stop_dispatch st =
      Some (fst (PyLong_FromUnsignedLong P 0 p), st') \<and> clean (py_core st') \<and> py_trampoline st' = None"
proof -
  from remove_trampoline_settles [of "py_core st" fs python_trampoline] run obtain r c where
    c: "substance_connector_remove_trampoline (Some python_trampoline) (py_core st) = Some (r, c)"
      "connector_module_state c = SUBSTANCE_CONNECTOR_STATE_INIT_FINISHED" "settled (remove1 python_trampoline fs) c" by blast
  from shutdown_cleans [OF c(2,3), of env malloc free] obtain c' where
    c': "substance_connector_shutdown env malloc free stop_writers stop_readers stop_dispatch c = Some (SUBSTANCE_CONNECTOR_SUCCESS, c')" "clean c'"
    by blast
  let ?p = "py_interp (connector_python_shutdown_trampoline P (st\<lparr>py_core := c\<rparr>))"
  from c(1) c' show ?thesis
    by (intro exI [of _ ?p])
      (simp add: connector_python_shutdown_def connector_python_shutdown_trampoline_def py_return_def Let_def split: prod.splits)
qed

section \<open>A small interpreter\<close>

text \<open>
  An instance of the parameter on which the examples run. Objects are numbered, the value of
  an object is the first entry for it, and nothing is ever released; texts are ASCII, and
  every argument tuple parses to the same arguments.
\<close>

record sample_interp =
  si_heap :: "(nat \<times> py_data) list"
  si_refs :: "nat multiset"
  si_gil :: nat
  si_log :: "(nat \<times> py_data option list) list"

definition si_fresh :: "sample_interp \<Rightarrow> nat" where
  "si_fresh p = Suc (Max (insert 0 (set_mset (si_refs p) \<union> fst ` set (si_heap p))))"

abbreviation si_data :: "sample_interp \<Rightarrow> nat \<Rightarrow> py_data option" where
  "si_data p \<equiv> map_of (si_heap p)"

definition si_new :: "py_data \<Rightarrow> sample_interp \<Rightarrow> nat option \<times> sample_interp" where
  "si_new v p = (Some (si_fresh p), p\<lparr>si_heap := (si_fresh p, v) # si_heap p, si_refs := add_mset (si_fresh p) (si_refs p)\<rparr>)"

definition si_append :: "nat \<Rightarrow> nat option \<Rightarrow> sample_interp \<Rightarrow> c_int \<times> sample_interp" where
  "si_append l x p = (case (si_data p l, Option.bind x (si_data p)) of
     (Some (Py_list vs), Some v) \<Rightarrow> (0, p\<lparr>si_heap := (l, Py_list (vs @ [v])) # si_heap p\<rparr>)
   | _ \<Rightarrow> (0, p))"

definition si_item :: "nat \<Rightarrow> nat \<Rightarrow> sample_interp \<Rightarrow> nat option \<times> sample_interp" where
  "si_item l i p = (case si_data p l of
     Some (Py_list vs) \<Rightarrow> if i < length vs then (Some (si_fresh p), p\<lparr>si_heap := (si_fresh p, vs ! i) # si_heap p\<rparr>) else (None, p)
   | _ \<Rightarrow> (None, p))"

definition sample_python :: "(nat, sample_interp) cpython" where
  "sample_python = \<lparr>sizeof_unsigned_long = 4,
     PyLong_FromUnsignedLong = (\<lambda>n. si_new (Py_int (unat n))),
     PyLong_AsUnsignedLong = (\<lambda>x p. (case si_data p x of Some (Py_int n) \<Rightarrow> of_nat n | _ \<Rightarrow> - 1, p)),
     PyUnicode_FromString = (\<lambda>b p. if \<forall>c \<in> set b. c < 128 then si_new (Py_str b) p else (None, p)),
     PyList_New = (\<lambda>n. si_new (Py_list [])), PyList_Append = si_append, PyList_GetItem = si_item,
     PyObject_CallFunctionObjArgs = (\<lambda>f xs p. si_new (Py_int 0) (p\<lparr>si_log := si_log p @ [(f, map (si_data p) xs)]\<rparr>)),
     PyArg_ParseTuple_O = (\<lambda>x p. (Some x, p)), PyArg_ParseTuple_s = (\<lambda>x p. (Some [97, 0], p)),
     PyArg_ParseTuple_k = (\<lambda>x p. (Some 8080, p)), PyArg_ParseTuple_kOs = (\<lambda>x p. (Some (0, Some x, Some [104, 105, 0]), p)),
     PyErr_SetString = (\<lambda>e t p. p), Py_INCREF_object = (\<lambda>x p. p\<lparr>si_refs := add_mset x (si_refs p)\<rparr>),
     Py_DECREF_object = (\<lambda>x p. p\<lparr>si_refs := si_refs p - {#x#}\<rparr>), Py_None = 0,
     PyGILState_Ensure = (\<lambda>p. (PyGILState_UNLOCKED, p\<lparr>si_gil := Suc (si_gil p)\<rparr>)),
     PyGILState_Release = (\<lambda>g p. p\<lparr>si_gil := si_gil p - 1\<rparr>)\<rparr>"

lemma si_fresh_new:
  shows "si_fresh p \<notin># si_refs p" "si_fresh p \<notin> fst ` set (si_heap p)" "si_data p (si_fresh p) = None"
proof -
  let ?S = "insert 0 (set_mset (si_refs p) \<union> fst ` set (si_heap p))"
  have "x \<noteq> si_fresh p" if "x \<in> ?S" for x
    using Max_ge [of ?S x] that unfolding si_fresh_def by fastforce
  then show f: "si_fresh p \<notin># si_refs p" "si_fresh p \<notin> fst ` set (si_heap p)" by blast+
  then show "si_data p (si_fresh p) = None" by (simp add: map_of_eq_None_iff)
qed

lemma sample_python_counts: "reference_counting sample_python si_refs si_gil"
  by (auto simp: reference_counting_def new_reference_def borrows_def sample_python_def si_new_def si_append_def si_item_def
      split: option.splits py_data.splits if_splits)

lemma sample_python_values: "python_values sample_python si_refs si_data si_log"
  unfolding python_values_def values_kept_def using si_fresh_new
  by (auto simp: sample_python_def si_new_def si_append_def si_item_def map_le_def dom_def split: if_splits)

lemma sample_python_memory: "python_memory sample_python si_data"
  by (auto simp: python_memory_def sample_python_def si_new_def si_append_def split: option.splits)

lemma sample_decodes: "\<forall>c \<in> set b. c < 128 \<Longrightarrow> decodes sample_python b" "c \<in> set b \<Longrightarrow> \<not> c < 128 \<Longrightarrow> refuses sample_python b"
  by (auto simp: decodes_def refuses_def sample_python_def si_new_def)

lemma sample_parses: "parses_name sample_python args"
  by (simp add: parses_name_def sample_python_def)

text \<open>A module with a registered function, object 7, on a library that is not in session.\<close>

definition sample_py_module :: "(nat, sample_interp, u8 list, nat) py_module" where
  "sample_py_module = \<lparr>py_trampoline = Some 7, py_interp = \<lparr>si_heap = [], si_refs = {#7#}, si_gil = 0, si_log = []\<rparr>,
     py_core = fresh_connector [] \<lparr>connector_memory_allocate = 0, connector_memory_free = 0\<rparr>\<rparr>"

section \<open>Properties\<close>

text \<open>
  C18: the module neither leaks nor over-releases references to Python objects. Whatever
  sequence of its methods and of messages runs without a fault, the references it owns at the
  end are those of the results it has handed to its callers and the one to the registered
  function, and it has given the interpreter lock back as often as it took it.
\<close>

theorem python_references_balanced:
  assumes "reference_counting P refs gil" and "refs (py_interp st) = R + opt_mset (py_trampoline st)"
    and "py_run P env es st = Some (rs, st')"
  shows "refs (py_interp st') = R + mset (List.map_filter id rs) + opt_mset (py_trampoline st') \<and> gil (py_interp st') = gil (py_interp st)"
proof -
  have "py_owns refs gil R (gil (py_interp st)) st" using assms(2) by (simp add: py_owns_def)
  from run_owns [OF assms(1) this assms(3)] show ?thesis by (simp add: py_owns_def)
qed

theorem python_references_balanced_witness:
  "\<exists>rs st'. py_run sample_python sample_os (python_texts 3 [(UUID 1 2 3 4, [104, 105, 0]), (UUID 5 6 7 8, [120, 0])]) sample_py_module = Some (rs, st') \<and>
     si_refs (py_interp st') = {#7#} \<and> si_gil (py_interp st') = 0"
proof -
  let ?ts = "[(UUID 1 2 3 4, [104, 105, 0]), (UUID 5 6 7 8, [120, 0])] :: (substance_connector_uuid \<times> u8 list) list"
  have d: "\<forall>(type, b) \<in> set ?ts. decodes sample_python (cstr b)" by (auto intro!: sample_decodes simp: cstr_def)
  obtain st' where r: "py_run sample_python sample_os (python_texts 3 ?ts) sample_py_module = Some (map (\<lambda>_. None) ?ts, st')" "py_trampoline st' = Some 7"
    using python_texts_logged [OF sample_python_counts sample_python_values sample_python_memory _ d, of sample_py_module 7 sample_os 3]
    by (auto simp: sample_py_module_def)
  from python_references_balanced [OF sample_python_counts _ r(1), of "{#}"] r
  have "si_refs (py_interp st') = {#7#} \<and> si_gil (py_interp st') = 0"
    by (simp add: sample_py_module_def List.map_filter_simps)
  with r(1) show ?thesis by blast
qed

text \<open>
  C19: texts reach Python. What another application writes on a connection arrives, through
  both libraries, as one call of the registered Python function per text and in order, with
  the number of the context, the list of the four words of the type, and the text.
\<close>

theorem python_receives_texts:
  assumes "reference_counting P refs gil" and "python_values P refs data log" and "python_memory P data"
    and "socket_link env pending" and "allocator_succeeds env"
    and "connector_module_state a = SUBSTANCE_CONNECTOR_STATE_INIT_FINISHED" and "wf_queues (queues (sys_part a))"
    and "outbound_messages (queues (sys_part a)) = []" and "established (sys_part a) ctx" and "pending (world (sys_part a)) = []"
    and "ts \<noteq> []" and "list_all (\<lambda>(type, b). text_ok b) ts" and "\<forall>(type, b) \<in> set ts. decodes P (cstr b)"
    and "established (sys_part (py_core st)) ctx'" and "ready [python_trampoline] (sys_part (py_core st))"
    and "inbound_messages (queues (sys_part (py_core st))) = []" and "dispatch_shutdown_code d = 0" and "py_trampoline st = Some t"
  shows "\<exists>a' sa s1 s2 arrived st'. write_texts env ctx ts a = Some (map (\<lambda>_. SUBSTANCE_CONNECTOR_SUCCESS) ts, a') \<and>
    write_steps (length ts + 2) env WWoken 0 (sys_part a') = Some (WSend NULL, sa) \<and>
    handle_times (length ts) env ctx' ((sys_part (py_core st))\<lparr>world := world sa\<rparr>) = Some (map (\<lambda>_. SUBSTANCE_CONNECTOR_SUCCESS) ts, s1) \<and>
    dispatch_steps (length ts + 2) env i DWoken d s1 = Some (DProcess NULL, d, s2) \<and>
    calls s2 = calls (sys_part (py_core st)) @ arrived \<and> py_run P env (map Py_message arrived) st = Some (map (\<lambda>_. None) ts, st') \<and>
    log (py_interp st') = log (py_interp st) @
      map (\<lambda>(type, b). (t, [Some (Py_int (unat ctx')), Some (py_uuid type), Some (Py_str (cstr b))])) ts"
  using written_texts_arrive [OF assms(4-12,14-17), of i]
    python_texts_logged [OF assms(1-3,18,13), of env ctx', unfolded py_arguments_def] by blast

theorem python_receives_texts_witness:
  "\<exists>a' sa s1 s2 arrived st'. write_texts sample_os 0 [(UUID 1 2 3 4, [104, 105, 0])]
       ((fresh_connector [] \<lparr>connector_memory_allocate = 0 :: nat, connector_memory_free = 0\<rparr>)\<lparr>
         connector_module_state := SUBSTANCE_CONNECTOR_STATE_INIT_FINISHED, sys_part := sample_dispatch_sys\<rparr>)
       = Some ([SUBSTANCE_CONNECTOR_SUCCESS], a') \<and>
     write_steps 3 sample_os WWoken 0 (sys_part a') = Some (WSend NULL, sa) \<and>
     handle_times 1 sample_os 0 (sample_dispatch_sys\<lparr>world := world sa\<rparr>) = Some ([SUBSTANCE_CONNECTOR_SUCCESS], s1) \<and>
     dispatch_steps 3 sample_os 0 DWoken sample_dispatch s1 = Some (DProcess NULL, sample_dispatch, s2) \<and> calls s2 = arrived \<and>
     py_run sample_python sample_os (map Py_message arrived) (sample_py_module\<lparr>py_core := (py_core sample_py_module)\<lparr>sys_part := sample_dispatch_sys\<rparr>\<rparr>) =
       Some ([None], st') \<and>
     si_log (py_interp st') = [(7, [Some (Py_int 0), Some (Py_list [Py_int 1, Py_int 2, Py_int 3, Py_int 4]), Some (Py_str [104, 105])])]"
proof -
  let ?a = "(fresh_connector [] \<lparr>connector_memory_allocate = 0 :: nat, connector_memory_free = 0\<rparr>)\<lparr>
    connector_module_state := SUBSTANCE_CONNECTOR_STATE_INIT_FINISHED, sys_part := sample_dispatch_sys\<rparr>"
  let ?st = "sample_py_module\<lparr>py_core := (py_core sample_py_module)\<lparr>sys_part := sample_dispatch_sys\<rparr>\<rparr>"
  let ?ts = "[(UUID 1 2 3 4, [104, 105, 0])] :: (substance_connector_uuid \<times> u8 list) list"
  have est: "established sample_dispatch_sys 0"
    by (simp add: established_def get_context_def sample_dispatch_sys_def connected_sys_def sample_context_def conn_defs comm_defs
        connection_type_def SUBSTANCE_CONNECTOR_CONTEXT_COUNT_def)
  have q: "wf_queues (queues sample_dispatch_sys)" "outbound_messages (queues sample_dispatch_sys) = []"
    using sample_write_queues by (simp_all add: sample_dispatch_sys_def sample_write_sys_def)
  have e: "world sample_dispatch_sys = []" "calls sample_dispatch_sys = []"
    by (simp_all add: sample_dispatch_sys_def connected_sys_def initial_sys_def)
  have t: "list_all (\<lambda>(type, b). text_ok b) ?ts" by (simp add: text_ok_def)
  have c: "cstr [104, 105, 0 :: u8] = [104, 105]" by (simp add: cstr_def)
  have v: "py_uuid (UUID 1 2 3 4) = Py_list [Py_int 1, Py_int 2, Py_int 3, Py_int 4]" by (simp add: py_uuid_def)
  have dec: "\<forall>(type, b) \<in> set ?ts. decodes sample_python (cstr b)" using sample_decodes(1) [of "[104, 105]"] by (simp add: c)
  have d: "dispatch_shutdown_code sample_dispatch = 0" by (simp add: sample_dispatch_def)
  have r: "ready [python_trampoline] sample_dispatch_sys" using sample_ready(1) by (simp add: python_trampoline_def)
  have m: "py_trampoline ?st = Some 7" "si_log (py_interp ?st) = []" by (simp_all add: sample_py_module_def)
  from python_receives_texts [OF sample_python_counts sample_python_values sample_python_memory sample_socket_link sample_os_allocator _ _ _ _ _ _ t dec
      _ _ _ d m(1), of ?a 0 0 0] est q e r sample_ready(2) m(2)
  show ?thesis by (simp add: c v numeral_3_eq_3 del: handle_times.simps dispatch_steps.simps write_steps.simps py_run.simps write_texts.simps)
qed

text \<open>
  C32: a text that is not UTF-8 brings the Python process down. When Python refuses to decode
  one of the texts another application has sent, the callback goes on with a NULL object
  and releases it, which is a fault, whatever the other texts are.
\<close>

theorem python_faults_on_refused_text:
  assumes "py_trampoline st = Some t" and "(type, b) \<in> set ts" and "refuses P (cstr b)"
  shows "py_run P env (map Py_message (text_calls [python_trampoline] ctx ts)) st = None"
  by (rule refused_among_texts [OF assms])

theorem python_faults_on_refused_text_witness:
  "text_ok [104, 0xFF, 0] \<and> py_run sample_python sample_os
     (map Py_message (text_calls [python_trampoline] 0 [(UUID 1 2 3 4, [104, 0xFF, 0])])) sample_py_module = None"
proof
  have "cstr [104, 0xFF, 0 :: u8] = [104, 0xFF]" by (simp add: cstr_def)
  then have "refuses sample_python (cstr [104, 0xFF, 0])" using sample_decodes(2) [of "0xFF" "[104, 0xFF]"] by simp
  moreover have "py_trampoline sample_py_module = Some 7" by (simp add: sample_py_module_def)
  ultimately show "py_run sample_python sample_os
     (map Py_message (text_calls [python_trampoline] 0 [(UUID 1 2 3 4, [104, 0xFF, 0])])) sample_py_module = None"
    using python_faults_on_refused_text [of sample_py_module 7 "UUID 1 2 3 4" "[104, 0xFF, 0]"] by simp
qed (simp add: text_ok_def)

text \<open>
  C31: the type of a message survives the way through Python. The list made of a type gives
  that type back, whatever the variable that receives it held before; from a list of fewer
  than four numbers the remaining words keep what the uninitialised variable held.
\<close>

theorem python_type_round_trip:
  assumes "reference_counting P refs gil" and "python_values P refs data log" and "python_memory P data"
    and "l \<in># refs p" and "data p l = Some (Py_list [])" and "4 \<le> sizeof_unsigned_long P"
  shows "\<exists>p1. connector_python_split_uuid P u (Some l) p = Some p1 \<and>
      (\<forall>v. \<exists>p2. connector_python_assemble_uuid P (Some l) v p1 = Some (u, p2)) \<and>
    (\<forall>q k ns v. data q k = Some (Py_list (map Py_int ns)) \<longrightarrow> (\<forall>n \<in> set ns. n < 2 ^ 32) \<longrightarrow> length ns < 4 \<longrightarrow>
      (\<exists>w q'. connector_python_assemble_uuid P (Some k) v q = Some (w, q') \<and>
         elements w = map of_nat ns @ drop (length ns) (elements v)))"
proof -
  obtain p1 where p1: "connector_python_split_uuid P u (Some l) p = Some p1" "data p1 l = Some (py_uuid u)"
    using split_uuid_values [OF assms(1-5), of u] by blast
  have "\<exists>p2. connector_python_assemble_uuid P (Some l) v p1 = Some (u, p2)" for v
    by (rule assemble_of_uuid [OF assms(2) p1(2) assms(6)])
  moreover have "\<exists>w q'. connector_python_assemble_uuid P (Some k) v q = Some (w, q') \<and> elements w = map of_nat ns @ drop (length ns) (elements v)"
    if "data q k = Some (Py_list (map Py_int ns))" "\<forall>n \<in> set ns. n < 2 ^ 32" "length ns < 4" for q k ns v
    using assemble_uuid_values [OF assms(2) that(1), of v] words_fit [OF assms(6)] that(2,3) by (auto simp: narrow_of_nat)
  ultimately show ?thesis using p1(1) by blast
qed

theorem python_type_round_trip_witness:
  "\<exists>p p1 p2 q w q'. connector_python_split_uuid sample_python (UUID 1 2 3 4) (Some 1) p = Some p1 \<and>
     connector_python_assemble_uuid sample_python (Some 1) (UUID 9 9 9 9) p1 = Some (UUID 1 2 3 4, p2) \<and>
     si_data q 5 = Some (Py_list [Py_int 6, Py_int 7]) \<and>
     connector_python_assemble_uuid sample_python (Some 5) (UUID 9 9 9 9) q = Some (w, q') \<and> w = UUID 6 7 9 9"
proof -
  let ?p = "\<lparr>si_heap = [(1, Py_list [])], si_refs = {#1#}, si_gil = 0, si_log = []\<rparr>"
  let ?q = "\<lparr>si_heap = [(5, Py_list (map Py_int [6, 7]))], si_refs = {#}, si_gil = 0, si_log = []\<rparr>"
  have p: "1 \<in># si_refs ?p" "si_data ?p 1 = Some (Py_list [])" "4 \<le> sizeof_unsigned_long sample_python"
    by (simp_all add: sample_python_def)
  note r = python_type_round_trip [OF sample_python_counts sample_python_values sample_python_memory p, of "UUID 1 2 3 4"]
  from r obtain p1 p2 where
    "connector_python_split_uuid sample_python (UUID 1 2 3 4) (Some 1) ?p = Some p1"
    "connector_python_assemble_uuid sample_python (Some 1) (UUID 9 9 9 9) p1 = Some (UUID 1 2 3 4, p2)" by blast
  moreover have q: "si_data ?q 5 = Some (Py_list (map Py_int [6, 7]))" "\<forall>n \<in> set [6, 7 :: nat]. n < 2 ^ 32" "length [6, 7 :: nat] < 4"
    by simp_all
  from r q obtain w q' where w: "connector_python_assemble_uuid sample_python (Some 5) (UUID 9 9 9 9) ?q = Some (w, q')"
    "elements w = map of_nat [6, 7] @ drop (length [6, 7 :: nat]) (elements (UUID 9 9 9 9))" by metis
  moreover from w(2) have "w = UUID 6 7 9 9" by (cases w) (simp add: numeral_eq_Suc)
  moreover have "si_data ?q 5 = Some (Py_list [Py_int 6, Py_int 7])" by simp
  ultimately show ?thesis by blast
qed

text \<open>
  The module can be started and stopped with the library. From a clean library \<open>init\<close>
  returns 0 and the callback of the module is the one the library calls; \<open>shutdown\<close> returns 0,
  the function registered from Python is forgotten, and the library is clean again.
\<close>

theorem python_life_cycle:
  assumes "allocator_succeeds env" and "clean (py_core st)" and "parses_name P args"
  shows "\<exists>p1 st1 p2 st2. connector_python_init P env start_dispatch start_readers args st = Some (fst (PyLong_FromUnsignedLong P 0 p1), st1) \<and>
    connector_module_state (py_core st1) = SUBSTANCE_CONNECTOR_STATE_INIT_FINISHED \<and>
    registered (trampolines (sys_part (py_core st1))) [python_trampoline] \<and> py_trampoline st1 = py_trampoline st \<and>
    connector_python_shutdown P env malloc free stop_writers stop_readers stop_dispatch st1 = Some (fst (PyLong_FromUnsignedLong P 0 p2), st2) \<and>
    clean (py_core st2) \<and> py_trampoline st2 = None"
proof -
  obtain p1 st1 where i: "connector_python_init P env start_dispatch start_readers args st = Some (fst (PyLong_FromUnsignedLong P 0 p1), st1)"
    "python_running [python_trampoline] st1" "py_trampoline st1 = py_trampoline st"
    using python_init_runs [OF assms] by blast
  moreover from i(2) have "registered (trampolines (sys_part (py_core st1))) [python_trampoline]" by (simp add: settled_def Let_def)
  ultimately show ?thesis using python_shutdown_ends [OF i(2), of P env malloc free] by blast
qed

theorem python_life_cycle_witness:
  "\<exists>r1 st1 r2 st2. connector_python_init sample_python sample_os start_dispatch start_readers 0 sample_py_module = Some (r1, st1) \<and>
     registered (trampolines (sys_part (py_core st1))) [python_trampoline] \<and>
     connector_python_shutdown sample_python sample_os 0 0 stop_writers stop_readers stop_dispatch st1 = Some (r2, st2) \<and>
     clean (py_core st2) \<and> py_trampoline st2 = None"
proof -
  have "clean (py_core sample_py_module)" by (simp add: sample_py_module_def fresh_connector_clean)
  from python_life_cycle [OF sample_os_allocator this sample_parses, of 0 0 0] show ?thesis by blast
qed

text \<open>
  C33: a second \<open>init\<close> makes every message arrive twice. It returns the error code 1 because the
  library is in session already, but registers the callback once more, so that the library
  then calls it two times for each ordinary message; the two registrations are only removed
  by the shutdown of the library.
\<close>

theorem python_second_init_doubles:
  assumes "allocator_succeeds env" and "clean (py_core st)" and "parses_name P args"
  shows "\<exists>r1 st1 p st2. connector_python_init P env start_dispatch start_readers args st = Some (r1, st1) \<and>
    connector_python_init P env ds cs args st1 = Some (fst (PyLong_FromUnsignedLong P 1 p), st2) \<and>
    (\<forall>ctx type m. connector_notify_trampolines (trampolines (sys_part (py_core st2))) ctx type m =
      Some (SUBSTANCE_CONNECTOR_SUCCESS,
        replicate 2 \<lparr>call_target = python_trampoline, call_context = ctx, call_type = type, call_message = m\<rparr>)) \<and>
    (\<exists>r3 st3. connector_python_shutdown P env malloc free stop_writers stop_readers stop_dispatch st2 = Some (r3, st3) \<and> clean (py_core st3))"
proof -
  obtain r1 st1 where i: "connector_python_init P env start_dispatch start_readers args st = Some (r1, st1)"
    "python_running [python_trampoline] st1" using python_init_runs [OF assms] by blast
  obtain p st2 where j: "connector_python_init P env ds cs args st1 = Some (fst (PyLong_FromUnsignedLong P 1 p), st2)"
    "python_running [python_trampoline, python_trampoline] st2" using python_init_again [OF assms(1) i(2) assms(3), of ds cs] by blast
  have "registered (trampolines (sys_part (py_core st2))) [python_trampoline, python_trampoline]"
    using j(2) by (simp add: settled_def Let_def)
  note n = registered_notify [OF this]
  from python_shutdown_ends [OF j(2), of P env malloc free] i(1) j(1) n show ?thesis
    by (auto simp: numeral_2_eq_2)
qed

theorem python_second_init_doubles_witness:
  "\<exists>r1 st1 r2 st2. connector_python_init sample_python sample_os start_dispatch start_readers 0 sample_py_module = Some (r1, st1) \<and>
     connector_python_init sample_python sample_os [] [] 0 st1 = Some (r2, st2) \<and>
     connector_notify_trampolines (trampolines (sys_part (py_core st2))) 3 (UUID 1 2 3 4) NULL = Some (SUBSTANCE_CONNECTOR_SUCCESS,
       replicate 2 \<lparr>call_target = python_trampoline, call_context = 3, call_type = UUID 1 2 3 4, call_message = NULL\<rparr>)"
proof -
  have "clean (py_core sample_py_module)" by (simp add: sample_py_module_def fresh_connector_clean)
  from python_second_init_doubles [OF sample_os_allocator this sample_parses, of 0 "[]" "[]" 0 0] show ?thesis by blast
qed

text \<open>Writing from Python stores out of bounds where \<^verbatim>\<open>unsigned long\<close> has 8 bytes, whatever the arguments are.\<close>

theorem python_write_out_of_bounds:
  assumes "4 < sizeof_unsigned_long P" and "fst (PyArg_ParseTuple_kOs P args (py_interp st)) \<noteq> None"
  shows "connector_python_write_message P env initial args st = None"
  using assms by (auto simp: connector_python_write_message_def split: prod.splits option.splits)

text \<open>Where it has 4, a list of four words and a text are queued as that message.\<close>

theorem python_write_queues:
  assumes "python_values P refs data log" and "sizeof_unsigned_long P = 4" and "allocator_succeeds env" and "python_running fs st"
    and "PyArg_ParseTuple_kOs P args (py_interp st) = (Some (context, Some l, Some b), p)" and "data p l = Some (py_uuid u)"
    and "0 \<in> set b" and "length b < 2 ^ 64"
  shows "\<exists>p' st'. connector_python_write_message P env initial args st = Some (fst (PyLong_FromUnsignedLong P 0 p'), st') \<and>
    outbound_messages (queues (sys_part (py_core st'))) = [outgoing (ucast context) u b]"
proof -
  obtain p1 where a: "connector_python_assemble_uuid P (Some l) initial p = Some (u, p1)"
    using assemble_of_uuid [OF assms(1,6)] assms(2) by fastforce
  have q: "wf_queues (queues (sys_part (py_core st)))" "outbound_messages (queues (sys_part (py_core st))) = []"
    using assms(4) by (auto simp: settled_def Let_def)
  from write_message_queues [OF _ assms(3) q(1) _ assms(7,8), of "BORROWED b" "ucast context" u] assms(4) q(2) obtain q' w' where
    w: "substance_connector_write_message env (ucast context) (BORROWED u) (BORROWED b) (py_core st) = Some (SUBSTANCE_CONNECTOR_SUCCESS,
        (py_core st)\<lparr>sys_part := signal WakeWrite ((sys_part (py_core st))\<lparr>queues := q', world := w'\<rparr>)\<rparr>)"
      "outbound_messages q' = [outgoing (ucast context) u b]" by auto
  from assms(2,5) a w show ?thesis
    by (intro exI [of _ p1]) (simp add: connector_python_write_message_def py_return_def split: prod.splits)
qed

end
