(* ===== verification/Java_Binding.thy ===== *)
theory Java_Binding
  imports External_Api
begin

text \<open>
  The Java binding of the library (\<^verbatim>\<open>src/core/bindings/java\<close>): three native methods and the
  callback that enters Java. The Java Native Interface is a parameter, a record of the calls
  the binding makes on the state \<open>'j\<close> of the virtual machine; a NULL pointer is \<^term>\<open>None\<close>, and its
  use where the interface takes an object or a class is a fault.
\<close>

section \<open>The native interface\<close>

definition JNI_EDETACHED :: c_int where "JNI_EDETACHED = - 2"

record ('v, 'e, 'c, 'm, 's, 'j) jni =
  GetEnv :: "'v \<Rightarrow> 'j \<Rightarrow> c_int \<times> 'e option \<times> 'j"
  AttachCurrentThread :: "'v \<Rightarrow> 'j \<Rightarrow> 'e option \<times> 'j"
  DetachCurrentThread :: "'v \<Rightarrow> 'j \<Rightarrow> 'j"
  GetStaticMethodID :: "'e \<Rightarrow> 'c \<Rightarrow> string \<Rightarrow> string \<Rightarrow> 'j \<Rightarrow> 'm option \<times> 'j"
  NewStringUTF :: "'e \<Rightarrow> u8 list \<Rightarrow> 'j \<Rightarrow> 's option \<times> 'j"
  CallStaticVoidMethod :: "'e \<Rightarrow> 'c \<Rightarrow> 'm \<Rightarrow> c_int \<Rightarrow> 's option \<Rightarrow> 'j \<Rightarrow> 'j"
  GetStringUTFChars :: "'e \<Rightarrow> 's \<Rightarrow> 'j \<Rightarrow> u8 list option \<times> 'j"
  ReleaseStringUTFChars :: "'e \<Rightarrow> 's \<Rightarrow> u8 list option \<Rightarrow> 'j \<Rightarrow> 'j"
  GetJavaVM :: "'e \<Rightarrow> 'j \<Rightarrow> 'v option \<times> 'j"

section \<open>The binding\<close>

text \<open>The static variables, the virtual machine and the library.\<close>

record ('v, 'c, 'j, 'w, 'f) java_binding =
  jvm :: "'v option"
  connector_class :: "'c option"
  jv_state :: 'j
  jv_core :: "('w, 'f) connector"

definition connector_jv_trampoline ::
    "('v, 'e, 'c, 'm, 's, 'j) jni \<Rightarrow> u32 \<Rightarrow> u8 list cptr \<Rightarrow> ('v, 'c, 'j, 'w, 'f) java_binding \<Rightarrow>
      ('v, 'c, 'j, 'w, 'f) java_binding option" where
  "connector_jv_trampoline J context message b = do {
     vm \<leftarrow> jvm b;
     case GetEnv J vm (jv_state b) of (result, env, j) \<Rightarrow>
       (case (if result = JNI_EDETACHED then AttachCurrentThread J vm j else (env, j)) of (env1, j1) \<Rightarrow> do {
          e \<leftarrow> env1;
          cls \<leftarrow> connector_class b;
          case GetStaticMethodID J e cls ''externalCallback'' ''(I;Ljava/lang/String)V'' j1 of (callback_id, j2) \<Rightarrow> do {
            text \<leftarrow> deref message;
            guard_ok (0 \<in> set text);
            case NewStringUTF J e (cstr text) j2 of (converted_message, j3) \<Rightarrow> do {
              callback \<leftarrow> callback_id;
              let j4 = CallStaticVoidMethod J e cls callback context converted_message j3;
              Some (b\<lparr>jv_state := DetachCurrentThread J vm j4\<rparr>) } } }) }"

text \<open>The number under which the library knows the callback of the binding.\<close>

definition java_trampoline :: nat where
  "java_trampoline = 5"

definition native_version :: "('v, 'e, 'c, 'm, 's, 'j) jni \<Rightarrow> 'e \<Rightarrow> u8 list \<Rightarrow> ('v, 'c, 'j, 'w, 'f) java_binding \<Rightarrow>
      's option \<times> ('v, 'c, 'j, 'w, 'f) java_binding" where
  "native_version J e version b = (case NewStringUTF J e version (jv_state b) of (s, j) \<Rightarrow> (s, b\<lparr>jv_state := j\<rparr>))"

definition native_init ::
    "('v, 'e, 'c, 'm, 's, 'j) jni \<Rightarrow> 'w os \<Rightarrow> 'e \<Rightarrow> 's \<Rightarrow> connector_thread list \<Rightarrow> connector_thread list \<Rightarrow>
      ('v, 'c, 'j, 'w, 'f) java_binding \<Rightarrow> (substance_connector_error \<times> ('v, 'c, 'j, 'w, 'f) java_binding) option" where
  "native_init J env e native_name dsched csched b =
     (case GetStringUTFChars J e native_name (jv_state b) of (name, j) \<Rightarrow>
        case GetJavaVM J e j of (vm, j1) \<Rightarrow> do {
          let b1 = b\<lparr>jvm := vm, jv_state := j1\<rparr>;
          (r, c) \<leftarrow> substance_connector_init env (case name of None \<Rightarrow> NULL | Some x \<Rightarrow> BORROWED x) dsched csched (jv_core b1);
          (_, c') \<leftarrow> substance_connector_add_trampoline env (Some java_trampoline) c;
          Some (r, b1\<lparr>jv_core := c', jv_state := ReleaseStringUTFChars J e native_name None (jv_state b1)\<rparr>) })"

definition native_shutdown ::
    "('v, 'e, 'c, 'm, 's, 'j) jni \<Rightarrow> 'w os \<Rightarrow> 'e \<Rightarrow> 'f \<Rightarrow> 'f \<Rightarrow> connector_thread list \<Rightarrow> connector_thread list \<Rightarrow>
      connector_thread list \<Rightarrow> ('v, 'c, 'j, 'w, 'f) java_binding \<Rightarrow>
      (substance_connector_error \<times> ('v, 'c, 'j, 'w, 'f) java_binding) option" where
  "native_shutdown J env e malloc free wsched rsched dsched b =
     (case GetJavaVM J e (jv_state b) of (vm, j) \<Rightarrow> do {
        let b1 = b\<lparr>jvm := vm, jv_state := j\<rparr>;
        (r, c) \<leftarrow> substance_connector_shutdown env malloc free wsched rsched dsched (jv_core b1);
        Some (r, b1\<lparr>jv_core := c\<rparr>) })"

section \<open>Sequences of calls\<close>

datatype ('e, 's, 'f) java_event =
    Java_version 'e "u8 list"
  | Java_init 'e 's "connector_thread list" "connector_thread list"
  | Java_shutdown 'e 'f 'f "connector_thread list" "connector_thread list" "connector_thread list"
  | Java_message trampoline_call

fun java_step where
  "java_step J env (Java_version e v) b = Some (snd (native_version J e v b))"
| "java_step J env (Java_init e name ds cs) b = map_option snd (native_init J env e name ds cs b)"
| "java_step J env (Java_shutdown e malloc free ws rs ds) b = map_option snd (native_shutdown J env e malloc free ws rs ds b)"
| "java_step J env (Java_message c) b = connector_jv_trampoline J (call_context c) (call_message c) b"

fun java_run where
  "java_run J env [] b = Some b"
| "java_run J env (x # xs) b = Option.bind (java_step J env x b) (java_run J env xs)"

lemma java_step_class:
  assumes "java_step J env x b = Some b'"
  shows "connector_class b' = connector_class b"
proof (cases x)
  case (Java_message c)
  with assms show ?thesis
    by (auto simp: connector_jv_trampoline_def Let_def Option.bind_eq_Some_conv case_prod_unfold)
qed (use assms in \<open>auto simp: native_version_def native_init_def native_shutdown_def Let_def Option.bind_eq_Some_conv split: prod.splits\<close>)

lemma trampoline_without_class: "connector_class b = None \<Longrightarrow> connector_jv_trampoline J context m b = None"
  by (auto simp: connector_jv_trampoline_def split: option_bind_splits prod.splits)

text \<open>
  No message ever reaches Java. The class that holds the callback is never assigned, so that
  whatever methods were called before, the first message that the library hands to the binding is
  a fault.
\<close>

theorem java_messages_fault:
  assumes "connector_class b = None" and "Java_message c \<in> set xs"
  shows "java_run J env xs b = None"
  using assms
proof (induction xs arbitrary: b)
  case (Cons x xs)
  show ?case
  proof (cases "x = Java_message c")
    case True
    then show ?thesis using trampoline_without_class [OF Cons.prems(1), of J] by simp
  next
    case False
    then have "Java_message c \<in> set xs" using Cons.prems(2) by simp
    with Cons.IH java_step_class [of J env x b] Cons.prems(1) show ?thesis by (auto split: option_bind_splits)
  qed
qed simp

text \<open>
  The initialisation itself succeeds from a clean library and registers the callback, so that
  messages do get there.
\<close>

theorem java_init_registers:
  assumes "allocator_succeeds env" and "clean (jv_core b)"
    and "GetStringUTFChars J e name (jv_state b) = (Some n, j)" and "0 \<in> set n" and "length n < 2 ^ 64"
  shows "\<exists>b'. native_init J env e name start_dispatch start_readers b = Some (SUBSTANCE_CONNECTOR_SUCCESS, b') \<and>
    settled [java_trampoline] (jv_core b') \<and> connector_class b' = connector_class b"
proof -
  from init_settles [OF assms(1,2) _ assms(4,5), of "BORROWED n"] obtain c where
    c: "substance_connector_init env (BORROWED n) start_dispatch start_readers (jv_core b) = Some (SUBSTANCE_CONNECTOR_SUCCESS, c)"
      "connector_module_state c = SUBSTANCE_CONNECTOR_STATE_INIT_FINISHED" "settled [] c" by auto
  from add_trampoline_settles [OF assms(1) c(2,3)] obtain c' where
    "substance_connector_add_trampoline env (Some java_trampoline) c = Some (SUBSTANCE_CONNECTOR_SUCCESS, c')" "settled [java_trampoline] c'"
    by blast
  with c(1) assms(3) show ?thesis by (simp add: native_init_def Let_def split: prod.splits)
qed

end
