(* ===== verification/Spec2Isabelle.thy ===== *)
theory Spec2Isabelle
  imports Uint_Queue_Concurrent String_Map Api_Session Qt_Module Platform_Variants Framework_Dynamic Python_Session Java_Binding
begin

text \<open>
  Verification of the Substance Connector: the core library (the C code of \<^verbatim>\<open>src/core/src\<close> and the
  declarations of \<^verbatim>\<open>src/core/include/substance/connector\<close>, POSIX branches and the sockets of Windows),
  the C++ framework and the Qt module above it (\<^verbatim>\<open>src/module-cpp\<close>, \<^verbatim>\<open>src/module-qt\<close>), and the Python
  module and the Java binding (\<^verbatim>\<open>src/module-python\<close>, \<^verbatim>\<open>src/core/bindings/java\<close>).

  \<^bold>\<open>The program.\<close> The library connects applications on one machine. An application initialises
  it, registers callbacks, opens or connects contexts and writes texts with a 128-bit type.
  A written text goes to the outbound queue; a write thread frames it and sends it on the
  socket of its context. Read threads share the contexts among themselves, poll them, accept
  new connections and put the messages they read on the inbound queue. Dispatch threads take
  messages from there and either answer internal ones (the handshake) or call the callbacks.
  Two threads of each kind run during a session. Open TCP ports are announced as files of a
  directory, from which other instances find them. The framework registers one callback with
  the library and hands each message to the callbacks that its application objects bound to the
  type; the system object answers a new connection with a JSON text that names the
  application, its version and its features, and the features send assets and
  configurations as JSON texts.

  \<^bold>\<open>Layers and theories.\<close>
  \<^item> Vocabulary. \<^verbatim>\<open>Connector_Prelude\<close>: integer types, error codes (\<^verbatim>\<open>errorcodes.h\<close>), pointers as
    \<open>NULL\<close>, owned or borrowed values, the compare-and-exchange of \<^verbatim>\<open>atomic.h\<close>. \<^verbatim>\<open>Os_Interface\<close>: the
    system calls and the allocator as a record \<open>os\<close> of functions over the state \<open>'w\<close> of the outside world.
  \<^item> Data structures. \<^verbatim>\<open>Uint_Queue\<close> and \<^verbatim>\<open>Uint_Queue_Concurrent\<close> (\<^verbatim>\<open>uint_queue.c\<close>), \<^verbatim>\<open>Linked_List\<close>,
    \<^verbatim>\<open>Locked_Queue\<close> (\<^verbatim>\<open>locked_queue.c\<close>), \<^verbatim>\<open>String_Utils\<close>, \<^verbatim>\<open>Uuid_Utils\<close>, \<^verbatim>\<open>String_Map\<close>, \<^verbatim>\<open>Message\<close>
    (\<^verbatim>\<open>message.c\<close>, headers and byte order of \<^verbatim>\<open>connection_utils.c\<close>), \<^verbatim>\<open>Context_Struct\<close>.
  \<^item> System. \<^verbatim>\<open>Path_Utils\<close>, \<^verbatim>\<open>File_Utils\<close>, \<^verbatim>\<open>Connection_Directory\<close> (\<^verbatim>\<open>details/system\<close>), \<^verbatim>\<open>Configuration\<close>
    (\<^verbatim>\<open>configuration.c\<close> and the installed allocators of \<^verbatim>\<open>memory.c\<close>).
  \<^item> Network. \<^verbatim>\<open>Read_Write_Utils\<close> (\<^verbatim>\<open>readwriteutils.c\<close>), \<^verbatim>\<open>Connection\<close> (\<^verbatim>\<open>connection.c\<close>,
    \<^verbatim>\<open>connection_unix.c\<close>, \<^verbatim>\<open>openconnectionimpl.c\<close>, polling), \<^verbatim>\<open>Autoconnect\<close> (\<^verbatim>\<open>autoconnect.c\<close>).
  \<^item> Modules. \<^verbatim>\<open>Message_Queue\<close>, \<^verbatim>\<open>Callbacks\<close>, \<^verbatim>\<open>Available_Queue\<close>, \<^verbatim>\<open>System_State\<close> (the static variables
    as one record \<open>sys\<close>), \<^verbatim>\<open>Context_Queue\<close> and \<^verbatim>\<open>Context_Ownership\<close> (\<^verbatim>\<open>context_queue.c\<close>),
    \<^verbatim>\<open>Internal_Messages\<close>, \<^verbatim>\<open>Session\<close> (reading and writing on an established context).
  \<^item> Threads. \<^verbatim>\<open>Scheduling\<close> (runs of a family of threads), \<^verbatim>\<open>Dispatch\<close> (\<^verbatim>\<open>dispatch.c\<close>), \<^verbatim>\<open>Read_Struct\<close>
    and \<^verbatim>\<open>Read_Thread\<close> (\<^verbatim>\<open>readstructimpl.c\<close>, \<^verbatim>\<open>readthreadimpl.c\<close>, \<^verbatim>\<open>read_threads.c\<close>), \<^verbatim>\<open>Write_Thread\<close>
    (\<^verbatim>\<open>write_threads.c\<close>), \<^verbatim>\<open>Communication\<close> (\<^verbatim>\<open>communication.c\<close>; the record \<open>connector\<close> of the whole
    library with its six threads).
  \<^item> Interface. \<^verbatim>\<open>External_Api\<close> (\<^verbatim>\<open>external_api.c\<close>, \<^verbatim>\<open>state.c\<close>), \<^verbatim>\<open>Api_Session\<close> (sequences of calls against a
    specification), \<^verbatim>\<open>End_To_End\<close> (the way of a message), and this theory.
  \<^item> Framework (\<^verbatim>\<open>src/module-cpp/src/framework\<close>). \<^verbatim>\<open>Framework_Uuid\<close> (\<^verbatim>\<open>uuid.cpp\<close>), \<^verbatim>\<open>Framework_Json\<close> (the JSON
    library the sources only call, as a record of functions with laws), \<^verbatim>\<open>Framework_Schemas\<close>
    (\<^verbatim>\<open>schemas\<close>), \<^verbatim>\<open>Framework_Callbacks\<close> (\<^verbatim>\<open>details/callbacks.cpp\<close>), \<^verbatim>\<open>Framework_Application\<close>
    (\<^verbatim>\<open>application.cpp\<close>, \<^verbatim>\<open>system.cpp\<close>, \<^verbatim>\<open>features\<close>), \<^verbatim>\<open>Framework_Core\<close> (\<^verbatim>\<open>core.cpp\<close>; the record \<open>framework\<close>
    of its static variables, its objects by address and the library) and \<^verbatim>\<open>Framework_Session\<close>.
  \<^item> Qt module (\<^verbatim>\<open>src/module-qt/src\<close>). \<^verbatim>\<open>Qt_Module\<close>: the objects that own an application of the framework,
    their signals, and the module object; the record \<open>qt_module\<close> holds the active objects and the framework.
  \<^item> Python module (\<^verbatim>\<open>src/module-python/src\<close>). \<^verbatim>\<open>Python_Module\<close>: the CPython interface as a record of
    functions, the callback and the methods, over the record \<open>py_module\<close> of the registered function,
    the interpreter and the library. \<^verbatim>\<open>Python_Session\<close>: values, sequences of calls, sessions.
    \<^verbatim>\<open>Java_Binding\<close>: the native methods and the callback of \<^verbatim>\<open>src/core/bindings/java\<close>, in the same way.
  \<^item> Other builds. \<^verbatim>\<open>Platform_Variants\<close>: the sockets of Windows (\<^verbatim>\<open>connection_windows.c\<close>) and the polling
    with select (\<^verbatim>\<open>connection_utils.c\<close>). \<^verbatim>\<open>Framework_Dynamic\<close>: the framework that calls the library
    through its function table (\<^verbatim>\<open>dynamicload.cpp\<close>).

  \<^bold>\<open>Conventions.\<close> Definitions carry the names of the C functions. Return codes and out
  parameters are components of the result. \<open>None\<close> is a fault (an access through a null or
  released pointer, outside an array, a release of a borrowed pointer) or a loop that does
  not end; a theorem that a call returns states \<open>Some\<close>. Machine integers keep their width. A
  critical section is one transition, because every access to the data it guards is under
  the same lock; the integer queue, which has no lock, is stepped at every access of shared
  memory. A thread is a program counter over the points where it tests the shutdown flag,
  takes a lock, waits or polls; a call that joins threads takes the schedule of the other
  threads as an argument and returns \<open>None\<close> when the schedule does not bring them to their end. The
  calls of callbacks and the condition signals are histories of the state.

  \<^bold>\<open>Interfaces.\<close> \<open>bounded_fifo\<close> is the contract of a bounded queue of indices, met by the integer
  queue (\<open>uq\<close>) and by the queue of waiting contexts (\<open>aq\<close>); \<open>framed_fifo\<close> is that of a queue
  that leaves its sibling alone, met by both message queues (\<open>inq\<close>, \<open>outq\<close>);
  \<open>context_protocol\<close> says what an operation may change in a context, met by the three rows of the
  connection tables (\<open>tcp\<close>, \<open>unix\<close>, \<open>unsupported\<close>) and those of Windows (\<open>windows_tcp\<close>, \<open>windows_unix\<close>); \<open>thread_family\<close> is an invariant of one thread's step,
  met by the dispatch and the write threads (\<open>dispatchers\<close>, \<open>writers\<close>); \<open>callback_table\<close> is the table
  of callbacks of the framework, met by its map (\<open>cb\<close>).

  \<^bold>\<open>What is shown.\<close>
  \<^item> Data structures refine lists, sequentially and, for the integer queue, under every
    interleaving, where no element is lost or duplicated and a thread only ever waits for
    another one; builders and clearers of messages, listings and paths release what they took.
  \<^item> A header is laid out in network order; a stream of messages sent over a reliable link is
    read back unchanged.
  \<^item> Each of the 32 contexts has exactly one owner along every sequence of operations and
    under every interleaving of the read threads with application calls; descriptors do not leak.
  \<^item> Dispatch and write threads neither lose nor repeat a message under any interleaving,
    and every kind of thread ends within a stated number of its steps once told to stop.
  \<^item> The handshake is sent once and answered; discovery inverts the announcement of a port.
  \<^item> A session can be started, stopped and started again, the interface does nothing outside
    one, calls made during it keep it well formed and act as specified, and a text written by
    one application reaches all callbacks of another, in order.
  \<^item> The framework can be started and stopped, calls exactly the callbacks bound to a type and
    announces the features of exactly its applications; identifiers and schemas survive
    their conversion to text, and two applications that use the framework learn each other's
    names, version and features and receive the assets that are sent. In the Qt module every
    message becomes the signal of its type. The framework that loads the library behaves as the
    linked one.
  \<^item> The Python module keeps its references to Python objects balanced over every sequence of
    calls, can be started and stopped, and hands the texts of another application to the
    registered function with their context and type.
  \<^item> Frames below 2 GiB are the same on Windows.
  \<^item> Where the code does not do what it means to, the behaviour is a theorem as well: the
    wrap-around of the integer queue, the exhausted pool, the path kept after a failed
    connect, the wrapping read length, the error code of a poll, the overlapping shutdown, the
    framework that a failed initialisation locks, the list of formats that cannot be read, the
    Qt object that is destroyed while it is registered, the text Python cannot decode, the second
    initialisation of the Python module, the store out of bounds when Python writes, the select
    that never reports an event, the function table that was not found, the Java class that is
    never assigned.

  \<^bold>\<open>Bounds.\<close> The free-running counters of the integer queues are 32 bits wide and the
  sizes do not divide \<open>2 ^ 32\<close>, so the ownership theorems assume that the counters do not wrap:
  \<open>pushes_left\<close> is the number of pushes until then, and a step of a read thread makes at
  most 34 (two cleanups of 17 slots). Step counts of threads are exact bounds, not fuel: a thread that
  has ended stays where it is.

  \<^bold>\<open>Hypotheses on the outside.\<close> \<open>allocator_succeeds\<close>: allocations succeed. \<open>socket_link\<close>: a send
  appends all its bytes to a link and a receive takes as many as asked for (partial
  transfers are outside these theorems). \<open>poll_in_place\<close>: a poll fills in its array.
  \<open>announce_succeeds\<close>: the file of a port can be created. \<open>json_laws\<close>: a JSON value returns the
  members and elements put into it. \<open>reads_back\<close>: the text written for a value is parsed to that
  value. \<open>reference_counting\<close>, \<open>python_values\<close>, \<open>python_memory\<close>: the ownership rules of the CPython
  interface, the values of the objects it makes, and that memory is available. \<open>same_stream\<close>: the socket
  calls of the two platforms agree on lengths of 31 bits. Each holds of a concrete system, library
  or interpreter that the witnesses use.

  \<^bold>\<open>Not modelled.\<close> The wrappers of the thread libraries (\<^verbatim>\<open>thread_unix.c\<close>, \<^verbatim>\<open>thread_windows.c\<close>), whose
  blocking points are the program counters above; the wide-character branches of the file
  utilities and of the connection directory on Windows, which \<^verbatim>\<open>Platform_Variants\<close> takes as
  parameters; the shared-memory declarations in \<^verbatim>\<open>memory.c\<close>, which nothing calls; calls that a
  Python function makes into the module while it is being called; the command line tool, and the
  Ruby, Tcl, QML, Haskell and Lisp bindings, glue of foreign runtimes that is written against an
  earlier interface (an initialisation without a name). The
  callbacks of applications are recorded as calls; what they do is not part of the program.
  Condition variables are modelled as points at which a thread may be woken at any time, so
  a theorem about a woken thread says nothing of when the signal comes.
\<close>

section \<open>From application to application\<close>

text \<open>
  C2: texts sent by one application reach the callbacks of another, complete, once and in
  order. The sender is in session with an empty outbound queue and an established context,
  the receiver has an established context, the callbacks \<open>fs\<close> and an empty inbound queue, and
  the link between them is reliable. When the sender's application has written any sequence
  of texts, its woken write thread has sent the queue, the receiver's read thread has
  handled as many readable events and a woken dispatch thread has run, every callback has been
  called for every text, in the order of the calls of the sender, with the type and the
  text that were sent and the index of the receiver's context; every call on the way
  reports success.
\<close>

theorem texts_arrive_in_order:
  assumes "socket_link env pending" and "allocator_succeeds env"
    and "connector_module_state a = SUBSTANCE_CONNECTOR_STATE_INIT_FINISHED" and "wf_queues (queues (sys_part a))"
    and "outbound_messages (queues (sys_part a)) = []" and "established (sys_part a) ctx" and "pending (world (sys_part a)) = []"
    and "ts \<noteq> []" and "list_all (\<lambda>(type, b). text_ok b) ts"
    and "established s ctx'" and "ready fs s" and "inbound_messages (queues s) = []" and "dispatch_shutdown_code d = 0"
  shows "\<exists>a' sa s1 s2. write_texts env ctx ts a = Some (map (\<lambda>_. SUBSTANCE_CONNECTOR_SUCCESS) ts, a') \<and>
    write_steps (length ts + 2) env WWoken 0 (sys_part a') = Some (WSend NULL, sa) \<and>
    handle_times (length ts) env ctx' (s\<lparr>world := world sa\<rparr>) = Some (map (\<lambda>_. SUBSTANCE_CONNECTOR_SUCCESS) ts, s1) \<and>
    dispatch_steps (length ts + 2) env i DWoken d s1 = Some (DProcess NULL, d, s2) \<and>
    calls s2 = calls s @ concat (map (\<lambda>(type, b). map (\<lambda>f. \<lparr>call_target = f, call_context = ctx', call_type = type,
      call_message = OWNED (c_string (cstr b))\<rparr>) fs) ts)"
  using written_texts_arrive [OF assms] unfolding text_calls_def .

theorem texts_arrive_in_order_witness:
  "\<exists>a' sa s1 s2. write_texts sample_os 0 [(UUID 1 2 3 4, [104, 105, 0]), (UUID 5 6 7 8, [120, 0])]
       ((fresh_connector [] \<lparr>connector_memory_allocate = 0 :: nat, connector_memory_free = 0\<rparr>)\<lparr>
         connector_module_state := SUBSTANCE_CONNECTOR_STATE_INIT_FINISHED, sys_part := sample_dispatch_sys\<rparr>)
       = Some ([SUBSTANCE_CONNECTOR_SUCCESS, SUBSTANCE_CONNECTOR_SUCCESS], a') \<and>
     write_steps 4 sample_os WWoken 0 (sys_part a') = Some (WSend NULL, sa) \<and>
     handle_times 2 sample_os 0 (sample_dispatch_sys\<lparr>world := world sa\<rparr>) =
       Some ([SUBSTANCE_CONNECTOR_SUCCESS, SUBSTANCE_CONNECTOR_SUCCESS], s1) \<and>
     dispatch_steps 4 sample_os 0 DWoken sample_dispatch s1 = Some (DProcess NULL, sample_dispatch, s2) \<and>
     calls s2 = [\<lparr>call_target = 5, call_context = 0, call_type = UUID 1 2 3 4, call_message = OWNED [104, 105, 0]\<rparr>,
       \<lparr>call_target = 5, call_context = 0, call_type = UUID 5 6 7 8, call_message = OWNED [120, 0]\<rparr>]"
proof -
  let ?a = "(fresh_connector [] \<lparr>connector_memory_allocate = 0 :: nat, connector_memory_free = 0\<rparr>)\<lparr>
    connector_module_state := SUBSTANCE_CONNECTOR_STATE_INIT_FINISHED, sys_part := sample_dispatch_sys\<rparr>"
  let ?ts = "[(UUID 1 2 3 4, [104, 105, 0]), (UUID 5 6 7 8, [120, 0])] :: (substance_connector_uuid \<times> u8 list) list"
  have est: "established sample_dispatch_sys 0"
    by (simp add: established_def get_context_def sample_dispatch_sys_def connected_sys_def sample_context_def conn_defs comm_defs
        connection_type_def SUBSTANCE_CONNECTOR_CONTEXT_COUNT_def)
  have q: "wf_queues (queues sample_dispatch_sys)" "outbound_messages (queues sample_dispatch_sys) = []"
    using sample_write_queues by (simp_all add: sample_dispatch_sys_def sample_write_sys_def)
  have e: "world sample_dispatch_sys = []" "calls sample_dispatch_sys = []"
    by (simp_all add: sample_dispatch_sys_def connected_sys_def initial_sys_def)
  have t: "list_all (\<lambda>(type, b). text_ok b) ?ts" by (simp add: text_ok_def)
  have c: "cstr [104, 105, 0 :: u8] = [104, 105]" "cstr [120, 0 :: u8] = [120]" by (simp_all add: cstr_def)
  have d: "dispatch_shutdown_code sample_dispatch = 0" by (simp add: sample_dispatch_def)
  from texts_arrive_in_order [OF sample_socket_link sample_os_allocator _ _ _ _ _ _ t est sample_ready d, of ?a 0 0] est q e
  show ?thesis by (simp add: c c_string_def numeral_eq_Suc)
qed

end
